(* ===== verification/Rust_Data.thy ===== *)
theory Rust_Data
  imports Rust_Text "HOL-Library.Word" "HOL-Library.AList"
begin

text \<open>
  Data the code takes from the standard library and from \<open>serde_json\<close>: JSON values with their
  accessors, saturating and checked machine integers, \<open>BTreeMap\<close> (an association list in strictly
  ascending key order, which is also its iteration order) and \<open>HashMap\<close> (an association list with
  distinct keys, whose order stands for the unspecified iteration order). Two interfaces are stated
  as locales and used by every stateful component: \<open>kv_store\<close>, what a map promises its client, and
  \<open>invariant_machine\<close> with its extension \<open>simulation\<close>, what a step function promises of whole runs.
\<close>

named_theorems json_simps "accessors of JSON values"

type_synonym u8 = "8 word"
type_synonym u16 = "16 word"
type_synonym u32 = "32 word"
type_synonym u64 = "64 word"
type_synonym usize = "64 word"
type_synonym i64 = int

section \<open>JSON values\<close>

text \<open>
  \<open>serde_json::Value\<close>. A number is a non-negative 64-bit integer, a negative one, or a float, kept
  as its bit pattern. An object keeps its members as pairs with distinct keys.
\<close>

datatype jnumber = PosInt u64 | NegInt int | JFloat u64

datatype json =
    JNull
  | JBool bool
  | JNumber jnumber
  | JString string
  | JArray "json list"
  | JObject "(string \<times> json) list"

definition jget :: "json \<Rightarrow> string \<Rightarrow> json option" where
  "jget v k = (case v of JObject m \<Rightarrow> map_of m k | _ \<Rightarrow> None)"

definition as_str :: "json \<Rightarrow> string option" where
  "as_str v = (case v of JString s \<Rightarrow> Some s | _ \<Rightarrow> None)"

definition as_bool :: "json \<Rightarrow> bool option" where
  "as_bool v = (case v of JBool b \<Rightarrow> Some b | _ \<Rightarrow> None)"

definition as_array :: "json \<Rightarrow> json list option" where
  "as_array v = (case v of JArray xs \<Rightarrow> Some xs | _ \<Rightarrow> None)"

definition as_object :: "json \<Rightarrow> (string \<times> json) list option" where
  "as_object v = (case v of JObject m \<Rightarrow> Some m | _ \<Rightarrow> None)"

definition as_u64 :: "json \<Rightarrow> u64 option" where
  "as_u64 v = (case v of JNumber (PosInt n) \<Rightarrow> Some n | _ \<Rightarrow> None)"

text \<open>\<open>as_i64\<close> of a non-negative number is refused above the largest signed value.\<close>

definition as_i64 :: "json \<Rightarrow> i64 option" where
  "as_i64 v =
     (case v of
        JNumber (PosInt n) \<Rightarrow> if uint n < 2 ^ 63 then Some (uint n) else None
      | JNumber (NegInt i) \<Rightarrow> Some i
      | _ \<Rightarrow> None)"

definition get_str :: "json \<Rightarrow> string \<Rightarrow> string option" where
  "get_str v k = Option.bind (jget v k) as_str"

definition has_key :: "json \<Rightarrow> string \<Rightarrow> bool" where
  "has_key v k \<longleftrightarrow> jget v k \<noteq> None"

lemmas [json_simps] =
  jget_def as_str_def as_bool_def as_array_def as_object_def as_u64_def as_i64_def get_str_def
  has_key_def

text \<open>\<open>unwrap_or\<close> and \<open>or_else\<close> of an option.\<close>

definition unwrap_or :: "'a \<Rightarrow> 'a option \<Rightarrow> 'a" where
  "unwrap_or d x = (case x of None \<Rightarrow> d | Some y \<Rightarrow> y)"

definition or_else :: "'a option \<Rightarrow> 'a option \<Rightarrow> 'a option" where
  "or_else x y = (case x of None \<Rightarrow> y | Some z \<Rightarrow> Some z)"

definition opt_filter :: "('a \<Rightarrow> bool) \<Rightarrow> 'a option \<Rightarrow> 'a option" where
  "opt_filter p x = (case x of None \<Rightarrow> None | Some y \<Rightarrow> if p y then Some y else None)"

text \<open>\<open>get\<close> of a slice.\<close>

definition nth_opt :: "'a list \<Rightarrow> nat \<Rightarrow> 'a option" where
  "nth_opt xs i = (if i < length xs then Some (xs ! i) else None)"

lemma unwrap_or_simps [simp]: "unwrap_or d None = d" "unwrap_or d (Some x) = x"
  by (simp_all add: unwrap_or_def)

lemma or_else_simps [simp]: "or_else None y = y" "or_else (Some x) y = Some x"
  by (simp_all add: or_else_def)

lemma or_else_None_iff [simp]: "or_else x y = None \<longleftrightarrow> x = None \<and> y = None"
  by (cases x) simp_all

lemma opt_filter_simps [simp]:
  "opt_filter p None = None" "opt_filter p (Some x) = (if p x then Some x else None)"
  by (simp_all add: opt_filter_def)

lemma opt_filter_eq_Some [simp]: "opt_filter p x = Some y \<longleftrightarrow> x = Some y \<and> p y"
  by (cases x) auto

section \<open>Machine integers\<close>

definition saturating_succ :: "usize \<Rightarrow> usize" where
  "saturating_succ n = (if n = - 1 then n else n + 1)"

text \<open>\<open>u16::try_from(n).unwrap_or(u16::MAX)\<close>.\<close>

definition clamp_u16 :: "nat \<Rightarrow> u16" where
  "clamp_u16 n = (if n < 2 ^ 16 then of_nat n else - 1)"

lemma unat_clamp_u16: "unat (clamp_u16 n) = min n (2 ^ 16 - 1)"
proof (cases "n < 2 ^ 16")
  case True
  then show ?thesis by (simp add: clamp_u16_def unat_of_nat)
next
  case False
  then show ?thesis by (simp add: clamp_u16_def unsigned_minus_1_eq_mask mask_eq_exp_minus_1)
qed

text \<open>
  \<open>str::parse\<close> for an unsigned type with largest value \<open>mx\<close>: an optional plus sign and then
  digits only, refused above the largest value.
\<close>

definition digit_val :: "char \<Rightarrow> nat" where
  "digit_val c = of_char c - 48"

definition dec_val :: "string \<Rightarrow> nat" where
  "dec_val ds = foldl (\<lambda>n c. 10 * n + digit_val c) 0 ds"

definition parse_uint :: "nat \<Rightarrow> string \<Rightarrow> nat option" where
  "parse_uint mx s =
     (let ds = (if starts_with ''+'' s then tl s else s)
      in if ds \<noteq> [] \<and> list_all is_ascii_digit ds \<and> dec_val ds \<le> mx
         then Some (dec_val ds) else None)"

definition parse_u64 :: "string \<Rightarrow> u64 option" where
  "parse_u64 s = map_option of_nat (parse_uint (2 ^ 64 - 1) s)"

text \<open>\<open>str::parse::<i64>\<close>, and the decimal text of a signed number.\<close>

definition parse_i64 :: "string \<Rightarrow> i64 option" where
  "parse_i64 s =
     (if starts_with ''-'' s
      then if starts_with ''+'' (tl s) then None
           else map_option (\<lambda>n. - int n) (parse_uint (2 ^ 63) (tl s))
      else map_option int (parse_uint (2 ^ 63 - 1) s))"

definition dec_int :: "int \<Rightarrow> string" where
  "dec_int i = (if i < 0 then ''-'' @ dec (nat (- i)) else dec (nat i))"

text \<open>Signed 64-bit addition wraps around in a release build.\<close>

definition wrap_i64 :: "int \<Rightarrow> int" where
  "wrap_i64 i = (i + 2 ^ 63) mod 2 ^ 64 - 2 ^ 63"

lemma digit_val_char: "d < 10 \<Longrightarrow> digit_val (digit_char d) = d"
  by (simp add: digit_val_def digit_char_def)

lemma dec_val_snoc: "dec_val (ds @ [c]) = 10 * dec_val ds + digit_val c"
  by (simp add: dec_val_def)

lemma dec_val_dec [simp]: "dec_val (dec n) = n"
proof (induction n rule: dec.induct)
  case (1 n)
  show ?case
  proof (cases "n < 10")
    case True
    then show ?thesis by (simp add: dec.simps [of n] dec_val_def digit_val_char)
  next
    case False
    have "dec_val (dec n) = 10 * (n div 10) + n mod 10"
      by (subst dec.simps) (simp add: False dec_val_snoc digit_val_char "1.IH" [OF False])
    then show ?thesis by presburger
  qed
qed

lemma dec_all_digits: "list_all is_ascii_digit (dec n)"
  by (simp add: list_all_iff dec_digits)

lemma not_plus_digits: "list_all is_ascii_digit ds \<Longrightarrow> \<not> starts_with ''+'' ds"
  by (cases ds) (auto simp: is_ascii_digit_def)

lemma parse_uint_dec: "n \<le> mx \<Longrightarrow> parse_uint mx (dec n) = Some n"
  by (simp only: parse_uint_def Let_def not_plus_digits [OF dec_all_digits] dec_all_digits
      dec_val_dec dec_nonempty if_False simp_thms if_True)

lemma parse_uint_bound: "parse_uint mx s = Some n \<Longrightarrow> n \<le> mx"
  by (auto simp: parse_uint_def Let_def split: if_splits)

lemma dec_length_le: "n < 10 ^ Suc k \<Longrightarrow> length (dec n) \<le> Suc k"
proof (induction k arbitrary: n)
  case 0
  then show ?case by (simp add: dec.simps [of n])
next
  case (Suc k)
  show ?case
  proof (cases "n < 10")
    case True
    then show ?thesis by (simp add: dec.simps [of n])
  next
    case False
    from Suc.prems have "n div 10 < 10 ^ Suc k" by (simp add: less_mult_imp_div_less)
    from Suc.IH [OF this] False show ?thesis by (simp add: dec.simps [of n])
  qed
qed

section \<open>Maps\<close>

text \<open>What a map promises: lookups after an insertion and after a removal, over its valid states.\<close>

locale kv_store =
  fixes empty :: "'m"
    and get :: "'m \<Rightarrow> 'k \<Rightarrow> 'v option"
    and put :: "'k \<Rightarrow> 'v \<Rightarrow> 'm \<Rightarrow> 'm"
    and del :: "'k \<Rightarrow> 'm \<Rightarrow> 'm"
    and ok :: "'m \<Rightarrow> bool"
  assumes ok_empty: "ok empty"
    and get_empty: "get empty k = None"
    and ok_put: "ok m \<Longrightarrow> ok (put k v m)"
    and get_put: "ok m \<Longrightarrow> get (put k v m) = (get m)(k \<mapsto> v)"
    and ok_del: "ok m \<Longrightarrow> ok (del k m)"
    and get_del: "ok m \<Longrightarrow> get (del k m) = (get m)(k := None)"
begin

lemma ok_del_all: "ok m \<Longrightarrow> ok (fold del ks m)"
  by (induction ks arbitrary: m) (auto simp: ok_del)

lemma get_del_all: "ok m \<Longrightarrow> get (fold del ks m) k = (if k \<in> set ks then None else get m k)"
  by (induction ks arbitrary: m) (auto simp: get_del ok_del)

lemma get_put_del: "ok m \<Longrightarrow> get (del k (put k v m)) = (get m)(k := None)"
  by (simp add: get_del get_put ok_put)

lemma get_del_put: "ok m \<Longrightarrow> get (put k v (del k m)) = (get m)(k \<mapsto> v)"
  by (simp add: get_del get_put ok_del)

end

subsection \<open>\<open>BTreeMap\<close>\<close>

fun bt_put :: "'k::linorder \<Rightarrow> 'v \<Rightarrow> ('k \<times> 'v) list \<Rightarrow> ('k \<times> 'v) list" where
  "bt_put k v [] = [(k, v)]"
| "bt_put k v ((a, b) # m) =
     (if k < a then (k, v) # (a, b) # m
      else if k = a then (k, v) # m
      else (a, b) # bt_put k v m)"

definition bt_del :: "'k \<Rightarrow> ('k \<times> 'v) list \<Rightarrow> ('k \<times> 'v) list" where
  "bt_del k m = filter (\<lambda>(a, _). a \<noteq> k) m"

definition bt_ok :: "('k::linorder \<times> 'v) list \<Rightarrow> bool" where
  "bt_ok m \<longleftrightarrow> sorted_wrt (<) (map fst m)"

lemma keys_bt_put: "fst ` set (bt_put k v m) = insert k (fst ` set m)"
  by (induction k v m rule: bt_put.induct) auto

lemma bt_ok_put: "bt_ok m \<Longrightarrow> bt_ok (bt_put k v m)"
proof (induction k v m rule: bt_put.induct)
  case (1 k v)
  then show ?case by (simp add: bt_ok_def)
next
  case (2 k v a b m)
  then have IH: "\<not> k < a \<Longrightarrow> k \<noteq> a \<Longrightarrow> bt_ok (bt_put k v m)"
    and lt: "\<forall>x \<in> fst ` set m. a < x" and m: "bt_ok m"
    by (auto simp: bt_ok_def)
  have "\<not> k < a \<Longrightarrow> k \<noteq> a \<Longrightarrow> \<forall>x \<in> fst ` set (bt_put k v m). a < x"
    using lt by (auto simp: keys_bt_put)
  then show ?case
    using IH lt m by (fastforce simp: bt_ok_def)
qed

lemma bt_ok_del: "bt_ok m \<Longrightarrow> bt_ok (bt_del k m)"
  by (auto simp: bt_ok_def bt_del_def sorted_wrt_map sorted_wrt_filter)

lemma map_of_bt_put: "map_of (bt_put k v m) = (map_of m)(k \<mapsto> v)"
  by (induction k v m rule: bt_put.induct) (auto simp: fun_eq_iff)

lemma map_of_filter_neq: "map_of (filter (\<lambda>(a, _). a \<noteq> k) m) = (map_of m)(k := None)"
  by (induction m) (auto simp: fun_eq_iff)

lemma map_of_bt_del: "map_of (bt_del k m) = (map_of m)(k := None)"
  by (simp add: bt_del_def map_of_filter_neq)

interpretation bt: kv_store "[]" map_of bt_put bt_del bt_ok
  by unfold_locales
     (simp_all add: bt_ok_put bt_ok_del map_of_bt_put map_of_bt_del, simp add: bt_ok_def)

text \<open>Two ordered association lists with the same lookups are the same list.\<close>

lemma bt_ok_Cons: "bt_ok ((k, v) # m) \<longleftrightarrow> bt_ok m \<and> (\<forall>a \<in> fst ` set m. k < a)"
  by (auto simp: bt_ok_def)

lemma bt_ok_distinct: "bt_ok m \<Longrightarrow> distinct (map fst m)"
  by (auto simp: bt_ok_def strict_sorted_iff)

lemma bt_ext: "bt_ok m \<Longrightarrow> bt_ok n \<Longrightarrow> map_of m = map_of n \<Longrightarrow> m = n"
proof -
  assume m: "bt_ok m" and n: "bt_ok n" and eq: "map_of m = map_of n"
  have "fst ` set m = fst ` set n"
    using eq by (metis dom_map_of_conv_image_fst)
  then have "map fst m = map fst n"
    using m n by (intro strict_sorted_equal) (auto simp: bt_ok_def)
  with m n eq show "m = n"
  proof (induction m arbitrary: n)
    case Nil
    then show ?case by simp
  next
    case (Cons x m)
    then obtain y n' where n: "n = y # n'" by (cases n) auto
    obtain k v w where x: "x = (k, v)" and y: "y = (k, w)"
      using Cons.prems n by (cases x; cases y) auto
    have v: "v = w" using Cons.prems(3) n x y by (metis map_of_Cons_code(2) option.inject)
    have k: "map_of m k = None" "map_of n' k = None"
      using Cons.prems(1,2) n x y by (auto simp: bt_ok_Cons map_of_eq_None_iff)
    have "map_of m = map_of n'"
    proof
      fix a
      show "map_of m a = map_of n' a"
        using Cons.prems(3) n x y k by (cases "a = k") (auto dest: fun_cong [of _ _ a])
    qed
    with Cons n x y v show ?case by (auto simp: bt_ok_Cons)
  qed
qed

subsection \<open>\<open>HashMap\<close>\<close>

definition hm_ok :: "('k \<times> 'v) list \<Rightarrow> bool" where
  "hm_ok m \<longleftrightarrow> distinct (map fst m)"

interpretation hm: kv_store "[]" map_of AList.update AList.delete hm_ok
  by unfold_locales
     (simp_all add: hm_ok_def update_conv' delete_conv' distinct_update distinct_delete)

text \<open>\<open>retain\<close> keeps the entries a test passes.\<close>

definition hm_retain :: "('v \<Rightarrow> bool) \<Rightarrow> ('k \<times> 'v) list \<Rightarrow> ('k \<times> 'v) list" where
  "hm_retain p m = filter (\<lambda>(_, v). p v) m"

lemma hm_ok_retain: "hm_ok m \<Longrightarrow> hm_ok (hm_retain p m)"
  by (auto simp: hm_ok_def hm_retain_def distinct_map_filter)

lemma map_of_retain:
  "hm_ok m \<Longrightarrow> map_of (hm_retain p m) k = opt_filter p (map_of m k)"
proof (induction m)
  case Nil
  then show ?case by (simp add: hm_retain_def)
next
  case (Cons x m)
  obtain a b where x: "x = (a, b)" by (cases x)
  from Cons have IH: "map_of (hm_retain p m) k = opt_filter p (map_of m k)"
    and a: "a \<notin> fst ` set m"
    by (simp_all add: hm_ok_def x)
  from a have "map_of m a = None" by (simp add: map_of_eq_None_iff)
  with IH x show ?case by (auto simp: hm_retain_def)
qed

section \<open>Step functions and their runs\<close>

locale invariant_machine =
  fixes step :: "'e \<Rightarrow> 's \<Rightarrow> 's"
    and inv :: "'s \<Rightarrow> bool"
  assumes inv_step: "inv s \<Longrightarrow> inv (step e s)"
begin

lemma run_inv: "inv s \<Longrightarrow> inv (fold step es s)"
  by (induction es arbitrary: s) (auto simp: inv_step)

end

locale simulation = invariant_machine step inv
  for step :: "'e \<Rightarrow> 's \<Rightarrow> 's" and inv :: "'s \<Rightarrow> bool" +
  fixes abs :: "'s \<Rightarrow> 'a"
    and astep :: "'e \<Rightarrow> 'a \<Rightarrow> 'a"
  assumes abs_step: "inv s \<Longrightarrow> abs (step e s) = astep e (abs s)"
begin

lemma run_abs: "inv s \<Longrightarrow> abs (fold step es s) = fold astep es (abs s)"
  by (induction es arbitrary: s) (auto simp: inv_step abs_step)

end

end
