(* ===== verification/Core_State.thy ===== *)
theory Core_State
  imports Rust_Data
begin

text \<open>
  The crate \<open>relay-core\<close>: the incremental reading of a Claude Code transcript and the reading of a
  Codex rollout (\<open>crates/relay-core/src/state.rs\<close>) and the classification of error texts
  (\<open>errors.rs\<close>). The JSON parser \<open>serde_json::from_str\<close> and the derived deserialiser of a list of
  questions (\<open>serde_json::from_value\<close>) are the parameters \<open>parse\<close> and \<open>fromq\<close>; the Unicode case
  mapping is the parameter \<open>lower\<close>.
\<close>

section \<open>Error classes\<close>

datatype ErrorClass = Transient | RateLimit | Terminal

definition terminal_markers :: "string list" where
  "terminal_markers =
     [''401'', ''403'', ''forbidden'', ''insufficient permissions'', ''not logged in'',
      ''invalid api key'', ''oauth token'', ''login expired'', ''authentication_error'',
      ''credit balance is too low'', ''insufficient_quota'', ''exceeded your current quota'',
      ''prompt is too long'', ''request too large'', ''conversation too long'',
      ''context_length_exceeded'', ''maximum context length'', ''usage policy'',
      ''safety measures'', ''is not available with'', ''400 bad request'', ''certificate'']"

definition rate_limit_markers :: "string list" where
  "rate_limit_markers =
     [''you'' @ [CHR 0x27] @ ''ve hit your'', ''usage limit'', ''rate limit'', ''429'',
      ''temporarily limiting requests'', ''too many requests'']"

definition transient_markers :: "string list" where
  "transient_markers =
     [''the response above may be incomplete'', ''mid-response'', ''mid-stream'',
      ''500 internal server'', ''internal server error'', ''529'', ''overloaded'', ''502'', ''503'',
      ''504'', ''timed out'', ''econnreset'', ''econnrefused'', ''etimedout'', ''fetch failed'',
      ''unable to connect'', ''stream disconnected'', ''stream closed'', ''stream error'',
      ''terminated early due to an api error'']"

definition mentions :: "string list \<Rightarrow> string \<Rightarrow> bool" where
  "mentions ks t \<longleftrightarrow> list_ex (\<lambda>k. contains k t) ks"

definition classify_error :: "(string \<Rightarrow> string) \<Rightarrow> string \<Rightarrow> ErrorClass" where
  "classify_error lower text =
     (let t = lower text
      in if mentions terminal_markers t then Terminal
         else if mentions rate_limit_markers t then RateLimit
         else if mentions transient_markers t then Transient
         else Terminal)"

section \<open>Truncation\<close>

definition char_count :: "string \<Rightarrow> nat" where
  "char_count s = length (chars_of s)"

definition truncate_chars :: "string \<Rightarrow> nat \<Rightarrow> string" where
  "truncate_chars s0 mx =
     (let s = trim s0
      in if char_count s \<le> mx then s else concat (take mx (chars_of s)) @ ellipsis)"

lemma takeWhile_self_append:
  "r = [] \<or> \<not> P (hd r) \<Longrightarrow> takeWhile P (takeWhile P xs @ r) = takeWhile P xs"
  by (induction xs; cases r) (auto dest: set_takeWhileD)

lemma dropWhile_self_append:
  "r = [] \<or> \<not> P (hd r) \<Longrightarrow> dropWhile P (takeWhile P xs @ r) = r"
  by (induction xs; cases r) auto

lemma chars_of_take_append:
  "t = [] \<or> \<not> is_cont_byte (hd t) \<Longrightarrow>
   chars_of (concat (take n (chars_of s)) @ t) = take n (chars_of s) @ chars_of t"
proof (induction s arbitrary: n rule: chars_of.induct)
  case 1
  then show ?case by simp
next
  case (2 b bs)
  show ?case
  proof (cases n)
    case 0
    then show ?thesis by simp
  next
    case (Suc m)
    let ?rest = "concat (take m (chars_of (dropWhile is_cont_byte bs))) @ t"
    have hd: "?rest = [] \<or> \<not> is_cont_byte (hd ?rest)"
    proof (cases "m = 0 \<or> dropWhile is_cont_byte bs = []")
      case True
      then have "concat (take m (chars_of (dropWhile is_cont_byte bs))) = []"
        by (elim disjE) (simp_all del: dropWhile_eq_Nil_conv)
      with "2.prems" show ?thesis by (simp del: concat_eq_Nil_conv)
    next
      case False
      then obtain c cs where c: "dropWhile is_cont_byte bs = c # cs"
        by (cases "dropWhile is_cont_byte bs") auto
      with False have "hd ?rest = c" by (cases m) auto
      with c show ?thesis by (metis dropWhile_eq_Cons_conv)
    qed
    then have tw: "takeWhile is_cont_byte (takeWhile is_cont_byte bs @ ?rest)
                     = takeWhile is_cont_byte bs"
      and dw: "dropWhile is_cont_byte (takeWhile is_cont_byte bs @ ?rest) = ?rest"
      by (rule takeWhile_self_append, rule dropWhile_self_append)
    show ?thesis using "2.IH" [OF "2.prems"] Suc tw dw by simp
  qed
qed

lemma truncate_chars_length: "char_count (truncate_chars s mx) \<le> mx + 1"
proof -
  have "chars_of (concat (take mx (chars_of t)) @ ellipsis) = take mx (chars_of t) @ [ellipsis]"
    for t
    by (subst chars_of_take_append)
       (auto simp: ellipsis_def is_cont_byte_def)
  then show ?thesis
    by (auto simp: truncate_chars_def char_count_def Let_def)
qed

section \<open>Questions, states and reductions\<close>

record q_option =
  qo_label :: string
  qo_description :: string

record question =
  q_header :: string
  q_question :: string
  q_multi_select :: bool
  q_options :: "q_option list"

record ask_user_question =
  auq_questions :: "question list"
  auq_tool_use_id :: "string option"

datatype claude_state =
    ClIdle
  | ClWorking u16
  | ClSubagentRunning
  | ClAwaitingPermission string "string option" bool
  | ClPendingQuestion ask_user_question
  | ClInterrupted
  | ClDenied
  | ClError string
  | ClDead
  | ClUnknown

fun claude_label :: "claude_state \<Rightarrow> string" where
  "claude_label ClIdle = ''idle''"
| "claude_label (ClWorking _) = ''working''"
| "claude_label ClSubagentRunning = ''subagent''"
| "claude_label (ClAwaitingPermission _ _ _) = ''awaiting_permission''"
| "claude_label (ClPendingQuestion _) = ''pending_question''"
| "claude_label ClInterrupted = ''interrupted''"
| "claude_label ClDenied = ''denied''"
| "claude_label (ClError _) = ''error''"
| "claude_label ClDead = ''dead''"
| "claude_label ClUnknown = ''unknown''"

fun claude_actionable :: "claude_state \<Rightarrow> bool" where
  "claude_actionable (ClAwaitingPermission _ _ _) = True"
| "claude_actionable (ClPendingQuestion _) = True"
| "claude_actionable (ClError _) = True"
| "claude_actionable _ = False"

record token_usage =
  tu_input :: u64
  tu_output :: u64
  tu_cache_read :: u64
  tu_cache_creation :: u64
  tu_reasoning :: u64

record claude_reduction =
  cr_state :: claude_state
  cr_tip_uuid :: "string option"
  cr_session_id :: "string option"
  cr_cwd :: "string option"
  cr_git_branch :: "string option"
  cr_last_assistant_text :: "string option"
  cr_ai_title :: "string option"
  cr_open_tool_count :: nat
  cr_pending_tool :: "string option"
  cr_pending_target :: "string option"
  cr_last_turn_tokens :: "token_usage option"
  cr_mode :: "string option"

definition claude_reduction_default :: claude_reduction where
  "claude_reduction_default =
     \<lparr>cr_state = ClUnknown, cr_tip_uuid = None, cr_session_id = None, cr_cwd = None,
      cr_git_branch = None, cr_last_assistant_text = None, cr_ai_title = None,
      cr_open_tool_count = 0, cr_pending_tool = None, cr_pending_target = None,
      cr_last_turn_tokens = None, cr_mode = None\<rparr>"

definition claude_sidecars :: "string list" where
  "claude_sidecars =
     [''ai-title'', ''last-prompt'', ''queue-operation'', ''file-history-snapshot'', ''summary'',
      ''system'']"

record open_tool =
  ot_name :: string
  ot_target :: "string option"
  ot_questions :: "question list option"

record claude_reducer =
  rd_open :: "(string \<times> open_tool) list"
  rd_reduction :: claude_reduction
  rd_last_kind :: "string option"
  rd_last_user_marker :: "string option"
  rd_api_error :: "string option"
  rd_next_line_idx :: usize

definition claude_reducer_default :: claude_reducer where
  "claude_reducer_default =
     \<lparr>rd_open = [], rd_reduction = claude_reduction_default, rd_last_kind = None,
      rd_last_user_marker = None, rd_api_error = None, rd_next_line_idx = 0\<rparr>"

section \<open>One transcript line\<close>

definition claude_tool_target :: "string \<Rightarrow> json option \<Rightarrow> string option" where
  "claude_tool_target name input =
     Option.bind input (\<lambda>inp.
       map_option (\<lambda>s. truncate_chars s 160)
         (if name = ''Bash'' then get_str inp ''command''
          else if name = ''Edit'' \<or> name = ''Write'' \<or> name = ''Read'' then get_str inp ''file_path''
          else None))"

definition tool_result_text :: "json \<Rightarrow> string" where
  "tool_result_text block =
     (case jget block ''content'' of
        Some (JString s) \<Rightarrow> s
      | Some (JArray a) \<Rightarrow> join '' '' (List.map_filter (\<lambda>b. get_str b ''text'') a)
      | _ \<Rightarrow> [])"

definition classify_marker :: "string \<Rightarrow> string option" where
  "classify_marker text =
     (if contains ''[Request interrupted by user'' text then Some ''interrupted''
      else if contains ''User rejected tool use'' text
           \<or> contains (''doesn'' @ [CHR 0x27] @ ''t want to proceed'') text then Some ''denied''
      else None)"

definition missing_id :: "usize \<Rightarrow> nat \<Rightarrow> string" where
  "missing_id line_idx block_idx =
     ''missing:'' @ dec (unat line_idx) @ '':'' @ dec block_idx"

definition tool_use_id :: "usize \<Rightarrow> nat \<Rightarrow> json \<Rightarrow> string" where
  "tool_use_id line_idx block_idx b =
     unwrap_or (missing_id line_idx block_idx) (opt_filter (\<lambda>s. s \<noteq> []) (get_str b ''id''))"

definition open_tool_of :: "(json \<Rightarrow> question list option) \<Rightarrow> json \<Rightarrow> open_tool" where
  "open_tool_of fromq b =
     (let name = unwrap_or [] (get_str b ''name'');
          input = jget b ''input'';
          questions =
            (if name = ''AskUserQuestion''
             then Option.bind (Option.bind input (\<lambda>i. jget i ''questions'')) fromq
             else None)
      in \<lparr>ot_name = name, ot_target = claude_tool_target name input, ot_questions = questions\<rparr>)"

definition assistant_block ::
  "(json \<Rightarrow> question list option) \<Rightarrow> usize \<Rightarrow> nat \<times> json \<Rightarrow> claude_reducer \<Rightarrow> claude_reducer" where
  "assistant_block fromq line_idx ib r =
     (let b = snd ib; ty = get_str b ''type''
      in if ty = Some ''tool_use'' then
           r\<lparr>rd_open := bt_put (tool_use_id line_idx (fst ib) b) (open_tool_of fromq b) (rd_open r),
             rd_last_kind := Some ''assistant_tool''\<rparr>
         else if ty = Some ''text'' then
           (case get_str b ''text'' of
              Some t \<Rightarrow>
                if trim t \<noteq> []
                then r\<lparr>rd_reduction := (rd_reduction r)\<lparr>cr_last_assistant_text := Some t\<rparr>\<rparr>
                else r
            | None \<Rightarrow> r)
         else r)"

definition usage_u64 :: "json \<Rightarrow> string \<Rightarrow> u64" where
  "usage_u64 u k = unwrap_or 0 (Option.bind (jget u k) as_u64)"

definition claude_usage :: "json \<Rightarrow> token_usage" where
  "claude_usage u =
     \<lparr>tu_input = usage_u64 u ''input_tokens'', tu_output = usage_u64 u ''output_tokens'',
      tu_cache_read = usage_u64 u ''cache_read_input_tokens'',
      tu_cache_creation = usage_u64 u ''cache_creation_input_tokens'', tu_reasoning = 0\<rparr>"

definition api_error_text :: "json \<Rightarrow> string" where
  "api_error_text v =
     unwrap_or ''API error''
       (Option.bind (jget v ''message'') (\<lambda>m.
        Option.bind (jget m ''content'') (\<lambda>c.
        Option.bind (as_array c) (\<lambda>a.
        Option.bind (case a of [] \<Rightarrow> None | b # _ \<Rightarrow> Some b) (\<lambda>b. get_str b ''text'')))))"

definition push_assistant ::
  "(json \<Rightarrow> question list option) \<Rightarrow> usize \<Rightarrow> json \<Rightarrow> claude_reducer \<Rightarrow> claude_reducer" where
  "push_assistant fromq line_idx v r =
     (if Option.bind (jget v ''isApiErrorMessage'') as_bool = Some True then
        r\<lparr>rd_api_error := Some (api_error_text v), rd_last_kind := Some ''api_error''\<rparr>
      else
        (let msg = jget v ''message'';
             r1 = (case Option.bind msg (\<lambda>m. jget m ''usage'') of
                     Some u \<Rightarrow>
                       r\<lparr>rd_reduction :=
                           (rd_reduction r)\<lparr>cr_last_turn_tokens := Some (claude_usage u)\<rparr>\<rparr>
                   | None \<Rightarrow> r);
             stop = Option.bind msg (\<lambda>m. get_str m ''stop_reason'');
             r2 = (case Option.bind (Option.bind msg (\<lambda>m. jget m ''content'')) as_array of
                     Some blocks \<Rightarrow>
                       fold (assistant_block fromq line_idx) (List.enumerate 0 blocks) r1
                   | None \<Rightarrow> r1)
         in if stop = Some ''end_turn'' \<or> stop = Some ''stop_sequence''
            then r2\<lparr>rd_last_kind := Some ''assistant_end''\<rparr> else r2))"

definition note_marker :: "string \<Rightarrow> claude_reducer \<Rightarrow> claude_reducer" where
  "note_marker txt r =
     (case classify_marker txt of
        Some m \<Rightarrow> r\<lparr>rd_last_user_marker := Some m\<rparr>
      | None \<Rightarrow> r)"

definition user_block :: "json \<Rightarrow> claude_reducer \<Rightarrow> claude_reducer" where
  "user_block b r =
     (let ty = get_str b ''type''
      in if ty = Some ''tool_result'' then
           (let r1 = (case get_str b ''tool_use_id'' of
                        Some i \<Rightarrow> r\<lparr>rd_open := bt_del i (rd_open r)\<rparr>
                      | None \<Rightarrow> r)
            in (note_marker (tool_result_text b) r1)\<lparr>rd_last_kind := Some ''user_result''\<rparr>)
         else if ty = Some ''text'' then
           (note_marker (unwrap_or [] (get_str b ''text'')) r)\<lparr>rd_last_kind := Some ''user_text''\<rparr>
         else r)"

definition push_user :: "json \<Rightarrow> claude_reducer \<Rightarrow> claude_reducer" where
  "push_user v r0 =
     (let r = r0\<lparr>rd_last_user_marker := None\<rparr>
      in case Option.bind (jget v ''message'') (\<lambda>m. jget m ''content'') of
           Some (JArray blocks) \<Rightarrow> fold user_block blocks r
         | Some (JString s) \<Rightarrow> (note_marker s r)\<lparr>rd_last_kind := Some ''user_text''\<rparr>
         | _ \<Rightarrow> r)"

definition note_header :: "json \<Rightarrow> claude_reducer \<Rightarrow> claude_reducer" where
  "note_header v r =
     (let red0 = rd_reduction r;
          red1 = (case get_str v ''sessionId'' of Some s \<Rightarrow> red0\<lparr>cr_session_id := Some s\<rparr>
                  | None \<Rightarrow> red0);
          red2 = (case get_str v ''cwd'' of Some s \<Rightarrow> red1\<lparr>cr_cwd := Some s\<rparr> | None \<Rightarrow> red1);
          red3 = (case get_str v ''gitBranch'' of Some s \<Rightarrow> red2\<lparr>cr_git_branch := Some s\<rparr>
                  | None \<Rightarrow> red2)
      in r\<lparr>rd_reduction := red3\<rparr>)"

definition push_value ::
  "(json \<Rightarrow> question list option) \<Rightarrow> usize \<Rightarrow> json \<Rightarrow> claude_reducer \<Rightarrow> claude_reducer" where
  "push_value fromq line_idx v r =
     (let ty = unwrap_or [] (get_str v ''type'')
      in if ty = ''last-prompt'' then
           (case get_str v ''leafUuid'' of
              Some leaf \<Rightarrow> r\<lparr>rd_reduction := (rd_reduction r)\<lparr>cr_tip_uuid := Some leaf\<rparr>\<rparr>
            | None \<Rightarrow> r)
         else if ty = ''ai-title'' then
           (case get_str v ''aiTitle'' of
              Some t \<Rightarrow> r\<lparr>rd_reduction := (rd_reduction r)\<lparr>cr_ai_title := Some t\<rparr>\<rparr>
            | None \<Rightarrow> r)
         else if ty = ''mode'' then
           (case get_str v ''mode'' of
              Some m \<Rightarrow>
                r\<lparr>rd_reduction :=
                    (rd_reduction r)\<lparr>cr_mode := Some (if m = ''normal'' then ''default'' else m)\<rparr>\<rparr>
            | None \<Rightarrow> r)
         else if ty \<in> set claude_sidecars \<or> ty = ''attachment'' then r
         else
           (let r1 = note_header v r
            in if ty = ''assistant'' then push_assistant fromq line_idx v r1
               else if ty = ''user'' then push_user v r1
               else r1))"

definition push_line ::
  "(string \<Rightarrow> json option) \<Rightarrow> (json \<Rightarrow> question list option) \<Rightarrow> string
     \<Rightarrow> claude_reducer \<Rightarrow> claude_reducer" where
  "push_line parse fromq line0 r0 =
     (let line_idx = rd_next_line_idx r0;
          r = r0\<lparr>rd_next_line_idx := saturating_succ (rd_next_line_idx r0)\<rparr>;
          line = trim line0
      in if line = [] then r
         else (case parse line of None \<Rightarrow> r | Some v \<Rightarrow> push_value fromq line_idx v r))"

section \<open>The reduction\<close>

definition is_ask :: "string \<times> open_tool \<Rightarrow> bool" where
  "is_ask e \<longleftrightarrow> ot_name (snd e) = ''AskUserQuestion''"

definition reduction_state :: "claude_reducer \<Rightarrow> claude_state" where
  "reduction_state r =
     (case List.find is_ask (rd_open r) of
        Some (i, q) \<Rightarrow>
          (case ot_questions q of
             Some (q1 # qs) \<Rightarrow>
               ClPendingQuestion \<lparr>auq_questions = q1 # qs, auq_tool_use_id = Some i\<rparr>
           | _ \<Rightarrow> ClWorking (clamp_u16 (length (rd_open r))))
      | None \<Rightarrow>
          if rd_last_kind r = Some ''api_error'' then
            ClError (unwrap_or ''API error'' (rd_api_error r))
          else if rd_open r \<noteq> [] then ClWorking (clamp_u16 (length (rd_open r)))
          else if rd_last_user_marker r = Some ''interrupted'' then ClInterrupted
          else if rd_last_user_marker r = Some ''denied'' then ClDenied
          else if rd_last_kind r = Some ''assistant_end'' then ClIdle
          else if rd_last_kind r = Some ''user_result'' \<or> rd_last_kind r = Some ''user_text''
               \<or> rd_last_kind r = Some ''assistant_tool'' then ClWorking 0
          else ClIdle)"

definition reduction :: "claude_reducer \<Rightarrow> claude_reduction" where
  "reduction r =
     (let pending = List.find (\<lambda>e. \<not> is_ask e) (rd_open r)
      in (rd_reduction r)
           \<lparr>cr_open_tool_count := length (rd_open r),
            cr_pending_tool := map_option (\<lambda>e. ot_name (snd e)) pending,
            cr_pending_target := Option.bind pending (\<lambda>e. ot_target (snd e)),
            cr_state := reduction_state r\<rparr>)"

definition reduce_claude ::
  "(string \<Rightarrow> json option) \<Rightarrow> (json \<Rightarrow> question list option) \<Rightarrow> string \<Rightarrow> claude_reduction" where
  "reduce_claude parse fromq transcript =
     reduction (fold (push_line parse fromq) (rust_lines transcript) claude_reducer_default)"

section \<open>Codex rollouts\<close>

datatype codex_state =
    CxIdle
  | CxWorking string
  | CxAborted string
  | CxNeedsReplyMaybe string
  | CxError string
  | CxUnknown

fun codex_label :: "codex_state \<Rightarrow> string" where
  "codex_label CxIdle = ''idle''"
| "codex_label (CxWorking _) = ''working''"
| "codex_label (CxAborted _) = ''aborted''"
| "codex_label (CxNeedsReplyMaybe _) = ''needs_reply?''"
| "codex_label (CxError _) = ''error''"
| "codex_label CxUnknown = ''unknown''"

record codex_reduction =
  cx_state :: codex_state
  cx_last_agent_message :: "string option"
  cx_last_duration_ms :: "u64 option"
  cx_last_turn_tokens :: "token_usage option"
  cx_approval_policy :: "string option"
  cx_sandbox :: "string option"

definition codex_reduction_default :: codex_reduction where
  "codex_reduction_default =
     \<lparr>cx_state = CxUnknown, cx_last_agent_message = None, cx_last_duration_ms = None,
      cx_last_turn_tokens = None, cx_approval_policy = None, cx_sandbox = None\<rparr>"

definition value_u64 :: "json \<Rightarrow> u64 option" where
  "value_u64 v =
     (case v of
        JNumber n \<Rightarrow> as_u64 v
      | JString s \<Rightarrow> parse_u64 (trim s)
      | _ \<Rightarrow> None)"

text \<open>The full-width question mark is a character of three bytes.\<close>

definition looks_like_question :: "string \<Rightarrow> bool" where
  "looks_like_question msg =
     (let t = trim_end msg
      in ends_with ''?'' t \<or> ends_with [CHR 0xEF, CHR 0xBC, CHR 0x9F] t)"

definition codex_usage_u64 :: "json \<Rightarrow> string \<Rightarrow> u64" where
  "codex_usage_u64 u k = unwrap_or 0 (Option.bind (jget u k) value_u64)"

definition codex_payload :: "json \<Rightarrow> codex_reduction \<Rightarrow> codex_reduction" where
  "codex_payload p r =
     (let ty = get_str p ''type''
      in if ty = Some ''task_started'' then
           r\<lparr>cx_state :=
               CxWorking (unwrap_or ''unknown''
                 (opt_filter (\<lambda>s. s \<noteq> []) (get_str p ''turn_id'')))\<rparr>
         else if ty = Some ''task_complete'' then
           (let last = or_else (get_str p ''last_agent_message'') (cx_last_agent_message r);
                msg = unwrap_or [] last
            in r\<lparr>cx_last_agent_message := last,
                 cx_last_duration_ms := Option.bind (jget p ''duration_ms'') value_u64,
                 cx_state := (if looks_like_question msg
                              then CxNeedsReplyMaybe (truncate_chars msg 300) else CxIdle)\<rparr>)
         else if ty = Some ''turn_aborted'' then
           r\<lparr>cx_state := CxAborted (unwrap_or ''aborted'' (get_str p ''reason''))\<rparr>
         else if ty = Some ''agent_message'' then
           (case get_str p ''message'' of
              Some m \<Rightarrow> r\<lparr>cx_last_agent_message := Some m\<rparr>
            | None \<Rightarrow> r)
         else if ty = Some ''error'' then
           r\<lparr>cx_state := CxError (unwrap_or ''error'' (get_str p ''message''))\<rparr>
         else if ty = Some ''token_count'' then
           (case Option.bind (jget p ''info'') (\<lambda>i. jget i ''last_token_usage'') of
              Some u \<Rightarrow>
                r\<lparr>cx_last_turn_tokens :=
                    Some \<lparr>tu_input = codex_usage_u64 u ''input_tokens'',
                          tu_output = codex_usage_u64 u ''output_tokens'',
                          tu_cache_read = codex_usage_u64 u ''cached_input_tokens'',
                          tu_cache_creation = 0,
                          tu_reasoning = codex_usage_u64 u ''reasoning_output_tokens''\<rparr>\<rparr>
            | None \<Rightarrow> r)
         else r)"

definition codex_context :: "json \<Rightarrow> codex_reduction \<Rightarrow> codex_reduction" where
  "codex_context v r =
     (case jget v ''payload'' of
        None \<Rightarrow> r
      | Some p \<Rightarrow>
          (let r1 = (case get_str p ''approval_policy'' of
                       Some ap \<Rightarrow> r\<lparr>cx_approval_policy := Some ap\<rparr>
                     | None \<Rightarrow> r)
           in case Option.bind (jget p ''sandbox_policy'') (\<lambda>s. get_str s ''type'') of
                Some sb \<Rightarrow> r1\<lparr>cx_sandbox := Some sb\<rparr>
              | None \<Rightarrow> r1))"

definition codex_line ::
  "(string \<Rightarrow> json option) \<Rightarrow> string \<Rightarrow> codex_reduction \<Rightarrow> codex_reduction" where
  "codex_line parse line0 r =
     (let line = trim line0
      in if line = [] then r
         else case parse line of
                None \<Rightarrow> r
              | Some v \<Rightarrow>
                  (let ty = unwrap_or [] (get_str v ''type'')
                   in if ty = ''turn_context'' then codex_context v r
                      else if ty \<noteq> ''event_msg'' then r
                      else case jget v ''payload'' of
                             None \<Rightarrow> r
                           | Some p \<Rightarrow> codex_payload p r))"

definition reduce_codex :: "(string \<Rightarrow> json option) \<Rightarrow> string \<Rightarrow> codex_reduction" where
  "reduce_codex parse rollout = fold (codex_line parse) (rust_lines rollout) codex_reduction_default"

lemmas [step_defs] =
  push_line_def push_value_def push_assistant_def push_user_def note_header_def note_marker_def
  assistant_block_def user_block_def codex_line_def codex_context_def codex_payload_def

section \<open>Which tools are open\<close>

text \<open>
  The specification of tool tracking: a line opens the tools its \<open>tool_use\<close> blocks name and closes
  the tools its \<open>tool_result\<close> blocks name, in the order of the blocks.
\<close>

datatype tool_event = Opened string | Closed string

fun track :: "tool_event \<Rightarrow> string set \<Rightarrow> string set" where
  "track (Opened i) S = insert i S"
| "track (Closed i) S = S - {i}"

definition assistant_events :: "usize \<Rightarrow> json \<Rightarrow> tool_event list" where
  "assistant_events line_idx v =
     (if Option.bind (jget v ''isApiErrorMessage'') as_bool = Some True then []
      else case Option.bind (Option.bind (jget v ''message'') (\<lambda>m. jget m ''content'')) as_array of
             None \<Rightarrow> []
           | Some blocks \<Rightarrow>
               List.map_filter
                 (\<lambda>(i, b). if get_str b ''type'' = Some ''tool_use''
                           then Some (Opened (tool_use_id line_idx i b)) else None)
                 (List.enumerate 0 blocks))"

definition user_events :: "json \<Rightarrow> tool_event list" where
  "user_events v =
     (case Option.bind (jget v ''message'') (\<lambda>m. jget m ''content'') of
        Some (JArray blocks) \<Rightarrow>
          List.map_filter
            (\<lambda>b. if get_str b ''type'' = Some ''tool_result''
                 then map_option Closed (get_str b ''tool_use_id'') else None) blocks
      | _ \<Rightarrow> [])"

definition value_events :: "usize \<Rightarrow> json \<Rightarrow> tool_event list" where
  "value_events line_idx v =
     (if get_str v ''type'' = Some ''assistant'' then assistant_events line_idx v
      else if get_str v ''type'' = Some ''user'' then user_events v
      else [])"

definition line_events :: "(string \<Rightarrow> json option) \<Rightarrow> usize \<Rightarrow> string \<Rightarrow> tool_event list" where
  "line_events parse line_idx line =
     (if trim line = [] then []
      else case parse (trim line) of None \<Rightarrow> [] | Some v \<Rightarrow> value_events line_idx v)"

definition track_line ::
  "(string \<Rightarrow> json option) \<Rightarrow> string \<Rightarrow> usize \<times> string set \<Rightarrow> usize \<times> string set" where
  "track_line parse line s =
     (saturating_succ (fst s), fold track (line_events parse (fst s) line) (snd s))"

definition open_ids :: "claude_reducer \<Rightarrow> string set" where
  "open_ids r = fst ` set (rd_open r)"

text \<open>The error text is there whenever the last line read was an API error.\<close>

definition error_noted :: "claude_reducer \<Rightarrow> bool" where
  "error_noted r \<longleftrightarrow> (rd_last_kind r = Some ''api_error'' \<longrightarrow> rd_api_error r \<noteq> None)"

definition reducer_ok :: "claude_reducer \<Rightarrow> bool" where
  "reducer_ok r \<longleftrightarrow> bt_ok (rd_open r) \<and> [] \<notin> open_ids r \<and> error_noted r"

lemma fst_set_bt_del [simp]: "fst ` set (bt_del k m) = fst ` set m - {k}"
  by (auto simp: bt_del_def image_iff)

lemma tool_use_id_nonempty [simp]: "tool_use_id l i b \<noteq> []"
  by (auto simp: tool_use_id_def missing_id_def opt_filter_def split: option.splits)

subsection \<open>Frames\<close>

lemma note_marker_frame [simp]:
  "rd_open (note_marker t r) = rd_open r" "rd_last_kind (note_marker t r) = rd_last_kind r"
  "rd_api_error (note_marker t r) = rd_api_error r"
  "rd_next_line_idx (note_marker t r) = rd_next_line_idx r"
  "rd_reduction (note_marker t r) = rd_reduction r"
  by (simp_all add: note_marker_def split: option.splits)

definition only_red :: "claude_reducer \<Rightarrow> claude_reducer \<Rightarrow> bool" where
  "only_red r r' \<longleftrightarrow> (\<exists>red. r' = r\<lparr>rd_reduction := red\<rparr>)"

lemma only_red_refl: "only_red r r"
  unfolding only_red_def by (rule exI [of _ "rd_reduction r"]) simp

lemma only_red_update: "only_red r (r\<lparr>rd_reduction := red\<rparr>)"
  unfolding only_red_def by blast

lemma only_red_if: "only_red r a \<Longrightarrow> only_red r b \<Longrightarrow> only_red r (if c then a else b)"
  by simp

lemma only_red_option:
  "only_red r a \<Longrightarrow> (\<And>x. only_red r (f x)) \<Longrightarrow> only_red r (case m of None \<Rightarrow> a | Some x \<Rightarrow> f x)"
  by (cases m) simp_all

lemmas only_red_intros = only_red_if only_red_option only_red_update only_red_refl

lemma only_red_note_header: "only_red r (note_header v r)"
  unfolding note_header_def Let_def by (rule only_red_update)

lemma only_red_frame:
  assumes "only_red r r'"
  shows "rd_open r' = rd_open r" "rd_last_kind r' = rd_last_kind r"
    "rd_api_error r' = rd_api_error r" "rd_next_line_idx r' = rd_next_line_idx r"
    "rd_last_user_marker r' = rd_last_user_marker r"
  using assms unfolding only_red_def by auto

lemmas note_header_frame [simp] = only_red_frame [OF only_red_note_header]

lemma sidecar_not_turn: "''assistant'' \<notin> set claude_sidecars" "''user'' \<notin> set claude_sidecars"
  by (simp_all add: claude_sidecars_def)

lemma push_value_assistant:
  "get_str v ''type'' = Some ''assistant'' \<Longrightarrow>
   push_value fromq l v r = push_assistant fromq l v (note_header v r)"
  by (simp add: push_value_def Let_def sidecar_not_turn)

lemma push_value_user:
  "get_str v ''type'' = Some ''user'' \<Longrightarrow> push_value fromq l v r = push_user v (note_header v r)"
  by (simp add: push_value_def Let_def sidecar_not_turn)

lemma push_value_other:
  assumes "get_str v ''type'' \<noteq> Some ''assistant''" "get_str v ''type'' \<noteq> Some ''user''"
  shows "only_red r (push_value fromq l v r)"
proof -
  have ty: "unwrap_or [] (get_str v ''type'') \<noteq> ''assistant''"
    "unwrap_or [] (get_str v ''type'') \<noteq> ''user''"
    using assms by (auto simp: unwrap_or_def split: option.splits)
  show ?thesis
    unfolding push_value_def Let_def if_not_P [OF ty(1)] if_not_P [OF ty(2)]
    by (intro only_red_intros only_red_note_header)
qed

lemma assistant_block_frame [simp]:
  "rd_next_line_idx (assistant_block fromq l ib r) = rd_next_line_idx r"
  "rd_api_error (assistant_block fromq l ib r) = rd_api_error r"
  by (simp_all add: assistant_block_def Let_def split: option.splits)

lemma user_block_frame [simp]:
  "rd_next_line_idx (user_block b r) = rd_next_line_idx r"
  "rd_api_error (user_block b r) = rd_api_error r"
  by (simp_all add: user_block_def Let_def split: option.splits)

lemma fold_assistant_block_frame [simp]:
  "rd_next_line_idx (fold (assistant_block fromq l) ibs r) = rd_next_line_idx r"
  "rd_api_error (fold (assistant_block fromq l) ibs r) = rd_api_error r"
  by (induction ibs arbitrary: r) simp_all

lemma fold_user_block_frame [simp]:
  "rd_next_line_idx (fold user_block bs r) = rd_next_line_idx r"
  "rd_api_error (fold user_block bs r) = rd_api_error r"
  by (induction bs arbitrary: r) simp_all

subsection \<open>The blocks of a line\<close>

lemma open_assistant_blocks:
  "fst ` set (rd_open (fold (assistant_block fromq l) ibs r)) =
   fold track (List.map_filter
     (\<lambda>(i, b). if get_str b ''type'' = Some ''tool_use''
               then Some (Opened (tool_use_id l i b)) else None) ibs) (fst ` set (rd_open r))"
proof (induction ibs arbitrary: r)
  case Nil
  then show ?case by simp
next
  case (Cons ib ibs)
  obtain i b where ib: "ib = (i, b)" by (cases ib)
  have "fst ` set (rd_open (assistant_block fromq l ib r)) =
          (if get_str b ''type'' = Some ''tool_use''
           then insert (tool_use_id l i b) (fst ` set (rd_open r)) else fst ` set (rd_open r))"
    by (simp add: assistant_block_def ib Let_def keys_bt_put split: option.splits)
  with Cons show ?case by (simp add: ib)
qed

lemma open_user_blocks:
  "fst ` set (rd_open (fold user_block bs r)) =
   fold track (List.map_filter
     (\<lambda>b. if get_str b ''type'' = Some ''tool_result''
          then map_option Closed (get_str b ''tool_use_id'') else None) bs) (fst ` set (rd_open r))"
proof (induction bs arbitrary: r)
  case Nil
  then show ?case by simp
next
  case (Cons b bs)
  have "fst ` set (rd_open (user_block b r)) =
          fold track (case (if get_str b ''type'' = Some ''tool_result''
                            then map_option Closed (get_str b ''tool_use_id'') else None)
                      of None \<Rightarrow> [] | Some e \<Rightarrow> [e]) (fst ` set (rd_open r))"
    by (simp add: user_block_def Let_def split: option.splits)
  with Cons show ?case by (simp split: option.splits)
qed

lemma bt_ok_assistant_blocks:
  "bt_ok (rd_open r) \<Longrightarrow> bt_ok (rd_open (fold (assistant_block fromq l) ibs r))"
  by (induction ibs arbitrary: r)
     (simp_all add: assistant_block_def Let_def bt_ok_put split: option.splits)

lemma bt_ok_user_blocks: "bt_ok (rd_open r) \<Longrightarrow> bt_ok (rd_open (fold user_block bs r))"
  by (induction bs arbitrary: r)
     (simp_all add: user_block_def Let_def bt_ok_del split: option.splits)

lemma last_kind_assistant_blocks:
  "rd_last_kind (fold (assistant_block fromq l) ibs r) \<in> {rd_last_kind r, Some ''assistant_tool''}"
proof (induction ibs arbitrary: r)
  case Nil
  then show ?case by simp
next
  case (Cons ib ibs)
  have "rd_last_kind (assistant_block fromq l ib r) \<in> {rd_last_kind r, Some ''assistant_tool''}"
    by (simp add: assistant_block_def Let_def split: option.splits)
  with Cons [of "assistant_block fromq l ib r"] show ?case by auto
qed

lemma last_kind_user_blocks:
  "rd_last_kind (fold user_block bs r) \<in> {rd_last_kind r, Some ''user_result'', Some ''user_text''}"
proof (induction bs arbitrary: r)
  case Nil
  then show ?case by simp
next
  case (Cons b bs)
  have "rd_last_kind (user_block b r) \<in> {rd_last_kind r, Some ''user_result'', Some ''user_text''}"
    by (simp add: user_block_def Let_def split: option.splits)
  with Cons [of "user_block b r"] show ?case by auto
qed

lemma track_nonempty:
  "\<lbrakk>[] \<notin> S; \<And>i. Opened i \<in> set es \<Longrightarrow> i \<noteq> []\<rbrakk> \<Longrightarrow> [] \<notin> fold track es S"
proof (induction es arbitrary: S)
  case Nil
  then show ?case by simp
next
  case (Cons e es)
  then have "[] \<notin> track e S" by (cases e) auto
  with Cons show ?case by simp
qed

subsection \<open>A line\<close>

lemma push_assistant_frame:
  "rd_next_line_idx (push_assistant fromq l v r) = rd_next_line_idx r"
  by (simp add: push_assistant_def Let_def split: option.split)

lemma push_user_frame:
  "rd_next_line_idx (push_user v r) = rd_next_line_idx r" "rd_api_error (push_user v r) = rd_api_error r"
  by (simp_all add: push_user_def Let_def split: option.split json.split)

lemma open_push_assistant:
  "open_ids (push_assistant fromq l v r) = fold track (assistant_events l v) (open_ids r)"
  by (simp add: open_ids_def push_assistant_def assistant_events_def Let_def open_assistant_blocks
      split: option.split)

lemma open_push_user: "open_ids (push_user v r) = fold track (user_events v) (open_ids r)"
  by (simp add: open_ids_def push_user_def user_events_def Let_def open_user_blocks
      split: option.split json.split)

lemma bt_ok_push_assistant:
  "bt_ok (rd_open r) \<Longrightarrow> bt_ok (rd_open (push_assistant fromq l v r))"
  by (simp add: push_assistant_def Let_def bt_ok_assistant_blocks split: option.split)

lemma bt_ok_push_user: "bt_ok (rd_open r) \<Longrightarrow> bt_ok (rd_open (push_user v r))"
  by (simp add: push_user_def Let_def bt_ok_user_blocks split: option.split json.split)

lemma error_noted_push_assistant: "error_noted r \<Longrightarrow> error_noted (push_assistant fromq l v r)"
proof -
  assume r: "error_noted r"
  have f: "error_noted s \<Longrightarrow> error_noted (fold (assistant_block fromq l) ibs s)" for s ibs
    using last_kind_assistant_blocks [of fromq l ibs s] by (auto simp: error_noted_def)
  have u: "error_noted (s\<lparr>rd_reduction := red\<rparr>) = error_noted s" for s red
    by (simp add: error_noted_def)
  show ?thesis
    using r f [of r] f [of "r\<lparr>rd_reduction := red\<rparr>" for red]
    by (simp add: push_assistant_def Let_def u error_noted_def split: option.split)
qed

lemma error_noted_push_user: "error_noted r \<Longrightarrow> error_noted (push_user v r)"
proof -
  assume r: "error_noted r"
  have f: "error_noted s \<Longrightarrow> error_noted (fold user_block bs s)" for s bs
    using last_kind_user_blocks [of bs s] by (auto simp: error_noted_def)
  show ?thesis
    using r f [of "r\<lparr>rd_last_user_marker := None\<rparr>"]
    by (simp add: push_user_def Let_def error_noted_def split: option.split json.split)
qed

lemma only_red_ok: "only_red r r' \<Longrightarrow> reducer_ok r \<Longrightarrow> reducer_ok r'"
  by (simp add: reducer_ok_def open_ids_def error_noted_def only_red_frame)

lemma only_red_open: "only_red r r' \<Longrightarrow> open_ids r' = open_ids r"
  by (simp add: open_ids_def only_red_frame)

lemma assistant_events_nonempty: "Opened i \<in> set (assistant_events l v) \<Longrightarrow> i \<noteq> []"
  by (auto simp: assistant_events_def map_filter_def split: if_splits option.splits)

lemma user_events_no_open: "Opened i \<notin> set (user_events v)"
  by (auto simp: user_events_def map_filter_def split: if_splits option.splits json.splits)

lemma ok_push_assistant: "reducer_ok r \<Longrightarrow> reducer_ok (push_assistant fromq l v r)"
  using assistant_events_nonempty
  by (auto simp: reducer_ok_def bt_ok_push_assistant error_noted_push_assistant open_push_assistant
      dest!: track_nonempty [THEN notE, rotated 2])

lemma ok_push_user: "reducer_ok r \<Longrightarrow> reducer_ok (push_user v r)"
  by (auto simp: reducer_ok_def bt_ok_push_user error_noted_push_user open_push_user
      user_events_no_open dest!: track_nonempty [THEN notE, rotated 2])

lemma push_value_step:
  "open_ids (push_value fromq l v r) = fold track (value_events l v) (open_ids r)" (is ?o)
  "rd_next_line_idx (push_value fromq l v r) = rd_next_line_idx r" (is ?n)
  "reducer_ok r \<Longrightarrow> reducer_ok (push_value fromq l v r)"
proof -
  note h = only_red_note_header [of r v]
  consider (a) "get_str v ''type'' = Some ''assistant''" | (u) "get_str v ''type'' = Some ''user''"
    | (o) "get_str v ''type'' \<noteq> Some ''assistant''" "get_str v ''type'' \<noteq> Some ''user''" by blast
  then have "?o \<and> ?n \<and> (reducer_ok r \<longrightarrow> reducer_ok (push_value fromq l v r))"
  proof cases
    case a
    then show ?thesis
      by (simp add: push_value_assistant open_push_assistant push_assistant_frame value_events_def
          only_red_open [OF h] ok_push_assistant only_red_ok [OF h])
  next
    case u
    then show ?thesis
      by (simp add: push_value_user open_push_user push_user_frame value_events_def
          only_red_open [OF h] ok_push_user only_red_ok [OF h])
  next
    case o
    note p = push_value_other [OF o, of r fromq l]
    show ?thesis
      by (simp add: value_events_def o only_red_open [OF p] only_red_frame [OF p] only_red_ok [OF p])
  qed
  then show ?o ?n "reducer_ok r \<Longrightarrow> reducer_ok (push_value fromq l v r)" by blast+
qed

lemma push_line_step:
  "open_ids (push_line parse fromq line r) =
   fold track (line_events parse (rd_next_line_idx r) line) (open_ids r)"
  "rd_next_line_idx (push_line parse fromq line r) = saturating_succ (rd_next_line_idx r)"
  "reducer_ok r \<Longrightarrow> reducer_ok (push_line parse fromq line r)"
proof -
  let ?r = "r\<lparr>rd_next_line_idx := saturating_succ (rd_next_line_idx r)\<rparr>"
  have f: "open_ids ?r = open_ids r" "reducer_ok ?r = reducer_ok r"
    by (simp_all add: open_ids_def reducer_ok_def error_noted_def)
  show "open_ids (push_line parse fromq line r) =
      fold track (line_events parse (rd_next_line_idx r) line) (open_ids r)"
    by (simp add: push_line_def line_events_def Let_def push_value_step f split: option.split)
  show "rd_next_line_idx (push_line parse fromq line r) = saturating_succ (rd_next_line_idx r)"
    by (simp add: push_line_def Let_def push_value_step split: option.split)
  show "reducer_ok r \<Longrightarrow> reducer_ok (push_line parse fromq line r)"
    by (simp add: push_line_def Let_def push_value_step f split: option.split)
qed

text \<open>
  Every line read keeps the reducer valid, and the identifiers of the open tools follow the
  specification: the reducer simulates it.
\<close>

interpretation claude: simulation "push_line parse fromq" reducer_ok
    "\<lambda>r. (rd_next_line_idx r, open_ids r)" "track_line parse" for parse fromq
  by unfold_locales (simp_all add: push_line_step track_line_def)

definition read_claude ::
  "(string \<Rightarrow> json option) \<Rightarrow> (json \<Rightarrow> question list option) \<Rightarrow> string \<Rightarrow> claude_reducer" where
  "read_claude parse fromq transcript =
     fold (push_line parse fromq) (rust_lines transcript) claude_reducer_default"

lemma reducer_ok_default: "reducer_ok claude_reducer_default"
  by (simp add: reducer_ok_def claude_reducer_default_def bt_ok_def open_ids_def error_noted_def)

lemma reducer_ok_read: "reducer_ok (read_claude parse fromq t)"
  unfolding read_claude_def by (rule claude.run_inv [OF reducer_ok_default])

lemma open_ids_read:
  "open_ids (read_claude parse fromq t) = snd (fold (track_line parse) (rust_lines t) (0, {}))"
proof -
  have "snd (rd_next_line_idx (read_claude parse fromq t), open_ids (read_claude parse fromq t))
      = snd (fold (track_line parse) (rust_lines t)
          (rd_next_line_idx claude_reducer_default, open_ids claude_reducer_default))"
    unfolding read_claude_def
    by (simp only: claude.run_abs [OF reducer_ok_default])
  then show ?thesis by (simp add: claude_reducer_default_def open_ids_def)
qed

lemma reduce_claude_read: "reduce_claude parse fromq t = reduction (read_claude parse fromq t)"
  by (simp add: reduce_claude_def read_claude_def)

lemma length_open_card: "reducer_ok r \<Longrightarrow> length (rd_open r) = card (open_ids r)"
  using distinct_card [of "map fst (rd_open r)"]
  by (auto simp: reducer_ok_def open_ids_def dest!: bt_ok_distinct)

lemma find_first_key:
  assumes "bt_ok m"
  shows "List.find P m = Some e \<longleftrightarrow> e \<in> set m \<and> P e \<and> (\<forall>f \<in> set m. P f \<longrightarrow> fst e \<le> fst f)"
  using assms
proof (induction m)
  case Nil
  then show ?case by simp
next
  case (Cons x m)
  obtain k v where x: "x = (k, v)" by (cases x)
  have m: "bt_ok m" and lt: "\<And>f. f \<in> set m \<Longrightarrow> k < fst f"
    using Cons.prems by (auto simp: x bt_ok_Cons)
  have e: "e \<in> set m \<Longrightarrow> \<not> fst e \<le> k" using lt [of e] by auto
  show ?case
  proof (cases "P x")
    case True
    then show ?thesis using lt e by (fastforce simp: x)
  next
    case False
    then show ?thesis using Cons.IH [OF m] by auto
  qed
qed

section \<open>Properties of the readings\<close>

text \<open>
  The number of open tools a reading reports is the number of tool identifiers opened and not
  yet closed by the transcript's lines, in their order, for every transcript.
\<close>

theorem open_tool_count_tracked:
  "cr_open_tool_count (reduce_claude parse fromq t) =
   card (snd (fold (track_line parse) (rust_lines t) (0, {})))"
  by (simp add: reduce_claude_read reduction_def Let_def length_open_card reducer_ok_read
      open_ids_read)

text \<open>
  Reading a transcript in two pieces cut at a line end is reading it whole: the reducer of the
  first piece, fed the lines of the second, gives the same reduction.
\<close>

theorem reduce_claude_incremental:
  "reduce_claude parse fromq (a @ CHR 0x0A # b) =
   reduction (fold (push_line parse fromq) (rust_lines b) (read_claude parse fromq (a @ [CHR 0x0A])))"
  by (simp only: reduce_claude_def read_claude_def rust_lines_append [of a b] fold_append comp_apply)

lemma is_ask_find_None:
  "List.find is_ask m = None \<longleftrightarrow> (\<forall>e \<in> set m. \<not> is_ask e)"
  by (auto simp: find_None_iff)


text \<open>
  A pending question is reported exactly when, of the open \<open>AskUserQuestion\<close> tools, the one with
  the least identifier carries at least one readable question; the report names that identifier
  and those questions.
\<close>

theorem pending_question_iff:
  "cr_state (reduce_claude parse fromq t) = ClPendingQuestion q \<longleftrightarrow>
   (\<exists>i u. (i, u) \<in> set (rd_open (read_claude parse fromq t)) \<and> is_ask (i, u) \<and>
      (\<forall>f \<in> set (rd_open (read_claude parse fromq t)). is_ask f \<longrightarrow> i \<le> fst f) \<and>
      auq_tool_use_id q = Some i \<and> auq_questions q \<noteq> [] \<and> ot_questions u = Some (auq_questions q))"
proof -
  let ?r = "read_claude parse fromq t"
  have ok: "bt_ok (rd_open ?r)"
    using reducer_ok_read [of parse fromq t] by (simp add: reducer_ok_def)
  have "reduction_state ?r = ClPendingQuestion q \<longleftrightarrow>
    (\<exists>i u. List.find is_ask (rd_open ?r) = Some (i, u) \<and> auq_tool_use_id q = Some i \<and>
       auq_questions q \<noteq> [] \<and> ot_questions u = Some (auq_questions q))"
    by (cases q) (auto simp: reduction_state_def split: option.split list.split)
  then show ?thesis
    by (auto simp: reduce_claude_read reduction_def Let_def find_first_key [OF ok])
qed

definition carries_reply :: "json \<Rightarrow> bool" where
  "carries_reply v \<longleftrightarrow>
     (case Option.bind (jget v ''message'') (\<lambda>m. jget m ''content'') of
        Some (JString s) \<Rightarrow> True
      | Some (JArray bs) \<Rightarrow>
          list_ex (\<lambda>b. get_str b ''type'' \<in> {Some ''tool_result'', Some ''text''}) bs
      | _ \<Rightarrow> False)"

lemma last_kind_reply_blocks:
  "list_ex (\<lambda>b. get_str b ''type'' \<in> {Some ''tool_result'', Some ''text''}) bs \<Longrightarrow>
   rd_last_kind (fold user_block bs r) \<in> {Some ''user_result'', Some ''user_text''}"
proof (induction bs arbitrary: r)
  case Nil
  then show ?case by simp
next
  case (Cons b bs)
  show ?case
  proof (cases "get_str b ''type'' \<in> {Some ''tool_result'', Some ''text''}")
    case True
    then have "rd_last_kind (user_block b r) \<in> {Some ''user_result'', Some ''user_text''}"
      by (auto simp: user_block_def Let_def)
    with last_kind_user_blocks [of bs "user_block b r"] show ?thesis by auto
  next
    case False
    with Cons show ?thesis by auto
  qed
qed

lemma last_kind_reply:
  "carries_reply v \<Longrightarrow> rd_last_kind (push_user v r) \<in> {Some ''user_result'', Some ''user_text''}"
  using last_kind_reply_blocks
  by (auto simp: carries_reply_def push_user_def Let_def split: option.splits json.splits)

text \<open>
  A user line that carries text or a tool result ends the error state: after such a line the
  reading is never in the error state, whatever came before.
\<close>

theorem reply_clears_error:
  assumes "parse (trim line) = Some v" "trim line \<noteq> []"
    and "get_str v ''type'' = Some ''user''" "carries_reply v"
  shows "reduction_state (push_line parse fromq line r) \<noteq> ClError m"
proof -
  have "rd_last_kind (push_user v s) \<noteq> Some ''api_error''" for s
    using last_kind_reply [OF assms(4), of s] by auto
  then have "rd_last_kind (push_line parse fromq line r) \<noteq> Some ''api_error''"
    by (simp add: push_line_def Let_def assms push_value_user)
  then show ?thesis
    by (auto simp: reduction_state_def split: option.split list.split)
qed

theorem reply_clears_error_witness:
  "reduction_state
     (push_line (\<lambda>_. Some (JObject [(''type'', JString ''user''),
          (''message'', JObject [(''content'', JString ''continue'')])])) (\<lambda>_. None) ''x''
        (claude_reducer_default\<lparr>rd_last_kind := Some ''api_error'', rd_api_error := Some ''e''\<rparr>))
   \<noteq> ClError ''e''"
  by (rule reply_clears_error [where v = "JObject [(''type'', JString ''user''),
          (''message'', JObject [(''content'', JString ''continue'')])]"])
     (simp_all add: text_simps json_simps carries_reply_def)

text \<open>
  A truncated text has at most one character more than the bound, is the trimmed text itself
  when that fits, and otherwise a prefix of it followed by the ellipsis.
\<close>

theorem truncate_chars_spec:
  "char_count (truncate_chars s n) \<le> n + 1 \<and>
   (if char_count (trim s) \<le> n then truncate_chars s n = trim s
    else \<exists>p. truncate_chars s n = p @ ellipsis \<and> prefix p (trim s))"
proof -
  have "prefix (concat (take n (chars_of t))) t" for t
    by (metis append_take_drop_id concat_append concat_chars_of prefixI)
  then show ?thesis
    using truncate_chars_length [of s n] by (auto simp: truncate_chars_def Let_def)
qed

definition codex_ok :: "codex_reduction \<Rightarrow> bool" where
  "codex_ok r \<longleftrightarrow>
     (\<forall>t. cx_state r = CxWorking t \<longrightarrow> t \<noteq> []) \<and>
     (\<forall>m. cx_state r = CxNeedsReplyMaybe m \<longrightarrow>
        (\<exists>l. looks_like_question l \<and> m = truncate_chars l 300))"

lemma codex_ok_payload: "codex_ok r \<Longrightarrow> codex_ok (codex_payload p r)"
  by (auto simp: codex_ok_def codex_payload_def Let_def unwrap_or_def split: option.split)

lemma codex_context_state: "cx_state (codex_context v r) = cx_state r"
  by (simp add: codex_context_def Let_def split: option.split)

lemma codex_ok_line: "codex_ok r \<Longrightarrow> codex_ok (codex_line parse line r)"
  using codex_context_state
  by (simp add: codex_line_def Let_def codex_ok_payload split: option.split) (simp add: codex_ok_def)

interpretation codex: invariant_machine "codex_line parse" codex_ok for parse
  by unfold_locales (rule codex_ok_line)

text \<open>
  A Codex rollout read to its end leaves a working state only with a non-empty turn identifier
  and a needs-reply state only for a last message that ends in a question mark, shown in at most
  301 characters.
\<close>

theorem codex_state_wf:
  "(\<forall>t. cx_state (reduce_codex parse rollout) = CxWorking t \<longrightarrow> t \<noteq> []) \<and>
   (\<forall>m. cx_state (reduce_codex parse rollout) = CxNeedsReplyMaybe m \<longrightarrow>
      char_count m \<le> 301 \<and> (\<exists>l. looks_like_question l \<and> m = truncate_chars l 300))"
proof -
  have "codex_ok codex_reduction_default"
    by (simp add: codex_ok_def codex_reduction_default_def)
  then have "codex_ok (reduce_codex parse rollout)"
    unfolding reduce_codex_def by (rule codex.run_inv)
  then show ?thesis
    using truncate_chars_length [of _ 300] by (fastforce simp: codex_ok_def)
qed

theorem codex_state_wf_witness:
  "\<exists>m. cx_state (reduce_codex
      (\<lambda>_. Some (JObject [(''type'', JString ''event_msg''),
         (''payload'', JObject [(''type'', JString ''task_complete''),
            (''last_agent_message'', JString ''ok?'')])])) ''x'') = CxNeedsReplyMaybe m
     \<and> char_count m \<le> 301"
proof -
  let ?p = "\<lambda>_. Some (JObject [(''type'', JString ''event_msg''),
         (''payload'', JObject [(''type'', JString ''task_complete''),
            (''last_agent_message'', JString ''ok?'')])])"
  have "cx_state (reduce_codex ?p ''x'') = CxNeedsReplyMaybe ''ok?''"
    by (simp add: reduce_codex_def codex_line_def codex_payload_def looks_like_question_def
        truncate_chars_def char_count_def text_simps json_simps Let_def)
  with codex_state_wf [of ?p "''x''"] show ?thesis by blast
qed


theorem pending_question_iff_witness:
  "cr_state (reduce_claude (\<lambda>_. Some (JObject [(''type'', JString ''assistant''),
      (''message'', JObject [(''content'', JArray [JObject [(''type'', JString ''tool_use''),
          (''id'', JString ''q1''), (''name'', JString ''AskUserQuestion''),
          (''input'', JObject [(''questions'', JNull)])]])])]))
      (\<lambda>_. Some [\<lparr>q_header = [], q_question = ''How?'', q_multi_select = False, q_options = []\<rparr>]) ''x'')
   = ClPendingQuestion
      \<lparr>auq_questions = [\<lparr>q_header = [], q_question = ''How?'', q_multi_select = False, q_options = []\<rparr>],
       auq_tool_use_id = Some ''q1''\<rparr>"
  by (rule pending_question_iff [THEN iffD2])
     (simp add: read_claude_def push_line_def push_value_def push_assistant_def note_header_def
       assistant_block_def tool_use_id_def open_tool_of_def is_ask_def
       claude_sidecars_def claude_reducer_default_def text_simps json_simps Let_def)

end
