(* ===== verification/Auth.thy ===== *)
theory Auth
  imports Rust_Data
begin

text \<open>
  Pairing of Telegram chats (\<open>crates/relay-agent/src/auth.rs\<close>): the chats allowed by the
  environment, those paired with the secret key, and the record of failed attempts that locks a
  chat out. An \<open>Instant\<close> is a number of nanoseconds. The digest of \<open>constant_eq\<close> (blake3) is the
  parameter \<open>digest\<close>, and whether the file write of \<open>persist\<close> succeeds is the parameter
  \<open>write_ok\<close>; the file's content is the component \<open>au_disk\<close> of the state. A call of \<open>try_pair\<close>
  is one step: calls that interleave at its awaits are not modelled. Sets of chats are sets,
  since the code never depends on their order.
\<close>

section \<open>State\<close>

type_synonym instant = nat
type_synonym chat = int

definition nanos :: "nat \<Rightarrow> nat" where
  "nanos secs = secs * 1000000000"

definition as_secs :: "nat \<Rightarrow> nat" where
  "as_secs d = d div 1000000000"

definition MAX_FAILS :: nat where "MAX_FAILS = 5"
definition LOCKOUT :: nat where "LOCKOUT = nanos 900"
definition WINDOW :: nat where "WINDOW = nanos 900"

datatype PairResult = Paired | Wrong | AlreadyAuthorized | NoSecret | Throttled nat

record attempt =
  at_fails :: nat
  at_window_start :: instant
  at_locked_until :: "instant option"

record auth =
  au_allowed_env :: "chat set"
  au_secret :: "string option"
  au_authorized :: "chat set"
  au_attempts :: "(chat \<times> attempt) list"
  au_disk :: "chat set"

section \<open>Operations\<close>

text \<open>\<open>stored\<close> is the list the state file holds, if it is there and parses.\<close>

definition auth_load :: "chat list \<Rightarrow> string option \<Rightarrow> chat list option \<Rightarrow> auth" where
  "auth_load allowed_env secret stored =
     \<lparr>au_allowed_env = set allowed_env, au_secret = secret,
      au_authorized = (case stored of None \<Rightarrow> {} | Some v \<Rightarrow> set v),
      au_attempts = [], au_disk = (case stored of None \<Rightarrow> {} | Some v \<Rightarrow> set v)\<rparr>"

definition has_secret :: "auth \<Rightarrow> bool" where
  "has_secret s \<longleftrightarrow> au_secret s \<noteq> None"

definition is_authorized :: "auth \<Rightarrow> chat \<Rightarrow> bool" where
  "is_authorized s chat \<longleftrightarrow> chat \<in> au_allowed_env s \<or> chat \<in> au_authorized s"

definition recipients :: "auth \<Rightarrow> chat set" where
  "recipients s = au_allowed_env s \<union> au_authorized s"

definition constant_eq :: "(string \<Rightarrow> 'd) \<Rightarrow> string \<Rightarrow> string \<Rightarrow> bool" where
  "constant_eq digest a b \<longleftrightarrow> digest a = digest b"

definition persist :: "bool \<Rightarrow> auth \<Rightarrow> auth" where
  "persist write_ok s = (if write_ok then s\<lparr>au_disk := au_authorized s\<rparr> else s)"

text \<open>The lock that is still running, if the chat has one.\<close>

definition running_lock :: "instant \<Rightarrow> chat \<Rightarrow> auth \<Rightarrow> instant option" where
  "running_lock now chat s =
     (case map_of (au_attempts s) chat of
        Some a \<Rightarrow> opt_filter (\<lambda>until. now < until) (at_locked_until a)
      | None \<Rightarrow> None)"

text \<open>The record of a chat whose window has passed starts again.\<close>

definition refresh_window :: "instant \<Rightarrow> chat \<Rightarrow> auth \<Rightarrow> auth" where
  "refresh_window now chat s =
     (case map_of (au_attempts s) chat of
        Some a \<Rightarrow>
          if WINDOW < now - at_window_start a
          then s\<lparr>au_attempts := AList.update chat
                   \<lparr>at_fails = 0, at_window_start = now, at_locked_until = None\<rparr> (au_attempts s)\<rparr>
          else s
      | None \<Rightarrow> s)"

definition fail_attempt :: "instant \<Rightarrow> chat \<Rightarrow> auth \<Rightarrow> PairResult \<times> auth" where
  "fail_attempt now chat s =
     (let a = unwrap_or \<lparr>at_fails = 0, at_window_start = now, at_locked_until = None\<rparr>
                (map_of (au_attempts s) chat);
          n = at_fails a + 1
      in if MAX_FAILS \<le> n
         then (Throttled (as_secs LOCKOUT),
               s\<lparr>au_attempts := AList.update chat
                   \<lparr>at_fails = 0, at_window_start = now, at_locked_until = Some (now + LOCKOUT)\<rparr>
                   (au_attempts s)\<rparr>)
         else (Wrong, s\<lparr>au_attempts := AList.update chat (a\<lparr>at_fails := n\<rparr>) (au_attempts s)\<rparr>))"

definition try_pair ::
  "(string \<Rightarrow> 'd) \<Rightarrow> bool \<Rightarrow> instant \<Rightarrow> chat \<Rightarrow> string \<Rightarrow> auth \<Rightarrow> PairResult \<times> auth" where
  "try_pair digest write_ok now chat key s =
     (case au_secret s of
        None \<Rightarrow> (NoSecret, s)
      | Some secret \<Rightarrow>
          if is_authorized s chat then (AlreadyAuthorized, s)
          else case running_lock now chat s of
                 Some until \<Rightarrow> (Throttled (as_secs (until - now) + 1), s)
               | None \<Rightarrow>
                   (let s1 = refresh_window now chat s
                    in if constant_eq digest (trim key) secret
                       then (Paired,
                             persist write_ok
                               (s1\<lparr>au_attempts := AList.delete chat (au_attempts s1),
                                  au_authorized := insert chat (au_authorized s1)\<rparr>))
                       else fail_attempt now chat s1))"

text \<open>Whether a call compares the key with the secret.\<close>

definition compares :: "instant \<Rightarrow> chat \<Rightarrow> auth \<Rightarrow> bool" where
  "compares now chat s \<longleftrightarrow>
     au_secret s \<noteq> None \<and> \<not> is_authorized s chat \<and> running_lock now chat s = None"

lemmas auth_defs =
  try_pair_def fail_attempt_def refresh_window_def running_lock_def persist_def constant_eq_def
  is_authorized_def compares_def

section \<open>Invariant\<close>

definition attempt_ok :: "attempt \<Rightarrow> bool" where
  "attempt_ok a \<longleftrightarrow>
     at_fails a < MAX_FAILS \<and>
     (\<forall>u. at_locked_until a = Some u \<longrightarrow> u = at_window_start a + LOCKOUT)"

definition auth_ok :: "auth \<Rightarrow> bool" where
  "auth_ok s \<longleftrightarrow>
     hm_ok (au_attempts s) \<and> (\<forall>c a. map_of (au_attempts s) c = Some a \<longrightarrow> attempt_ok a) \<and>
     au_disk s \<subseteq> au_authorized s"

type_synonym pair_call = "bool \<times> instant \<times> chat \<times> string"

definition pair_step :: "(string \<Rightarrow> 'd) \<Rightarrow> pair_call \<Rightarrow> auth \<Rightarrow> auth" where
  "pair_step digest c s =
     (case c of (write_ok, now, chat, key) \<Rightarrow> snd (try_pair digest write_ok now chat key s))"

lemma lookup_refresh:
  "map_of (au_attempts (refresh_window now chat s)) =
   (case map_of (au_attempts s) chat of
      Some a \<Rightarrow>
        if WINDOW < now - at_window_start a
        then (map_of (au_attempts s))
               (chat \<mapsto> \<lparr>at_fails = 0, at_window_start = now, at_locked_until = None\<rparr>)
        else map_of (au_attempts s)
    | None \<Rightarrow> map_of (au_attempts s))"
  by (simp add: refresh_window_def update_conv' split: option.split)

lemma refresh_frame [simp]:
  "au_authorized (refresh_window now chat s) = au_authorized s"
  "au_allowed_env (refresh_window now chat s) = au_allowed_env s"
  "au_secret (refresh_window now chat s) = au_secret s"
  "au_disk (refresh_window now chat s) = au_disk s"
  by (simp_all add: refresh_window_def split: option.split)

lemma fail_frame [simp]:
  "au_authorized (snd (fail_attempt now chat s)) = au_authorized s"
  "au_allowed_env (snd (fail_attempt now chat s)) = au_allowed_env s"
  "au_secret (snd (fail_attempt now chat s)) = au_secret s"
  "au_disk (snd (fail_attempt now chat s)) = au_disk s"
  by (simp_all add: fail_attempt_def Let_def)

lemma fail_not_paired [simp]: "fst (fail_attempt now chat s) \<noteq> Paired"
  by (simp add: fail_attempt_def Let_def)

lemma auth_ok_refresh: "auth_ok s \<Longrightarrow> auth_ok (refresh_window now chat s)"
  by (auto simp: auth_ok_def lookup_refresh attempt_ok_def MAX_FAILS_def refresh_window_def
      hm.ok_put update_conv' split: option.splits if_splits)

lemma auth_ok_fail: "auth_ok s \<Longrightarrow> auth_ok (snd (fail_attempt now chat s))"
proof -
  assume s: "auth_ok s"
  define a where
    "a = unwrap_or \<lparr>at_fails = 0, at_window_start = now, at_locked_until = None\<rparr>
           (map_of (au_attempts s) chat)"
  have "attempt_ok a"
    using s by (auto simp: a_def auth_ok_def attempt_ok_def MAX_FAILS_def unwrap_or_def
        split: option.split)
  then show ?thesis
    using s unfolding fail_attempt_def Let_def a_def [symmetric]
    by (auto simp: auth_ok_def hm.ok_put update_conv' attempt_ok_def MAX_FAILS_def)
qed

lemma auth_ok_try_pair: "auth_ok s \<Longrightarrow> auth_ok (snd (try_pair digest w now chat key s))"
  using auth_ok_fail [OF auth_ok_refresh, of s now chat now chat] auth_ok_refresh [of s now chat]
  by (auto simp: try_pair_def Let_def persist_def auth_ok_def hm.ok_del delete_conv'
      split: option.split)

interpretation pairing: invariant_machine "pair_step digest" auth_ok for digest
  by unfold_locales (auto simp: pair_step_def auth_ok_try_pair split: prod.split)

section \<open>How often a key is tried\<close>

fun compared :: "(string \<Rightarrow> 'd) \<Rightarrow> chat \<Rightarrow> pair_call list \<Rightarrow> auth \<Rightarrow> nat" where
  "compared digest c [] s = 0"
| "compared digest c ((w, now, ch, key) # es) s =
     (if ch = c \<and> compares now c s then 1 else 0) +
     compared digest c es (snd (try_pair digest w now ch key s))"

text \<open>How many more keys of a chat can be compared before it is locked, paired or refused.\<close>

definition budget :: "chat \<Rightarrow> auth \<Rightarrow> nat" where
  "budget c s =
     (if is_authorized s c then 0
      else case map_of (au_attempts s) c of
             None \<Rightarrow> MAX_FAILS
           | Some a \<Rightarrow> if at_locked_until a = None then MAX_FAILS - at_fails a else 0)"

definition since :: "instant \<Rightarrow> chat \<Rightarrow> auth \<Rightarrow> bool" where
  "since start c s \<longleftrightarrow> (\<forall>a. map_of (au_attempts s) c = Some a \<longrightarrow> start \<le> at_window_start a)"

lemma refresh_none:
  assumes "since start c s" "now < start + LOCKOUT"
  shows "refresh_window now c s = s"
  using assms by (auto simp: since_def refresh_window_def LOCKOUT_def WINDOW_def split: option.split)

lemma other_chat:
  assumes "ch \<noteq> c"
  shows "map_of (au_attempts (snd (try_pair digest w now ch key s))) c = map_of (au_attempts s) c"
    and "is_authorized (snd (try_pair digest w now ch key s)) c = is_authorized s c"
  using assms
  by (auto simp: try_pair_def Let_def persist_def fail_attempt_def lookup_refresh update_conv'
      delete_conv' is_authorized_def split: option.split)

lemma same_chat:
  assumes s: "auth_ok s" "since start c s" and now: "start \<le> now" "now < start + LOCKOUT"
  shows "since start c (snd (try_pair digest w now c key s))"
    and "(if compares now c s then 1 else 0) + budget c (snd (try_pair digest w now c key s))
           \<le> budget c s"
proof -
  note r = refresh_none [OF s(2) now(2)]
  have ok: "map_of (au_attempts s) c = Some a \<Longrightarrow> attempt_ok a" for a
    using s(1) by (simp add: auth_ok_def)
  have lock: "map_of (au_attempts s) c = Some a \<Longrightarrow> at_locked_until a = Some u \<Longrightarrow> now < u" for a u
    using ok [of a] s(2) now by (auto simp: attempt_ok_def since_def)
  show "since start c (snd (try_pair digest w now c key s))"
    using s(2) now(1)
    by (auto simp: try_pair_def Let_def r since_def fail_attempt_def persist_def update_conv'
        delete_conv' unwrap_or_def split: option.splits)
  show "(if compares now c s then 1 else 0) + budget c (snd (try_pair digest w now c key s))
      \<le> budget c s"
  proof (cases "compares now c s")
    case False
    then have "snd (try_pair digest w now c key s) = s"
      by (auto simp: try_pair_def compares_def split: option.split)
    with False show ?thesis by simp
  next
    case True
    then obtain secret where secret: "au_secret s = Some secret" and na: "\<not> is_authorized s c"
      and nl: "running_lock now c s = None"
      by (auto simp: compares_def)
    then have unlocked: "map_of (au_attempts s) c = Some a \<Longrightarrow> at_locked_until a = None" for a
      using lock [of a] by (cases "at_locked_until a") (auto simp: running_lock_def)
    show ?thesis
    proof (cases "constant_eq digest (trim key) secret")
      case True
      have "is_authorized (snd (try_pair digest w now c key s)) c"
        using secret na nl True by (simp add: try_pair_def Let_def is_authorized_def persist_def)
      then have 0: "budget c (snd (try_pair digest w now c key s)) = 0"
        by (simp add: budget_def)
      have "1 \<le> budget c s"
        using na unlocked ok by (auto simp: budget_def MAX_FAILS_def attempt_ok_def split: option.split)
      with 0 show ?thesis by simp
    next
      case False
      then have "snd (try_pair digest w now c key s) = snd (fail_attempt now c s)"
        using secret na nl by (simp add: try_pair_def r)
      moreover have "1 + budget c (snd (fail_attempt now c s)) \<le> budget c s"
      proof (cases "map_of (au_attempts s) c")
        case None
        with na show ?thesis
          by (simp add: budget_def fail_attempt_def Let_def update_conv' is_authorized_def MAX_FAILS_def)
      next
        case (Some a)
        with na unlocked ok [OF Some] show ?thesis
          by (auto simp: budget_def fail_attempt_def Let_def update_conv' is_authorized_def
              attempt_ok_def MAX_FAILS_def)
      qed
      ultimately show ?thesis using \<open>compares now c s\<close> by simp
    qed
  qed
qed

lemma compared_budget:
  assumes "auth_ok s" "since start c s"
    and "\<forall>(w, now, ch, key) \<in> set es. start \<le> now \<and> now < start + LOCKOUT"
  shows "compared digest c es s \<le> budget c s"
  using assms
proof (induction digest c es s rule: compared.induct)
  case (1 digest c s)
  then show ?case by simp
next
  case (2 digest c w now ch key es s)
  let ?s = "snd (try_pair digest w now ch key s)"
  have now: "start \<le> now" "now < start + LOCKOUT" and ok: "auth_ok ?s"
    using 2 by (auto simp: auth_ok_try_pair)
  have rest: "\<forall>(w, now, ch, key) \<in> set es. start \<le> now \<and> now < start + LOCKOUT"
    using "2.prems"(3) by auto
  show ?case
  proof (cases "ch = c")
    case True
    have IH: "compared digest c es ?s \<le> budget c ?s"
      using same_chat(1) [OF "2.prems"(1,2) now] True by (intro "2.IH" ok rest) simp
    with same_chat(2) [OF "2.prems"(1,2) now, of digest w key] True show ?thesis by simp
  next
    case False
    have "since start c ?s" and b: "budget c ?s = budget c s"
      using "2.prems"(2) other_chat [OF False, of digest w now key s]
      by (simp_all add: since_def budget_def)
    with "2.IH" [OF ok _ rest] False show ?thesis by simp
  qed
qed

section \<open>Properties\<close>



text \<open>
  A call pairs a chat only when a secret is set, the chat was not authorized and not locked, and
  the digest of its trimmed key is the secret's; it then authorizes that chat and no other.
\<close>

theorem paired_only_with_secret:
  assumes "try_pair digest w now chat key s = (Paired, s')"
  shows "\<exists>secret. au_secret s = Some secret \<and> digest (trim key) = digest secret \<and>
           \<not> is_authorized s chat \<and> running_lock now chat s = None \<and>
           au_authorized s' = insert chat (au_authorized s) \<and>
           map_of (au_attempts s') chat = None"
proof -
  have "fail_attempt now chat (refresh_window now chat s) \<noteq> (Paired, s')"
    by (metis fail_not_paired fst_conv)
  with assms show ?thesis
    by (auto simp: try_pair_def Let_def constant_eq_def persist_def delete_conv'
        split: option.splits if_splits)
qed

theorem paired_only_with_secret_witness:
  "\<exists>secret. Some ''k'' = Some secret \<and> ''k'' = secret"
  using paired_only_with_secret [where digest = "\<lambda>x. x" and w = True and now = 0 and chat = 7
      and key = "''k''" and s = "auth_load [] (Some ''k'') None"
      and s' = "snd (try_pair (\<lambda>x. x) True 0 7 ''k'' (auth_load [] (Some ''k'') None))"]
  by (simp add: auth_load_def auth_defs Let_def text_simps)

lemma authorized_step:
  "au_secret (pair_step digest e s) = au_secret s"
  "au_authorized s \<subseteq> au_authorized (pair_step digest e s)"
  "chat \<in> au_authorized (pair_step digest e s) \<Longrightarrow> chat \<notin> au_authorized s \<Longrightarrow>
   \<exists>w now key secret. e = (w, now, chat, key) \<and> au_secret s = Some secret \<and>
      digest (trim key) = digest secret"
  by (auto simp: pair_step_def try_pair_def Let_def persist_def constant_eq_def
      split: option.splits if_splits prod.splits)

text \<open>
  Over any sequence of calls an authorized chat stays authorized, and a chat that the calls add
  is one whose key matched: nobody is paired without the secret.
\<close>

theorem authorized_run:
  "au_authorized s \<subseteq> au_authorized (fold (pair_step digest) es s) \<and>
   (\<forall>chat \<in> au_authorized (fold (pair_step digest) es s) - au_authorized s.
      \<exists>w now key secret. (w, now, chat, key) \<in> set es \<and> au_secret s = Some secret \<and>
        digest (trim key) = digest secret)"
proof (induction es arbitrary: s)
  case Nil
  then show ?case by simp
next
  case (Cons e es)
  let ?s = "pair_step digest e s"
  have sub: "au_authorized s \<subseteq> au_authorized (fold (pair_step digest) (e # es) s)"
    using Cons.IH [of ?s] authorized_step(2) [of s digest e] by simp blast
  have "\<exists>w now key secret. (w, now, chat, key) \<in> set (e # es) \<and> au_secret s = Some secret \<and>
        digest (trim key) = digest secret"
    if "chat \<in> au_authorized (fold (pair_step digest) (e # es) s) - au_authorized s" for chat
  proof (cases "chat \<in> au_authorized ?s")
    case True
    with authorized_step(3) [of chat digest e s] that show ?thesis by (metis DiffE list.set_intros(1))
  next
    case False
    with that have "chat \<in> au_authorized (fold (pair_step digest) es ?s) - au_authorized ?s"
      by simp
    with Cons.IH [of ?s] obtain w now key secret where
      "(w, now, chat, key) \<in> set es" "au_secret ?s = Some secret"
      "digest (trim key) = digest secret"
      by blast
    then show ?thesis by (auto simp: authorized_step(1))
  qed
  with sub show ?case by blast
qed

theorem authorized_run_witness:
  "\<exists>w now key secret. (w, now, 7, key) \<in> set [(True, 0::nat, 7::int, ''k'')] \<and>
     Some ''k'' = Some secret \<and> trim key = secret"
  using authorized_run [where digest = "\<lambda>x. x" and s = "auth_load [] (Some ''k'') None"
      and es = "[(True, 0, 7, ''k'')]"]
  by (simp add: auth_load_def pair_step_def auth_defs Let_def text_simps)

text \<open>
  In every run from a loaded state the failure counter stays below five, a lock lasts exactly
  900 seconds from the failure that set it, and the file never holds a chat that is not authorized.
\<close>

theorem attempts_wellformed:
  "auth_ok (fold (pair_step digest) es (auth_load allowed secret stored))"
  by (rule pairing.run_inv) (simp add: auth_load_def auth_ok_def hm_ok_def split: option.split)

end
