(* ===== verification/Callbacks.thy ===== *)
theory Callbacks
  imports Rust_Data
begin

text \<open>
  The stores behind the Telegram buttons (\<open>crates/relay-agent/src/actions.rs\<close>). A button carries at
  most 64 bytes, so a longer payload is kept in a bounded store and the button carries its number.
  The store's \<open>order\<close> is the queue of its numbers, oldest first. A number is a \<open>u32\<close>; the counter
  never overflows, because it goes back to 1 after the largest value, so numbers are natural numbers
  here with that bound written out.
\<close>

section \<open>The store\<close>

definition CAP :: nat where "CAP = 4096"
definition MAX_INLINE :: nat where "MAX_INLINE = 60"
definition U32_MAX :: nat where "U32_MAX = 2 ^ 32 - 1"

record cb_store =
  st_map :: "(nat \<times> string) list"
  st_order :: "nat list"
  st_next :: nat

definition store_new :: cb_store where
  "store_new = \<lparr>st_map = [], st_order = [], st_next = 1\<rparr>"

definition next_id :: "nat \<Rightarrow> nat" where
  "next_id n = (if n = U32_MAX then 1 else n + 1)"

text \<open>The loop that drops the oldest entries while there are more than \<open>CAP\<close>.\<close>

function store_evict :: "cb_store \<Rightarrow> cb_store" where
  "store_evict s =
     (if CAP < length (st_order s)
      then store_evict (s\<lparr>st_order := tl (st_order s),
                          st_map := AList.delete (hd (st_order s)) (st_map s)\<rparr>)
      else s)"
  by pat_completeness auto
termination
  by (relation "measure (\<lambda>s. length (st_order s))") (auto simp: CAP_def)

declare store_evict.simps [simp del]

definition store_put :: "string \<Rightarrow> cb_store \<Rightarrow> nat \<times> cb_store" where
  "store_put data s =
     (let i = st_next s
      in (i, store_evict (s\<lparr>st_next := next_id i,
                            st_map := AList.update i data (st_map s),
                            st_order := st_order s @ [i]\<rparr>)))"

definition store_get :: "cb_store \<Rightarrow> nat \<Rightarrow> string option" where
  "store_get s i = map_of (st_map s) i"

definition encode :: "string \<Rightarrow> cb_store \<Rightarrow> string \<times> cb_store" where
  "encode data s =
     (if length data \<le> MAX_INLINE \<and> \<not> starts_with ''x:'' data then (data, s)
      else (let (i, s') = store_put data s in (''x:'' @ dec i, s')))"

definition decode :: "string \<Rightarrow> cb_store \<Rightarrow> string option" where
  "decode data s =
     Option.bind (strip_prefix ''x:'' data) (\<lambda>ds.
       Option.bind (parse_uint U32_MAX ds) (store_get s))"

text \<open>How every caller reads a button: \<open>decode(data).unwrap_or(data)\<close>.\<close>

definition decode_or_raw :: "string \<Rightarrow> cb_store \<Rightarrow> string" where
  "decode_or_raw data s = unwrap_or data (decode data s)"

section \<open>Invariant\<close>

text \<open>
  The queue holds consecutive numbers that end just before the next one; the map holds exactly the
  queued numbers.
\<close>

definition runs_to :: "nat list \<Rightarrow> nat \<Rightarrow> bool" where
  "runs_to is n \<longleftrightarrow> (\<forall>j < length is. (next_id ^^ (length is - j)) (is ! j) = n)"

definition store_ok :: "cb_store \<Rightarrow> bool" where
  "store_ok s \<longleftrightarrow>
     hm_ok (st_map s) \<and> fst ` set (st_map s) = set (st_order s) \<and>
     length (st_order s) \<le> CAP \<and>
     runs_to (st_order s) (st_next s) \<and>
     (\<forall>i \<in> set (st_order s). 1 \<le> i \<and> i \<le> U32_MAX) \<and> 1 \<le> st_next s \<and> st_next s \<le> U32_MAX"

lemma runs_to_Nil: "runs_to [] n"
  by (simp add: runs_to_def)

lemma runs_to_snoc: "runs_to is i \<Longrightarrow> runs_to (is @ [i]) (next_id i)"
  by (auto simp: runs_to_def nth_append less_Suc_eq Suc_diff_le)

lemma runs_to_tl: "runs_to is n \<Longrightarrow> runs_to (tl is) n"
  by (auto simp: runs_to_def nth_tl)

lemma next_id_range: "1 \<le> i \<Longrightarrow> i \<le> U32_MAX \<Longrightarrow> 1 \<le> next_id i \<and> next_id i \<le> U32_MAX"
  by (auto simp: next_id_def U32_MAX_def)

lemma next_id_pow:
  assumes "1 \<le> i" "i \<le> U32_MAX"
  shows "(next_id ^^ k) i = (i - 1 + k) mod U32_MAX + 1"
proof (induction k)
  case 0
  have "i - 1 < U32_MAX" using assms by linarith
  with assms show ?case by simp
next
  case (Suc k)
  have M: "0 < U32_MAX" by (simp add: U32_MAX_def)
  have "(next_id ^^ Suc k) i = next_id ((i - 1 + k) mod U32_MAX + 1)" by (simp add: Suc)
  also have "\<dots> = Suc (i - 1 + k) mod U32_MAX + 1"
    unfolding next_id_def mod_Suc by simp
  finally show ?case by simp
qed

text \<open>A number comes back only after \<open>U32_MAX\<close> steps.\<close>

lemma next_id_cycle:
  assumes "1 \<le> i" "i \<le> U32_MAX" "(next_id ^^ a) i = (next_id ^^ b) i" "a \<le> b" "b - a < U32_MAX"
  shows "a = b"
proof -
  have "(i - 1 + a) mod U32_MAX = (i - 1 + b) mod U32_MAX"
    using assms(3) by (simp add: next_id_pow [OF assms(1,2)])
  then have "U32_MAX dvd (i - 1 + b) - (i - 1 + a)"
    using assms(4) by (metis add_le_cancel_left mod_eq_dvd_iff_nat)
  then have "U32_MAX dvd b - a" using assms(4) by simp
  with assms(5) have "b - a = 0" by (meson nat_dvd_not_less not_gr_zero)
  with assms(4) show ?thesis by simp
qed

lemma CAP_small: "CAP < U32_MAX"
  by (simp add: CAP_def U32_MAX_def)

lemma order_fresh:
  assumes "store_ok s"
  shows "st_next s \<notin> set (st_order s)" and "distinct (st_order s)"
proof -
  let ?is = "st_order s"
  have run: "\<And>j. j < length ?is \<Longrightarrow> (next_id ^^ (length ?is - j)) (?is ! j) = st_next s"
    and len: "length ?is \<le> CAP"
    and rng: "\<And>j. j < length ?is \<Longrightarrow> 1 \<le> ?is ! j \<and> ?is ! j \<le> U32_MAX"
    using assms by (simp_all add: store_ok_def runs_to_def)
  have short: "x - y < U32_MAX" if "x \<le> length ?is" for x y
    using that len CAP_small by linarith
  show "st_next s \<notin> set ?is"
  proof
    assume "st_next s \<in> set ?is"
    then obtain j where j: "j < length ?is" "?is ! j = st_next s" by (auto simp: in_set_conv_nth)
    have "(next_id ^^ 0) (?is ! j) = (next_id ^^ (length ?is - j)) (?is ! j)"
      unfolding run [OF j(1)] using j(2) by simp
    from next_id_cycle [OF _ _ this _ short] rng [OF j(1)] have "0 = length ?is - j" by simp
    with j show False by simp
  qed
  have no: False if a: "a < b" and b: "b < length ?is" and eq: "?is ! a = ?is ! b" for a b
  proof -
    have a': "a < length ?is" using a b by simp
    have "(next_id ^^ (length ?is - b)) (?is ! a) = (next_id ^^ (length ?is - a)) (?is ! a)"
      unfolding run [OF a'] using run [OF b] eq by simp
    from next_id_cycle [OF _ _ this _ short] rng [OF a'] a have "length ?is - b = length ?is - a"
      by simp
    with a b show False by simp
  qed
  show "distinct ?is"
    unfolding distinct_conv_nth using no by (metis linorder_neqE_nat)
qed

lemma evict_short: "length (st_order s) \<le> CAP \<Longrightarrow> store_evict s = s"
  by (subst store_evict.simps) simp

lemma evict_once:
  assumes "length (st_order s) = CAP + 1"
  shows "store_evict s =
    s\<lparr>st_order := tl (st_order s), st_map := AList.delete (hd (st_order s)) (st_map s)\<rparr>"
  by (subst store_evict.simps, subst evict_short) (simp_all add: assms)

lemma keys_update: "fst ` set (AList.update k v m) = insert k (fst ` set m)"
  unfolding dom_map_of_conv_image_fst [symmetric] by (simp add: update_conv')

lemma keys_delete: "fst ` set (AList.delete k m) = fst ` set m - {k}"
  unfolding dom_map_of_conv_image_fst [symmetric] by (auto simp: delete_conv')

lemma store_ok_new: "store_ok store_new"
  by (simp add: store_ok_def store_new_def hm_ok_def runs_to_def U32_MAX_def)

lemma store_ok_evict:
  assumes "store_ok (s\<lparr>st_order := [], st_map := []\<rparr>)" "hm_ok (st_map s)"
    "fst ` set (st_map s) = set (st_order s)" "runs_to (st_order s) (st_next s)"
    "\<forall>i \<in> set (st_order s). 1 \<le> i \<and> i \<le> U32_MAX" "distinct (st_order s)"
    "length (st_order s) \<le> CAP + 1"
  shows "store_ok (store_evict s)"
proof (cases "length (st_order s) = CAP + 1")
  case True
  then obtain x xs where o: "st_order s = x # xs" by (cases "st_order s") auto
  show ?thesis
    unfolding evict_once [OF True] store_ok_def
    using assms runs_to_tl [OF assms(4)] o
    by (simp add: keys_delete hm.ok_del store_ok_def)
next
  case False
  then have "length (st_order s) \<le> CAP" using assms by simp
  then show ?thesis using assms by (simp add: evict_short store_ok_def)
qed

lemma store_ok_put:
  assumes "store_ok s"
  shows "store_ok (snd (store_put data s))"
  unfolding store_put_def Let_def snd_conv
  using assms order_fresh [OF assms] next_id_range [of "st_next s"]
  by (intro store_ok_evict)
     (simp_all add: store_ok_def keys_update hm.ok_put runs_to_snoc hm.ok_empty runs_to_Nil)

interpretation callbacks: invariant_machine "\<lambda>d s. snd (store_put d s)" store_ok
  by unfold_locales (rule store_ok_put)

section \<open>What a later put keeps\<close>

text \<open>The entry \<open>i\<close> holds \<open>d\<close> and at most \<open>k\<close> numbers are younger.\<close>

definition holds :: "nat \<Rightarrow> string \<Rightarrow> nat \<Rightarrow> cb_store \<Rightarrow> bool" where
  "holds i d k s \<longleftrightarrow>
     store_get s i = Some d \<and> (\<exists>pre post. st_order s = pre @ i # post \<and> length post \<le> k)"

lemma holds_put:
  assumes "store_ok s"
  shows "holds (fst (store_put d s)) d 0 (snd (store_put d s))"
proof (cases "length (st_order s) = CAP")
  case True
  then obtain x xs where o: "st_order s = x # xs" by (cases "st_order s") (auto simp: CAP_def)
  with order_fresh(1) [OF assms] have "x \<noteq> st_next s" by auto
  then show ?thesis
    by (simp add: store_put_def Let_def evict_once True o [symmetric])
       (simp add: o holds_def store_get_def update_conv' delete_conv')
next
  case False
  with assms have "length (st_order s) < CAP" by (simp add: store_ok_def)
  then show ?thesis
    by (simp add: store_put_def Let_def evict_short holds_def store_get_def update_conv')
qed

lemma holdsI:
  "map_of (st_map s) i = Some d \<Longrightarrow> st_order s = pre @ i # post \<Longrightarrow> length post \<le> k \<Longrightarrow>
   holds i d k s"
  unfolding holds_def store_get_def by blast

lemma holds_later:
  assumes ok: "store_ok s" and h: "holds i d k s" and k: "k + 1 < CAP"
  shows "holds i d (k + 1) (snd (store_put e s))"
proof -
  obtain pre post where o: "st_order s = pre @ i # post" and post: "length post \<le> k"
    using h by (auto simp: holds_def)
  have ne: "st_next s \<noteq> i" using order_fresh(1) [OF ok] o by auto
  have dist: "distinct (st_order s)" using order_fresh(2) [OF ok] .
  have get: "map_of (st_map s) i = Some d" using h by (simp add: holds_def store_get_def)
  have len: "length (st_order s) \<le> CAP" using ok by (simp add: store_ok_def)
  show ?thesis
  proof (cases "length (st_order s) = CAP")
    case True
    with o post k obtain x xs where pre: "pre = x # xs" by (cases pre) auto
    with dist o have x: "x \<noteq> i" by auto
    have hd: "hd (st_order s @ [st_next s]) = x" and tl:
      "tl (st_order s @ [st_next s]) = xs @ i # (post @ [st_next s])"
      by (simp_all add: o pre)
    show ?thesis
      unfolding store_put_def Let_def snd_conv
      by (rule holdsI [where pre = xs and post = "post @ [st_next s]"])
         (simp_all add: evict_once True hd tl post update_conv' delete_conv' get ne [symmetric] x [symmetric])
  next
    case False
    with len have "length (st_order s @ [st_next s]) \<le> CAP" by simp
    then show ?thesis
      unfolding store_put_def Let_def snd_conv
      by (intro holdsI [where pre = pre and post = "post @ [st_next s]"])
         (simp_all add: evict_short o post update_conv' get ne [symmetric])
  qed
qed

lemma holds_run:
  assumes "store_ok s" "holds i d k s" "k + length es < CAP"
  shows "holds i d (k + length es) (fold (\<lambda>d s. snd (store_put d s)) es s)"
  using assms
proof (induction es arbitrary: s k)
  case Nil
  then show ?case by simp
next
  case (Cons e es)
  have "holds i d (k + 1) (snd (store_put e s))"
    using Cons.prems by (intro holds_later) auto
  with Cons.IH [of "snd (store_put e s)" "k + 1"] Cons.prems show ?case
    by (simp add: store_ok_put)
qed

section \<open>Properties\<close>

text \<open>
  C26. A button's payload survives: whatever is encoded is read back unchanged, from any reachable
  store and after up to 4095 further entries, whether it travelled inline or by number.
\<close>

theorem callback_roundtrip:
  assumes "encode data (fold (\<lambda>d s. snd (store_put d s)) ds store_new) = (b, s')"
    and "length es < 4096"
  shows "decode_or_raw b (fold (\<lambda>d s. snd (store_put d s)) es s') = data"
proof -
  let ?s = "fold (\<lambda>d s. snd (store_put d s)) ds store_new"
  have ok: "store_ok ?s" by (rule callbacks.run_inv [OF store_ok_new])
  show ?thesis
  proof (cases "length data \<le> MAX_INLINE \<and> \<not> starts_with ''x:'' data")
    case True
    with assms(1) show ?thesis
      by (auto simp: encode_def decode_or_raw_def decode_def strip_prefix_def)
  next
    case False
    then have b: "b = ''x:'' @ dec (st_next ?s)" and s': "s' = snd (store_put data ?s)"
      using assms(1) by (auto simp: encode_def store_put_def Let_def split: prod.splits)
    have "holds (st_next ?s) data (0 + length es) (fold (\<lambda>d s. snd (store_put d s)) es s')"
      unfolding s' using holds_put [OF ok, of data] assms(2)
      by (intro holds_run store_ok_put ok) (simp_all add: store_put_def Let_def CAP_def)
    moreover have "parse_uint U32_MAX (dec (st_next ?s)) = Some (st_next ?s)"
      using ok by (intro parse_uint_dec) (simp add: store_ok_def)
    moreover have "strip_prefix ''x:'' b = Some (dec (st_next ?s))"
      by (simp add: b strip_prefix_def)
    ultimately show ?thesis
      by (simp add: decode_or_raw_def decode_def holds_def)
  qed
qed

theorem callback_roundtrip_witness:
  "decode_or_raw (fst (encode ''x:1'' store_new))
     (fold (\<lambda>d s. snd (store_put d s)) [''other''] (snd (encode ''x:1'' store_new))) = ''x:1''"
  by (rule callback_roundtrip [where ds = "[]"]) simp_all

text \<open>What a button carries is at most 64 bytes, the limit Telegram sets.\<close>

theorem encode_fits:
  assumes "store_ok s"
  shows "length (fst (encode data s)) \<le> 64"
proof -
  have "st_next s < 10 ^ Suc 9" using assms by (simp add: store_ok_def U32_MAX_def)
  from dec_length_le [OF this] show ?thesis
    by (auto simp: encode_def MAX_INLINE_def store_put_def Let_def)
qed

theorem encode_fits_witness: "length (fst (encode (replicate 100 CHR ''a'') store_new)) \<le> 64"
  by (rule encode_fits [OF store_ok_new])

end
