(* ===== verification/Events.thy ===== *)
theory Events
  imports Core_State
begin

text \<open>
  Events and their fingerprints (\<open>crates/relay-core/src/event.rs\<close>, \<open>ids.rs\<close>, \<open>model.rs\<close>). The
  hasher (blake3) is the parameter \<open>digest\<close>, from the bytes it was fed to their hexadecimal digest.
  A workspace path is its text. Times are milliseconds.
\<close>

section \<open>Data\<close>

datatype EventSource = Hook | Tail | Sqlite | ControlResult

datatype AgentKind = ClaudeCode | Codex

definition agent_str :: "AgentKind \<Rightarrow> string" where
  "agent_str a = (case a of ClaudeCode \<Rightarrow> ''claude'' | Codex \<Rightarrow> ''codex'')"

datatype EventKind =
    SessionStarted string
  | StateChanged string string
  | TurnComplete string "u64 option"
  | QuestionAsked ask_user_question
  | AwaitingPermission string "string option" bool
  | ErrorEvent string
  | SubagentActivity u16
  | ModeChanged string string bool
  | AutoAction string string
  | SessionEnded

fun event_tag :: "EventKind \<Rightarrow> string" where
  "event_tag (SessionStarted _) = ''session_started''"
| "event_tag (StateChanged _ _) = ''state_changed''"
| "event_tag (TurnComplete _ _) = ''turn_complete''"
| "event_tag (QuestionAsked _) = ''question_asked''"
| "event_tag (AwaitingPermission _ _ _) = ''awaiting_permission''"
| "event_tag (ErrorEvent _) = ''error''"
| "event_tag (SubagentActivity _) = ''subagent_activity''"
| "event_tag (ModeChanged _ _ _) = ''mode_changed''"
| "event_tag (AutoAction _ _) = ''auto_action''"
| "event_tag SessionEnded = ''session_ended''"

fun event_actionable :: "EventKind \<Rightarrow> bool" where
  "event_actionable (QuestionAsked _) = True"
| "event_actionable (AwaitingPermission _ _ _) = True"
| "event_actionable (ErrorEvent _) = True"
| "event_actionable (ModeChanged _ _ alert) = alert"
| "event_actionable _ = False"

fun normalized_text :: "EventKind \<Rightarrow> string" where
  "normalized_text (QuestionAsked q) =
     join ''||'' (map (\<lambda>x. join '' '' (split_whitespace (q_question x)) @ ''|'' @
                            join '','' (map qo_label (q_options x))) (auq_questions q))"
| "normalized_text (AwaitingPermission tool target _) = tool @ ''|'' @ unwrap_or [] target"
| "normalized_text (TurnComplete excerpt _) = excerpt"
| "normalized_text (StateChanged a b) = a @ ''->'' @ b"
| "normalized_text (ModeChanged a b _) = a @ ''->'' @ b"
| "normalized_text (AutoAction action detail) = action @ ''|'' @ detail"
| "normalized_text (ErrorEvent message) = message"
| "normalized_text (SubagentActivity n) = dec (unat n)"
| "normalized_text (SessionStarted entrypoint) = entrypoint"
| "normalized_text SessionEnded = []"

fun visible_actions :: "EventKind \<Rightarrow> string" where
  "visible_actions (AwaitingPermission _ _ _) = ''approve|deny''"
| "visible_actions (QuestionAsked q) =
     join ''|'' (map dec [0..<sum_list (map (\<lambda>x. length (q_options x)) (auq_questions q))])"
| "visible_actions (ErrorEvent _) = ''retry''"
| "visible_actions _ = []"

section \<open>The fingerprint\<close>

definition SEP :: char where "SEP = CHR 0x01"

text \<open>The bytes the hasher is fed, in order.\<close>

definition fingerprint_input ::
  "string \<Rightarrow> string \<Rightarrow> AgentKind \<Rightarrow> string \<Rightarrow> EventKind \<Rightarrow> string" where
  "fingerprint_input machine workspace agent session_ref kind =
     machine @ SEP # workspace @ SEP # agent_str agent @ SEP # session_ref @ SEP #
     event_tag kind @ SEP # normalized_text kind @ SEP # visible_actions kind"

definition fingerprint ::
  "(string \<Rightarrow> 'd) \<Rightarrow> string \<Rightarrow> string \<Rightarrow> AgentKind \<Rightarrow> string \<Rightarrow> EventKind \<Rightarrow> 'd" where
  "fingerprint digest machine workspace agent session_ref kind =
     digest (fingerprint_input machine workspace agent session_ref kind)"

record 'd relay_event =
  re_machine_id :: string
  re_workspace :: string
  re_git_branch :: "string option"
  re_agent :: AgentKind
  re_session_ref :: string
  re_title :: "string option"
  re_at :: int
  re_kind :: EventKind
  re_source :: EventSource
  re_fingerprint :: 'd
  re_actionable :: bool

definition relay_event_new ::
  "(string \<Rightarrow> 'd) \<Rightarrow> string \<Rightarrow> string \<Rightarrow> string option \<Rightarrow> AgentKind \<Rightarrow> string \<Rightarrow> string option \<Rightarrow> int \<Rightarrow>
   EventKind \<Rightarrow> EventSource \<Rightarrow> 'd relay_event" where
  "relay_event_new digest machine workspace branch agent session_ref title at kind source =
     \<lparr>re_machine_id = machine, re_workspace = workspace, re_git_branch = branch, re_agent = agent,
      re_session_ref = session_ref, re_title = title, re_at = at, re_kind = kind,
      re_source = source,
      re_fingerprint = fingerprint digest machine workspace agent session_ref kind,
      re_actionable = event_actionable kind\<rparr>"

section \<open>Windows\<close>

text \<open>The parts of a window entry its two methods read.\<close>

record ('c, 'x) window_agents =
  wa_claude :: "'c list"
  wa_codex :: "'x list"

definition workspace_alias :: "string \<Rightarrow> string" where
  "workspace_alias w = unwrap_or w (file_name w)"

definition agent_kinds :: "('c, 'x) window_agents \<Rightarrow> AgentKind list" where
  "agent_kinds w =
     (if wa_claude w \<noteq> [] then [ClaudeCode] else []) @ (if wa_codex w \<noteq> [] then [Codex] else [])"

definition chat_count :: "('c, 'x) window_agents \<Rightarrow> nat" where
  "chat_count w = length (wa_claude w) + length (wa_codex w)"

section \<open>The fingerprint tells cards apart\<close>

lemma agent_str_inj [simp]: "agent_str a = agent_str b \<longleftrightarrow> a = b"
  by (cases a; cases b) (simp_all add: agent_str_def)

lemma agent_no_sep: "SEP \<notin> set (agent_str a)"
  by (cases a) (simp_all add: agent_str_def SEP_def)

lemma tag_no_sep: "SEP \<notin> set (event_tag k)"
  by (cases k) (simp_all add: SEP_def)

lemma join_chars: "c \<in> set (join sep xs) \<Longrightarrow> c \<in> set sep \<or> (\<exists>x \<in> set xs. c \<in> set x)"
  by (induction sep xs rule: join.induct) auto

lemma visible_no_sep: "SEP \<notin> set (visible_actions k)"
proof (cases k)
  case (QuestionAsked q)
  have "\<not> is_ascii_digit SEP" by (simp add: SEP_def is_ascii_digit_def)
  then have "SEP \<notin> set (dec n)" for n using dec_digits by blast
  then show ?thesis
    using QuestionAsked by (auto dest!: join_chars simp: SEP_def)
qed (simp_all add: SEP_def)

text \<open>
  Two cards are fed to the hasher as the same bytes exactly when they agree in machine,
  workspace, agent, session, kind, text and buttons, whatever separator bytes their texts hold;
  only machine, workspace and session must be free of the separator. So under a hash without
  collisions the fingerprints agree on exactly those cards.
\<close>

theorem fingerprint_separates:
  assumes "SEP \<notin> set (m @ w @ s)" "SEP \<notin> set (m' @ w' @ s')" "inj digest"
  shows "fingerprint digest m w a s k = fingerprint digest m' w' a' s' k' \<longleftrightarrow>
    m = m' \<and> w = w' \<and> a = a' \<and> s = s' \<and> event_tag k = event_tag k' \<and>
    normalized_text k = normalized_text k' \<and> visible_actions k = visible_actions k'"
proof -
  have "fingerprint digest m w a s k = fingerprint digest m' w' a' s' k' \<longleftrightarrow>
      fingerprint_input m w a s k = fingerprint_input m' w' a' s' k'"
    using assms(3) by (simp add: fingerprint_def inj_eq)
  then show ?thesis
    using assms(1,2) agent_no_sep tag_no_sep
    by (simp add: fingerprint_input_def cut_first cut_last [OF visible_no_sep visible_no_sep])
qed

theorem fingerprint_separates_witness:
  "fingerprint id ''m'' ''/w'' Codex ''s'' (AwaitingPermission ''Bash'' (Some ''ls'') True) =
     fingerprint id ''m'' ''/w'' Codex ''s'' (AwaitingPermission ''Bash'' (Some ''ls'') False)"
proof -
  have "SEP \<notin> set (''m'' @ ''/w'' @ ''s'')" by (simp add: SEP_def)
  from fingerprint_separates [OF this this inj_on_id] show ?thesis by simp
qed

end
