(* ===== verification/Semantic_Config.thy ===== *)
theory Semantic_Config
  imports Rust_Data
begin

text \<open>
  The choice of the semantic provider (\<open>crates/relay-semantic/src/config.rs\<close>): which back end
  reads transcript text, whether that sends text off the machine, and what the operator is told.
  Floating-point fields are kept as their bit patterns.
\<close>

definition BUILTIN_MODEL_ID :: string where
  "BUILTIN_MODEL_ID = ''minilm-multilingual-nli-fp16-v2''"

datatype SemanticBackend = Off | Local | Ollama | OpenAiCompatible | AgentCli

definition backend_default :: "bool \<Rightarrow> SemanticBackend" where
  "backend_default linux = (if linux then Off else Local)"

definition backend_label :: "SemanticBackend \<Rightarrow> string" where
  "backend_label b =
     (case b of Off \<Rightarrow> ''off'' | Local \<Rightarrow> ''local'' | Ollama \<Rightarrow> ''ollama''
      | OpenAiCompatible \<Rightarrow> ''openai_compatible'' | AgentCli \<Rightarrow> ''agent_cli'')"

definition underscored :: "string \<Rightarrow> string" where
  "underscored s = map (\<lambda>c. if c = CHR ''-'' then CHR ''_'' else c) (to_ascii_lowercase (trim s))"

definition backend_parse :: "string \<Rightarrow> SemanticBackend option" where
  "backend_parse value =
     (let v = underscored value
      in if v \<in> set [''off'', ''none''] then Some Off
         else if v \<in> set [''local'', ''builtin''] then Some Local
         else if v = ''ollama'' then Some Ollama
         else if v \<in> set [''openai'', ''openai_compatible'', ''compatible'', ''custom'',
                          ''openrouter'', ''nvidia'', ''nim''] then Some OpenAiCompatible
         else if v \<in> set [''cli'', ''agent_cli'', ''claude'', ''codex'', ''gemini'', ''cursor'',
                          ''cursor_agent'', ''antigravity'', ''agy''] then Some AgentCli
         else None)"

definition canonical_cli :: "string \<Rightarrow> string option" where
  "canonical_cli name =
     (let v = underscored name
      in if v = ''claude'' then Some ''claude''
         else if v = ''codex'' then Some ''codex''
         else if v = ''gemini'' then Some ''gemini''
         else if v \<in> set [''cursor'', ''cursor_agent''] then Some ''cursor''
         else if v \<in> set [''antigravity'', ''agy''] then Some ''antigravity''
         else None)"

record semantic_config =
  sc_backend :: SemanticBackend
  sc_model :: string
  sc_endpoint :: "string option"
  sc_local_dir :: "string option"
  sc_cli_model :: "string option"
  sc_min_confidence :: u32
  sc_timeout_secs :: u64
  sc_allow_uncalibrated_steer :: bool

text \<open>The default confidence is the single-precision number nearest to 0.78.\<close>

definition semantic_default :: "bool \<Rightarrow> semantic_config" where
  "semantic_default linux =
     \<lparr>sc_backend = backend_default linux, sc_model = BUILTIN_MODEL_ID, sc_endpoint = None,
      sc_local_dir = None, sc_cli_model = None, sc_min_confidence = 0x3F47AE14,
      sc_timeout_secs = 45, sc_allow_uncalibrated_steer = False\<rparr>"

definition trim_end_char :: "char \<Rightarrow> string \<Rightarrow> string" where
  "trim_end_char c s = rev (dropWhile (\<lambda>x. x = c) (rev s))"

definition normalized_endpoint :: "semantic_config \<Rightarrow> string option" where
  "normalized_endpoint c =
     Option.bind (sc_endpoint c) (\<lambda>e.
       let raw = trim_end_char CHR ''/'' (trim e) in if raw = [] then None else Some raw)"

definition cli_provider :: "semantic_config \<Rightarrow> string option" where
  "cli_provider c = (if sc_backend c = AgentCli then canonical_cli (sc_model c) else None)"

definition sends_off_machine :: "semantic_config \<Rightarrow> bool" where
  "sends_off_machine c =
     (case sc_backend c of
        Off \<Rightarrow> False
      | Local \<Rightarrow> False
      | OpenAiCompatible \<Rightarrow> True
      | AgentCli \<Rightarrow> True
      | Ollama \<Rightarrow>
          (let endpoint = unwrap_or [] (normalized_endpoint c)
           in \<not> (endpoint = [] \<or> contains ''localhost'' endpoint \<or>
                 contains ''127.0.0.1'' endpoint \<or> contains ''::1'' endpoint)))"

definition off_machine_disclosure :: "semantic_config \<Rightarrow> string option" where
  "off_machine_disclosure c =
     (case cli_provider c of
        Some cli \<Rightarrow>
          Some (''transcript text (goal, messages, tool output) will be sent to the '' @
                [CHR 0x27] @ cli @ [CHR 0x27] @
                '' CLI, which relays it to that provider'' @ [CHR 0x27] @
                ''s cloud service; use provider '' @ [CHR 0x27] @ ''local'' @ [CHR 0x27] @
                '' to keep everything on-device'')
      | None \<Rightarrow>
          if sends_off_machine c
          then Some (''transcript text (goal, messages, tool output) will be sent off this machine to '' @
                     unwrap_or ''the configured endpoint'' (normalized_endpoint c) @
                     ''; use provider '' @ [CHR 0x27] @ ''local'' @ [CHR 0x27] @
                     '' to keep everything on-device'')
          else None)"

definition clear_builtin :: "semantic_config \<Rightarrow> semantic_config" where
  "clear_builtin c = (if sc_model c = BUILTIN_MODEL_ID then c\<lparr>sc_model := []\<rparr> else c)"

text \<open>An unknown preset is refused and leaves the configuration alone.\<close>

definition apply_preset :: "string \<Rightarrow> semantic_config \<Rightarrow> string + semantic_config" where
  "apply_preset preset c =
     (let p = to_ascii_lowercase (trim preset)
      in if p = ''off'' then Inr (c\<lparr>sc_backend := Off\<rparr>)
         else if p \<in> set [''local'', ''builtin'']
           then Inr (c\<lparr>sc_backend := Local, sc_model := BUILTIN_MODEL_ID, sc_endpoint := None\<rparr>)
         else if p = ''ollama''
           then Inr (clear_builtin
                  (c\<lparr>sc_backend := Ollama, sc_endpoint := Some ''http://localhost:11434''\<rparr>))
         else if p = ''openrouter''
           then Inr (clear_builtin (c\<lparr>sc_backend := OpenAiCompatible,
                  sc_endpoint := Some ''https://openrouter.ai/api/v1''\<rparr>))
         else if p \<in> set [''nvidia'', ''nim'']
           then Inr (clear_builtin (c\<lparr>sc_backend := OpenAiCompatible,
                  sc_endpoint := Some ''https://integrate.api.nvidia.com/v1''\<rparr>))
         else if p \<in> set [''openai'', ''openai-compatible'', ''openai_compatible'', ''custom'']
           then Inr (clear_builtin (c\<lparr>sc_backend := OpenAiCompatible\<rparr>))
         else (case canonical_cli p of
                 Some cli \<Rightarrow>
                   Inr (c\<lparr>sc_backend := AgentCli, sc_model := cli, sc_endpoint := None\<rparr>)
               | None \<Rightarrow> Inl (''unknown semantic provider '' @ [CHR 0x27] @ p @ [CHR 0x27] @
                      '' (off|local|ollama|openrouter|nvidia|openai-compatible|claude|codex|gemini|cursor|antigravity)'')))"

section \<open>Facts\<close>

lemma cli_provider_sends: "cli_provider c = Some cli \<Longrightarrow> sends_off_machine c"
  by (simp add: cli_provider_def sends_off_machine_def split: if_splits)

lemma canonical_cli_set:
  "canonical_cli n = Some cli \<Longrightarrow>
   cli \<in> set [''claude'', ''codex'', ''gemini'', ''cursor'', ''antigravity'']"
  unfolding canonical_cli_def Let_def by (simp split: if_split_asm)

lemma canonical_cli_idem: "canonical_cli n = Some cli \<Longrightarrow> canonical_cli cli = Some cli"
proof -
  assume "canonical_cli n = Some cli"
  then have "cli \<in> set [''claude'', ''codex'', ''gemini'', ''cursor'', ''antigravity'']"
    by (rule canonical_cli_set)
  moreover have "\<forall>c \<in> set [''claude'', ''codex'', ''gemini'', ''cursor'', ''antigravity''].
      canonical_cli c = Some c"
    by code_simp
  ultimately show ?thesis by blast
qed

lemma ollama_local:
  "sc_backend c = Ollama \<Longrightarrow> sc_endpoint c = Some ''http://localhost:11434'' \<Longrightarrow>
   \<not> sends_off_machine c"
proof -
  assume b: "sc_backend c = Ollama" and e: "sc_endpoint c = Some ''http://localhost:11434''"
  have "trim_end_char CHR ''/'' (trim ''http://localhost:11434'') = ''http://localhost:11434''"
    by code_simp
  moreover have "contains ''localhost'' ''http://localhost:11434''" by code_simp
  ultimately show ?thesis using b e
    by (simp add: sends_off_machine_def normalized_endpoint_def Let_def del: contains.simps)
qed

text \<open>
  The operator is warned exactly when transcript text leaves the machine: the disclosure is
  absent if and only if the configured provider keeps everything local.
\<close>

theorem disclosure_complete: "off_machine_disclosure c = None \<longleftrightarrow> \<not> sends_off_machine c"
  using cli_provider_sends
  by (auto simp: off_machine_disclosure_def split: option.splits)

lemma clear_builtin_keeps [simp]:
  "sc_backend (clear_builtin c) = sc_backend c" "sc_endpoint (clear_builtin c) = sc_endpoint c"
  by (simp_all add: clear_builtin_def)

text \<open>
  After a preset was applied, text leaves the machine exactly for the hosted back ends (the
  presets off, local and ollama stay on the machine whatever was configured before), and an agent
  CLI preset always names a CLI the relay knows.
\<close>

theorem preset_privacy:
  assumes "apply_preset p c = Inr c'"
  shows "(sends_off_machine c' \<longleftrightarrow> sc_backend c' = OpenAiCompatible \<or> sc_backend c' = AgentCli) \<and>
         (sc_backend c' = AgentCli \<longrightarrow> cli_provider c' = Some (sc_model c'))"
proof (cases "sc_backend c'")
  case Ollama
  with assms have "sc_endpoint c' = Some ''http://localhost:11434''"
    unfolding apply_preset_def Let_def
    by (auto split: if_split_asm option.split_asm)
  with Ollama ollama_local show ?thesis by simp
next
  case AgentCli
  with assms obtain q where "canonical_cli q = Some (sc_model c')"
    unfolding apply_preset_def Let_def
    by (auto split: if_split_asm option.split_asm)
  with AgentCli canonical_cli_idem show ?thesis
    by (simp add: sends_off_machine_def cli_provider_def)
qed (simp_all add: sends_off_machine_def)

theorem preset_privacy_witness:
  "\<exists>c. apply_preset '' AGY '' (semantic_default True) = Inr c \<and>
       cli_provider c = Some ''antigravity''"
proof -
  let ?c = "(semantic_default True)\<lparr>sc_backend := AgentCli, sc_model := ''antigravity''\<rparr>"
  have eq: "apply_preset '' AGY '' (semantic_default True) = Inr ?c" by code_simp
  from preset_privacy [OF eq] eq show ?thesis by simp
qed

end
