(* ===== verification/Automation.thy ===== *)
theory Automation
  imports Semantic_Config
begin

text \<open>
  The automation configuration (\<open>crates/relay-agent/src/automation.rs\<close>): modes per workspace and
  session, the rules of each mode, and the command line that edits the stored configuration. A
  command is a function from its arguments and the stored configuration to the list of its effects
  and an error, if it ends with one; which effects fail is the parameter \<open>ok\<close> of its environment.
  Floating-point fields are bit patterns, and parsing and comparing them are parameters too, as is
  the Unicode case mapping \<open>lower\<close>.
\<close>

section \<open>Modes and rules\<close>

datatype Mode = Manual | Auto | Robot

definition mode_label :: "Mode \<Rightarrow> string" where
  "mode_label m = (case m of Manual \<Rightarrow> ''manual'' | Auto \<Rightarrow> ''auto'' | Robot \<Rightarrow> ''robot'')"

definition mode_parse :: "(string \<Rightarrow> string) \<Rightarrow> string \<Rightarrow> Mode option" where
  "mode_parse lower s =
     (let t = lower (trim s)
      in if t = ''manual'' then Some Manual
         else if t = ''auto'' then Some Auto
         else if t = ''robot'' then Some Robot
         else None)"

record scope_entry =
  se_mode :: Mode
  se_expires_at :: "i64 option"

record retry_rules =
  rr_enabled :: bool
  rr_max_attempts :: u32
  rr_base_secs :: u64
  rr_cap_secs :: u64
  rr_notify :: bool
  rr_wait_for_reset :: bool

definition retry_default :: retry_rules where
  "retry_default =
     \<lparr>rr_enabled = True, rr_max_attempts = 3, rr_base_secs = 2, rr_cap_secs = 60,
      rr_notify = True, rr_wait_for_reset = True\<rparr>"

record smart_config =
  sm_enabled :: bool
  sm_steer :: bool
  sm_gate :: bool
  sm_feedback_protocol :: bool
  sm_semantic :: semantic_config

definition smart_default :: "bool \<Rightarrow> smart_config" where
  "smart_default linux =
     \<lparr>sm_enabled = False, sm_steer = False, sm_gate = False, sm_feedback_protocol = True,
      sm_semantic = semantic_default linux\<rparr>"

record rewrite_rules =
  rw_robot :: bool
  rw_manual :: bool

definition rewrite_default :: rewrite_rules where
  "rewrite_default = \<lparr>rw_robot = True, rw_manual = False\<rparr>"

record auto_rules =
  ar_auto_approve :: bool
  ar_respect_danger_list :: bool
  ar_auto_accept_plan_exit :: bool
  ar_auto_answer_questions :: bool
  ar_auto_answer_min_confidence :: u64
  ar_guard_dangerous :: bool
  ar_retry :: retry_rules

text \<open>The default confidence is the double-precision number nearest to 0.7.\<close>

definition default_answer_confidence :: u64 where
  "default_answer_confidence = 0x3FE6666666666666"

definition auto_default :: auto_rules where
  "auto_default =
     \<lparr>ar_auto_approve = True, ar_respect_danger_list = True, ar_auto_accept_plan_exit = True,
      ar_auto_answer_questions = False, ar_auto_answer_min_confidence = default_answer_confidence,
      ar_guard_dangerous = False, ar_retry = retry_default\<rparr>"

record provider_opts =
  po_model :: "string option"
  po_weight :: u32
  po_max_usd :: "u64 option"
  po_usd_per_ktok :: "u64 option"

definition provider_default :: provider_opts where
  "provider_default = \<lparr>po_model = None, po_weight = 1, po_max_usd = None, po_usd_per_ktok = None\<rparr>"

datatype Strategy = Single | Priority | RoundRobin | CostOptimized

definition strategy_label :: "Strategy \<Rightarrow> string" where
  "strategy_label s =
     (case s of Single \<Rightarrow> ''single'' | Priority \<Rightarrow> ''priority'' | RoundRobin \<Rightarrow> ''round_robin''
      | CostOptimized \<Rightarrow> ''cost_optimized'')"

definition strategy_all :: "Strategy list" where
  "strategy_all = [Single, Priority, RoundRobin, CostOptimized]"

definition strategy_parse :: "(string \<Rightarrow> string) \<Rightarrow> string \<Rightarrow> Strategy option" where
  "strategy_parse lower s =
     (let t = map (\<lambda>c. if c = CHR ''-'' then CHR ''_'' else c) (lower (trim s))
      in if t = ''single'' then Some Single
         else if t = ''priority'' then Some Priority
         else if t \<in> set [''round_robin'', ''roundrobin'', ''rr''] then Some RoundRobin
         else if t \<in> set [''cost_optimized'', ''cost'', ''costoptimized''] then Some CostOptimized
         else None)"

record providers =
  pv_enabled :: "string list"
  pv_strategy :: Strategy
  pv_per_provider :: "(string \<times> provider_opts) list"
  pv_budget_usd :: "u64 option"

definition providers_default :: providers where
  "providers_default =
     \<lparr>pv_enabled = [], pv_strategy = CostOptimized, pv_per_provider = [], pv_budget_usd = None\<rparr>"

definition is_enabled :: "string \<Rightarrow> providers \<Rightarrow> bool" where
  "is_enabled i p \<longleftrightarrow> i \<in> set (pv_enabled p)"

text \<open>\<open>toggle\<close> removes the first occurrence, or adds the provider at the end.\<close>

definition toggle :: "string \<Rightarrow> providers \<Rightarrow> providers" where
  "toggle i p =
     (if i \<in> set (pv_enabled p) then p\<lparr>pv_enabled := remove1 i (pv_enabled p)\<rparr>
      else p\<lparr>pv_enabled := pv_enabled p @ [i]\<rparr>)"

definition provider_set_model :: "string \<Rightarrow> string \<Rightarrow> providers \<Rightarrow> providers" where
  "provider_set_model i model p =
     p\<lparr>pv_per_provider :=
         bt_put i ((unwrap_or provider_default (map_of (pv_per_provider p) i))\<lparr>po_model := Some model\<rparr>)
           (pv_per_provider p)\<rparr>"

record robot_rules =
  rb_confirm_dangerous :: bool
  rb_auto_answer_questions :: bool
  rb_answer_strategy :: string
  rb_expiry_secs :: i64
  rb_max_steps :: u32
  rb_providers :: providers

definition robot_default :: robot_rules where
  "robot_default =
     \<lparr>rb_confirm_dangerous = True, rb_auto_answer_questions = True, rb_answer_strategy = ''first'',
      rb_expiry_secs = 3600, rb_max_steps = 20, rb_providers = providers_default\<rparr>"

datatype ReviewDepth = Shallow | Normal | Deep

definition depth_label :: "ReviewDepth \<Rightarrow> string" where
  "depth_label d = (case d of Shallow \<Rightarrow> ''shallow'' | Normal \<Rightarrow> ''normal'' | Deep \<Rightarrow> ''deep'')"

definition depth_parse :: "string \<Rightarrow> ReviewDepth option" where
  "depth_parse raw =
     (let t = to_ascii_lowercase (trim raw)
      in if t \<in> set [''shallow'', ''light''] then Some Shallow
         else if t \<in> set [''normal'', ''medium''] then Some Normal
         else if t \<in> set [''deep'', ''full''] then Some Deep
         else None)"

definition tail_messages :: "ReviewDepth \<Rightarrow> nat" where
  "tail_messages d = (case d of Shallow \<Rightarrow> 8 | Normal \<Rightarrow> 20 | Deep \<Rightarrow> 50)"

definition goal_head_bytes :: "ReviewDepth \<Rightarrow> nat" where
  "goal_head_bytes d =
     (case d of Shallow \<Rightarrow> 256 * 1024 | Normal \<Rightarrow> 1024 * 1024 | Deep \<Rightarrow> 4 * 1024 * 1024)"

record review_rules =
  rv_enabled :: bool
  rv_reviewers :: "string list"
  rv_every_secs :: i64
  rv_depth :: ReviewDepth
  rv_max_per_session :: u32
  rv_steer :: bool
  rv_cross_family_only :: bool

definition review_default :: review_rules where
  "review_default =
     \<lparr>rv_enabled = False, rv_reviewers = [''codex-cli'', ''claude-cli'', ''antigravity''],
      rv_every_secs = 900, rv_depth = Normal, rv_max_per_session = 6, rv_steer = False,
      rv_cross_family_only = True\<rparr>"

section \<open>The configuration\<close>

record automation_config =
  ac_version :: u32
  ac_default :: Mode
  ac_auto :: auto_rules
  ac_robot :: robot_rules
  ac_review :: review_rules
  ac_rewrite :: rewrite_rules
  ac_smart :: smart_config
  ac_workspaces :: "(string \<times> scope_entry) list"
  ac_sessions :: "(string \<times> scope_entry) list"

definition automation_default :: "bool \<Rightarrow> automation_config" where
  "automation_default linux =
     \<lparr>ac_version = 1, ac_default = Manual, ac_auto = auto_default, ac_robot = robot_default,
      ac_review = review_default, ac_rewrite = rewrite_default, ac_smart = smart_default linux,
      ac_workspaces = [], ac_sessions = []\<rparr>"

datatype Scope = ScDefault | ScWorkspace string | ScSession string

definition entry_active :: "i64 \<Rightarrow> scope_entry \<Rightarrow> bool" where
  "entry_active now e = (case se_expires_at e of Some at \<Rightarrow> now < at | None \<Rightarrow> True)"

definition resolve :: "automation_config \<Rightarrow> string option \<Rightarrow> string \<Rightarrow> i64 \<Rightarrow> Mode" where
  "resolve c sid alias now =
     (case opt_filter (entry_active now) (Option.bind sid (map_of (ac_sessions c))) of
        Some e \<Rightarrow> se_mode e
      | None \<Rightarrow>
          (case opt_filter (entry_active now) (map_of (ac_workspaces c) alias) of
             Some e \<Rightarrow> se_mode e
           | None \<Rightarrow> ac_default c))"

definition should_rewrite :: "automation_config \<Rightarrow> Mode \<Rightarrow> bool" where
  "should_rewrite c m =
     (case m of Robot \<Rightarrow> rw_robot (ac_rewrite c) | Manual \<Rightarrow> rw_manual (ac_rewrite c)
      | Auto \<Rightarrow> False)"

definition set_scope ::
  "Scope \<Rightarrow> Mode \<Rightarrow> i64 option \<Rightarrow> automation_config \<Rightarrow> automation_config" where
  "set_scope s m expires c =
     (let e = \<lparr>se_mode = m, se_expires_at = expires\<rparr>
      in case s of
           ScDefault \<Rightarrow> c\<lparr>ac_default := m\<rparr>
         | ScWorkspace a \<Rightarrow> c\<lparr>ac_workspaces := bt_put a e (ac_workspaces c)\<rparr>
         | ScSession i \<Rightarrow> c\<lparr>ac_sessions := bt_put i e (ac_sessions c)\<rparr>)"

definition clear_scope :: "Scope \<Rightarrow> automation_config \<Rightarrow> automation_config" where
  "clear_scope s c =
     (case s of
        ScDefault \<Rightarrow> c\<lparr>ac_default := Manual\<rparr>
      | ScWorkspace a \<Rightarrow> c\<lparr>ac_workspaces := bt_del a (ac_workspaces c)\<rparr>
      | ScSession i \<Rightarrow> c\<lparr>ac_sessions := bt_del i (ac_sessions c)\<rparr>)"

text \<open>\<open>load\<close> falls back to the defaults when the file cannot be read or parsed.\<close>

definition config_load ::
  "bool \<Rightarrow> (string \<Rightarrow> automation_config option) \<Rightarrow> string option \<Rightarrow> automation_config" where
  "config_load linux from_json file =
     unwrap_or (automation_default linux) (Option.bind file from_json)"

end
