(* ===== verification/Automation_Cli.thy ===== *)
theory Automation_Cli
  imports Automation
begin

text \<open>
  The command \<open>automation\<close> (\<open>run\<close> in \<open>crates/relay-agent/src/automation.rs\<close>): the configuration is
  loaded, the subcommand edits it, and it is saved. The result lists the effects in order and the
  error the command ends with.
\<close>

section \<open>Effects\<close>

datatype effect =
    Print string
  | PrintConfig automation_config
  | Save automation_config
  | InstallSessionHooks
  | InstallGateHooks
  | KeySet string string
  | KeyClear string

datatype cmd_error = Bail string | IoError

type_synonym outcome = "effect list \<times> cmd_error option"

record cli_env =
  ce_ok :: "effect \<Rightarrow> bool"
  ce_lower :: "string \<Rightarrow> string"
  ce_parse_f64 :: "string \<Rightarrow> u64 option"
  ce_show_f64 :: "u64 \<Rightarrow> string"
  ce_now :: i64
  ce_stdin :: "string option"
  ce_builtin_dir :: string

definition bail :: "string \<Rightarrow> outcome" where
  "bail m = ([], Some (Bail m))"

definition prints :: "string list \<Rightarrow> outcome" where
  "prints ls = (map Print ls, None)"

text \<open>An effect whose failure ends the command (\<open>?\<close>).\<close>

definition try_io :: "cli_env \<Rightarrow> effect \<Rightarrow> outcome \<Rightarrow> outcome" where
  "try_io env e k = (if ce_ok env e then (e # fst k, snd k) else ([], Some IoError))"

definition save_then :: "cli_env \<Rightarrow> automation_config \<Rightarrow> string list \<Rightarrow> outcome" where
  "save_then env c ls = try_io env (Save c) (prints ls)"

definition req :: "string option \<Rightarrow> string \<Rightarrow> (string \<Rightarrow> outcome) \<Rightarrow> outcome" where
  "req v name k =
     (case opt_filter (\<lambda>s. s \<noteq> []) (map_option trim v) of
        Some s \<Rightarrow> k s
      | None \<Rightarrow> bail (''missing '' @ name))"

definition on_off :: "string option \<Rightarrow> string \<Rightarrow> (bool \<Rightarrow> outcome) \<Rightarrow> outcome" where
  "on_off v usage k =
     (if v = Some ''on'' then k True else if v = Some ''off'' then k False else bail usage)"

definition show_on :: "bool \<Rightarrow> string" where
  "show_on b = (if b then ''on'' else ''off'')"

definition show_bool :: "bool \<Rightarrow> string" where
  "show_bool b = (if b then ''true'' else ''false'')"

definition parse_mode_arg :: "cli_env \<Rightarrow> string option \<Rightarrow> (Mode \<Rightarrow> outcome) \<Rightarrow> outcome" where
  "parse_mode_arg env v k =
     req v ''mode'' (\<lambda>s.
       case mode_parse (ce_lower env) s of
         Some m \<Rightarrow> k m
       | None \<Rightarrow> bail (''bad mode '' @ s @ '' (manual|auto|robot)''))"

definition expires_from :: "cli_env \<Rightarrow> string option \<Rightarrow> i64 option" where
  "expires_from env v =
     Option.bind v (\<lambda>s. Option.bind (parse_i64 (trim s)) (\<lambda>secs.
       if secs \<le> 0 then None else Some (wrap_i64 (ce_now env + secs))))"

text \<open>The key of a provider, from the argument or from the first line of the input.\<close>

definition set_key :: "cli_env \<Rightarrow> string \<Rightarrow> string option \<Rightarrow> string \<Rightarrow> string \<Rightarrow> outcome" where
  "set_key env i v done_clear done_set =
     (if v = Some ''clear'' then try_io env (KeyClear i) (prints [done_clear])
      else case (if v = None \<or> v = Some ''-'' then ce_stdin env else v) of
             None \<Rightarrow> ([], Some IoError)
           | Some key \<Rightarrow>
               if trim key = [] then bail ''empty key''
               else try_io env (KeySet i (trim key)) (prints [done_set]))"

section \<open>Reviewers\<close>

datatype Backend =
  BkOllama | BkOpenRouter | BkClaudeCli | BkCodexCli | BkGeminiCli | BkCursorCli | BkAntigravity

definition backend_id :: "Backend \<Rightarrow> string" where
  "backend_id b =
     (case b of BkOllama \<Rightarrow> ''ollama'' | BkOpenRouter \<Rightarrow> ''openrouter'' | BkClaudeCli \<Rightarrow> ''claude-cli''
      | BkCodexCli \<Rightarrow> ''codex-cli'' | BkGeminiCli \<Rightarrow> ''gemini-cli'' | BkCursorCli \<Rightarrow> ''cursor-cli''
      | BkAntigravity \<Rightarrow> ''antigravity'')"

definition backend_all :: "Backend list" where
  "backend_all =
     [BkOllama, BkOpenRouter, BkClaudeCli, BkCodexCli, BkGeminiCli, BkCursorCli, BkAntigravity]"

definition backend_of :: "string \<Rightarrow> Backend option" where
  "backend_of s = find (\<lambda>b. backend_id b = trim s) backend_all"

section \<open>The subcommands\<close>

definition save_review :: "cli_env \<Rightarrow> review_rules \<Rightarrow> automation_config \<Rightarrow> outcome" where
  "save_review env r cfg =
     save_then env (cfg\<lparr>ac_review := r\<rparr>)
       [''review '' @ show_on (rv_enabled r) @ '' | reviewers '' @ join '','' (rv_reviewers r) @
        '' | every '' @ dec_int (rv_every_secs r) @ ''s | depth '' @ depth_label (rv_depth r) @
        '' | budget '' @ dec (unat (rv_max_per_session r)) @ '' | steer '' @ show_on (rv_steer r) @
        '' | cross-family-only '' @ show_bool (rv_cross_family_only r)]"

definition run_review :: "cli_env \<Rightarrow> string list \<Rightarrow> automation_config \<Rightarrow> outcome" where
  "run_review env args cfg =
     (let r = ac_review cfg; sub = nth_opt args 2; v = nth_opt args 3
      in if sub = Some ''on'' then save_review env (r\<lparr>rv_enabled := True\<rparr>) cfg
         else if sub = Some ''off'' then save_review env (r\<lparr>rv_enabled := False\<rparr>) cfg
         else if sub = Some ''steer''
           then on_off v ''usage: automation review steer <on|off>''
                  (\<lambda>b. save_review env (r\<lparr>rv_steer := b\<rparr>) cfg)
         else if sub = Some ''same-family''
           then on_off v ''usage: automation review same-family <on|off>''
                  (\<lambda>b. save_review env (r\<lparr>rv_cross_family_only := \<not> b\<rparr>) cfg)
         else if sub = Some ''reviewers''
           then req v ''comma separated reviewer ids'' (\<lambda>list.
             let picked = filter (\<lambda>i. i \<noteq> [])
                            (map trim (split_on (\<lambda>c. c = CHR '','') list))
             in if picked = [] then bail ''usage: automation review reviewers codex-cli,claude-cli''
                else case find (\<lambda>i. backend_of i = None) picked of
                       Some bad \<Rightarrow> bail (''unknown reviewer '' @ bad)
                     | None \<Rightarrow> save_review env (r\<lparr>rv_reviewers := picked\<rparr>) cfg)
         else if sub = Some ''every''
           then req v ''seconds'' (\<lambda>s.
             let secs = unwrap_or 0 (parse_i64 s)
             in if secs < 60 then bail ''usage: automation review every <seconds, at least 60>''
                else save_review env (r\<lparr>rv_every_secs := secs\<rparr>) cfg)
         else if sub = Some ''depth''
           then req v ''shallow|normal|deep'' (\<lambda>raw.
             case depth_parse raw of
               Some d \<Rightarrow> save_review env (r\<lparr>rv_depth := d\<rparr>) cfg
             | None \<Rightarrow> bail (''bad depth '' @ raw))
         else if sub = Some ''budget''
           then req v ''reviews per session'' (\<lambda>raw.
             save_review env
               (r\<lparr>rv_max_per_session := of_nat (unwrap_or 0 (parse_uint (2 ^ 32 - 1) raw))\<rparr>) cfg)
         else bail ''usage: automation review <on|off|steer|same-family|reviewers|every|depth|budget|run|probe> ...'')"

definition map_providers :: "(providers \<Rightarrow> providers) \<Rightarrow> automation_config \<Rightarrow> automation_config" where
  "map_providers f cfg = cfg\<lparr>ac_robot := (ac_robot cfg)\<lparr>rb_providers := f (rb_providers (ac_robot cfg))\<rparr>\<rparr>"

definition run_provider :: "cli_env \<Rightarrow> string list \<Rightarrow> automation_config \<Rightarrow> outcome" where
  "run_provider env args cfg =
     req (nth_opt args 2) ''provider id'' (\<lambda>i.
       on_off (nth_opt args 3) ''usage: automation provider <id> <on|off>'' (\<lambda>on.
         let cfg' = (if is_enabled i (rb_providers (ac_robot cfg)) = on then cfg
                     else map_providers (toggle i) cfg)
         in save_then env cfg'
              [''provider '' @ i @ '' '' @ show_on (is_enabled i (rb_providers (ac_robot cfg')))]))"

definition run_rewrite :: "cli_env \<Rightarrow> string list \<Rightarrow> automation_config \<Rightarrow> outcome" where
  "run_rewrite env args cfg =
     (let usage = ''usage: automation rewrite <robot|manual> <on|off>''
      in req (nth_opt args 2) ''robot|manual'' (\<lambda>which.
        on_off (nth_opt args 3) usage (\<lambda>on.
          let said = [''rewrite '' @ which @ '' '' @ show_on on]
          in if which = ''robot''
             then save_then env (cfg\<lparr>ac_rewrite := (ac_rewrite cfg)\<lparr>rw_robot := on\<rparr>\<rparr>) said
             else if which = ''manual''
             then save_then env (cfg\<lparr>ac_rewrite := (ac_rewrite cfg)\<lparr>rw_manual := on\<rparr>\<rparr>) said
             else bail usage)))"

definition map_smart :: "(smart_config \<Rightarrow> smart_config) \<Rightarrow> automation_config \<Rightarrow> automation_config" where
  "map_smart f cfg = cfg\<lparr>ac_smart := f (ac_smart cfg)\<rparr>"

definition map_semantic ::
  "(semantic_config \<Rightarrow> semantic_config) \<Rightarrow> automation_config \<Rightarrow> automation_config" where
  "map_semantic f = map_smart (\<lambda>m. m\<lparr>sm_semantic := f (sm_semantic m)\<rparr>)"

text \<open>The warning printed after a provider or endpoint was saved.\<close>

definition warning :: "semantic_config \<Rightarrow> string list" where
  "warning s =
     (case off_machine_disclosure s of Some d \<Rightarrow> [''WARNING: '' @ d] | None \<Rightarrow> [])"

definition run_semantic ::
  "cli_env \<Rightarrow> string option \<Rightarrow> string option \<Rightarrow> automation_config \<Rightarrow> outcome" where
  "run_semantic env sub v cfg =
     (if sub = Some ''provider''
      then req v ''provider'' (\<lambda>preset.
        case apply_preset preset (sm_semantic (ac_smart cfg)) of
          Inl e \<Rightarrow> bail e
        | Inr s \<Rightarrow>
            save_then env (map_semantic (\<lambda>_. s) cfg)
              ((case cli_provider s of
                  Some cli \<Rightarrow> ''smart provider = agent_cli ('' @ cli @ '')''
                | None \<Rightarrow> ''smart provider = '' @ backend_label (sc_backend s)) # warning s))
      else if sub = Some ''model''
      then req v ''model'' (\<lambda>m.
        save_then env (map_semantic (\<lambda>s. s\<lparr>sc_model := m\<rparr>) cfg) [''smart model = '' @ m])
      else if sub = Some ''endpoint''
      then req v ''endpoint'' (\<lambda>e.
        let s = (sm_semantic (ac_smart cfg))
                  \<lparr>sc_endpoint := (if e = ''clear'' then None else Some e)\<rparr>
        in save_then env (map_semantic (\<lambda>_. s) cfg)
             ((''smart endpoint = '' @ unwrap_or ''default'' (sc_endpoint s)) # warning s))
      else if sub = Some ''local-dir''
      then req v ''bundle path|builtin'' (\<lambda>d.
        let dir = (if d = ''builtin'' then None else Some d)
        in save_then env (map_semantic (\<lambda>s. s\<lparr>sc_local_dir := dir\<rparr>) cfg)
             [''smart local bundle = '' @ unwrap_or (ce_builtin_dir env) dir])
      else on_off v ''usage: automation smart trust <on|off>'' (\<lambda>on.
        save_then env (map_semantic (\<lambda>s. s\<lparr>sc_allow_uncalibrated_steer := on\<rparr>) cfg)
          [''smart uncalibrated steering '' @ (if on then ''allowed'' else ''blocked'')]))"

definition run_smart :: "(u64 \<Rightarrow> bool) \<Rightarrow> cli_env \<Rightarrow> string list \<Rightarrow> automation_config \<Rightarrow> outcome" where
  "run_smart positive env args cfg =
     (let sub = nth_opt args 2; v = nth_opt args 3; m = ac_smart cfg
      in if sub = Some ''status''
         then prints [''smart='' @ show_bool (sm_enabled m) @ '' steer='' @ show_bool (sm_steer m) @
                      '' gate='' @ show_bool (sm_gate m) @
                      '' feedback='' @ show_bool (sm_feedback_protocol m)]
         else if sub = Some ''on''
         then try_io env InstallSessionHooks
                (save_then env (map_smart (\<lambda>m. m\<lparr>sm_enabled := True\<rparr>) cfg) [''smart on''])
         else if sub = Some ''off''
         then save_then env
                (map_smart (\<lambda>m. m\<lparr>sm_enabled := False, sm_steer := False, sm_gate := False\<rparr>) cfg)
                [''smart off'']
         else if sub = Some ''steer''
         then on_off v ''usage: automation smart steer <on|off>'' (\<lambda>on.
                save_then env (map_smart (\<lambda>m. m\<lparr>sm_steer := on\<rparr>) cfg)
                  [''smart steer '' @ show_on on])
         else if sub = Some ''gate''
         then on_off v ''usage: automation smart gate <on|off>'' (\<lambda>on.
                if on
                then try_io env InstallGateHooks
                       (save_then env
                          (map_smart (\<lambda>m. m\<lparr>sm_enabled := True, sm_gate := True\<rparr>) cfg)
                          [''smart gate on''])
                else save_then env (map_smart (\<lambda>m. m\<lparr>sm_gate := False\<rparr>) cfg) [''smart gate off''])
         else if sub = Some ''feedback''
         then on_off v ''usage: automation smart feedback <on|off>'' (\<lambda>on.
                save_then env (map_smart (\<lambda>m. m\<lparr>sm_feedback_protocol := on\<rparr>) cfg)
                  [''smart feedback protocol '' @ show_on on])
         else if sub = Some ''budget''
         then (let usage = ''usage: automation smart budget <USD|off>''
               in case v of
                    None \<Rightarrow> bail usage
                  | Some t \<Rightarrow>
                      if t = ''off''
                      then save_then env (map_providers (\<lambda>p. p\<lparr>pv_budget_usd := None\<rparr>) cfg)
                             [''smart budget off'']
                      else case opt_filter positive (ce_parse_f64 env t) of
                             Some usd \<Rightarrow>
                               save_then env (map_providers (\<lambda>p. p\<lparr>pv_budget_usd := Some usd\<rparr>) cfg)
                                 [''smart budget = $'' @ ce_show_f64 env usd]
                           | None \<Rightarrow> bail usage)
         else if sub \<in> Some ` set [''provider'', ''model'', ''endpoint'', ''local-dir'', ''trust'']
         then run_semantic env sub v cfg
         else if sub = Some ''key''
         then set_key env ''semantic'' v ''smart provider key cleared'' ''smart provider key set''
         else if sub \<in> Some ` set [''install-local'', ''check'', ''train-local'']
         then bail ''this smart command must be run through vsc-relay-agent''
         else bail ''usage: automation smart <status|on|off|steer on|off|gate on|off|feedback on|off|budget USD|off|provider PRESET (off|local|ollama|openrouter|nvidia|openai-compatible|claude|codex|gemini|cursor|antigravity)|model ID|endpoint URL|local-dir PATH|trust on|off|key [VALUE|-|clear]|install-local|train-local DATASET OUTPUT [BASE]|check>'')"

definition run_set :: "cli_env \<Rightarrow> string list \<Rightarrow> automation_config \<Rightarrow> string \<Rightarrow> outcome" where
  "run_set env args cfg sub =
     (if sub = ''set-default''
      then parse_mode_arg env (nth_opt args 2) (\<lambda>m.
        save_then env (set_scope ScDefault m None cfg) [''default = '' @ mode_label m])
      else if sub = ''set-workspace''
      then req (nth_opt args 2) ''alias'' (\<lambda>a. parse_mode_arg env (nth_opt args 3) (\<lambda>m.
        save_then env (set_scope (ScWorkspace a) m (expires_from env (nth_opt args 4)) cfg)
          [''workspace '' @ a @ '' = '' @ mode_label m]))
      else if sub = ''set-session''
      then req (nth_opt args 2) ''session_id'' (\<lambda>i. parse_mode_arg env (nth_opt args 3) (\<lambda>m.
        save_then env (set_scope (ScSession i) m (expires_from env (nth_opt args 4)) cfg)
          [''session '' @ i @ '' = '' @ mode_label m]))
      else if sub = ''clear-workspace''
      then req (nth_opt args 2) ''alias'' (\<lambda>a.
        save_then env (clear_scope (ScWorkspace a) cfg)
          [''workspace '' @ a @ '' cleared (inherits default)''])
      else req (nth_opt args 2) ''session_id'' (\<lambda>i.
        save_then env (clear_scope (ScSession i) cfg)
          [''session '' @ i @ '' cleared (inherits default)'']))"

definition run_automation ::
  "(u64 \<Rightarrow> bool) \<Rightarrow> cli_env \<Rightarrow> string list \<Rightarrow> automation_config \<Rightarrow> outcome" where
  "run_automation positive env args cfg =
     (let sub = unwrap_or [] (nth_opt args 1)
      in if sub = ''get'' then ([PrintConfig cfg], None)
         else if sub = ''list''
         then prints ((''default: '' @ mode_label (ac_default cfg)) #
                map (\<lambda>(a, e). ''workspace '' @ a @ '': '' @ mode_label (se_mode e)) (ac_workspaces cfg) @
                map (\<lambda>(s, e). ''session '' @ s @ '': '' @ mode_label (se_mode e)) (ac_sessions cfg))
         else if sub = ''resolve''
         then req (nth_opt args 2) ''alias'' (\<lambda>a.
                let sid = opt_filter (\<lambda>s. s \<noteq> []) (map_option trim (nth_opt args 3))
                in prints [mode_label (resolve cfg sid a (ce_now env))])
         else if sub \<in> set [''set-default'', ''set-workspace'', ''set-session'', ''clear-workspace'',
                            ''clear-session'']
         then run_set env args cfg sub
         else if sub = ''review'' then run_review env args cfg
         else if sub = ''provider'' then run_provider env args cfg
         else if sub = ''strategy''
         then req (nth_opt args 2) ''strategy'' (\<lambda>s.
                case strategy_parse (ce_lower env) s of
                  Some st \<Rightarrow>
                    save_then env (map_providers (\<lambda>p. p\<lparr>pv_strategy := st\<rparr>) cfg)
                      [''strategy = '' @ strategy_label st]
                | None \<Rightarrow> bail (''bad strategy '' @ s))
         else if sub = ''provider-model''
         then req (nth_opt args 2) ''provider id'' (\<lambda>i. req (nth_opt args 3) ''model'' (\<lambda>m.
                save_then env (map_providers (provider_set_model i m) cfg)
                  [i @ '' model = '' @ m]))
         else if sub = ''provider-key''
         then req (nth_opt args 2) ''provider id'' (\<lambda>i.
                set_key env i (nth_opt args 3) (''provider '' @ i @ '' key cleared'')
                  (''provider '' @ i @ '' key set''))
         else if sub = ''rewrite'' then run_rewrite env args cfg
         else if sub = ''smart'' then run_smart positive env args cfg
         else bail ''usage: automation <get|list|set-default|set-workspace|set-session|clear-workspace|clear-session|review|provider|strategy|provider-model|provider-key|rewrite|smart|compass|compass-link|compass-unlink|compass-mark|compass-profile|discover|ask|route|improve> ...'')"

text \<open>The stored configuration after a command, and after a sequence of commands.\<close>

definition stored_after :: "outcome \<Rightarrow> automation_config \<Rightarrow> automation_config" where
  "stored_after out c = fold (\<lambda>e c. case e of Save c' \<Rightarrow> c' | _ \<Rightarrow> c) (fst out) c"

definition command_step ::
  "(u64 \<Rightarrow> bool) \<Rightarrow> cli_env \<times> string list \<Rightarrow> automation_config \<Rightarrow> automation_config" where
  "command_step positive cmd c =
     stored_after (run_automation positive (fst cmd) (snd cmd) c) c"

section \<open>What a command saves\<close>

text \<open>
  \<open>good P\<close>: a saved configuration satisfies \<open>P\<close> with the lines printed, and a command that ends
  with an error saves nothing.
\<close>

definition printed :: "effect list \<Rightarrow> string list" where
  "printed es = concat (map (\<lambda>e. case e of Print s \<Rightarrow> [s] | _ \<Rightarrow> []) es)"

definition good :: "(automation_config \<Rightarrow> string list \<Rightarrow> bool) \<Rightarrow> outcome \<Rightarrow> bool" where
  "good P out \<longleftrightarrow>
     (\<forall>c. Save c \<in> set (fst out) \<longrightarrow> snd out = None \<and> P c (printed (fst out)))"

named_theorems good_intros "rules for what commands save"

lemma printed_Print [simp]: "printed (map Print ls) = ls"
  by (induction ls) (simp_all add: printed_def)

lemma good_bail [good_intros]: "good P (bail m)"
  by (simp add: good_def bail_def)

lemma good_prints [good_intros]: "good P (prints ls)"
  by (auto simp: good_def prints_def)

lemma good_io_error [good_intros]: "good P ([], Some IoError)"
  by (simp add: good_def)

lemma good_get [good_intros]: "good P ([PrintConfig c], None)"
  by (simp add: good_def)

lemma good_save [good_intros]: "P c ls \<Longrightarrow> good P (save_then env c ls)"
  by (auto simp: good_def save_then_def try_io_def prints_def, simp add: printed_def,
      use printed_Print [of ls] in \<open>simp add: printed_def\<close>)

lemma good_try_io:
  "(\<And>c. e \<noteq> Save c) \<Longrightarrow> (\<And>s. e \<noteq> Print s) \<Longrightarrow> good P k \<Longrightarrow> good P (try_io env e k)"
  by (cases e) (auto simp: good_def try_io_def printed_def)

lemma good_hooks [good_intros]:
  "good P k \<Longrightarrow> good P (try_io env InstallSessionHooks k)"
  "good P k \<Longrightarrow> good P (try_io env InstallGateHooks k)"
  "good P k \<Longrightarrow> good P (try_io env (KeySet i v) k)"
  "good P k \<Longrightarrow> good P (try_io env (KeyClear i) k)"
  by (auto intro: good_try_io)

lemma good_req [good_intros]: "(\<And>s. good P (k s)) \<Longrightarrow> good P (req v name k)"
  by (auto simp: req_def intro: good_bail split: option.splits)

lemma good_on_off [good_intros]: "(\<And>b. good P (k b)) \<Longrightarrow> good P (on_off v usage k)"
  by (auto simp: on_off_def intro: good_bail)

lemma good_mode [good_intros]: "(\<And>m. good P (k m)) \<Longrightarrow> good P (parse_mode_arg env v k)"
  by (auto simp: parse_mode_arg_def intro!: good_intros split: option.splits)

lemma good_set_key [good_intros]: "good P (set_key env i v a b)"
  by (auto simp: set_key_def intro!: good_intros split: option.splits)

lemma good_if [good_intros]: "(b \<Longrightarrow> good P x) \<Longrightarrow> (\<not> b \<Longrightarrow> good P y) \<Longrightarrow> good P (if b then x else y)"
  by simp

lemma good_option [good_intros]:
  "(x = None \<Longrightarrow> good P a) \<Longrightarrow> (\<And>y. x = Some y \<Longrightarrow> good P (f y)) \<Longrightarrow>
   good P (case x of None \<Rightarrow> a | Some y \<Rightarrow> f y)"
  by (cases x) auto

lemma good_sum [good_intros]:
  "(\<And>y. x = Inl y \<Longrightarrow> good P (f y)) \<Longrightarrow> (\<And>y. x = Inr y \<Longrightarrow> good P (g y)) \<Longrightarrow>
   good P (case x of Inl y \<Rightarrow> f y | Inr y \<Rightarrow> g y)"
  by (cases x) auto

lemma stored_after_cases:
  "stored_after out c = c \<or> Save (stored_after out c) \<in> set (fst out)"
proof -
  have "fold (\<lambda>e c. case e of Save c' \<Rightarrow> c' | _ \<Rightarrow> c) es c = c \<or>
        Save (fold (\<lambda>e c. case e of Save c' \<Rightarrow> c' | _ \<Rightarrow> c) es c) \<in> set es" for es
  proof (induction es arbitrary: c)
    case (Cons e es)
    show ?case using Cons [of "case e of Save c' \<Rightarrow> c' | _ \<Rightarrow> c"] by (cases e) auto
  qed simp
  then show ?thesis by (simp add: stored_after_def)
qed

section \<open>Well-formed configurations\<close>

definition config_ok :: "(u64 \<Rightarrow> bool) \<Rightarrow> automation_config \<Rightarrow> bool" where
  "config_ok positive c \<longleftrightarrow>
     bt_ok (ac_workspaces c) \<and> bt_ok (ac_sessions c) \<and>
     (let p = rb_providers (ac_robot c)
      in distinct (pv_enabled p) \<and> bt_ok (pv_per_provider p) \<and>
         (case pv_budget_usd p of Some b \<Rightarrow> positive b | None \<Rightarrow> True)) \<and>
     rv_reviewers (ac_review c) \<noteq> [] \<and>
     list_all (\<lambda>i. backend_of i \<noteq> None) (rv_reviewers (ac_review c)) \<and>
     60 \<le> rv_every_secs (ac_review c) \<and>
     (sm_gate (ac_smart c) \<longrightarrow> sm_enabled (ac_smart c))"

definition providers_ok :: "(u64 \<Rightarrow> bool) \<Rightarrow> providers \<Rightarrow> bool" where
  "providers_ok positive p \<longleftrightarrow>
     distinct (pv_enabled p) \<and> bt_ok (pv_per_provider p) \<and>
     (case pv_budget_usd p of Some b \<Rightarrow> positive b | None \<Rightarrow> True)"

definition reviews_ok :: "review_rules \<Rightarrow> bool" where
  "reviews_ok r \<longleftrightarrow>
     rv_reviewers r \<noteq> [] \<and> list_all (\<lambda>i. backend_of i \<noteq> None) (rv_reviewers r) \<and>
     60 \<le> rv_every_secs r"

lemma config_ok_iff:
  "config_ok positive c \<longleftrightarrow>
     bt_ok (ac_workspaces c) \<and> bt_ok (ac_sessions c) \<and>
     providers_ok positive (rb_providers (ac_robot c)) \<and> reviews_ok (ac_review c) \<and>
     (sm_gate (ac_smart c) \<longrightarrow> sm_enabled (ac_smart c))"
  by (simp add: config_ok_def providers_ok_def reviews_ok_def Let_def)

lemma config_ok_scope:
  "config_ok p c \<Longrightarrow> config_ok p (set_scope s m e c)"
  "config_ok p c \<Longrightarrow> config_ok p (clear_scope s c)"
  by (cases s; simp add: config_ok_iff set_scope_def clear_scope_def bt_ok_put bt_ok_del)+

lemma config_ok_providers:
  "config_ok p c \<Longrightarrow> (providers_ok p (rb_providers (ac_robot c)) \<Longrightarrow>
     providers_ok p (f (rb_providers (ac_robot c)))) \<Longrightarrow> config_ok p (map_providers f c)"
  by (simp add: config_ok_iff map_providers_def)

lemma config_ok_smart:
  "config_ok p c \<Longrightarrow> ((sm_gate (ac_smart c) \<longrightarrow> sm_enabled (ac_smart c)) \<Longrightarrow>
     sm_gate (f (ac_smart c)) \<longrightarrow> sm_enabled (f (ac_smart c))) \<Longrightarrow> config_ok p (map_smart f c)"
  by (simp add: config_ok_iff map_smart_def)

lemma config_ok_review:
  "config_ok p c \<Longrightarrow> (reviews_ok (ac_review c) \<Longrightarrow> reviews_ok r) \<Longrightarrow> config_ok p (c\<lparr>ac_review := r\<rparr>)"
  by (simp add: config_ok_iff)

lemma config_ok_rewrite: "config_ok p c \<Longrightarrow> config_ok p (c\<lparr>ac_rewrite := r\<rparr>)"
  by (simp add: config_ok_iff)

lemma providers_ok_updates:
  "providers_ok p x \<Longrightarrow> providers_ok p (toggle i x)"
  "providers_ok p x \<Longrightarrow> providers_ok p (provider_set_model i m x)"
  "providers_ok p x \<Longrightarrow> providers_ok p (x\<lparr>pv_strategy := s\<rparr>)"
  "providers_ok p x \<Longrightarrow> providers_ok p (x\<lparr>pv_budget_usd := None\<rparr>)"
  "providers_ok p x \<Longrightarrow> p u \<Longrightarrow> providers_ok p (x\<lparr>pv_budget_usd := Some u\<rparr>)"
  by (simp_all add: providers_ok_def toggle_def provider_set_model_def bt_ok_put)

lemma good_review:
  assumes c: "config_ok p c"
  shows "good (\<lambda>c' _. config_ok p c') (run_review env args c)"
proof -
  have save: "good (\<lambda>c' _. config_ok p c') (save_review env r c)" if "reviews_ok r" for r
    unfolding save_review_def
    by (rule good_save) (rule config_ok_review [OF c that])
  have "reviews_ok (ac_review c)" using c by (simp add: config_ok_iff)
  then have upd: "reviews_ok (ac_review c\<lparr>rv_enabled := b\<rparr>)" "reviews_ok (ac_review c\<lparr>rv_steer := b\<rparr>)"
    "reviews_ok (ac_review c\<lparr>rv_cross_family_only := b\<rparr>)" "reviews_ok (ac_review c\<lparr>rv_depth := d\<rparr>)"
    "reviews_ok (ac_review c\<lparr>rv_max_per_session := n\<rparr>)"
    "\<not> k < 60 \<Longrightarrow> reviews_ok (ac_review c\<lparr>rv_every_secs := k\<rparr>)"
    "l \<noteq> [] \<Longrightarrow> find (\<lambda>i. backend_of i = None) l = None \<Longrightarrow>
     reviews_ok (ac_review c\<lparr>rv_reviewers := l\<rparr>)" for b d n k l
    by (simp_all add: reviews_ok_def find_None_iff list_all_iff)
  show ?thesis
    unfolding run_review_def Let_def
    by (intro good_intros save upd; assumption)
qed

lemma good_provider:
  "config_ok p c \<Longrightarrow> good (\<lambda>c' _. config_ok p c') (run_provider env args c)"
  unfolding run_provider_def Let_def
  by (intro good_intros) (simp add: config_ok_providers providers_ok_updates)

lemma good_rewrite:
  "config_ok p c \<Longrightarrow> good (\<lambda>c' _. config_ok p c') (run_rewrite env args c)"
  unfolding run_rewrite_def Let_def
  by (intro good_intros config_ok_rewrite)

lemma good_semantic:
  "config_ok p c \<Longrightarrow> good (\<lambda>c' _. config_ok p c') (run_semantic env sub v c)"
  unfolding run_semantic_def Let_def map_semantic_def
  by (intro good_intros config_ok_smart) simp_all

lemma good_smart:
  assumes c: "config_ok p c"
  shows "good (\<lambda>c' _. config_ok p c') (run_smart p env args c)"
proof -
  have smart: "config_ok p (map_smart f c)"
    if "(sm_gate (ac_smart c) \<longrightarrow> sm_enabled (ac_smart c)) \<Longrightarrow>
      sm_gate (f (ac_smart c)) \<longrightarrow> sm_enabled (f (ac_smart c))" for f
    using c that by (rule config_ok_smart)
  have money: "config_ok p (map_providers (\<lambda>x. x\<lparr>pv_budget_usd := None\<rparr>) c)"
    "opt_filter p t = Some u \<Longrightarrow> config_ok p (map_providers (\<lambda>x. x\<lparr>pv_budget_usd := Some u\<rparr>) c)"
    for t u
    using c by (auto intro!: config_ok_providers intro: providers_ok_updates)
  show ?thesis
    unfolding run_smart_def Let_def
    by (intro good_intros good_semantic c money; (assumption | rule smart, simp))
qed

lemma good_set:
  "config_ok p c \<Longrightarrow> good (\<lambda>c' _. config_ok p c') (run_set env args c sub)"
  unfolding run_set_def
  by (intro good_intros config_ok_scope)

lemma good_run:
  assumes c: "config_ok p c"
  shows "good (\<lambda>c' _. config_ok p c') (run_automation p env args c)"
proof -
  have prov: "config_ok p (map_providers f c)"
    if "\<And>x. providers_ok p x \<Longrightarrow> providers_ok p (f x)" for f
    using c that by (rule config_ok_providers)
  show ?thesis
    unfolding run_automation_def Let_def
    by (intro good_intros good_set good_review good_provider good_rewrite good_smart c
        prov providers_ok_updates)
qed

lemma config_ok_step: "config_ok p c \<Longrightarrow> config_ok p (command_step p cmd c)"
  using stored_after_cases [of "run_automation p (fst cmd) (snd cmd) c" c]
    good_run [of p c "fst cmd" "snd cmd"]
  by (auto simp: command_step_def good_def)

interpretation automation: invariant_machine "command_step positive" "config_ok positive"
  by unfold_locales (rule config_ok_step)

section \<open>Sending text off the machine\<close>

text \<open>\<open>tells c\<close>: a saved configuration that newly sends text off the machine is announced.\<close>

definition sends_text :: "automation_config \<Rightarrow> bool" where
  "sends_text c = sends_off_machine (sm_semantic (ac_smart c))"

definition tells :: "automation_config \<Rightarrow> automation_config \<Rightarrow> string list \<Rightarrow> bool" where
  "tells c c' ls \<longleftrightarrow> (sends_text c' \<longrightarrow> sends_text c \<or> (\<exists>d. ''WARNING: '' @ d \<in> set ls))"

lemma tells_same: "sm_semantic (ac_smart c') = sm_semantic (ac_smart c) \<Longrightarrow> tells c c' ls"
  by (simp add: tells_def sends_text_def)

lemma tells_warning: "tells c (map_semantic (\<lambda>_. s) c) (l # warning s)"
proof -
  have "sends_off_machine s \<Longrightarrow> \<exists>d. off_machine_disclosure s = Some d"
    using cli_provider_sends by (auto simp: off_machine_disclosure_def split: option.splits)
  then have "sends_off_machine s \<Longrightarrow> \<exists>d. ''WARNING: '' @ d \<in> set (l # warning s)"
    by (metis list.set_intros warning_def option.simps(5))
  moreover have "sends_text (map_semantic (\<lambda>_. s) c) = sends_off_machine s"
    by (simp add: sends_text_def map_semantic_def map_smart_def)
  ultimately show ?thesis unfolding tells_def by blast
qed

lemma sends_off_cong:
  "sc_backend a = sc_backend b \<Longrightarrow> sc_endpoint a = sc_endpoint b \<Longrightarrow>
   sends_off_machine a = sends_off_machine b"
  by (simp only: sends_off_machine_def normalized_endpoint_def)

lemma tells_semantic:
  "sc_backend (f (sm_semantic (ac_smart c))) = sc_backend (sm_semantic (ac_smart c)) \<Longrightarrow>
   sc_endpoint (f (sm_semantic (ac_smart c))) = sc_endpoint (sm_semantic (ac_smart c)) \<Longrightarrow>
   tells c (map_semantic f c) ls"
  using sends_off_cong [of "f (sm_semantic (ac_smart c))" "sm_semantic (ac_smart c)"]
  by (simp add: tells_def sends_text_def map_semantic_def map_smart_def)

lemma semantic_unchanged:
  "sm_semantic (ac_smart (set_scope s m e c)) = sm_semantic (ac_smart c)"
  "sm_semantic (ac_smart (clear_scope s c)) = sm_semantic (ac_smart c)"
  "sm_semantic (ac_smart (map_providers f c)) = sm_semantic (ac_smart c)"
  by (cases s; simp add: set_scope_def clear_scope_def map_providers_def)+

lemma tells_semantic_run: "good (tells c) (run_semantic env sub v c)"
  unfolding run_semantic_def Let_def
  by (intro good_intros tells_warning tells_semantic) simp_all

lemma tells_smart_run: "good (tells c) (run_smart p env args c)"
  unfolding run_smart_def Let_def
  by (intro good_intros tells_semantic_run tells_same)
     (simp_all add: map_smart_def map_providers_def)

lemma tells_run: "good (tells c) (run_automation p env args c)"
  unfolding run_automation_def run_set_def run_review_def save_review_def run_provider_def
    run_rewrite_def Let_def
  by (intro good_intros tells_smart_run tells_same) (simp_all add: semantic_unchanged)

section \<open>Properties\<close>

text \<open>An environment for the witnesses.\<close>

definition demo_env :: "(effect \<Rightarrow> bool) \<Rightarrow> cli_env" where
  "demo_env ok =
     \<lparr>ce_ok = ok, ce_lower = to_ascii_lowercase, ce_parse_f64 = \<lambda>_. None,
      ce_show_f64 = \<lambda>_. [], ce_now = 0, ce_stdin = None, ce_builtin_dir = []\<rparr>"

text \<open>
  C20. Every sequence of commands keeps the stored configuration well formed: maps ordered, no
  provider enabled twice, a positive budget, reviewers that exist and are at least one, reviews no
  closer than a minute, and the gate on only while smart mode is on.
\<close>

theorem automation_commands_wf:
  "config_ok positive (fold (command_step positive) cmds (automation_default linux))"
proof (rule automation.run_inv)
  have "list_all (\<lambda>i. backend_of i \<noteq> None) [''codex-cli'', ''claude-cli'', ''antigravity'']"
    by code_simp
  then show "config_ok positive (automation_default linux)"
    by (simp add: config_ok_iff providers_ok_def reviews_ok_def automation_default_def bt_ok_def
        robot_default_def providers_default_def review_default_def smart_default_def)
qed

text \<open>
  A command that ends with an error (a bad argument, a failed installation, a failed write)
  leaves the stored configuration as it was.
\<close>

theorem failed_command_keeps_config:
  assumes "snd (run_automation positive env args c) = Some e"
  shows "stored_after (run_automation positive env args c) c = c"
  using stored_after_cases [of "run_automation positive env args c" c]
    tells_run [of c positive env args] assms
  by (auto simp: good_def)

theorem failed_command_keeps_config_witness:
  "stored_after (run_automation (\<lambda>_. True) (demo_env (\<lambda>_. False)) [''automation'', ''smart'', ''off'']
     (automation_default True)) (automation_default True) = automation_default True"
  by (rule failed_command_keeps_config [where e = IoError]) code_simp



text \<open>
  A mode set for a session is what the session resolves to until it expires, whatever its
  workspace says; an expired entry counts as no entry; and clearing undoes a setting exactly.
\<close>

theorem session_mode_laws:
  assumes "config_ok positive c"
  shows "resolve (set_scope (ScSession i) m e c) (Some i) alias now =
           (if entry_active now \<lparr>se_mode = m, se_expires_at = e\<rparr> then m
            else resolve (clear_scope (ScSession i) c) (Some i) alias now) \<and>
         (\<forall>j. j \<noteq> i \<longrightarrow>
            resolve (set_scope (ScSession i) m e c) (Some j) alias now = resolve c (Some j) alias now) \<and>
         (map_of (ac_sessions c) i = None \<longrightarrow>
            clear_scope (ScSession i) (set_scope (ScSession i) m e c) = c)"
proof -
  let ?e = "\<lparr>se_mode = m, se_expires_at = e\<rparr>"
  have ok: "bt_ok (ac_sessions c)" using assms by (simp add: config_ok_iff)
  have "bt_del i (bt_put i ?e (ac_sessions c)) = ac_sessions c"
    if "map_of (ac_sessions c) i = None"
  proof (rule bt_ext)
    show "map_of (bt_del i (bt_put i ?e (ac_sessions c))) = map_of (ac_sessions c)"
      using that by (auto simp: bt.get_put_del [OF ok])
  qed (simp_all add: ok bt.ok_del bt.ok_put)
  then show ?thesis
    using bt.get_put [OF ok] bt.get_del [OF ok]
    by (simp add: resolve_def set_scope_def clear_scope_def cong: option.case_cong)
qed

theorem session_mode_laws_witness:
  "resolve (set_scope (ScSession ''s'') Robot (Some 10)
     (set_scope (ScWorkspace ''w'') Auto None (automation_default True))) (Some ''s'') ''w'' 11 = Auto"
proof -
  let ?c = "set_scope (ScWorkspace ''w'') Auto None (automation_default True)"
  have ok: "config_ok (\<lambda>_. True) ?c" by code_simp
  have "\<not> entry_active 11 \<lparr>se_mode = Robot, se_expires_at = Some 10\<rparr>" by code_simp
  moreover have "resolve (clear_scope (ScSession ''s'') ?c) (Some ''s'') ''w'' 11 = Auto" by code_simp
  ultimately show ?thesis using session_mode_laws [OF ok] by simp
qed

text \<open>
  Every label is read back as the value it names, for modes, strategies and review depths, for
  any lower-case mapping that is the ASCII one on ASCII text; the identifier of every back end is
  read back too.
\<close>

theorem automation_labels_roundtrip:
  assumes "\<And>s. list_all (\<lambda>c. (of_char c :: nat) < 128) s \<Longrightarrow> lower s = to_ascii_lowercase s"
  shows "mode_parse lower (mode_label m) = Some m \<and>
    strategy_parse lower (strategy_label s) = Some s \<and>
    depth_parse (depth_label d) = Some d \<and> backend_of (backend_id b) = Some b \<and>
    backend_parse (backend_label k) = Some k"
proof -
  have m: "\<forall>m \<in> set [Manual, Auto, Robot].
      list_all (\<lambda>c. (of_char c :: nat) < 128) (trim (mode_label m)) \<and>
      mode_parse to_ascii_lowercase (mode_label m) = Some m" by code_simp
  have s: "\<forall>s \<in> set strategy_all.
      list_all (\<lambda>c. (of_char c :: nat) < 128) (trim (strategy_label s)) \<and>
      strategy_parse to_ascii_lowercase (strategy_label s) = Some s" by code_simp
  have d: "\<forall>d \<in> set [Shallow, Normal, Deep]. depth_parse (depth_label d) = Some d" by code_simp
  have b: "\<forall>b \<in> set backend_all. backend_of (backend_id b) = Some b" by code_simp
  have k: "\<forall>k \<in> set [Off, Local, Ollama, OpenAiCompatible, AgentCli].
      backend_parse (backend_label k) = Some k" by code_simp
  have "mode_parse lower (mode_label m) = mode_parse to_ascii_lowercase (mode_label m)"
    using m assms by (cases m) (simp_all only: mode_parse_def list.set ball_simps insert_iff simp_thms)
  moreover have "strategy_parse lower (strategy_label s) = strategy_parse to_ascii_lowercase (strategy_label s)"
    using s assms
    by (cases s) (simp_all only: strategy_parse_def strategy_all_def list.set ball_simps simp_thms)
  moreover have "m \<in> set [Manual, Auto, Robot]" by (cases m) simp_all
  moreover have "s \<in> set strategy_all" by (cases s) (simp_all add: strategy_all_def)
  moreover have "d \<in> set [Shallow, Normal, Deep]" by (cases d) simp_all
  moreover have "b \<in> set backend_all" by (cases b) (simp_all add: backend_all_def)
  moreover have "k \<in> set [Off, Local, Ollama, OpenAiCompatible, AgentCli]" by (cases k) simp_all
  ultimately show ?thesis using m s d b k by metis
qed

theorem automation_labels_roundtrip_witness:
  "mode_parse to_ascii_lowercase (mode_label Robot) = Some Robot"
  using automation_labels_roundtrip [where lower = to_ascii_lowercase and m = Robot] by simp

end
