(* ===== verification/Telegram.thy ===== *)
theory Telegram
  imports Callbacks
begin

text \<open>
  The Telegram client (\<open>crates/relay-agent/src/telegram.rs\<close>): the choice between the direct route
  and the proxy, the retry loop of a call, the download of a file, and the parts of messages. What
  the network does is a parameter: the outcome of attempt \<open>n\<close> over a route is \<open>net n proxied\<close>. An
  \<open>Instant\<close> is a number of nanoseconds.
\<close>

section \<open>The route\<close>

definition FAILURES_BEFORE_SWITCH :: nat where "FAILURES_BEFORE_SWITCH = 2"
definition PRIMARY_RETRY :: nat where "PRIMARY_RETRY = 15 * 60 * 1000000000"
definition SEND_ATTEMPTS :: nat where "SEND_ATTEMPTS = 3"
definition RETRY_BACKOFF :: "nat list" where "RETRY_BACKOFF = [1, 3]"

definition retry_delay :: "string \<Rightarrow> nat \<Rightarrow> bool \<Rightarrow> nat option" where
  "retry_delay name attempt connect_error =
     (if name = ''getUpdates'' \<or> \<not> connect_error \<or> SEND_ATTEMPTS \<le> attempt then None
      else nth_opt RETRY_BACKOFF (attempt - 1))"

record route =
  rt_on_fallback :: bool
  rt_failures :: nat
  rt_switched_at :: "nat option"

definition route_new :: "bool \<Rightarrow> route" where
  "route_new start_on_fallback =
     \<lparr>rt_on_fallback = start_on_fallback, rt_failures = 0, rt_switched_at = None\<rparr>"

definition note_success :: "route \<Rightarrow> route" where
  "note_success r = r\<lparr>rt_failures := 0\<rparr>"

definition note_failure :: "bool \<Rightarrow> nat \<Rightarrow> route \<Rightarrow> bool \<times> route" where
  "note_failure has_fallback now r =
     (if \<not> has_fallback then (False, r)
      else let seen = rt_failures r + 1
           in if seen < FAILURES_BEFORE_SWITCH then (False, r\<lparr>rt_failures := seen\<rparr>)
              else (True, r\<lparr>rt_failures := 0, rt_on_fallback := \<not> rt_on_fallback r,
                            rt_switched_at := Some now\<rparr>))"

definition due_to_retry_primary :: "nat \<Rightarrow> route \<Rightarrow> bool \<times> route" where
  "due_to_retry_primary now r =
     (if \<not> rt_on_fallback r then (False, r)
      else case rt_switched_at r of
             Some at \<Rightarrow>
               if PRIMARY_RETRY \<le> now - at then (True, r\<lparr>rt_switched_at := Some now\<rparr>)
               else (False, r)
           | None \<Rightarrow> (False, r\<lparr>rt_switched_at := Some now\<rparr>))"

definition back_to_primary :: "route \<Rightarrow> route" where
  "back_to_primary r = r\<lparr>rt_on_fallback := False, rt_failures := 0\<rparr>"

section \<open>Calls\<close>

text \<open>
  What an attempt comes to: an answer (with the JSON of its body, if that can be read), a connection
  that was never made, or a failure after the request may have left.
\<close>

datatype sent = Answered "json option" | ConnectError | LateError

datatype call_error = Unreachable string | BadBody | Refused string

text \<open>The client of the proxy is used only on the fallback route, and only when there is one.\<close>

definition proxied :: "bool \<Rightarrow> route \<Rightarrow> bool" where
  "proxied has_fallback r \<longleftrightarrow> rt_on_fallback r \<and> has_fallback"

definition route_label :: "route \<Rightarrow> string" where
  "route_label r = (if rt_on_fallback r then ''proxy'' else ''direct'')"

text \<open>
  The loop: \<open>attempt\<close> is the number of attempts made, \<open>clock n\<close> the time attempt \<open>n\<close> ends. The
  result lists what the attempts came to, in order.
\<close>

function call_loop ::
  "bool \<Rightarrow> (nat \<Rightarrow> bool \<Rightarrow> sent) \<Rightarrow> (nat \<Rightarrow> nat) \<Rightarrow> string \<Rightarrow> nat \<Rightarrow> route \<Rightarrow>
   sent list \<times> (call_error + json option) \<times> route" where
  "call_loop has_fallback net clock name attempt r =
     (let attempt' = attempt + 1;
          out = net attempt' (proxied has_fallback r)
      in case out of
           Answered body \<Rightarrow> ([out], Inr body, note_success r)
         | err \<Rightarrow>
             (let r' = snd (note_failure has_fallback (clock attempt') r)
              in case retry_delay name attempt' (err = ConnectError) of
                   None \<Rightarrow> ([out], Inl (Unreachable (route_label r)), r')
                 | Some delay \<Rightarrow>
                     (let (log, res, r2) = call_loop has_fallback net clock name attempt' r'
                      in (out # log, res, r2))))"
  by pat_completeness auto
termination
  by (relation "measure (\<lambda>(_, _, _, _, attempt, _). SEND_ATTEMPTS - attempt)")
     (auto simp: retry_delay_def split: if_split_asm)

declare call_loop.simps [simp del]

text \<open>\<open>probe\<close> is whether \<open>getMe\<close> succeeds on the direct route.\<close>

definition api_call ::
  "bool \<Rightarrow> bool \<Rightarrow> (nat \<Rightarrow> bool \<Rightarrow> sent) \<Rightarrow> (nat \<Rightarrow> nat) \<Rightarrow> string \<Rightarrow> nat \<Rightarrow> route \<Rightarrow>
   sent list \<times> (call_error + json) \<times> route" where
  "api_call has_fallback probe net clock name now r =
     (let (due, r1) = due_to_retry_primary now r;
          r2 = (if due \<and> probe then back_to_primary r1 else r1);
          (log, res, r3) = call_loop has_fallback net clock name 0 r2
      in (log,
          (case res of
             Inl e \<Rightarrow> Inl e
           | Inr None \<Rightarrow> Inl BadBody
           | Inr (Some v) \<Rightarrow>
               if Option.bind (jget v ''ok'') as_bool = Some True
               then Inr (unwrap_or JNull (jget v ''result''))
               else Inl (Refused (unwrap_or ''request failed'' (get_str v ''description'')))),
          r3))"

text \<open>
  A download reads chunks (\<open>None\<close> is a failing read) until they end or pass the cap.
\<close>

datatype download_error = BadStatus nat | TooLarge | ReadError

fun read_chunks :: "nat \<Rightarrow> string \<Rightarrow> string option list \<Rightarrow> download_error + string" where
  "read_chunks max_bytes buf [] = Inr buf"
| "read_chunks max_bytes buf (None # cs) = Inl ReadError"
| "read_chunks max_bytes buf (Some c # cs) =
     (if max_bytes < length buf + length c then Inl TooLarge
      else read_chunks max_bytes (buf @ c) cs)"

definition download_file ::
  "nat \<Rightarrow> nat \<Rightarrow> nat option \<Rightarrow> string option list \<Rightarrow> download_error + string" where
  "download_file max_bytes status content_length chunks =
     (if \<not> (200 \<le> status \<and> status < 300) then Inl (BadStatus status)
      else if (\<exists>n \<in> set_option content_length. max_bytes < n) then Inl TooLarge
      else read_chunks max_bytes [] chunks)"

section \<open>Messages\<close>

datatype MediaKind = Photo | Video | VideoNote | Voice | Audio | Document

definition media_str :: "MediaKind \<Rightarrow> string" where
  "media_str k =
     (case k of Photo \<Rightarrow> ''photo'' | Video \<Rightarrow> ''video'' | VideoNote \<Rightarrow> ''video note''
      | Voice \<Rightarrow> ''voice message'' | Audio \<Rightarrow> ''audio'' | Document \<Rightarrow> ''document'')"

definition default_ext :: "MediaKind \<Rightarrow> string" where
  "default_ext k =
     (case k of Photo \<Rightarrow> ''jpg'' | Video \<Rightarrow> ''mp4'' | VideoNote \<Rightarrow> ''mp4'' | Voice \<Rightarrow> ''ogg''
      | Audio \<Rightarrow> ''mp3'' | Document \<Rightarrow> ''bin'')"

record photo_size =
  ph_file_id :: string
  ph_width :: i64
  ph_height :: i64
  ph_file_size :: "i64 option"

text \<open>A file sent as anything but a photo: its identifier and its name, if it has one.\<close>

type_synonym tg_file = "string \<times> string option"

record tg_user =
  us_first_name :: "string option"
  us_last_name :: "string option"
  us_username :: "string option"

record tg_chat =
  ch_title :: "string option"
  ch_username :: "string option"

record message =
  ms_photo :: "photo_size list option"
  ms_document :: "tg_file option"
  ms_voice :: "string option"
  ms_audio :: "tg_file option"
  ms_video :: "tg_file option"
  ms_video_note :: "string option"
  ms_forward_origin :: "json option"
  ms_forward_sender_name :: "string option"
  ms_forward_from :: "tg_user option"
  ms_forward_from_chat :: "tg_chat option"

record media_ref =
  mr_kind :: MediaKind
  mr_file_id :: string
  mr_file_name :: "string option"

definition has_media :: "message \<Rightarrow> bool" where
  "has_media m \<longleftrightarrow>
     ms_photo m \<noteq> None \<or> ms_document m \<noteq> None \<or> ms_voice m \<noteq> None \<or> ms_audio m \<noteq> None \<or>
     ms_video m \<noteq> None \<or> ms_video_note m \<noteq> None"

definition saturating_mul_i64 :: "i64 \<Rightarrow> i64 \<Rightarrow> i64" where
  "saturating_mul_i64 a b = max (- (2 ^ 63)) (min (2 ^ 63 - 1) (a * b))"

definition photo_weight :: "photo_size \<Rightarrow> i64" where
  "photo_weight p = unwrap_or (saturating_mul_i64 (ph_width p) (ph_height p)) (ph_file_size p)"

text \<open>\<open>max_by_key\<close> keeps the last of the largest elements.\<close>

fun max_by_key :: "('a \<Rightarrow> 'k::linorder) \<Rightarrow> 'a list \<Rightarrow> 'a option" where
  "max_by_key f [] = None"
| "max_by_key f (x # xs) =
     (case max_by_key f xs of
        None \<Rightarrow> Some x
      | Some y \<Rightarrow> if f x \<le> f y then Some y else Some x)"

definition media_refs :: "message \<Rightarrow> media_ref list" where
  "media_refs m =
     (case Option.bind (ms_photo m) (max_by_key photo_weight) of
        Some p \<Rightarrow> [\<lparr>mr_kind = Photo, mr_file_id = ph_file_id p, mr_file_name = None\<rparr>]
      | None \<Rightarrow> []) @
     (case ms_document m of
        Some f \<Rightarrow> [\<lparr>mr_kind = Document, mr_file_id = fst f, mr_file_name = snd f\<rparr>] | None \<Rightarrow> []) @
     (case ms_voice m of
        Some f \<Rightarrow> [\<lparr>mr_kind = Voice, mr_file_id = f, mr_file_name = None\<rparr>] | None \<Rightarrow> []) @
     (case ms_audio m of
        Some f \<Rightarrow> [\<lparr>mr_kind = Audio, mr_file_id = fst f, mr_file_name = snd f\<rparr>] | None \<Rightarrow> []) @
     (case ms_video m of
        Some f \<Rightarrow> [\<lparr>mr_kind = Video, mr_file_id = fst f, mr_file_name = snd f\<rparr>] | None \<Rightarrow> []) @
     (case ms_video_note m of
        Some f \<Rightarrow> [\<lparr>mr_kind = VideoNote, mr_file_id = f, mr_file_name = None\<rparr>] | None \<Rightarrow> [])"

definition forward_origin_label :: "json \<Rightarrow> string option" where
  "forward_origin_label origin =
     (let t = get_str origin ''type''
      in if t = Some ''user''
         then Option.bind (jget origin ''sender_user'') (\<lambda>u. get_str u ''first_name'')
         else if t = Some ''hidden_user'' then get_str origin ''sender_user_name''
         else if t = Some ''chat''
         then Option.bind (jget origin ''sender_chat'') (\<lambda>c. get_str c ''title'')
         else if t = Some ''channel''
         then Option.bind (jget origin ''chat'') (\<lambda>c. get_str c ''title'')
         else None)"

definition user_label :: "tg_user \<Rightarrow> string option" where
  "user_label u =
     (case (us_first_name u, us_last_name u) of
        (Some f, Some l) \<Rightarrow> Some (f @ '' '' @ l)
      | (Some f, None) \<Rightarrow> Some f
      | (None, Some l) \<Rightarrow> Some l
      | (None, None) \<Rightarrow> map_option (\<lambda>n. ''@'' @ n) (us_username u))"

definition chat_label :: "tg_chat \<Rightarrow> string option" where
  "chat_label c = or_else (ch_title c) (map_option (\<lambda>n. ''@'' @ n) (ch_username c))"

definition forward_label :: "message \<Rightarrow> string option" where
  "forward_label m =
     or_else (Option.bind (ms_forward_origin m) forward_origin_label)
       (or_else (ms_forward_sender_name m)
         (or_else (Option.bind (ms_forward_from m) user_label)
           (Option.bind (ms_forward_from_chat m) chat_label)))"

section \<open>Settings and text\<close>

definition PROXY_VARS :: "string list" where
  "PROXY_VARS = [''VSC_RELAY_PROXY'', ''ALL_PROXY'', ''all_proxy'', ''HTTPS_PROXY'', ''https_proxy'']"

fun find_map :: "('a \<Rightarrow> 'b option) \<Rightarrow> 'a list \<Rightarrow> 'b option" where
  "find_map f [] = None"
| "find_map f (x # xs) = (case f x of Some y \<Rightarrow> Some y | None \<Rightarrow> find_map f xs)"

definition proxy_from :: "(string \<Rightarrow> string option) \<Rightarrow> string option" where
  "proxy_from lookup =
     find_map (\<lambda>name. opt_filter (\<lambda>v. v \<noteq> []) (map_option trim (lookup name))) PROXY_VARS"

definition redact_proxy :: "string \<Rightarrow> string" where
  "redact_proxy address =
     (case split_once ''://'' address of
        None \<Rightarrow> address
      | Some (scheme, rest) \<Rightarrow>
          (case rsplit_once ''@'' rest of
             Some (_, host) \<Rightarrow> scheme @ ''://***@'' @ host
           | None \<Rightarrow> address))"

definition DEFAULT_API_BASE :: string where "DEFAULT_API_BASE = ''https://api.telegram.org''"

definition api_base_from :: "(string \<Rightarrow> string option) \<Rightarrow> string" where
  "api_base_from lookup =
     unwrap_or DEFAULT_API_BASE
       (opt_filter (\<lambda>v. v \<noteq> [])
         (map_option (\<lambda>v. rev (dropWhile (\<lambda>c. c = CHR ''/'') (rev (trim v))))
           (lookup ''VSC_RELAY_TELEGRAM_API'')))"

text \<open>The three replacements of \<open>esc_html\<close>, one after the other.\<close>

definition replace_char :: "char \<Rightarrow> string \<Rightarrow> string \<Rightarrow> string" where
  "replace_char c by s = concat (map (\<lambda>x. if x = c then by else [x]) s)"

definition esc_html :: "string \<Rightarrow> string" where
  "esc_html s =
     replace_char CHR ''>'' ''&gt;''
       (replace_char CHR ''<'' ''&lt;'' (replace_char CHR ''&'' ''&amp;'' s))"

text \<open>A keyboard encodes its buttons from left to right and top to bottom.\<close>

fun keyboard_row :: "(string \<times> string) list \<Rightarrow> cb_store \<Rightarrow> json list \<times> cb_store" where
  "keyboard_row [] s = ([], s)"
| "keyboard_row ((label, data) # bs) s =
     (let (d, s1) = encode data s; (js, s2) = keyboard_row bs s1
      in (JObject [(''callback_data'', JString d), (''text'', JString label)] # js, s2))"

fun keyboard_rows :: "(string \<times> string) list list \<Rightarrow> cb_store \<Rightarrow> json list \<times> cb_store" where
  "keyboard_rows [] s = ([], s)"
| "keyboard_rows (r # rs) s =
     (let (js, s1) = keyboard_row r s; (kb, s2) = keyboard_rows rs s1 in (JArray js # kb, s2))"

definition keyboard :: "(string \<times> string) list list \<Rightarrow> cb_store \<Rightarrow> json \<times> cb_store" where
  "keyboard rows s =
     (let (kb, s') = keyboard_rows rows s in (JObject [(''inline_keyboard'', JArray kb)], s'))"

section \<open>The retry loop\<close>

lemma call_loop_answered:
  "net (n + 1) (proxied hf r) = Answered b \<Longrightarrow>
   call_loop hf net clock name n r = ([Answered b], Inr b, note_success r)"
  by (subst call_loop.simps) (simp add: Let_def)

lemma call_loop_stops:
  "\<forall>b. net (n + 1) (proxied hf r) \<noteq> Answered b \<Longrightarrow>
   retry_delay name (n + 1) (net (n + 1) (proxied hf r) = ConnectError) = None \<Longrightarrow>
   call_loop hf net clock name n r =
     ([net (n + 1) (proxied hf r)], Inl (Unreachable (route_label r)),
      snd (note_failure hf (clock (n + 1)) r))"
  by (subst call_loop.simps) (auto simp: Let_def split: sent.splits)

lemma call_loop_retries:
  "net (n + 1) (proxied hf r) = ConnectError \<Longrightarrow> retry_delay name (n + 1) True = Some d \<Longrightarrow>
   call_loop hf net clock name (n + 1) (snd (note_failure hf (clock (n + 1)) r)) = (log, res, r2) \<Longrightarrow>
   call_loop hf net clock name n r = (ConnectError # log, res, r2)"
  by (subst call_loop.simps) (simp add: Let_def)

definition log_ok :: "string \<Rightarrow> nat \<Rightarrow> sent list \<Rightarrow> call_error + json option \<Rightarrow> bool" where
  "log_ok name n log res \<longleftrightarrow>
     log \<noteq> [] \<and> set (butlast log) \<subseteq> {ConnectError} \<and> length log \<le> max 1 (SEND_ATTEMPTS - n) \<and>
     (name = ''getUpdates'' \<longrightarrow> length log = 1) \<and>
     (case res of Inr body \<Rightarrow> last log = Answered body | Inl e \<Rightarrow> (\<forall>b. last log \<noteq> Answered b))"

lemma call_loop_log:
  "call_loop hf net clock name n r = (log, res, r') \<Longrightarrow> log_ok name n log res"
proof (induction "SEND_ATTEMPTS - n" arbitrary: n r log res r' rule: less_induct)
  case less
  let ?out = "net (n + 1) (proxied hf r)"
  consider (answered) b where "?out = Answered b"
    | (stops) "\<forall>b. ?out \<noteq> Answered b" "retry_delay name (n + 1) (?out = ConnectError) = None"
    | (retries) d where "?out = ConnectError" "retry_delay name (n + 1) True = Some d"
    by (cases ?out; cases "retry_delay name (n + 1) (?out = ConnectError)")
       (auto simp: retry_delay_def)
  then show ?case
  proof cases
    case (answered b)
    with less.prems show ?thesis by (auto simp: call_loop_answered log_ok_def)
  next
    case stops
    with less.prems show ?thesis by (auto simp: call_loop_stops [of net n hf r name, OF stops] log_ok_def)
  next
    case (retries d)
    then have n: "n + 1 < SEND_ATTEMPTS" and m: "name \<noteq> ''getUpdates''"
      by (auto simp: retry_delay_def split: if_split_asm)
    obtain log1 res1 r2 where rec:
      "call_loop hf net clock name (n + 1) (snd (note_failure hf (clock (n + 1)) r)) =
       (log1, res1, r2)"
      by (metis prod.collapse)
    have "log_ok name (n + 1) log1 res1"
      by (rule less.hyps [OF _ rec]) (use n in simp)
    with n m less.prems call_loop_retries [OF retries rec] show ?thesis
      by (auto simp: log_ok_def split: sum.splits)
  qed
qed

section \<open>The route over time\<close>

datatype route_event = CallSucceeded | CallFailed nat | RetryPrimary nat bool

definition route_step :: "bool \<Rightarrow> route_event \<Rightarrow> route \<Rightarrow> route" where
  "route_step has_fallback e r =
     (case e of
        CallSucceeded \<Rightarrow> note_success r
      | CallFailed now \<Rightarrow> snd (note_failure has_fallback now r)
      | RetryPrimary now ok \<Rightarrow>
          (let (due, r1) = due_to_retry_primary now r
           in if due \<and> ok then back_to_primary r1 else r1))"

definition route_ok :: "bool \<Rightarrow> route \<Rightarrow> bool" where
  "route_ok has_fallback r \<longleftrightarrow>
     rt_failures r < FAILURES_BEFORE_SWITCH \<and> (rt_on_fallback r \<longrightarrow> has_fallback)"

lemma route_ok_failure: "route_ok hf r \<Longrightarrow> route_ok hf (snd (note_failure hf now r))"
  by (auto simp: route_ok_def note_failure_def FAILURES_BEFORE_SWITCH_def Let_def)

lemma route_ok_due: "route_ok hf r \<Longrightarrow> route_ok hf (snd (due_to_retry_primary now r))"
  by (auto simp: route_ok_def due_to_retry_primary_def split: option.splits)

lemma route_ok_simple:
  "route_ok hf r \<Longrightarrow> route_ok hf (note_success r)"
  "route_ok hf r \<Longrightarrow> route_ok hf (back_to_primary r)"
  "route_ok hf (route_new hf)"
  by (auto simp: route_ok_def note_success_def back_to_primary_def route_new_def
      FAILURES_BEFORE_SWITCH_def)

interpretation route: invariant_machine "route_step has_fallback" "route_ok has_fallback"
proof
  fix s e assume "route_ok has_fallback s"
  then show "route_ok has_fallback (route_step has_fallback e s)"
    by (cases e)
       (simp_all add: route_step_def case_prod_beta Let_def route_ok_simple route_ok_failure
         route_ok_due)
qed

section \<open>Text\<close>

definition esc_char :: "char \<Rightarrow> string" where
  "esc_char c =
     (if c = CHR ''&'' then ''&amp;'' else if c = CHR ''<'' then ''&lt;''
      else if c = CHR ''>'' then ''&gt;'' else [c])"

lemma replace_char_append: "replace_char c b (x @ y) = replace_char c b x @ replace_char c b y"
  by (simp add: replace_char_def)

lemma esc_html_chars: "esc_html s = concat (map esc_char s)"
proof (induction s)
  case Nil
  then show ?case by (simp add: esc_html_def replace_char_def)
next
  case (Cons c s)
  have "esc_html (c # s) = esc_html [c] @ esc_html s"
    by (simp add: esc_html_def replace_char_def)
  moreover have "esc_html [c] = esc_char c"
    by (simp add: esc_html_def esc_char_def replace_char_def)
  ultimately show ?case using Cons by simp
qed

lemma esc_char_nonempty: "esc_char c \<noteq> []"
  by (simp add: esc_char_def)

lemma esc_char_prefix: "esc_char c @ x = esc_char d @ y \<Longrightarrow> c = d \<and> x = y"
  by (auto simp: esc_char_def split: if_split_asm)

lemma esc_html_inj: "esc_html s = esc_html t \<Longrightarrow> s = t"
  unfolding esc_html_chars
proof (induction s arbitrary: t)
  case Nil
  then show ?case by (cases t) (auto simp: esc_char_nonempty)
next
  case (Cons c s)
  then obtain d u where t: "t = d # u" by (cases t) (auto simp: esc_char_nonempty)
  with Cons.prems have "c = d \<and> concat (map esc_char s) = concat (map esc_char u)"
    by (intro esc_char_prefix) simp
  with Cons.IH t show ?case by blast
qed

lemma split_once_clean: "CHR '':'' \<notin> set a \<Longrightarrow> split_once ''://'' (a @ ''://'' @ b) = Some (a, b)"
  by (induction a) auto

lemma rsplit_once_clean: "CHR ''@'' \<notin> set b \<Longrightarrow> rsplit_once ''@'' (a @ ''@'' @ b) = Some (a, b)"
proof (induction a)
  case Nil
  then have "rsplit_once ''@'' b = None"
    by (auto simp: rsplit_once_None contains_iff)
  then show ?case by simp
next
  case (Cons c a)
  then show ?case by simp
qed

section \<open>Buttons\<close>

text \<open>The button \<open>b\<close> carries \<open>d\<close>, and keeps carrying it while at most \<open>k\<close> entries are younger.\<close>

definition carries :: "string \<Rightarrow> string \<Rightarrow> nat \<Rightarrow> cb_store \<Rightarrow> bool" where
  "carries b d k s \<longleftrightarrow>
     (b = d \<and> \<not> starts_with ''x:'' b) \<or>
     (\<exists>i. b = ''x:'' @ dec i \<and> i \<le> U32_MAX \<and> holds i d k s)"

lemma holds_mono: "holds i d k s \<Longrightarrow> k \<le> m \<Longrightarrow> holds i d m s"
  unfolding holds_def by (meson le_trans)

lemma carries_decodes: "carries b d k s \<Longrightarrow> decode_or_raw b s = d"
  by (auto simp: carries_def decode_or_raw_def decode_def strip_prefix_def parse_uint_dec holds_def)

lemma encode_cases:
  obtains "encode d s = (d, s)" "\<not> starts_with ''x:'' d"
  | "encode d s = (''x:'' @ dec (fst (store_put d s)), snd (store_put d s))"
  by (cases "length d \<le> MAX_INLINE \<and> \<not> starts_with ''x:'' d")
     (simp_all add: encode_def case_prod_beta)

lemma encode_ok: "store_ok s \<Longrightarrow> store_ok (snd (encode d s))"
  by (rule encode_cases [of d s]) (auto simp: store_ok_put)

lemma encode_carries:
  assumes "store_ok s"
  shows "carries (fst (encode d s)) d 0 (snd (encode d s))"
proof (rule encode_cases [of d s])
  assume "encode d s = (''x:'' @ dec (fst (store_put d s)), snd (store_put d s))"
  moreover have "fst (store_put d s) \<le> U32_MAX"
    using assms by (simp add: store_put_def Let_def store_ok_def)
  ultimately show ?thesis using holds_put [OF assms, of d] by (auto simp: carries_def)
qed (simp add: carries_def)

lemma encode_keeps:
  assumes ok: "store_ok s" and c: "carries b d k s" and k: "k + 1 < CAP"
  shows "carries b d (k + 1) (snd (encode e s))"
proof (rule encode_cases [of e s])
  assume "encode e s = (e, s)"
  with c holds_mono [of _ d k s "k + 1"] show ?thesis unfolding carries_def by auto
next
  assume "encode e s = (''x:'' @ dec (fst (store_put e s)), snd (store_put e s))"
  with c holds_later [OF ok _ k] show ?thesis unfolding carries_def by auto
qed

definition button :: "json \<Rightarrow> string" where
  "button j = unwrap_or [] (get_str j ''callback_data'')"

lemma keyboard_row_Cons:
  assumes "keyboard_row ((label, data) # bs) s = (js, s')"
  obtains e s1 js2 where "encode data s = (e, s1)" "keyboard_row bs s1 = (js2, s')"
    "js = JObject [(''callback_data'', JString e), (''text'', JString label)] # js2"
  using assms by (auto split: prod.splits)

lemma row_keeps:
  assumes "keyboard_row bs s = (js, s')" "store_ok s" "carries b d k s" "k + length bs < CAP"
  shows "carries b d (k + length bs) s'"
  using assms
proof (induction bs arbitrary: s js k)
  case (Cons x bs)
  obtain label data where x: "x = (label, data)" by (cases x)
  with Cons.prems(1) obtain e s1 js2 where e: "encode data s = (e, s1)"
    and r: "keyboard_row bs s1 = (js2, s')"
    unfolding x using keyboard_row_Cons by blast
  have "store_ok s1" and "carries b d (k + 1) s1"
    using encode_ok [of s data] encode_keeps [of s b d k data] e Cons.prems by auto
  from Cons.IH [OF r this] Cons.prems show ?case by simp
qed simp

lemma row_ok: "keyboard_row bs s = (js, s') \<Longrightarrow> store_ok s \<Longrightarrow> store_ok s'"
proof (induction bs arbitrary: s js)
  case (Cons x bs)
  obtain label data where x: "x = (label, data)" by (cases x)
  with Cons.prems(1) obtain e s1 js2 where e: "encode data s = (e, s1)"
    and r: "keyboard_row bs s1 = (js2, s')"
    unfolding x using keyboard_row_Cons by blast
  then show ?case using Cons encode_ok [of s data] by auto
qed simp

lemma carries_mono: "carries b d k s \<Longrightarrow> k \<le> m \<Longrightarrow> carries b d m s"
  unfolding carries_def using holds_mono [of _ d k s m] by blast

lemma row_carries:
  assumes "keyboard_row bs s = (js, s')" "store_ok s" "length bs < CAP"
  shows "list_all2 (\<lambda>b j. carries (button j) (snd b) (length bs) s') bs js"
  using assms
proof (induction bs arbitrary: s js)
  case (Cons x bs)
  obtain label data where x: "x = (label, data)" by (cases x)
  with Cons.prems(1) obtain e s1 js2 where e: "encode data s = (e, s1)"
    and r: "keyboard_row bs s1 = (js2, s')"
    and js: "js = JObject [(''callback_data'', JString e), (''text'', JString label)] # js2"
    unfolding x using keyboard_row_Cons by blast
  have ok: "store_ok s1" and "carries e data 0 s1"
    using encode_ok [of s data] encode_carries [of s data] e Cons.prems by auto
  then have "carries e data (0 + length bs) s'"
    using Cons.prems by (intro row_keeps [OF r]) auto
  then have "carries e data (length (x # bs)) s'" by (rule carries_mono) simp
  moreover have "list_all2 (\<lambda>b j. carries (button j) (snd b) (length bs) s') bs js2"
    using Cons.IH [OF r ok] Cons.prems by simp
  then have "list_all2 (\<lambda>b j. carries (button j) (snd b) (length (x # bs)) s') bs js2"
    by (rule list.rel_mono_strong) (auto intro: carries_mono)
  ultimately show ?case
    by (simp add: js x button_def get_str_def jget_def as_str_def)
qed simp

lemma row_append:
  "keyboard_row (a @ b) s =
     (let (x, s1) = keyboard_row a s; (y, s2) = keyboard_row b s1 in (x @ y, s2))"
  by (induction a s rule: keyboard_row.induct) (auto simp: Let_def split: prod.splits)

definition row_buttons :: "json \<Rightarrow> json list" where
  "row_buttons j = unwrap_or [] (as_array j)"

lemma rows_as_row:
  "keyboard_rows rs s = (kb, s') \<Longrightarrow>
   keyboard_row (concat rs) s = (concat (map row_buttons kb), s')"
proof (induction rs arbitrary: s kb)
  case (Cons r rs)
  then show ?case
    by (auto simp: row_append row_buttons_def as_array_def split: prod.splits)
qed simp

text \<open>The buttons of a keyboard, from left to right and top to bottom.\<close>

definition keyboard_buttons :: "json \<Rightarrow> json list" where
  "keyboard_buttons k =
     concat (map row_buttons (row_buttons (unwrap_or JNull (jget k ''inline_keyboard''))))"

lemma keyboard_as_row:
  assumes "keyboard rows s = (k, s')"
  shows "keyboard_row (concat rows) s = (keyboard_buttons k, s')"
proof -
  obtain kb where kb: "keyboard_rows rows s = (kb, s')"
    and k: "k = JObject [(''inline_keyboard'', JArray kb)]"
    using assms by (auto simp: keyboard_def split: prod.splits)
  from rows_as_row [OF kb] show ?thesis
    by (simp add: k keyboard_buttons_def jget_def row_buttons_def as_array_def)
qed

lemma keyboard_carries:
  assumes "keyboard rows s = (kb, s')" "store_ok s" "length (concat rows) < CAP"
  shows "map (\<lambda>j. decode_or_raw (button j) s') (keyboard_buttons kb) = map snd (concat rows)"
proof -
  have "list_all2 (\<lambda>b j. carries (button j) (snd b) (length (concat rows)) s') (concat rows) (keyboard_buttons kb)"
    by (rule row_carries [OF keyboard_as_row [OF assms(1)] assms(2,3)])
  then show ?thesis by (induction rule: list_all2_induct) (auto dest: carries_decodes)
qed

section \<open>Properties\<close>

text \<open>
  C27. A Telegram call sends its request at most once: it makes at most three attempts (one, for
  \<open>getUpdates\<close>), every attempt but the last never reached the server, and it returns an answer only
  when the last attempt was answered.
\<close>

theorem call_sends_at_most_once:
  assumes "api_call has_fallback probe net clock name now r = (log, res, r')"
  shows "length log \<le> 3 \<and> log \<noteq> [] \<and> list_all (\<lambda>a. a = ConnectError) (butlast log) \<and>
    (name = ''getUpdates'' \<longrightarrow> length log = 1) \<and>
    (\<forall>v. res = Inr v \<longrightarrow> (\<exists>b. last log = Answered (Some b)))"
proof -
  obtain due r1 where due: "due_to_retry_primary now r = (due, r1)"
    by (cases "due_to_retry_primary now r")
  define r2 where "r2 = (if due \<and> probe then back_to_primary r1 else r1)"
  obtain lg rs r3 where loop: "call_loop has_fallback net clock name 0 r2 = (lg, rs, r3)"
    by (metis prod.collapse)
  have log: "log = lg" and res: "res = Inr v \<Longrightarrow> \<exists>b. rs = Inr (Some b)" for v
    using assms due loop
    by (auto simp: api_call_def r2_def [symmetric] split: sum.splits option.splits)
  have "log_ok name 0 lg rs" using loop by (rule call_loop_log)
  with log res show ?thesis
    by (auto simp: log_ok_def SEND_ATTEMPTS_def list_all_iff split: sum.splits)
qed

theorem call_sends_at_most_once_witness:
  "\<exists>r. api_call True False (\<lambda>n p. if n = 1 then ConnectError else Answered None) (\<lambda>n. n)
         ''sendMessage'' 5 (route_new True) = ([ConnectError, Answered None], Inl BadBody, r) \<and>
       list_all (\<lambda>a. a = ConnectError) (butlast [ConnectError, Answered (None :: json option)])"
proof -
  let ?net = "\<lambda>n p. if n = (1::nat) then ConnectError else Answered None"
  obtain r where eq: "api_call True False ?net (\<lambda>n. n) ''sendMessage'' 5 (route_new True) =
      ([ConnectError, Answered None], Inl BadBody, r)"
    by (simp add: api_call_def due_to_retry_primary_def route_new_def call_loop.simps Let_def
        note_failure_def retry_delay_def SEND_ATTEMPTS_def RETRY_BACKOFF_def nth_opt_def
        FAILURES_BEFORE_SWITCH_def)
  from call_sends_at_most_once [OF eq] eq show ?thesis by blast
qed

text \<open>
  Whatever calls succeed or fail, the relay is on the proxy route only when there is a proxy, so
  the route it logs is the one its client uses; and the failure counter stays below its threshold.
\<close>

theorem route_is_what_it_says:
  "rt_failures (fold (route_step has_fallback) es (route_new has_fallback)) < FAILURES_BEFORE_SWITCH \<and>
   proxied has_fallback (fold (route_step has_fallback) es (route_new has_fallback)) =
     (route_label (fold (route_step has_fallback) es (route_new has_fallback)) = ''proxy'')"
  using route.run_inv [OF route_ok_simple(3) [of has_fallback], of es]
  by (auto simp: route_ok_def proxied_def route_label_def)

text \<open>
  The direct route is retried at most once in fifteen minutes while the relay stays on the
  proxy.
\<close>

theorem primary_retry_spaced:
  assumes "due_to_retry_primary t r = (True, r')" "t \<le> u" "u < t + PRIMARY_RETRY"
  shows "due_to_retry_primary u r' = (False, r')"
  using assms
  by (auto simp: due_to_retry_primary_def split: if_split_asm option.split_asm)

theorem primary_retry_spaced_witness:
  "due_to_retry_primary (PRIMARY_RETRY + 1)
     \<lparr>rt_on_fallback = True, rt_failures = 0, rt_switched_at = Some PRIMARY_RETRY\<rparr> =
   (False, \<lparr>rt_on_fallback = True, rt_failures = 0, rt_switched_at = Some PRIMARY_RETRY\<rparr>)"
  by (rule primary_retry_spaced
        [of PRIMARY_RETRY "\<lparr>rt_on_fallback = True, rt_failures = 0, rt_switched_at = Some 0\<rparr>"])
     (simp_all add: due_to_retry_primary_def PRIMARY_RETRY_def)

lemma read_chunks_Inr:
  "read_chunks m buf cs = Inr out \<Longrightarrow> length buf \<le> m \<Longrightarrow>
   length out \<le> m \<and> cs = map Some (map the cs) \<and> out = buf @ concat (map the cs)"
  by (induction m buf cs rule: read_chunks.induct) (auto split: if_split_asm)

text \<open>
  A download never returns more bytes than its cap, and what it returns is the whole body: every
  chunk, in order.
\<close>

theorem download_bounded:
  assumes "download_file max_bytes status content_length chunks = Inr out"
  shows "length out \<le> max_bytes \<and> 200 \<le> status \<and> status < 300 \<and>
    (\<exists>cs. chunks = map Some cs \<and> out = concat cs)"
proof -
  have "read_chunks max_bytes [] chunks = Inr out" and st: "200 \<le> status \<and> status < 300"
    using assms by (auto simp: download_file_def split: if_split_asm)
  from read_chunks_Inr [OF this(1)] st show ?thesis
    by (intro conjI exI [of _ "map the chunks"]) (blast | simp)+
qed

theorem download_bounded_witness:
  "length ''abc'' \<le> (3 :: nat) \<and> (\<exists>cs. [Some ''ab'', Some ''c''] = map Some cs \<and> ''abc'' = concat cs)"
  using download_bounded [of 3 200 "Some 3" "[Some ''ab'', Some ''c'']" "''abc''"]
  by (simp add: download_file_def)

text \<open>
  Escaped text holds no angle bracket and can be read in one way only, so a chat name or a
  command never becomes markup and is shown as it is.
\<close>

theorem esc_html_safe:
  "CHR ''<'' \<notin> set (esc_html s) \<and> CHR ''>'' \<notin> set (esc_html s) \<and> inj esc_html"
proof -
  have "CHR ''<'' \<notin> set (esc_char c) \<and> CHR ''>'' \<notin> set (esc_char c)" for c
    by (simp add: esc_char_def)
  then show ?thesis by (auto simp: esc_html_chars [of s] intro!: injI esc_html_inj)
qed

text \<open>
  The user name and password of a proxy never reach the log: what is logged of
  \<open>scheme://secret@host\<close> does not depend on the secret, whatever bytes it holds.
\<close>

theorem redact_proxy_hides:
  assumes "CHR '':'' \<notin> set scheme" "CHR ''@'' \<notin> set host"
  shows "redact_proxy (scheme @ ''://'' @ secret @ ''@'' @ host) = scheme @ ''://***@'' @ host"
  using assms unfolding redact_proxy_def
  by (simp only: split_once_clean rsplit_once_clean option.case prod.case simp_thms)

theorem redact_proxy_hides_witness:
  "redact_proxy (''http'' @ ''://'' @ ''user:p@ss'' @ ''@'' @ ''host:1'') = ''http'' @ ''://***@'' @ ''host:1''"
  by (rule redact_proxy_hides) simp_all

lemma max_by_key_None [simp]: "max_by_key f xs = None \<longleftrightarrow> xs = []"
  by (cases xs) (auto split: option.splits)

lemma max_by_key_spec:
  "max_by_key f xs = Some y \<Longrightarrow> y \<in> set xs \<and> (\<forall>x \<in> set xs. f x \<le> f y)"
  by (induction xs arbitrary: y) (auto split: option.splits if_splits dest: order_trans)

text \<open>
  The buttons of a keyboard work: in the store the keyboard leaves, from any store reached by
  earlier entries, every button is read back as the data it was made for, in order.
\<close>

theorem keyboard_buttons_work:
  assumes "keyboard rows (fold (\<lambda>d s. snd (store_put d s)) ds store_new) = (k, s')"
    and "length (concat rows) < 4096"
  shows "map (\<lambda>j. decode_or_raw (button j) s') (keyboard_buttons k) = map snd (concat rows)"
  using assms(2) by (intro keyboard_carries [OF assms(1)] callbacks.run_inv store_ok_new) (simp add: CAP_def)

theorem keyboard_buttons_work_witness:
  "map (\<lambda>j. decode_or_raw (button j) (snd (keyboard [[(''A'', ''x:1''), (''B'', ''no'')]] store_new)))
     (keyboard_buttons (fst (keyboard [[(''A'', ''x:1''), (''B'', ''no'')]] store_new))) = [''x:1'', ''no'']"
  using keyboard_buttons_work [where ds = "[]" and rows = "[[(''A'', ''x:1''), (''B'', ''no'')]]"]
  by simp

end
