(* ===== verification/Hooks.thy ===== *)
theory Hooks
  imports Automation
begin

text \<open>
  The hook command of the agents (\<open>crates/relay-agent/src/hooks.rs\<close>): the tool uses the gate holds,
  the answer to a pre-tool-use hook in the dialect of the agent, the list of dangerous commands, and
  what is logged of a command. The JSON parser and printer, the digest (blake3, its first 32
  hexadecimal digits) and the Unicode case mapping are parameters. Times are seconds.
\<close>

section \<open>Tool uses held by the gate\<close>

type_synonym held = "(string \<times> i64) list"

definition fresh_holds :: "i64 \<Rightarrow> held \<Rightarrow> held" where
  "fresh_holds now held = hm_retain (\<lambda>at. now - at \<le> 130) held"

definition mark_gate_hold :: "i64 \<Rightarrow> json \<Rightarrow> held \<Rightarrow> held" where
  "mark_gate_hold now payload held =
     (case opt_filter (\<lambda>i. i \<noteq> []) (get_str payload ''tool_use_id'') of
        None \<Rightarrow> held
      | Some i \<Rightarrow> AList.update i now (fresh_holds now held))"

definition gate_holds_tool_use :: "i64 \<Rightarrow> string \<Rightarrow> held \<Rightarrow> bool \<times> held" where
  "gate_holds_tool_use now i held =
     (if i = [] then (False, held)
      else (map_of (fresh_holds now held) i \<noteq> None, fresh_holds now held))"

section \<open>Answers\<close>

definition eq_ignore_ascii_case :: "string \<Rightarrow> string \<Rightarrow> bool" where
  "eq_ignore_ascii_case a b \<longleftrightarrow> to_ascii_lowercase a = to_ascii_lowercase b"

definition context_was_rebuilt :: "json \<Rightarrow> bool" where
  "context_was_rebuilt payload =
     (case get_str payload ''source'' of
        Some source \<Rightarrow> \<not> eq_ignore_ascii_case source ''resume''
      | None \<Rightarrow> True)"

text \<open>\<open>protocol\<close> is the fixed text of \<open>session_health_protocol_context\<close>.\<close>

definition session_protocol_output :: "string \<Rightarrow> automation_config \<Rightarrow> json \<Rightarrow> json option" where
  "session_protocol_output protocol cfg payload =
     (if sm_enabled (ac_smart cfg) \<and> sm_feedback_protocol (ac_smart cfg) \<and>
         context_was_rebuilt payload
      then Some (JObject [(''hookSpecificOutput'',
             JObject [(''additionalContext'', JString protocol),
                      (''hookEventName'', JString ''SessionStart'')])])
      else None)"

datatype HookDialect = ClaudeDialect | CodexDialect

definition hook_dialect :: "json \<Rightarrow> HookDialect" where
  "hook_dialect payload =
     (if has_key payload ''turn_id'' \<or>
         (\<exists>p \<in> set_option (get_str payload ''transcript_path''). contains ''/.codex/'' p)
      then CodexDialect else ClaudeDialect)"

definition block_output :: "string \<Rightarrow> string \<Rightarrow> json" where
  "block_output decision reason =
     JObject [(''decision'', JString decision), (''reason'', JString reason)]"

definition permission_output :: "string \<Rightarrow> string \<Rightarrow> json" where
  "permission_output decision reason =
     JObject [(''hookSpecificOutput'',
       JObject [(''hookEventName'', JString ''PreToolUse''),
                (''permissionDecision'', JString decision),
                (''permissionDecisionReason'', JString reason)])]"

definition decision_of :: "json \<Rightarrow> string" where
  "decision_of d = unwrap_or ''ask'' (get_str d ''decision'')"

definition decision_output :: "json \<Rightarrow> json \<Rightarrow> json option" where
  "decision_output d payload =
     (let decision = decision_of d; reason = unwrap_or [] (get_str d ''reason'')
      in case hook_dialect payload of
           CodexDialect \<Rightarrow>
             if decision \<in> set [''deny'', ''block''] then Some (block_output ''block'' reason)
             else if decision = ''allow'' then Some (block_output ''allow'' reason)
             else if decision = ''ask_user''
             then Some (block_output ''block''
                    (if reason = []
                     then ''session-health gate blocked this change: read-only proof was not obtained and this agent cannot prompt the operator''
                     else reason @ ''; blocked automatically because this agent cannot prompt the operator''))
             else None
         | ClaudeDialect \<Rightarrow>
             if decision \<in> set [''allow'', ''deny''] then Some (permission_output decision reason)
             else if decision = ''ask_user'' then Some (permission_output ''ask'' reason)
             else None)"

definition next_request_id :: "u64 \<Rightarrow> string \<times> u64" where
  "next_request_id n = (''r'' @ dec (unat n), n + 1)"

definition native_identity_digest ::
  "(string \<Rightarrow> string) \<Rightarrow> (json \<Rightarrow> string) \<Rightarrow> json \<Rightarrow> string" where
  "native_identity_digest digest to_json payload =
     (let session = unwrap_or [] (get_str payload ''session_id'');
          turn = unwrap_or [] (get_str payload ''turn_id'');
          tool_use = unwrap_or [] (get_str payload ''tool_use_id'');
          fallback = (if tool_use = [] then to_json (unwrap_or JNull (jget payload ''tool_input''))
                      else [])
      in take 32 (digest (session @ CHR 0x00 # turn @ CHR 0x00 # tool_use @ CHR 0x00 # fallback)))"

definition parse_request :: "(string \<Rightarrow> json option) \<Rightarrow> string \<Rightarrow> (string \<times> json) option" where
  "parse_request from_json line =
     Option.bind (from_json line) (\<lambda>v.
       map_option (\<lambda>event. (event, unwrap_or JNull (jget v ''payload''))) (get_str v ''event''))"

section \<open>What is logged\<close>

definition is_bare_url :: "string \<Rightarrow> bool" where
  "is_bare_url t \<longleftrightarrow>
     (starts_with ''http://'' t \<or> starts_with ''https://'' t \<or> starts_with ''ws://'' t \<or>
      starts_with ''wss://'' t) \<and> \<not> list_ex is_ws (chars_of t)"

definition redact_url :: "string \<Rightarrow> string" where
  "redact_url url =
     (case split_once ''://'' url of
        Some (scheme, rest) \<Rightarrow>
          (let authority = hd (split_on (\<lambda>c. c \<in> set ''/?#'') rest);
               host = last (split_on (\<lambda>c. c = CHR ''@'') authority)
           in scheme @ ''://'' @ host)
      | None \<Rightarrow> ''url'')"

definition redact_raw :: "string \<Rightarrow> string option \<Rightarrow> string" where
  "redact_raw tool target =
     (case target of
        None \<Rightarrow> tool
      | Some t \<Rightarrow>
          if is_bare_url (trim t) then tool @ '' '' @ redact_url (trim t)
          else let first = unwrap_or [] (nth_opt (split_whitespace t) 0);
                   name = unwrap_or first (file_name first)
               in tool @ '' '' @ name @ '' ('' @ dec (length t) @ ''b)'')"

definition tool_summary :: "json \<Rightarrow> string \<times> string option \<times> string" where
  "tool_summary payload =
     (unwrap_or ''tool'' (get_str payload ''tool_name''),
      Option.bind (jget payload ''tool_input'') (\<lambda>i.
        or_else (get_str i ''command'') (or_else (get_str i ''file_path'')
          (or_else (get_str i ''path'') (get_str i ''target'')))),
      unwrap_or [] (get_str payload ''cwd''))"

section \<open>Dangerous commands\<close>

definition DEFAULT_DANGER :: "string list" where
  "DEFAULT_DANGER =
     [''rm -rf'', ''rm -r '', ''rm -fr'', ''rmdir'', ''drop table'', ''drop database'', ''truncate '',
      ''delete from'', ''git push --force'', ''git push -f'', ''kubectl delete'',
      ''terraform destroy'', ''mkfs'', ''dd if='', ''dd of='', '' > /dev/sd'', ''>/dev/sd'',
      '' > /dev/nvme'', ''>/dev/nvme'', '' > /dev/vd'', ''>/dev/vd'', '' > /dev/xvd'', ''>/dev/xvd'',
      ''tee /dev/sd'', ''tee /dev/nvme'', ''tee /dev/vd'', ''tee /dev/xvd'', ''wipefs'', ''shred '',
      ''sgdisk'', ''lvremove'', ''vgremove'', ''pvremove'', ''userdel'', ''groupdel'', ''apt purge'',
      ''apt-get purge'', ''dnf remove'', ''yum remove'', ''zypper remove'', ''pacman -r'', ''apk del'',
      ''snap remove'', ''flatpak uninstall'', ''docker system prune'', ''docker volume rm'',
      ''docker rm -f'', ''nft flush ruleset'', '':(){'', ''del /f'', ''del /q'', ''rd /s'', ''diskpart'',
      ''format c:'', ''cipher /w'', ''remove-item -recurse'', ''rm -recurse'']"

text \<open>\<open>file\<close> is the text of the operator's own list, if it can be read.\<close>

definition danger_patterns :: "(string \<Rightarrow> string) \<Rightarrow> string option \<Rightarrow> string list" where
  "danger_patterns lower file =
     (let own = filter (\<lambda>l. l \<noteq> [] \<and> \<not> starts_with ''#'' l)
                  (map (\<lambda>l. lower (trim l)) (rust_lines (unwrap_or [] file)))
      in if own \<noteq> [] then own else DEFAULT_DANGER)"

definition matched_danger ::
  "(string \<Rightarrow> string) \<Rightarrow> string option \<Rightarrow> string option \<Rightarrow> string option" where
  "matched_danger lower file target =
     Option.bind target (\<lambda>t. find (\<lambda>p. contains p (lower t)) (danger_patterns lower file))"

definition is_destructive :: "(string \<Rightarrow> string) \<Rightarrow> string option \<Rightarrow> string option \<Rightarrow> bool" where
  "is_destructive lower file target \<longleftrightarrow> matched_danger lower file target \<noteq> None"

section \<open>Holds over time\<close>

datatype hold_event = MarkHold json | QueryHold string

definition hold_step :: "i64 \<times> hold_event \<Rightarrow> held \<Rightarrow> held" where
  "hold_step e held =
     (case snd e of
        MarkHold payload \<Rightarrow> mark_gate_hold (fst e) payload held
      | QueryHold i \<Rightarrow> snd (gate_holds_tool_use (fst e) i held))"

lemma fresh_ok: "hm_ok held \<Longrightarrow> hm_ok (fresh_holds now held)"
  by (simp add: fresh_holds_def hm_ok_retain)

lemma fresh_get: "hm_ok held \<Longrightarrow>
  map_of (fresh_holds now held) i = opt_filter (\<lambda>at. now - at \<le> 130) (map_of held i)"
  by (simp add: fresh_holds_def map_of_retain)

lemma hold_step_ok: "hm_ok held \<Longrightarrow> hm_ok (hold_step e held)"
  by (cases e; cases "snd e")
     (auto simp: hold_step_def mark_gate_hold_def gate_holds_tool_use_def fresh_ok hm.ok_put
       split: option.split)

interpretation holds_machine: invariant_machine hold_step hm_ok
  by unfold_locales (rule hold_step_ok)

definition marks :: "string \<Rightarrow> hold_event \<Rightarrow> bool" where
  "marks i e = (case e of MarkHold payload \<Rightarrow> get_str payload ''tool_use_id'' = Some i | QueryHold _ \<Rightarrow> False)"

lemma hold_step_get:
  assumes "hm_ok held" "\<not> marks i (snd e)"
  shows "map_of (hold_step e held) i = map_of held i \<or>
    map_of (hold_step e held) i = opt_filter (\<lambda>at. fst e - at \<le> 130) (map_of held i)"
  using assms fresh_get [OF assms(1)] hm.get_put [OF fresh_ok [OF assms(1)]]
  by (cases "snd e")
     (auto simp: hold_step_def mark_gate_hold_def gate_holds_tool_use_def marks_def split: option.split)

lemma hold_run_get:
  assumes "hm_ok held" "map_of held i = Some t"
    "list_all (\<lambda>e. fst e \<le> u \<and> \<not> marks i (snd e)) es"
  shows "(map_of (fold hold_step es held) i = Some t) \<or>
    (map_of (fold hold_step es held) i = None \<and> 130 < u - t)"
  using assms
proof (induction es rule: rev_induct)
  case (snoc e es)
  have ok: "hm_ok (fold hold_step es held)" by (rule holds_machine.run_inv [OF snoc.prems(1)])
  from snoc.prems have e: "fst e \<le> u" "\<not> marks i (snd e)" by auto
  from hold_step_get [OF ok e(2)] snoc e(1) show ?case
    by (auto split: if_split_asm)
qed simp

section \<open>Properties\<close>

text \<open>
  A tool use the gate holds stays held for exactly 130 seconds, whatever other holds are marked
  and queried in between: the permission path stays silent for that time and no longer.
\<close>

theorem hold_lasts:
  assumes "hm_ok held" "get_str payload ''tool_use_id'' = Some i" "i \<noteq> []"
    and "list_all (\<lambda>e. fst e \<le> u \<and> \<not> marks i (snd e)) es"
  shows "fst (gate_holds_tool_use u i (fold hold_step es (mark_gate_hold t payload held))) \<longleftrightarrow>
    u - t \<le> 130"
proof -
  let ?m = "mark_gate_hold t payload held"
  have ok: "hm_ok ?m" and get: "map_of ?m i = Some t"
    using assms(1-3) fresh_ok [OF assms(1)]
    by (simp_all add: mark_gate_hold_def hm.ok_put hm.get_put)
  have ok': "hm_ok (fold hold_step es ?m)" by (rule holds_machine.run_inv [OF ok])
  from hold_run_get [OF ok get assms(4)] assms(3) show ?thesis
    by (auto simp: gate_holds_tool_use_def fresh_get [OF ok'])
qed

theorem hold_lasts_witness:
  "fst (gate_holds_tool_use 140 ''a''
     (fold hold_step [(135, QueryHold ''b'')]
       (mark_gate_hold 10 (JObject [(''tool_use_id'', JString ''a'')]) []))) \<longleftrightarrow> 140 - (10::int) \<le> 130"
  by (rule hold_lasts) (simp_all add: hm_ok_def json_simps marks_def)

text \<open>The verdict an answer carries, in either dialect.\<close>

definition verdict :: "json \<Rightarrow> string option" where
  "verdict out =
     or_else (get_str out ''decision'')
       (Option.bind (jget out ''hookSpecificOutput'') (\<lambda>o'. get_str o' ''permissionDecision''))"

lemma verdict_simps [simp]:
  "verdict (block_output d r) = Some d" "verdict (permission_output d r) = Some d"
  by (simp_all add: verdict_def block_output_def permission_output_def json_simps)



lemma hd_split_on: "list_all (\<lambda>x. \<not> p x) a \<Longrightarrow> p y \<Longrightarrow> hd (split_on p (a @ y # b)) = a"
proof (induction a)
  case (Cons x a)
  then show ?case by (cases "split_on p (a @ y # b)") auto
qed simp

lemma split_on_none: "list_all (\<lambda>x. \<not> p x) a \<Longrightarrow> split_on p a = [a]"
  by (induction a) auto

lemma last_split_on: "list_all (\<lambda>x. \<not> p x) b \<Longrightarrow> p y \<Longrightarrow> last (split_on p (a @ y # b)) = b"
  by (simp add: split_on_append split_on_none)

text \<open>
  What is logged of a URL never holds its user name, password, path or query: of
  \<open>scheme://secret@host/rest\<close> only the scheme and the host remain, whatever \<open>secret\<close> and \<open>rest\<close> are.
\<close>

theorem redact_url_hides:
  assumes "list_all (\<lambda>c. c \<noteq> CHR '':'') scheme" "list_all (\<lambda>c. c \<notin> set ''/?#'') secret"
    "list_all (\<lambda>c. c \<notin> set ''/?#@'') host" "sep \<in> set ''/?#''"
  shows "redact_url (scheme @ ''://'' @ secret @ ''@'' @ host @ sep # rest) = scheme @ ''://'' @ host"
proof -
  have cut: "split_once ''://'' (scheme @ ''://'' @ b) = Some (scheme, b)" for b
    using assms(1) by (induction scheme) auto
  have "hd (split_on (\<lambda>c. c \<in> set ''/?#'') ((secret @ ''@'' @ host) @ sep # rest)) = secret @ ''@'' @ host"
    using assms(2-4) by (intro hd_split_on) (auto simp: list_all_iff)
  moreover have "last (split_on (\<lambda>c. c = CHR ''@'') (secret @ CHR ''@'' # host)) = host"
    using assms(3) by (intro last_split_on) (auto simp: list_all_iff)
  ultimately show ?thesis by (simp add: redact_url_def cut [simplified])
qed

theorem redact_url_hides_witness:
  "redact_url (''https'' @ ''://'' @ ''bob:pw@1'' @ ''@'' @ ''h.io:8'' @ CHR ''/'' # ''x?k=v'') = ''https'' @ ''://'' @ ''h.io:8''"
  by (rule redact_url_hides) simp_all

end
