(* ===== verification/Dedup.thy ===== *)
theory Dedup
  imports Rust_Data
begin

text \<open>
  The store that keeps one question from being shown twice (\<open>crates/relay-agent/src/dedup.rs\<close>): a
  question reaches the relay from the shim and from the transcript on disk, and the cards of the
  transcript are handed back once the shim's question is there. Times are nanoseconds.
\<close>

section \<open>State\<close>

type_synonym card_ref = "int \<times> int"

definition TTL :: nat where "TTL = 30 * 60 * 1000000000"
definition LIVE_CARD_WINDOW :: nat where "LIVE_CARD_WINDOW = 90 * 1000000000"

record dedup =
  dd_received :: "(string \<times> nat) list"
  dd_disk :: "(string \<times> card_ref list \<times> nat) list"
  dd_live :: "(string \<times> nat) list"

definition dedup_new :: dedup where
  "dedup_new = \<lparr>dd_received = [], dd_disk = [], dd_live = []\<rparr>"

section \<open>Operations\<close>

definition prune :: "nat \<Rightarrow> dedup \<Rightarrow> dedup" where
  "prune now d =
     \<lparr>dd_received = hm_retain (\<lambda>t. now - t < TTL) (dd_received d),
      dd_disk = hm_retain (\<lambda>e. now - snd e < TTL) (dd_disk d),
      dd_live = hm_retain (\<lambda>t. now - t < LIVE_CARD_WINDOW) (dd_live d)\<rparr>"

definition out_owns :: "nat \<Rightarrow> string \<Rightarrow> dedup \<Rightarrow> bool \<times> dedup" where
  "out_owns now i d =
     (if i = [] then (False, d)
      else let d1 = prune now d in (map_of (dd_received d1) i \<noteq> None, d1))"

definition cards_of :: "string \<Rightarrow> dedup \<Rightarrow> card_ref list" where
  "cards_of i d = (case map_of (dd_disk d) i of Some e \<Rightarrow> fst e | None \<Rightarrow> [])"

definition mark_received :: "nat \<Rightarrow> string \<Rightarrow> dedup \<Rightarrow> card_ref list \<times> dedup" where
  "mark_received now i d =
     (if i = [] then ([], d)
      else let d1 = prune now d;
               d2 = d1\<lparr>dd_received := AList.update i now (dd_received d1)\<rparr>
           in (cards_of i d2, d2\<lparr>dd_disk := AList.delete i (dd_disk d2)\<rparr>))"

definition register_disk ::
  "nat \<Rightarrow> string \<Rightarrow> card_ref list \<Rightarrow> dedup \<Rightarrow> card_ref list option \<times> dedup" where
  "register_disk now i cards d =
     (if i = [] \<or> cards = [] then (None, d)
      else if map_of (dd_received d) i \<noteq> None then (Some cards, d)
      else (None, d\<lparr>dd_disk := AList.update i (cards, now) (dd_disk d)\<rparr>))"

definition mark_live_card :: "nat \<Rightarrow> string \<Rightarrow> dedup \<Rightarrow> dedup" where
  "mark_live_card now alias d =
     (if alias = [] then d
      else let d1 = prune now d in d1\<lparr>dd_live := AList.update alias now (dd_live d1)\<rparr>)"

definition has_live_card :: "nat \<Rightarrow> string \<Rightarrow> dedup \<Rightarrow> bool \<times> dedup" where
  "has_live_card now alias d =
     (if alias = [] then (False, d)
      else let d1 = prune now d in (map_of (dd_live d1) alias \<noteq> None, d1))"

definition forget :: "string \<Rightarrow> dedup \<Rightarrow> card_ref list \<times> dedup" where
  "forget i d =
     (if i = [] then ([], d)
      else (cards_of i d,
            d\<lparr>dd_received := AList.delete i (dd_received d),
              dd_disk := AList.delete i (dd_disk d)\<rparr>))"

text \<open>Whether a transcript line refers to a tool use, at any depth.\<close>

definition val_has_id :: "json \<Rightarrow> string \<Rightarrow> bool" where
  "val_has_id v i =
     (case v of
        JString s \<Rightarrow> s = i
      | JArray a \<Rightarrow> list_ex (\<lambda>e. as_str e = Some i) a
      | _ \<Rightarrow> False)"

definition id_key :: "string \<Rightarrow> bool" where
  "id_key k \<longleftrightarrow> k = ''tool_use_id'' \<or> k = ''toolUseID'' \<or> k = ''tool_use_ids''"

fun refs_id :: "json \<Rightarrow> string \<Rightarrow> bool" where
  "refs_id (JObject m) i = list_ex (\<lambda>(k, v). id_key k \<and> val_has_id v i \<or> refs_id v i) m"
| "refs_id (JArray a) i = list_ex (\<lambda>e. refs_id e i) a"
| "refs_id _ i = False"

definition refs_tool_use_id :: "json \<Rightarrow> string \<Rightarrow> bool" where
  "refs_tool_use_id v i \<longleftrightarrow> i \<noteq> [] \<and> refs_id v i"

section \<open>Invariant\<close>

datatype dedup_event =
    Owns string | Received string | Disk string "card_ref list" | LiveCard string | AskLive string
  | Forget string

definition dedup_step :: "nat \<times> dedup_event \<Rightarrow> dedup \<Rightarrow> dedup" where
  "dedup_step e d =
     (case snd e of
        Owns i \<Rightarrow> snd (out_owns (fst e) i d)
      | Received i \<Rightarrow> snd (mark_received (fst e) i d)
      | Disk i cards \<Rightarrow> snd (register_disk (fst e) i cards d)
      | LiveCard a \<Rightarrow> mark_live_card (fst e) a d
      | AskLive a \<Rightarrow> snd (has_live_card (fst e) a d)
      | Forget i \<Rightarrow> snd (forget i d))"

text \<open>No tool use is both received and still waiting with cards of the transcript.\<close>

definition dedup_ok :: "dedup \<Rightarrow> bool" where
  "dedup_ok d \<longleftrightarrow>
     hm_ok (dd_received d) \<and> hm_ok (dd_disk d) \<and> hm_ok (dd_live d) \<and>
     (\<forall>i. map_of (dd_disk d) i \<noteq> None \<longrightarrow> map_of (dd_received d) i = None)"

lemma dedup_okI:
  assumes "hm_ok (dd_received d)" "hm_ok (dd_disk d)" "hm_ok (dd_live d)"
    and "\<And>i x. map_of (dd_disk d) i = Some x \<Longrightarrow> map_of (dd_received d) i = None"
  shows "dedup_ok d"
  using assms by (auto simp: dedup_ok_def)

lemma dedup_okD:
  assumes "dedup_ok d"
  shows "hm_ok (dd_received d)" "hm_ok (dd_disk d)" "hm_ok (dd_live d)"
    and "map_of (dd_disk d) i = Some x \<Longrightarrow> map_of (dd_received d) i = None"
  using assms by (auto simp: dedup_ok_def)

lemma prune_get:
  assumes "dedup_ok d"
  shows "map_of (dd_received (prune now d)) i = opt_filter (\<lambda>t. now - t < TTL) (map_of (dd_received d) i)"
    and "map_of (dd_disk (prune now d)) i = opt_filter (\<lambda>e. now - snd e < TTL) (map_of (dd_disk d) i)"
    and "map_of (dd_live (prune now d)) a = opt_filter (\<lambda>t. now - t < LIVE_CARD_WINDOW) (map_of (dd_live d) a)"
  by (simp_all add: prune_def map_of_retain dedup_okD [OF assms])

lemma prune_ok: "dedup_ok d \<Longrightarrow> dedup_ok (prune now d)"
  by (rule dedup_okI)
     (auto simp: prune_get dedup_okD, auto simp: prune_def hm_ok_retain dedup_okD)

lemma mark_received_ok: "dedup_ok d \<Longrightarrow> dedup_ok (snd (mark_received now i d))"
proof -
  assume d: "dedup_ok d"
  note p = dedup_okD [OF prune_ok [OF d, of now]]
  show ?thesis
    using d p(4)
    by (auto simp: mark_received_def Let_def p(1-3) hm.ok_put hm.ok_del hm.get_put hm.get_del
        intro!: dedup_okI split: if_split_asm)
qed

lemma register_disk_ok: "dedup_ok d \<Longrightarrow> dedup_ok (snd (register_disk now i cards d))"
proof -
  assume d: "dedup_ok d"
  note p = dedup_okD [OF d]
  show ?thesis
    using d p(4)
    by (auto simp: register_disk_def p(1-3) hm.ok_put hm.get_put
        intro!: dedup_okI split: if_split_asm)
qed

lemma forget_ok: "dedup_ok d \<Longrightarrow> dedup_ok (snd (forget i d))"
proof -
  assume d: "dedup_ok d"
  note p = dedup_okD [OF d]
  show ?thesis
    using d p(4)
    by (auto simp: forget_def p(1-3) hm.ok_del hm.get_del intro!: dedup_okI split: if_split_asm)
qed

lemma live_ok: "dedup_ok d \<Longrightarrow> dedup_ok (mark_live_card now a d)"
proof -
  assume d: "dedup_ok d"
  note p = dedup_okD [OF prune_ok [OF d, of now]]
  show ?thesis
    using d p(4)
    by (auto simp: mark_live_card_def Let_def p(1-3) hm.ok_put intro!: dedup_okI)
qed

lemma dedup_ok_step: "dedup_ok d \<Longrightarrow> dedup_ok (dedup_step e d)"
  by (cases e; cases "snd e")
     (auto simp: dedup_step_def mark_received_ok register_disk_ok forget_ok live_ok out_owns_def
       has_live_card_def Let_def prune_ok)

interpretation dedup: invariant_machine dedup_step dedup_ok
  by unfold_locales (rule dedup_ok_step)

lemma dedup_ok_new: "dedup_ok dedup_new"
  by (simp add: dedup_ok_def dedup_new_def hm_ok_def)

section \<open>Properties\<close>

text \<open>
  In every state that is reached, no question is at the same time received from the shim and
  waiting with cards from the transcript.
\<close>

theorem one_owner:
  "map_of (dd_received (fold dedup_step es dedup_new)) i = None \<or>
   map_of (dd_disk (fold dedup_step es dedup_new)) i = None"
  using dedup.run_inv [OF dedup_ok_new, of es] by (auto simp: dedup_ok_def)

text \<open>
  The cards of the transcript are handed back exactly once, in either order: when the transcript
  is first, marking the question received within half an hour returns its cards; when the shim is
  first, registering returns them at once; and after that neither way returns them again.
\<close>

theorem cards_handed_back_once:
  assumes "dedup_ok d" "i \<noteq> []" "cards \<noteq> []" "u - t < TTL"
  shows "(map_of (dd_received d) i = None \<longrightarrow>
            fst (mark_received u i (snd (register_disk t i cards d))) = cards) \<and>
         fst (register_disk u i cards (snd (mark_received t i d))) = Some cards \<and>
         fst (mark_received v i (snd (mark_received u i (snd (register_disk t i cards d))))) = []"
proof -
  let ?r = "snd (register_disk t i cards d)"
  have r: "dedup_ok ?r" by (rule register_disk_ok [OF assms(1)])
  let ?m = "snd (mark_received u i ?r)"
  have m: "dedup_ok ?m" by (rule mark_received_ok [OF r])
  have 1: "map_of (dd_received d) i = None \<Longrightarrow> fst (mark_received u i ?r) = cards"
  proof -
    assume none: "map_of (dd_received d) i = None"
    then have "map_of (dd_disk ?r) i = Some (cards, t)"
      using assms by (simp add: register_disk_def hm.get_put dedup_okD [OF assms(1)])
    then have "map_of (dd_disk (prune u ?r)) i = Some (cards, t)"
      using assms(4) by (simp add: prune_get [OF r])
    then show ?thesis using assms(2) by (simp add: mark_received_def Let_def cards_of_def)
  qed
  have p: "hm_ok (dd_received (prune t d))" by (rule dedup_okD [OF prune_ok [OF assms(1)]])
  have 2: "fst (register_disk u i cards (snd (mark_received t i d))) = Some cards"
    using assms(2,3) by (simp add: mark_received_def Let_def register_disk_def hm.get_put [OF p])
  have "map_of (dd_disk ?m) i = None"
    using assms(2) by (simp add: mark_received_def Let_def hm.get_del
        dedup_okD [OF prune_ok [OF r]])
  then have "map_of (dd_disk (prune v ?m)) i = None" by (simp add: prune_get [OF m])
  then have 3: "fst (mark_received v i ?m) = []"
    using assms(2) by (simp add: mark_received_def [of v] Let_def cards_of_def)
  from 1 2 3 show ?thesis by blast
qed

theorem cards_handed_back_once_witness:
  "fst (mark_received 9 ''q'' (snd (register_disk 5 ''q'' [(1, 2)] dedup_new))) = [(1, 2)]"
  using cards_handed_back_once [OF dedup_ok_new, of "''q''" "[(1, 2)]" 9 5]
  by (simp add: TTL_def dedup_new_def)

text \<open>
  A received question is owned by the shim's path for half an hour, and a live card silences its
  workspace for a minute and a half, not longer.
\<close>

theorem ownership_expires:
  assumes "dedup_ok d" "i \<noteq> []"
  shows "(fst (out_owns u i (snd (mark_received t i d))) \<longleftrightarrow> u - t < TTL) \<and>
         (fst (has_live_card u i (mark_live_card t i d)) \<longleftrightarrow> u - t < LIVE_CARD_WINDOW)"
proof -
  note p = dedup_okD [OF prune_ok [OF assms(1), of t]]
  have "map_of (dd_received (snd (mark_received t i d))) i = Some t"
    using assms(2) by (simp add: mark_received_def Let_def hm.get_put [OF p(1)])
  moreover have "map_of (dd_live (mark_live_card t i d)) i = Some t"
    using assms(2) by (simp add: mark_live_card_def Let_def hm.get_put [OF p(3)])
  ultimately show ?thesis
    using assms(2) prune_get(1) [OF mark_received_ok [OF assms(1)]] prune_get(3) [OF live_ok [OF assms(1)]]
    by (simp add: out_owns_def has_live_card_def Let_def)
qed

theorem ownership_expires_witness:
  "\<not> fst (has_live_card (LIVE_CARD_WINDOW + 3) ''w'' (mark_live_card 3 ''w'' dedup_new))"
  using ownership_expires [OF dedup_ok_new, of "''w''" "LIVE_CARD_WINDOW + 3" 3] by simp

end
