(* ===== verification/Permission.thy ===== *)
theory Permission
  imports Core_State Hooks Dedup Telegram
begin

text \<open>
  Permission requests (\<open>crates/relay-agent/src/permission.rs\<close>, with \<open>session_stable\<close> of
  \<open>inject.rs\<close>): a request of the agent is approved in Auto mode, or becomes a card with two buttons
  in every paired chat, and is answered by a press. The environment of a call holds what it reads:
  the clocks, the configuration, the process table, which injections and messages succeed. The
  effects of a call are listed in order. A call is one step; the two reads of the session's
  identifier within a call may differ.
\<close>

section \<open>State\<close>

record perm_pending =
  pp_request_id :: string
  pp_pid :: u32
  pp_tool_name :: string
  pp_tool_use_id :: string
  pp_input :: json
  pp_cards :: "card_ref list"
  pp_alias :: string
  pp_session_id :: "string option"
  pp_started :: nat

type_synonym perms = "(string \<times> perm_pending) list"

record perm_state =
  pm_pending :: perms
  pm_dedup :: dedup
  pm_store :: cb_store
  pm_held :: held

datatype perm_effect = Inject u32 json | SendCard int string json | SendNote int string

record perm_env =
  pe_secs :: i64
  pe_instant :: nat
  pe_config :: automation_config
  pe_lower :: "string \<Rightarrow> string"
  pe_danger_file :: "string option"
  pe_session_first :: "string option"
  pe_session_now :: "string option"
  pe_alive :: bool
  pe_inject_ok :: bool
  pe_recipients :: "int list"
  pe_send :: "int \<Rightarrow> int option"

section \<open>Decisions\<close>

definition session_ok :: "string option \<Rightarrow> string option \<Rightarrow> bool" where
  "session_ok captured current =
     (case (captured, current) of (Some a, Some b) \<Rightarrow> a = b | _ \<Rightarrow> True)"

definition session_stable :: "perm_env \<Rightarrow> string option \<Rightarrow> bool" where
  "session_stable env captured \<longleftrightarrow> pe_alive env \<and> session_ok captured (pe_session_now env)"

definition danger_target :: "json \<Rightarrow> string option" where
  "danger_target input =
     or_else (get_str input ''command'') (or_else (get_str input ''file_path'')
       (or_else (get_str input ''path'') (or_else (get_str input ''url'')
         (get_str input ''description''))))"

definition auto_decision :: "automation_config \<Rightarrow> Mode \<Rightarrow> bool \<Rightarrow> string \<Rightarrow> bool" where
  "auto_decision cfg mode dangerous tool_name =
     (if mode \<noteq> Auto then False
      else if dangerous then False
      else if tool_name = ''ExitPlanMode'' then ar_auto_accept_plan_exit (ac_auto cfg)
      else ar_auto_approve (ac_auto cfg))"

definition should_auto_approve :: "perm_env \<Rightarrow> string \<Rightarrow> string option \<Rightarrow> string \<Rightarrow> json \<Rightarrow> bool" where
  "should_auto_approve env alias sid tool_name input =
     (let mode = resolve (pe_config env) sid alias (pe_secs env);
          dangerous = is_destructive (pe_lower env) (pe_danger_file env) (danger_target input)
      in auto_decision (pe_config env) mode dangerous tool_name)"

section \<open>Texts\<close>

definition NL :: char where "NL = CHR 0x0A"
definition LOCK :: string where "LOCK = [CHR 0xF0, CHR 0x9F, CHR 0x94, CHR 0x90]"
definition ROBOT :: string where "ROBOT = [CHR 0xF0, CHR 0x9F, CHR 0xA4, CHR 0x96]"
definition CHECK :: string where "CHECK = [CHR 0xE2, CHR 0x9C, CHR 0x85]"
definition STOP :: string where "STOP = [CHR 0xE2, CHR 0x9B, CHR 0x94]"

definition summarize :: "string \<Rightarrow> json \<Rightarrow> string" where
  "summarize tool input =
     (case danger_target input of
        Some t \<Rightarrow> tool @ '': '' @ truncate_chars t 300
      | None \<Rightarrow> tool)"

text \<open>\<open>allow_button\<close> and \<open>deny_button\<close> wrap the encoded request identifier.\<close>

definition render :: "perm_pending \<Rightarrow> cb_store \<Rightarrow> (string \<times> json) \<times> cb_store" where
  "render p s =
     (let text = LOCK @ '' <b>Permission</b> - <b>'' @ esc_html (pp_alias p) @ ''</b>'' @
                 NL # esc_html (summarize (pp_tool_name p) (pp_input p));
          (a, s1) = encode (pp_request_id p) s;
          (d, s2) = encode (pp_request_id p) s1;
          (kb, s3) = keyboard [[(CHECK @ '' Allow'', ''pm:a:'' @ a), (STOP @ '' Deny'', ''pm:d:'' @ d)]] s2
      in ((text, kb), s3))"

definition response_json :: "string \<Rightarrow> json \<Rightarrow> json" where
  "response_json request_id inner =
     JObject [(''response'',
                JObject [(''request_id'', JString request_id), (''response'', inner),
                         (''subtype'', JString ''success'')]),
              (''type'', JString ''control_response'')]"

definition allow_json :: "json \<Rightarrow> json" where
  "allow_json input = JObject [(''behavior'', JString ''allow''), (''updatedInput'', input)]"

definition deny_json :: json where
  "deny_json = JObject [(''behavior'', JString ''deny''), (''message'', JString ''denied via Telegram'')]"

section \<open>Operations\<close>

definition try_auto_approve ::
  "perm_env \<Rightarrow> u32 \<Rightarrow> string \<Rightarrow> string option \<Rightarrow> string \<Rightarrow> string \<Rightarrow> json \<Rightarrow> bool \<times> perm_effect list" where
  "try_auto_approve env pid alias sid request_id tool_name input =
     (if \<not> session_stable env sid then (False, [])
      else let inject = Inject pid (response_json request_id (allow_json input))
           in if \<not> pe_inject_ok env then (False, [inject])
              else let note = ROBOT @ '' <b>Auto-approved</b> - <b>'' @ esc_html alias @ ''</b>'' @
                              NL # esc_html (summarize tool_name input)
                   in (True, inject # map (\<lambda>chat. SendNote chat note) (pe_recipients env)))"

text \<open>The messages that were sent, as references to the chat and the message.\<close>

definition sent_cards :: "perm_env \<Rightarrow> card_ref list" where
  "sent_cards env =
     concat (map (\<lambda>chat. case pe_send env chat of Some mid \<Rightarrow> [(chat, mid)] | None \<Rightarrow> [])
       (pe_recipients env))"

definition new_pending ::
  "perm_env \<Rightarrow> u32 \<Rightarrow> string \<Rightarrow> string \<Rightarrow> string \<Rightarrow> string \<Rightarrow> json \<Rightarrow> perm_pending" where
  "new_pending env pid alias request_id use_id tool_name input =
     \<lparr>pp_request_id = request_id, pp_pid = pid, pp_tool_name = tool_name,
      pp_tool_use_id = use_id, pp_input = input, pp_cards = [],
      pp_alias = alias, pp_session_id = pe_session_first env, pp_started = pe_instant env\<rparr>"

text \<open>The card that is sent when nothing approved the request.\<close>

definition forward_request ::
  "perm_env \<Rightarrow> perm_pending \<Rightarrow> perm_state \<Rightarrow> perm_effect list \<times> perm_state" where
  "forward_request env p st =
     (let dd = mark_live_card (pe_instant env) (pp_alias p) (pm_dedup st);
          ((text, kb), store) = render p (pm_store st)
      in (map (\<lambda>chat. SendCard chat text kb) (pe_recipients env),
          st\<lparr>pm_pending := AList.update (pp_request_id p) (p\<lparr>pp_cards := sent_cards env\<rparr>) (pm_pending st),
             pm_dedup := dd, pm_store := store\<rparr>))"

definition on_request ::
  "perm_env \<Rightarrow> u32 \<Rightarrow> string \<Rightarrow> string \<Rightarrow> string \<Rightarrow> string \<Rightarrow> json \<Rightarrow> perm_state \<Rightarrow>
   perm_effect list \<times> perm_state" where
  "on_request env pid alias request_id use_id tool_name input st =
     (if request_id = [] then ([], st)
      else let (held_now, held) = gate_holds_tool_use (pe_secs env) use_id (pm_held st);
               st1 = st\<lparr>pm_held := held\<rparr>
           in if held_now then ([], st1)
              else if map_of (pm_pending st1) request_id \<noteq> None then ([], st1)
              else let sid = pe_session_first env;
                       (approved, tried) =
                         (if should_auto_approve env alias sid tool_name input
                          then try_auto_approve env pid alias sid request_id tool_name input
                          else (False, []))
                   in if approved then (tried, st1)
                      else let (sent, st2) =
                             forward_request env
                               (new_pending env pid alias request_id use_id tool_name input)
                               st1
                           in (tried @ sent, st2))"

text \<open>A press: the request is taken off the map before anything else can fail.\<close>

definition resolve_request ::
  "perm_env \<Rightarrow> string \<Rightarrow> bool \<Rightarrow> perms \<Rightarrow> (string + card_ref list) \<times> perm_effect list \<times> perms" where
  "resolve_request env request_id allow ps =
     (case map_of ps request_id of
        None \<Rightarrow> (Inl ''permission is no longer active'', [], ps)
      | Some p \<Rightarrow>
          (let ps' = AList.delete request_id ps
           in if \<not> session_stable env (pp_session_id p)
              then (Inl ''session closed - permission is no longer active'', [], ps')
              else let inner = (if allow then allow_json (pp_input p) else deny_json);
                       inject = Inject (pp_pid p) (response_json (pp_request_id p) inner)
                   in if \<not> pe_inject_ok env then (Inl ''inject'', [inject], ps')
                      else (Inr (pp_cards p), [inject], ps')))"

definition drop_where :: "(perm_pending \<Rightarrow> bool) \<Rightarrow> perms \<Rightarrow> card_ref list list \<times> perms" where
  "drop_where P ps =
     (let ids = map fst (filter (\<lambda>(_, p). P p) ps)
      in (concat (map (\<lambda>i. case map_of ps i of Some p \<Rightarrow> [pp_cards p] | None \<Rightarrow> []) ids),
          fold AList.delete ids ps))"

definition drain_pid :: "u32 \<Rightarrow> perms \<Rightarrow> card_ref list list \<times> perms" where
  "drain_pid pid = drop_where (\<lambda>p. pp_pid p = pid)"

definition void_referenced :: "u32 \<Rightarrow> json \<Rightarrow> perms \<Rightarrow> card_ref list list \<times> perms" where
  "void_referenced pid line =
     drop_where (\<lambda>p. pp_pid p = pid \<and> pp_tool_use_id p \<noteq> [] \<and> refs_tool_use_id line (pp_tool_use_id p))"

section \<open>Invariant\<close>

text \<open>Every pending request is stored under its own identifier, which is not empty.\<close>

definition perms_ok :: "perms \<Rightarrow> bool" where
  "perms_ok ps \<longleftrightarrow>
     hm_ok ps \<and> (\<forall>i p. map_of ps i = Some p \<longrightarrow> pp_request_id p = i \<and> i \<noteq> [])"

datatype perm_event =
    Request perm_env u32 string string string string json
  | Press perm_env string bool
  | Gone u32
  | Line u32 json

definition perm_step :: "perm_event \<Rightarrow> perm_state \<Rightarrow> perm_state" where
  "perm_step e st =
     (case e of
        Request env pid alias i tu tool input \<Rightarrow> snd (on_request env pid alias i tu tool input st)
      | Press env i allow \<Rightarrow>
          st\<lparr>pm_pending := snd (snd (resolve_request env i allow (pm_pending st)))\<rparr>
      | Gone pid \<Rightarrow> st\<lparr>pm_pending := snd (drain_pid pid (pm_pending st))\<rparr>
      | Line pid line \<Rightarrow> st\<lparr>pm_pending := snd (void_referenced pid line (pm_pending st))\<rparr>)"

lemma perms_ok_put: "perms_ok ps \<Longrightarrow> pp_request_id p \<noteq> [] \<Longrightarrow> perms_ok (AList.update (pp_request_id p) (p\<lparr>pp_cards := c\<rparr>) ps)"
  by (auto simp: perms_ok_def hm.ok_put hm.get_put split: if_split_asm)

lemma perms_ok_del: "perms_ok ps \<Longrightarrow> perms_ok (AList.delete i ps)"
  by (auto simp: perms_ok_def hm.ok_del hm.get_del split: if_split_asm)

lemma perms_ok_del_all: "perms_ok ps \<Longrightarrow> perms_ok (fold AList.delete ids ps)"
  by (auto simp: perms_ok_def hm.ok_del_all hm.get_del_all split: if_split_asm)

lemma forward_request_pending:
  "pm_pending (snd (forward_request env p st)) =
     AList.update (pp_request_id p) (p\<lparr>pp_cards := sent_cards env\<rparr>) (pm_pending st)"
  by (simp add: forward_request_def Let_def case_prod_beta)

lemma on_request_pending:
  "pm_pending (snd (on_request env pid wsp i tu tool input st)) = pm_pending st \<or>
   i \<noteq> [] \<and> map_of (pm_pending st) i = None \<and>
   pm_pending (snd (on_request env pid wsp i tu tool input st)) =
     AList.update i ((new_pending env pid wsp i tu tool input)\<lparr>pp_cards := sent_cards env\<rparr>)
       (pm_pending st)"
proof -
  have i: "pp_request_id (new_pending env pid wsp i tu tool input) = i"
    by (simp add: new_pending_def)
  show ?thesis
    unfolding on_request_def Let_def case_prod_beta
    by (simp add: forward_request_pending i)
qed

lemma perms_ok_request:
  assumes "perms_ok (pm_pending st)"
  shows "perms_ok (pm_pending (snd (on_request env pid wsp i tu tool input st)))"
  using on_request_pending [of env pid wsp i tu tool input st]
proof
  assume "pm_pending (snd (on_request env pid wsp i tu tool input st)) = pm_pending st"
  with assms show ?thesis by simp
next
  let ?p = "new_pending env pid wsp i tu tool input"
  assume a: "i \<noteq> [] \<and> map_of (pm_pending st) i = None \<and>
    pm_pending (snd (on_request env pid wsp i tu tool input st)) =
      AList.update i (?p\<lparr>pp_cards := sent_cards env\<rparr>) (pm_pending st)"
  have "pp_request_id ?p = i" by (simp add: new_pending_def)
  with perms_ok_put [OF assms, of ?p "sent_cards env"] a show ?thesis by simp
qed

lemma perms_ok_resolve:
  "perms_ok ps \<Longrightarrow> perms_ok (snd (snd (resolve_request env i allow ps)))"
  by (simp add: resolve_request_def Let_def perms_ok_del split: option.split)

lemma perms_ok_step: "perms_ok (pm_pending st) \<Longrightarrow> perms_ok (pm_pending (perm_step e st))"
  by (cases e)
     (simp_all add: perm_step_def perms_ok_request perms_ok_resolve drain_pid_def
       void_referenced_def drop_where_def Let_def perms_ok_del_all)

interpretation permissions: invariant_machine perm_step "\<lambda>st. perms_ok (pm_pending st)"
  by unfold_locales (rule perms_ok_step)


section \<open>Properties\<close>

lemma drop_where_spec:
  assumes "perms_ok ps"
  shows "map_of (snd (drop_where P ps)) = (\<lambda>i. opt_filter (\<lambda>p. \<not> P p) (map_of ps i))"
    and "fst (drop_where P ps) = map pp_cards (filter P (map snd ps))"
proof -
  have ok: "hm_ok ps" and d: "distinct (map fst ps)" using assms by (auto simp: perms_ok_def hm_ok_def)
  have lam: "(\<lambda>(_, p). P p) = (\<lambda>x. P (snd x))" by auto
  have mem: "i \<in> fst ` set (filter (\<lambda>(_, p). P p) ps) \<longleftrightarrow> (\<exists>p. map_of ps i = Some p \<and> P p)" for i
    using d by (force simp: map_of_eq_Some_iff)
  show "map_of (snd (drop_where P ps)) = (\<lambda>i. opt_filter (\<lambda>p. \<not> P p) (map_of ps i))"
  proof
    fix i
    show "map_of (snd (drop_where P ps)) i = opt_filter (\<lambda>p. \<not> P p) (map_of ps i)"
      using mem [of i] by (cases "map_of ps i")
        (auto simp: drop_where_def Let_def hm.get_del_all [OF ok])
  qed
  have "(\<lambda>i. case map_of ps i of Some p \<Rightarrow> [pp_cards p] | None \<Rightarrow> []) (fst x) = [pp_cards (snd x)]"
    if "x \<in> set ps" for x
    using map_of_is_SomeI [OF d, of "fst x" "snd x"] that by simp
  then have "concat (map (\<lambda>x. case map_of ps (fst x) of Some p \<Rightarrow> [pp_cards p] | None \<Rightarrow> [])
      (filter (\<lambda>(_, p). P p) ps)) = map (\<lambda>x. pp_cards (snd x)) (filter (\<lambda>(_, p). P p) ps)"
    by (subst map_cong [OF refl, where g = "\<lambda>x. [pp_cards (snd x)]"]) auto
  then show "fst (drop_where P ps) = map pp_cards (filter P (map snd ps))"
    by (simp add: drop_where_def Let_def comp_def filter_map lam)
qed

text \<open>
  C1. Nothing is approved without a person unless Auto mode allows it: a request injects an answer
  only when its identifier is not empty, the gate does not hold the tool use, no card is pending for
  it, the mode is Auto, no dangerous pattern matches, the configuration allows automatic approval (or
  leaving plan mode), and the session is the one that asked; and then the answer is an allow of the
  tool's own input.
\<close>

theorem auto_approval_is_guarded:
  assumes "Inject q j \<in> set (fst (on_request env pid alias i tu tool input st))"
  shows "i \<noteq> [] \<and> \<not> fst (gate_holds_tool_use (pe_secs env) tu (pm_held st)) \<and>
    map_of (pm_pending st) i = None \<and>
    resolve (pe_config env) (pe_session_first env) alias (pe_secs env) = Auto \<and>
    \<not> is_destructive (pe_lower env) (pe_danger_file env) (danger_target input) \<and>
    (if tool = ''ExitPlanMode'' then ar_auto_accept_plan_exit (ac_auto (pe_config env))
     else ar_auto_approve (ac_auto (pe_config env))) \<and>
    session_stable env (pe_session_first env) \<and>
    q = pid \<and> j = response_json i (allow_json input)"
proof -
  have no: "Inject q j \<notin> set (fst (forward_request env p s))" for p s
    by (auto simp: forward_request_def Let_def case_prod_beta)
  have tried: "Inject q j \<in> set (snd (try_auto_approve env pid alias sid i tool input)) \<Longrightarrow>
      session_stable env sid \<and> q = pid \<and> j = response_json i (allow_json input)" for sid
    by (auto simp: try_auto_approve_def Let_def split: if_split_asm)
  have should: "should_auto_approve env alias sid tool input \<Longrightarrow>
      resolve (pe_config env) sid alias (pe_secs env) = Auto \<and>
      \<not> is_destructive (pe_lower env) (pe_danger_file env) (danger_target input) \<and>
      (if tool = ''ExitPlanMode'' then ar_auto_accept_plan_exit (ac_auto (pe_config env))
       else ar_auto_approve (ac_auto (pe_config env)))" for sid
    by (auto simp: should_auto_approve_def auto_decision_def Let_def split: if_split_asm)
  have "i \<noteq> [] \<and> \<not> fst (gate_holds_tool_use (pe_secs env) tu (pm_held st)) \<and>
      map_of (pm_pending st) i = None \<and>
      should_auto_approve env alias (pe_session_first env) tool input \<and>
      Inject q j \<in> set (snd (try_auto_approve env pid alias (pe_session_first env) i tool input))"
    using assms no unfolding on_request_def Let_def case_prod_beta
    by (auto split: if_split_asm)
  with tried should show ?thesis by blast
qed

text \<open>An environment for the witnesses: Auto mode everywhere, and nothing fails.\<close>

definition demo_perm_env :: perm_env where
  "demo_perm_env =
     \<lparr>pe_secs = 5, pe_instant = 7, pe_config = set_scope ScDefault Auto None (automation_default True),
      pe_lower = to_ascii_lowercase, pe_danger_file = None, pe_session_first = Some ''s'',
      pe_session_now = Some ''s'', pe_alive = True, pe_inject_ok = True, pe_recipients = [1],
      pe_send = \<lambda>chat. Some 2\<rparr>"

definition demo_perm_state :: perm_state where
  "demo_perm_state = \<lparr>pm_pending = [], pm_dedup = dedup_new, pm_store = store_new, pm_held = []\<rparr>"

lemma demo_request:
  "fst (on_request demo_perm_env 9 ''w'' ''r'' ''u'' ''Read'' (JObject [(''path'', JString ''/a'')]) demo_perm_state) =
   [Inject 9 (response_json ''r'' (allow_json (JObject [(''path'', JString ''/a'')]))),
    SendNote 1 (ROBOT @ '' <b>Auto-approved</b> - <b>'' @ ''w'' @ ''</b>'' @ NL # ''Read: /a'')]"
  by code_simp

theorem auto_approval_is_guarded_witness:
  "\<not> is_destructive to_ascii_lowercase None (danger_target (JObject [(''path'', JString ''/a'')]))"
proof -
  have "Inject 9 (response_json ''r'' (allow_json (JObject [(''path'', JString ''/a'')]))) \<in>
      set (fst (on_request demo_perm_env 9 ''w'' ''r'' ''u'' ''Read'' (JObject [(''path'', JString ''/a'')]) demo_perm_state))"
    unfolding demo_request by simp
  from auto_approval_is_guarded [OF this] show ?thesis by (simp add: demo_perm_env_def)
qed

text \<open>
  A pending request is answered at most once: pressing a button takes the request off the map
  whether or not the answer gets through, so every later press is refused and injects nothing.
\<close>

theorem press_answers_once:
  assumes "resolve_request env i allow ps = (res, es, ps')" "hm_ok ps"
  shows "length es \<le> 1 \<and>
    (es \<noteq> [] \<longrightarrow> (\<exists>p. map_of ps i = Some p \<and> session_stable env (pp_session_id p) \<and>
       es = [Inject (pp_pid p) (response_json (pp_request_id p)
               (if allow then allow_json (pp_input p) else deny_json))])) \<and>
    resolve_request env' i allow' ps' = (Inl ''permission is no longer active'', [], ps')"
proof (cases "map_of ps i")
  case None
  with assms show ?thesis by (auto simp: resolve_request_def)
next
  case (Some p)
  with assms have "map_of ps' i = None"
    by (auto simp: resolve_request_def Let_def hm.get_del [OF assms(2)] split: if_split_asm)
  then have "resolve_request env' i allow' ps' = (Inl ''permission is no longer active'', [], ps')"
    by (simp add: resolve_request_def)
  with assms Some show ?thesis
    by (auto simp: resolve_request_def Let_def split: if_split_asm)
qed

theorem press_answers_once_witness:
  "fst (resolve_request demo_perm_env ''r'' False
     (snd (snd (resolve_request demo_perm_env ''r'' True
       [(''r'', \<lparr>pp_request_id = ''r'', pp_pid = 9, pp_tool_name = ''Bash'', pp_tool_use_id = [],
          pp_input = JNull, pp_cards = [(1, 2)], pp_alias = ''w'', pp_session_id = None,
          pp_started = 0\<rparr>)])))) = Inl ''permission is no longer active''"
proof -
  let ?ps = "[(''r'', \<lparr>pp_request_id = ''r'', pp_pid = 9, pp_tool_name = ''Bash'', pp_tool_use_id = [],
          pp_input = JNull, pp_cards = [(1, 2)], pp_alias = ''w'', pp_session_id = None,
          pp_started = 0\<rparr>)]"
  obtain res es ps' where eq: "resolve_request demo_perm_env ''r'' True ?ps = (res, es, ps')"
    by (metis prod.collapse)
  have "hm_ok ?ps" by (simp add: hm_ok_def)
  from press_answers_once [OF eq this, of demo_perm_env False] eq show ?thesis by simp
qed

text \<open>
  When the process of an agent ends, exactly its requests are dropped and exactly their cards
  are returned to be closed; requests of other processes stay as they are.
\<close>

theorem drain_is_exact:
  assumes "perms_ok ps"
  shows "map_of (snd (drain_pid pid ps)) = (\<lambda>i. opt_filter (\<lambda>p. pp_pid p \<noteq> pid) (map_of ps i)) \<and>
    fst (drain_pid pid ps) = map pp_cards (filter (\<lambda>p. pp_pid p = pid) (map snd ps))"
  unfolding drain_pid_def using drop_where_spec [OF assms, of "\<lambda>p. pp_pid p = pid"] by simp

theorem drain_is_exact_witness: "fst (drain_pid 9 []) = []"
  using drain_is_exact [of "[]" 9] by (simp add: perms_ok_def hm_ok_def)

text \<open>
  After any sequence of requests, presses, ended processes and transcript lines, every pending
  request is stored under its own, non-empty identifier.
\<close>

theorem pending_keys_match:
  "perms_ok (pm_pending (fold perm_step es
     \<lparr>pm_pending = [], pm_dedup = d, pm_store = s, pm_held = h\<rparr>))"
  by (rule permissions.run_inv) (simp add: perms_ok_def hm_ok_def)

text \<open>
  Both buttons of a card stand for the request it was made for. Read back from the store the card
  leaves, the first is \<open>pm:a:\<close> and the second \<open>pm:d:\<close> with a handle each, and both handles read back
  as the request's identifier, however long that is.
\<close>

theorem card_buttons:
  assumes "store_ok s" "render p s = ((text, kb), s')"
  shows "\<exists>a d. map (\<lambda>j. decode_or_raw (button j) s') (keyboard_buttons kb) = [''pm:a:'' @ a, ''pm:d:'' @ d] \<and>
    decode_or_raw a s' = pp_request_id p \<and> decode_or_raw d s' = pp_request_id p"
proof -
  let ?i = "pp_request_id p"
  obtain a s1 where a: "encode ?i s = (a, s1)" by (cases "encode ?i s")
  obtain d s2 where d: "encode ?i s1 = (d, s2)" by (cases "encode ?i s1")
  let ?row = "[(CHECK @ '' Allow'', ''pm:a:'' @ a), (STOP @ '' Deny'', ''pm:d:'' @ d)]"
  have kb: "keyboard [?row] s2 = (kb, s')"
    using assms(2) a d by (auto simp: render_def Let_def split: prod.splits)
  have ok1: "store_ok s1" using encode_ok [OF assms(1), of ?i] a by simp
  have ok2: "store_ok s2" using encode_ok [OF ok1, of ?i] d by simp
  have "carries a ?i 0 s1" using encode_carries [OF assms(1), of ?i] a by simp
  then have ca: "carries a ?i 1 s2" using encode_keeps [OF ok1, of a ?i 0 ?i] d by (simp add: CAP_def)
  have cd: "carries d ?i 0 s2" using encode_carries [OF ok1, of ?i] d by simp
  have row: "keyboard_row ?row s2 = (keyboard_buttons kb, s')"
    using keyboard_as_row [OF kb] by simp
  have "carries a ?i (1 + length ?row) s'" by (rule row_keeps [OF row ok2 ca]) (simp add: CAP_def)
  moreover have "carries d ?i (0 + length ?row) s'"
    by (rule row_keeps [OF row ok2 cd]) (simp add: CAP_def)
  moreover have "list_all2 (\<lambda>b j. carries (button j) (snd b) (length ?row) s') ?row (keyboard_buttons kb)"
    by (rule row_carries [OF row ok2]) (simp add: CAP_def)
  then have "map (\<lambda>j. decode_or_raw (button j) s') (keyboard_buttons kb) = map snd ?row"
    by (induction rule: list_all2_induct) (auto dest: carries_decodes)
  ultimately show ?thesis by (auto dest: carries_decodes)
qed

theorem card_buttons_witness:
  "\<exists>a d. map (\<lambda>j. decode_or_raw (button j)
        (snd (render (new_pending demo_perm_env 9 ''w'' ''x:req'' ''u'' ''Bash'' JNull) store_new)))
      (keyboard_buttons (snd (fst (render (new_pending demo_perm_env 9 ''w'' ''x:req'' ''u'' ''Bash'' JNull) store_new))))
    = [''pm:a:'' @ a, ''pm:d:'' @ d]"
  using card_buttons [OF store_ok_new, of "new_pending demo_perm_env 9 ''w'' ''x:req'' ''u'' ''Bash'' JNull"]
  by (metis prod.collapse)

end
