(* ===== verification/Tool_Effect.thy ===== *)
theory Tool_Effect
  imports Rust_Data
begin

text \<open>
  What a tool use does (\<open>crates/relay-agent/src/tool_effect.rs\<close>, with the effect types of
  \<open>crates/relay-compass/src/gate.rs\<close>): the structured fields of a tool's input, its annotations, and
  the reading of a shell command, segment by segment. Whether a path exists is the parameter
  \<open>exists\<close>.
\<close>

section \<open>Effects\<close>

datatype MutationKind = Create | Replace | Migrate | Modify | Delete

definition is_novelty :: "MutationKind \<Rightarrow> bool" where
  "is_novelty k = (case k of Create \<Rightarrow> True | Replace \<Rightarrow> True | Migrate \<Rightarrow> True | _ \<Rightarrow> False)"

datatype ToolEffect = ReadOnly | Mutation MutationKind | ExternalSideEffect | UnknownEffect

datatype EffectSource =
  StructuredPayload | CapabilityAnnotation | CompatibilityFallback | ShellSegmented | UnknownShape

record effect_assessment =
  ea_effect :: ToolEffect
  ea_target :: "string option"
  ea_source :: EffectSource

definition assess :: "ToolEffect \<Rightarrow> string option \<Rightarrow> EffectSource \<Rightarrow> effect_assessment" where
  "assess e t s = \<lparr>ea_effect = e, ea_target = t, ea_source = s\<rparr>"

section \<open>Structured inputs\<close>

text \<open>The first of the fields that is a string, trimmed; a blank one counts as absent.\<close>

fun first_string :: "json \<Rightarrow> string list \<Rightarrow> string option" where
  "first_string input [] = None"
| "first_string input (n # ns) =
     (case get_str input n of Some s \<Rightarrow> Some s | None \<Rightarrow> first_string input ns)"

definition string_field :: "json \<Rightarrow> string list \<Rightarrow> string option" where
  "string_field input names =
     opt_filter (\<lambda>v. v \<noteq> []) (map_option trim (first_string input names))"

definition target_of :: "json \<Rightarrow> string option" where
  "target_of input =
     string_field input
       [''file_path'', ''path'', ''target'', ''uri'', ''resource'', ''notebook_path'', ''destination'']"

definition resolved_target :: "string \<Rightarrow> string \<Rightarrow> string" where
  "resolved_target cwd t = (if is_absolute t then t else path_join cwd t)"

definition annotated_effect :: "json \<Rightarrow> ToolEffect option" where
  "annotated_effect input =
     (let a = unwrap_or input (or_else (jget input ''annotations'') (jget input ''capabilities''))
      in if Option.bind (or_else (jget a ''readOnlyHint'') (jget a ''read_only'')) as_bool = Some True
         then Some ReadOnly
         else if Option.bind (or_else (jget a ''destructiveHint'') (jget a ''destructive'')) as_bool = Some True
         then Some (Mutation Delete)
         else None)"

record patch_files =
  pf_adds :: "string list"
  pf_deletes :: "string list"
  pf_updates :: "string list"

definition patch_line :: "string \<Rightarrow> patch_files \<Rightarrow> patch_files" where
  "patch_line line p =
     (case strip_prefix ''*** Add File: '' line of
        Some path \<Rightarrow> p\<lparr>pf_adds := pf_adds p @ [trim path]\<rparr>
      | None \<Rightarrow>
          (case strip_prefix ''*** Delete File: '' line of
             Some path \<Rightarrow> p\<lparr>pf_deletes := pf_deletes p @ [trim path]\<rparr>
           | None \<Rightarrow>
               (case strip_prefix ''*** Update File: '' line of
                  Some path \<Rightarrow> p\<lparr>pf_updates := pf_updates p @ [trim path]\<rparr>
                | None \<Rightarrow> p)))"

definition patch_effect :: "string \<Rightarrow> (ToolEffect \<times> string option) option" where
  "patch_effect patch =
     (let p = fold patch_line (rust_lines patch)
                \<lparr>pf_adds = [], pf_deletes = [], pf_updates = []\<rparr>;
          all = pf_adds p @ pf_deletes p @ pf_updates p
      in if all = [] then None
         else if 1 < length all then Some (Mutation Migrate, Some (hd all))
         else if pf_adds p \<noteq> [] then Some (Mutation Create, Some (last (pf_adds p)))
         else if pf_deletes p \<noteq> [] then Some (Mutation Delete, Some (last (pf_deletes p)))
         else Some (Mutation Modify, Some (last (pf_updates p))))"

definition only_keys :: "json \<Rightarrow> string list \<Rightarrow> bool" where
  "only_keys v ks \<longleftrightarrow>
     (\<exists>m \<in> set_option (as_object v). list_all (\<lambda>(k, _). k \<in> set ks) m)"

text \<open>A plan update: only steps with their status.\<close>

definition is_plan :: "json \<Rightarrow> bool" where
  "is_plan input \<longleftrightarrow>
     (\<exists>items \<in> set_option (Option.bind (jget input ''plan'') as_array).
        items \<noteq> [] \<and>
        list_all (\<lambda>i. as_object i \<noteq> None \<and> get_str i ''step'' \<noteq> None \<and>
          get_str i ''status'' \<noteq> None \<and> only_keys i [''step'', ''status'']) items \<and>
        only_keys input [''plan'', ''explanation''])"

definition is_write_method :: "json \<Rightarrow> bool" where
  "is_write_method input \<longleftrightarrow>
     (\<exists>m \<in> set_option (get_str input ''method'').
        to_ascii_uppercase m \<notin> {''GET'', ''HEAD'', ''OPTIONS''})"

definition is_message :: "json \<Rightarrow> bool" where
  "is_message input \<longleftrightarrow>
     (has_key input ''recipient'' \<or> has_key input ''channel'' \<or> has_key input ''chat_id'') \<and>
     (has_key input ''message'' \<or> has_key input ''body'' \<or> has_key input ''content'')"

text \<open>A patch in a patch field, or a shell command that is nothing but a patch.\<close>

definition command_patch :: "json \<Rightarrow> (ToolEffect \<times> string option) option" where
  "command_patch input =
     Option.bind (string_field input [''command'', ''cmd'']) (\<lambda>command.
       let t = trim command
       in if starts_with ''*** Begin Patch'' t \<and> ends_with ''*** End Patch'' t then patch_effect t
          else None)"

definition field_effect :: "(string \<Rightarrow> bool) \<Rightarrow> json \<Rightarrow> string \<Rightarrow> (ToolEffect \<times> string option) option" where
  "field_effect exists input cwd =
     (let target = target_of input
      in if has_key input ''old_string'' \<or> has_key input ''new_string'' \<or> has_key input ''edits'' \<or>
            has_key input ''operations''
         then Some (Mutation Modify, target)
         else if target \<noteq> None \<and>
            (has_key input ''content'' \<or> has_key input ''contents'' \<or> has_key input ''data'')
         then Some (Mutation (if exists (resolved_target cwd (the target)) then Replace else Create),
                    target)
         else if has_key input ''query'' \<or> has_key input ''pattern'' \<or> has_key input ''cursor'' \<or>
            has_key input ''page'' \<or> has_key input ''line_start'' \<or> has_key input ''offset''
         then Some (ReadOnly, target)
         else if target \<noteq> None \<and>
            only_keys input [''file_path'', ''path'', ''target'', ''uri'', ''resource'',
              ''notebook_path'', ''offset'', ''limit'', ''line_start'', ''line_end'']
         then Some (ReadOnly, target)
         else None)"

definition structured_effect ::
  "(string \<Rightarrow> bool) \<Rightarrow> json \<Rightarrow> string \<Rightarrow> (ToolEffect \<times> string option) option" where
  "structured_effect exists input cwd =
     (if is_plan input then Some (ReadOnly, None)
      else if is_write_method input
      then Some (ExternalSideEffect, string_field input [''url'', ''uri''])
      else if is_message input then Some (ExternalSideEffect, target_of input)
      else if has_key input ''url'' \<and> \<not> has_key input ''method''
      then Some (ReadOnly, get_str input ''url'')
      else or_else (Option.bind (string_field input [''patch'', ''diff'', ''input'']) patch_effect)
             (or_else (command_patch input) (field_effect exists input cwd)))"

section \<open>Shell commands\<close>

definition trim_matches :: "(char \<Rightarrow> bool) \<Rightarrow> string \<Rightarrow> string" where
  "trim_matches p s = rev (dropWhile p (rev (dropWhile p s)))"

definition clean_shell_target :: "string \<Rightarrow> string option" where
  "clean_shell_target token =
     (let t = rev (dropWhile (\<lambda>c. c \<in> set '';&'')
                (rev (trim_matches (\<lambda>c. c = CHR 0x27 \<or> c = CHR 0x22) (trim token))))
      in if t \<noteq> [] \<and> \<not> list_ex (\<lambda>c. c = CHR 0x0A \<or> c = CHR 0x0D \<or> c \<in> set ''|<>$`'') t \<and>
            t \<notin> {''/dev/null'', ''&1'', ''&2''}
         then Some t else None)"

definition path_mutation :: "(string \<Rightarrow> bool) \<Rightarrow> string \<Rightarrow> string \<Rightarrow> MutationKind \<Rightarrow> effect_assessment" where
  "path_mutation exists cwd t existing =
     assess (Mutation (if exists (resolved_target cwd t) then existing else Create)) (Some t)
       CompatibilityFallback"

definition is_env_assignment :: "string \<Rightarrow> bool" where
  "is_env_assignment token =
     (case split_once ''='' token of
        None \<Rightarrow> False
      | Some (name, _) \<Rightarrow>
          name \<noteq> [] \<and> (hd name = CHR ''_'' \<or> is_ascii_alphabetic (hd name)) \<and>
          list_all (\<lambda>c. c = CHR ''_'' \<or> is_ascii_alphanumeric c) (tl name))"

definition shell_tokens :: "string \<Rightarrow> string list" where
  "shell_tokens command = dropWhile is_env_assignment (split_whitespace command)"

definition unknown_shape :: effect_assessment where
  "unknown_shape = assess UnknownEffect None UnknownShape"

definition slice :: "string \<Rightarrow> nat \<Rightarrow> nat \<Rightarrow> string" where
  "slice s i j = take (j - i) (drop i s)"

text \<open>
  The scan over the bytes: \<open>pos\<close> is the current byte, \<open>start\<close> the first one of the segment, \<open>quote\<close>
  the quote that is open.
\<close>

function segment_loop :: "string \<Rightarrow> nat \<Rightarrow> nat \<Rightarrow> char option \<Rightarrow> string list" where
  "segment_loop s pos start quote =
     (if length s \<le> pos then [drop start s]
      else let b = s ! pos
           in case quote of
                Some open \<Rightarrow>
                  if b = CHR 0x5C \<and> open = CHR 0x22 then segment_loop s (pos + 2) start quote
                  else segment_loop s (pos + 1) start (if b = open then None else quote)
              | None \<Rightarrow>
                  if b = CHR 0x27 \<or> b = CHR 0x22 then segment_loop s (pos + 1) start (Some b)
                  else if b = CHR 0x5C then segment_loop s (pos + 2) start None
                  else if (b = CHR ''&'' \<or> b = CHR ''|'') \<and> nth_opt s (pos + 1) = Some b
                  then slice s start pos # segment_loop s (pos + 2) (pos + 2) None
                  else if b = CHR ''|'' \<or> b = CHR '';'' \<or> b = CHR 0x0A
                  then slice s start pos # segment_loop s (pos + 1) (pos + 1) None
                  else segment_loop s (pos + 1) start None)"
  by pat_completeness auto
termination
  by (relation "measure (\<lambda>(s, pos, _, _). length s - pos)") auto

declare segment_loop.simps [simp del]

definition shell_segments :: "string \<Rightarrow> string list option" where
  "shell_segments command =
     (if contains ''<<'' command then None
      else Some (filter (\<lambda>g. g \<noteq> []) (map trim (segment_loop command 0 0 None))))"

definition is_navigation :: "string \<Rightarrow> bool" where
  "is_navigation segment \<longleftrightarrow> nth_opt (shell_tokens segment) 0 \<in> Some ` {''cd'', ''pushd'', ''popd''}"

definition safe_prefixes :: "string list" where
  "safe_prefixes =
     [''rg '', ''rg --'', ''grep '', ''cat '', ''head '', ''tail '', ''ls '', ''find '', ''stat '', ''wc '',
      ''awk '', ''df '', ''du '', ''ps '', ''pgrep '', ''shasum '', ''file '', ''which '', ''sort'', ''uniq'',
      ''cut '', ''tr '', ''nl '', ''seq '', ''diff '', ''cmp '', ''jq '', ''sed '', ''printf '', ''echo '',
      ''pwd'', ''date'', ''uname'', ''basename '', ''dirname '', ''sleep '', ''git status'', ''git diff'',
      ''git log'', ''git show'', ''cargo check'', ''cargo test'', ''cargo clippy'']"

text \<open>The target of an output redirection, and what it does to a file that is there.\<close>

definition redirection :: "string \<Rightarrow> (string \<times> MutationKind) option" where
  "redirection command =
     (let first = (\<lambda>raw. Option.bind (nth_opt (split_whitespace raw) 0) clean_shell_target)
      in case rsplit_once ''>>'' command of
           Some (_, raw) \<Rightarrow> map_option (\<lambda>t. (t, Modify)) (first raw)
         | None \<Rightarrow>
             (case rsplit_once ''>'' command of
                Some (_, raw) \<Rightarrow> map_option (\<lambda>t. (t, Replace)) (first raw)
              | None \<Rightarrow> None))"

text \<open>The programs that are known by name; \<open>None\<close> goes on to the list of safe prefixes.\<close>

definition by_program ::
  "(string \<Rightarrow> bool) \<Rightarrow> string \<Rightarrow> string \<Rightarrow> string list \<Rightarrow> effect_assessment option" where
  "by_program exists cwd program tokens =
     (let target = Option.bind (if tokens = [] then None else Some (last tokens)) clean_shell_target;
          fallback = (\<lambda>e t. Some (assess e t CompatibilityFallback));
          second = nth_opt tokens 1
      in if program = ''cp''
         then map_option (\<lambda>t. path_mutation exists cwd t Replace) target
         else if program = ''touch'' \<or> program = ''mkdir''
         then map_option (\<lambda>t. path_mutation exists cwd t Modify) target
         else if program = ''mv''
         then map_option (\<lambda>t. assess (Mutation Migrate) (Some t) CompatibilityFallback) target
         else if program = ''rm'' \<or> program = ''rmdir'' then fallback (Mutation Delete) target
         else if program = ''git'' \<and> second = Some ''mv''
         then map_option (\<lambda>t. assess (Mutation Migrate) (Some t) CompatibilityFallback) target
         else if program = ''git'' \<and> (second = Some ''push'' \<or> second = Some ''commit'')
         then fallback ExternalSideEffect None
         else if program \<in> {''ssh'', ''scp'', ''rsync'', ''curl'', ''wget''}
         then fallback ExternalSideEffect None
         else if program = ''sed'' \<and>
           list_ex (\<lambda>t. starts_with ''-i'' t \<or> t = ''--in-place'') tokens
         then fallback (Mutation Modify) target
         else None)"

definition classify_segment :: "(string \<Rightarrow> bool) \<Rightarrow> string \<Rightarrow> string \<Rightarrow> effect_assessment" where
  "classify_segment exists cwd command =
     (let tokens = shell_tokens command;
          normalized = to_ascii_lowercase (join '' '' tokens)
      in if normalized = [] then unknown_shape
         else case redirection command of
                Some (t, existing) \<Rightarrow> path_mutation exists cwd t existing
              | None \<Rightarrow>
                  (let program = to_ascii_lowercase (last (split_on (\<lambda>c. c = CHR ''/'') (hd tokens)))
                   in case by_program exists cwd program tokens of
                        Some a \<Rightarrow> a
                      | None \<Rightarrow>
                          if list_ex (\<lambda>p. normalized = trim p \<or> starts_with p normalized) safe_prefixes
                          then assess ReadOnly None CompatibilityFallback
                          else unknown_shape))"

text \<open>The loop over the segments: the first one that changes something decides.\<close>

fun combine_segments :: "effect_assessment list \<Rightarrow> bool \<Rightarrow> effect_assessment" where
  "combine_segments [] unknown =
     (if unknown then unknown_shape else assess ReadOnly None ShellSegmented)"
| "combine_segments (a # as) unknown =
     (case ea_effect a of
        Mutation _ \<Rightarrow> a\<lparr>ea_source := ShellSegmented\<rparr>
      | ExternalSideEffect \<Rightarrow> a\<lparr>ea_source := ShellSegmented\<rparr>
      | UnknownEffect \<Rightarrow> combine_segments as True
      | ReadOnly \<Rightarrow> combine_segments as unknown)"

definition shell_fallback :: "(string \<Rightarrow> bool) \<Rightarrow> string \<Rightarrow> string \<Rightarrow> effect_assessment" where
  "shell_fallback exists cwd command =
     (case shell_segments command of
        None \<Rightarrow> unknown_shape
      | Some segments \<Rightarrow>
          (let commands = filter (\<lambda>g. \<not> is_navigation g) segments
           in if commands = [] then assess ReadOnly None ShellSegmented
              else if \<not> (1 < length commands \<or> length commands \<noteq> length segments)
              then classify_segment exists cwd (hd commands)
              else combine_segments (map (classify_segment exists cwd) commands) False))"

section \<open>Whole payloads\<close>

definition is_relay_control_plane :: "json \<Rightarrow> bool" where
  "is_relay_control_plane payload =
     (case Option.bind (jget payload ''tool_input'') (\<lambda>i. string_field i [''command'', ''cmd'']) of
        None \<Rightarrow> False
      | Some command \<Rightarrow>
          (let tokens = shell_tokens command
           in case nth_opt tokens 0 of
                None \<Rightarrow> False
              | Some first \<Rightarrow>
                  last (split_on (\<lambda>c. c = CHR ''/'') first) = ''vsc-relay-agent'' \<and>
                  nth_opt tokens 1 = Some ''automation'' \<and>
                  (nth_opt tokens 2 \<in> Some ` set
                     [''set-default'', ''set-workspace'', ''set-session'', ''clear-workspace'',
                      ''clear-session'', ''provider'', ''strategy'', ''provider-model'',
                      ''provider-key'', ''get'', ''list'', ''discover'', ''models'', ''health''] \<or>
                   nth_opt tokens 2 = Some ''smart'' \<and>
                   nth_opt tokens 3 \<in> Some ` set
                     [''status'', ''check'', ''on'', ''off'', ''steer'', ''gate'', ''feedback'',
                      ''provider'', ''model'', ''endpoint'', ''local-dir'', ''trust'', ''key''])))"

definition classify :: "(string \<Rightarrow> bool) \<Rightarrow> json \<Rightarrow> effect_assessment" where
  "classify exists payload =
     (let input = unwrap_or JNull (jget payload ''tool_input'');
          cwd = unwrap_or ''.'' (get_str payload ''cwd'')
      in case structured_effect exists input cwd of
           Some (effect, target) \<Rightarrow> assess effect target StructuredPayload
         | None \<Rightarrow>
             (case annotated_effect input of
                Some effect \<Rightarrow> assess effect (target_of input) CapabilityAnnotation
              | None \<Rightarrow>
                  (case string_field input [''command'', ''cmd''] of
                     Some command \<Rightarrow> shell_fallback exists cwd command
                   | None \<Rightarrow> assess UnknownEffect (target_of input) UnknownShape)))"

section \<open>No text is lost\<close>

definition separators :: "string set" where
  "separators = {''&&'', ''||'', ''|'', '';'', [CHR 0x0A]}"

text \<open>\<open>cover gs s\<close>: the pieces \<open>gs\<close> with separators between them make up \<open>s\<close>.\<close>

inductive cover :: "string list \<Rightarrow> string \<Rightarrow> bool" where
  last_piece: "cover [g] g"
| more_pieces: "cover gs t \<Longrightarrow> p \<in> separators \<Longrightarrow> cover (g # gs) (g @ p @ t)"

inductive_simps cover_single: "cover [g] s"

lemma slice_drop: "start \<le> pos \<Longrightarrow> pos \<le> length s \<Longrightarrow> drop start s = slice s start pos @ drop pos s"
  by (simp add: slice_def) (metis append_take_drop_id drop_drop le_add_diff_inverse2)

lemma sep_piece:
  assumes "start \<le> pos" "pos < length s" "cover gs (drop (pos + 1) s)"
    and "s ! pos = CHR ''|'' \<or> s ! pos = CHR '';'' \<or> s ! pos = CHR 0x0A"
  shows "cover (slice s start pos # gs) (drop start s)"
proof -
  have "drop start s = slice s start pos @ [s ! pos] @ drop (pos + 1) s"
    using slice_drop [of start pos s] Cons_nth_drop_Suc [of pos s] assms(1,2) by simp
  moreover have "[s ! pos] \<in> separators" using assms(4) by (auto simp: separators_def)
  ultimately show ?thesis using more_pieces [OF assms(3)] by metis
qed

lemma double_piece:
  assumes "start \<le> pos" "pos < length s" "cover gs (drop (pos + 2) s)"
    and "b = CHR ''&'' \<or> b = CHR ''|''" "s ! pos = b" "nth_opt s (pos + 1) = Some b"
  shows "cover (slice s start pos # gs) (drop start s)"
proof -
  have p: "pos + 1 < length s" and b: "s ! (pos + 1) = b"
    using assms(6) by (auto simp: nth_opt_def split: if_split_asm)
  have "drop start s = slice s start pos @ [b, b] @ drop (pos + 2) s"
    using slice_drop [of start pos s] Cons_nth_drop_Suc [of pos s] Cons_nth_drop_Suc [OF p]
      assms(1,2,5) b by simp
  moreover have "[b, b] \<in> separators" using assms(4) by (auto simp: separators_def)
  ultimately show ?thesis using more_pieces [OF assms(3)] by metis
qed

lemma segment_loop_cover: "start \<le> pos \<Longrightarrow> cover (segment_loop s pos start quote) (drop start s)"
proof (induction "length s - pos" arbitrary: pos start quote rule: less_induct)
  case less
  show ?case
  proof (cases "length s \<le> pos")
    case True
    then show ?thesis by (simp add: segment_loop.simps [of s pos] last_piece)
  next
    case False
    let ?b = "s ! pos"
    from False have lt: "pos < length s" by simp
    have next1: "cover (segment_loop s (pos + 1) st q) (drop st s)" if "st \<le> pos + 1" for st q
      using less.hyps [of "pos + 1" st q] lt that by simp
    have next2: "cover (segment_loop s (pos + 2) st q) (drop st s)" if "st \<le> pos + 2" for st q
      using less.hyps [of "pos + 2" st q] lt that by simp
    show ?thesis
    proof (cases quote)
      case (Some q)
      with False less.prems next1 next2 show ?thesis
        by (subst segment_loop.simps) (simp add: Let_def)
    next
      case None
      show ?thesis
      proof (cases "(?b = CHR ''&'' \<or> ?b = CHR ''|'') \<and> nth_opt s (pos + 1) = Some ?b")
        case True
        from double_piece [OF less.prems lt next2 _ refl] True show ?thesis
          using False None by (subst segment_loop.simps) (auto simp: Let_def)
      next
        case nodouble: False
        show ?thesis
        proof (cases "?b = CHR ''|'' \<or> ?b = CHR '';'' \<or> ?b = CHR 0x0A")
          case True
          from sep_piece [OF less.prems lt next1 True] True nodouble show ?thesis
            using False None by (subst segment_loop.simps) (auto simp: Let_def)
        next
          case nosep: False
          with nodouble show ?thesis
            using False None less.prems next1 next2
            by (subst segment_loop.simps) (auto simp: Let_def)
        qed
      qed
    qed
  qed
qed

section \<open>Quotes\<close>

definition plain :: "char \<Rightarrow> bool" where
  "plain c \<longleftrightarrow> c \<notin> {CHR 0x27, CHR 0x22, CHR 0x5C, CHR ''&'', CHR ''|'', CHR '';'', CHR 0x0A}"

lemma segment_loop_plain:
  "pos \<le> length s \<Longrightarrow> list_all plain (drop pos s) \<Longrightarrow> segment_loop s pos start None = [drop start s]"
proof (induction "length s - pos" arbitrary: pos)
  case 0
  then show ?case by (simp add: segment_loop.simps)
next
  case (Suc n)
  then have lt: "pos < length s" by simp
  with Suc.prems have "plain (s ! pos)" and "list_all plain (drop (pos + 1) s)"
    by (metis Cons_nth_drop_Suc Suc_eq_plus1 list.pred_inject(2))+
  with Suc.hyps(1) [of "pos + 1"] Suc.hyps(2) lt show ?case
    by (subst segment_loop.simps) (simp add: Let_def plain_def)
qed

lemma segment_loop_skip:
  assumes "list_all plain a"
  shows "segment_loop (p @ a @ b) (length p) start None = segment_loop (p @ a @ b) (length p + length a) start None"
  using assms
proof (induction a arbitrary: p)
  case (Cons c a)
  from Cons.prems Cons.IH [of "p @ [c]"] show ?case
    by (subst segment_loop.simps) (simp add: Let_def plain_def nth_append)
qed simp

lemma segment_loop_quoted:
  assumes "CHR 0x27 \<notin> set q"
  shows "segment_loop (p @ q @ CHR 0x27 # b) (length p) start (Some CHR 0x27) =
    segment_loop (p @ q @ CHR 0x27 # b) (length p + length q + 1) start None"
  using assms
proof (induction q arbitrary: p)
  case Nil
  then show ?case by (subst segment_loop.simps) (simp add: Let_def nth_append)
next
  case (Cons c q)
  from Cons.prems Cons.IH [of "p @ [c]"] show ?case
    by (subst segment_loop.simps) (auto simp: Let_def nth_append)
qed

section \<open>Combining segments\<close>

definition changes :: "ToolEffect \<Rightarrow> bool" where
  "changes e = (case e of Mutation _ \<Rightarrow> True | ExternalSideEffect \<Rightarrow> True | _ \<Rightarrow> False)"

lemma assess_simps [simp]:
  "ea_effect (assess e t s) = e" "ea_target (assess e t s) = t" "ea_source (assess e t s) = s"
  "ea_effect unknown_shape = UnknownEffect"
  by (simp_all add: assess_def unknown_shape_def)

lemma combine_readonly:
  "ea_effect (combine_segments as u) = ReadOnly \<longleftrightarrow> \<not> u \<and> list_all (\<lambda>a. ea_effect a = ReadOnly) as"
  by (induction as u rule: combine_segments.induct) (auto split: ToolEffect.split)

lemma changes_simps [simp]:
  "changes (Mutation k)" "changes ExternalSideEffect" "\<not> changes ReadOnly" "\<not> changes UnknownEffect"
  by (simp_all add: changes_def)

lemma combine_changes:
  "changes (ea_effect (combine_segments as u)) \<longleftrightarrow> list_ex (\<lambda>a. changes (ea_effect a)) as"
  by (induction as u rule: combine_segments.induct) (auto split: ToolEffect.split)

lemma shell_fallback_cases:
  assumes "shell_segments command = Some gs"
  shows "ea_effect (shell_fallback exists cwd command) = ea_effect (combine_segments
     (map (classify_segment exists cwd) (filter (\<lambda>g. \<not> is_navigation g) gs)) False)"
proof -
  let ?c = "filter (\<lambda>g. \<not> is_navigation g) gs"
  consider "?c = []" | g where "?c = [g]" | g h r where "?c = g # h # r"
    by (cases ?c rule: remdups_adj.cases) auto
  then show ?thesis
  proof cases
    case (2 g)
    have "ea_effect (combine_segments [classify_segment exists cwd g] False) =
        ea_effect (classify_segment exists cwd g)"
      by (cases "ea_effect (classify_segment exists cwd g)") auto
    with 2 assms show ?thesis by (simp add: shell_fallback_def Let_def)
  qed (use assms in \<open>simp_all add: shell_fallback_def Let_def\<close>)
qed

section \<open>Properties\<close>

text \<open>
  Cutting a shell command into segments loses no text: the pieces and the separators between
  them are the whole command, and the segments are the pieces without surrounding space and empty
  ones.
\<close>

theorem segments_cover_command:
  assumes "shell_segments command = Some gs"
  shows "\<exists>pieces. cover pieces command \<and> gs = filter (\<lambda>g. g \<noteq> []) (map trim pieces)"
  using assms segment_loop_cover [of 0 0 command None]
  by (auto simp: shell_segments_def split: if_split_asm)

theorem segments_cover_command_witness:
  "\<exists>pieces. cover pieces ''ls; rm x'' \<and> [''ls'', ''rm x''] = filter (\<lambda>g. g \<noteq> []) (map trim pieces)"
  by (rule segments_cover_command) code_simp

text \<open>
  A separator inside quotes separates nothing: a command with a single-quoted text, and no other
  special character, is one segment, whatever the quoted text is.
\<close>

theorem quoted_text_not_split:
  assumes "list_all plain a" "CHR 0x27 \<notin> set q" "list_all plain b"
    and "\<not> contains ''<<'' (a @ CHR 0x27 # q @ CHR 0x27 # b)"
  shows "shell_segments (a @ CHR 0x27 # q @ CHR 0x27 # b) =
    Some (filter (\<lambda>g. g \<noteq> []) [trim (a @ CHR 0x27 # q @ CHR 0x27 # b)])"
proof -
  let ?s = "a @ CHR 0x27 # q @ CHR 0x27 # b"
  have "segment_loop ?s 0 0 None = segment_loop ?s (length a) 0 None"
    using segment_loop_skip [OF assms(1), of "[]"] by simp
  also have "\<dots> = segment_loop ?s (length a + 1) 0 (Some CHR 0x27)"
    by (subst segment_loop.simps) (simp add: Let_def nth_append)
  also have "\<dots> = segment_loop ?s (length a + length q + 2) 0 None"
    using segment_loop_quoted [OF assms(2), of "a @ [CHR 0x27]" b 0] by simp
  also have "\<dots> = [?s]"
    using assms(3) by (subst segment_loop_plain) auto
  finally show ?thesis using assms(4) by (simp add: shell_segments_def del: contains.simps)
qed

theorem quoted_text_not_split_witness:
  "shell_segments (''echo '' @ CHR 0x27 # ''a; rm -rf b'' @ CHR 0x27 # '' x'') =
   Some (filter (\<lambda>g. g \<noteq> []) [trim (''echo '' @ CHR 0x27 # ''a; rm -rf b'' @ CHR 0x27 # '' x'')])"
  by (rule quoted_text_not_split; code_simp)

text \<open>
  A command line counts as read-only exactly when it can be cut into segments and every segment
  is a change of directory or read-only by itself; and it counts as a change (a mutation or an
  outside effect) exactly when one of its segments is one.
\<close>

theorem shell_effect_of_segments:
  "(ea_effect (shell_fallback exists cwd command) = ReadOnly \<longleftrightarrow>
      (\<exists>gs. shell_segments command = Some gs \<and>
        list_all (\<lambda>g. is_navigation g \<or> ea_effect (classify_segment exists cwd g) = ReadOnly) gs)) \<and>
   (changes (ea_effect (shell_fallback exists cwd command)) \<longleftrightarrow>
      (\<exists>gs. shell_segments command = Some gs \<and>
        list_ex (\<lambda>g. \<not> is_navigation g \<and> changes (ea_effect (classify_segment exists cwd g))) gs))"
proof (cases "shell_segments command")
  case None
  then show ?thesis by (simp add: shell_fallback_def changes_def)
next
  case (Some gs)
  show ?thesis
    unfolding shell_fallback_cases [OF Some] combine_readonly combine_changes
    using Some by (auto simp: list_all_iff list_ex_iff)
qed

text \<open>
  The list of safe prefixes lets \<open>find\<close> through with the options that delete: such a command counts
  as read-only.
\<close>

lemma find_delete_read_only:
  "ea_effect (shell_fallback exists cwd ''find . -name x -delete'') = ReadOnly"
  by code_simp

end
