(* ===== verification/Gate_Store.thy ===== *)
theory Gate_Store
  imports Tool_Effect
begin

text \<open>
  The store of artifacts and gates (\<open>crates/relay-agent/src/artifact_store.rs\<close>, with the states of
  \<open>crates/relay-compass/src/gate.rs\<close>): what is known of the files of a repository, and the gate
  record of every held action. The file system is the parameter \<open>fs\<close>; the keyed digest
  (\<open>private_digest\<close>, blake3 under a key of the machine) is \<open>dg\<close>, from a domain and a value. One
  store per repository is kept under the repository's digest, in ascending order, which is the
  order of the store files. A call that cannot lock, read or write its store returns the error of
  that access and is not modelled further; logging is left out.
\<close>

section \<open>Data\<close>

datatype ExistenceState = ExPresent | ExAbsent | ExUnknown
datatype PopulationState = NonEmpty | EmptyPopulation | PopUnknown
datatype WiringState = Connected | Disconnected | WirePartial | WireUnknown
datatype BehaviorState = BehWorking | Broken | BehPartial | BehUnknown

datatype CoverageStatus = PresentFresh | AbsentFresh | PartialCoverage | StaleCoverage | Missing

datatype GateState =
    Advisory | AwaitingProof | TargetProbe | ControllerProbe | Replanning | ClearedAbsent
  | RejectedPresent | Quarantined | StaleGate

datatype GateDecision = Annotate | AskProof | Deny | AutonomousResolve | QuarantineBranch | DeferToBase

record artifact_state =
  as_existence :: ExistenceState
  as_population :: PopulationState
  as_wiring :: WiringState
  as_behavior :: BehaviorState
  as_version_hash :: "string option"

record dimension_versions =
  dv_existence :: "string option"
  dv_population :: "string option"
  dv_wiring :: "string option"
  dv_behavior :: "string option"

record artifact_record =
  ar_locator_digest :: string
  ar_locator_kind :: string
  ar_content_hash :: "string option"
  ar_coverage_root_hash :: "string option"
  ar_state :: artifact_state
  ar_versions :: dimension_versions
  ar_adapter_version :: string
  ar_observed_at :: i64
  ar_evidence_ref :: string

record adapter_gap =
  ag_shape_digest :: string
  ag_first_seen_at :: i64
  ag_last_seen_at :: i64
  ag_count :: nat

record gate_record =
  gr_session_digest :: string
  gr_action_digest :: string
  gr_locator_digest :: "string option"
  gr_state :: GateState
  gr_decision :: GateDecision
  gr_attempts :: u8
  gr_probe_steps :: u8
  gr_clearance_consumed :: bool
  gr_probe_digests :: "string list"
  gr_native_identity_digests :: "string list"
  gr_controller_notified :: bool
  gr_obligation_ids :: "string list"
  gr_opened_at :: i64
  gr_updated_at :: i64

record artifact_store =
  st_records :: "artifact_record list"
  st_adapter_gaps :: "adapter_gap list"
  st_gates :: "gate_record list"

definition store_default :: artifact_store where
  "store_default = \<lparr>st_records = [], st_adapter_gaps = [], st_gates = []\<rparr>"

record target_snapshot =
  ts_locator_digest :: string
  ts_version_hash :: "string option"
  ts_coverage :: CoverageStatus

datatype ControllerProbeOutcome = ProbePresent | ProbeAbsent | ProbeUnavailable

datatype TypedReceipt = Admitted | Rejected string

section \<open>The file of a store\<close>

text \<open>
  A store file holds a schema number, a checksum and the payload. \<open>decode\<close> refuses a file that is
  not such an envelope; \<open>load\<close> falls back to the backup and then to the empty store. The printer and
  parser of JSON and the (de)serialisation of stores are parameters.
\<close>

definition STORE_SCHEMA :: u64 where "STORE_SCHEMA = 1"

record store_codec =
  sc_parse :: "string \<Rightarrow> json option"
  sc_print :: "json \<Rightarrow> string"
  sc_to_value :: "artifact_store \<Rightarrow> json"
  sc_from_value :: "json \<Rightarrow> artifact_store option"
  sc_checksum :: "json \<Rightarrow> string"

record store_files =
  sf_main :: "string option"
  sf_backup :: "string option"

definition decode_store :: "store_codec \<Rightarrow> string option \<Rightarrow> artifact_store option" where
  "decode_store c file =
     Option.bind (Option.bind file (sc_parse c)) (\<lambda>envelope.
       if Option.bind (jget envelope ''schema'') as_u64 \<noteq> Some STORE_SCHEMA then None
       else Option.bind (jget envelope ''payload'') (\<lambda>payload.
         if get_str envelope ''checksum'' \<noteq> Some (sc_checksum c payload) then None
         else sc_from_value c payload))"

definition load_store :: "store_codec \<Rightarrow> store_files \<Rightarrow> artifact_store" where
  "load_store c f =
     unwrap_or store_default (or_else (decode_store c (sf_main f)) (decode_store c (sf_backup f)))"

definition envelope :: "store_codec \<Rightarrow> artifact_store \<Rightarrow> json" where
  "envelope c s =
     (let payload = sc_to_value c s
      in JObject [(''checksum'', JString (sc_checksum c payload)), (''payload'', payload),
                  (''schema'', JNumber (PosInt STORE_SCHEMA))])"

definition encode_store :: "store_codec \<Rightarrow> artifact_store \<Rightarrow> string" where
  "encode_store c s = sc_print c (envelope c s)"

text \<open>The two writes of \<open>save\<close>: the backup first, then the store itself.\<close>

definition save_backup :: "store_codec \<Rightarrow> artifact_store \<Rightarrow> store_files \<Rightarrow> store_files" where
  "save_backup c s f =
     f\<lparr>sf_backup := Some (if decode_store c (sf_main f) \<noteq> None
                         then unwrap_or (encode_store c s) (sf_main f) else encode_store c s)\<rparr>"

definition save_store :: "store_codec \<Rightarrow> artifact_store \<Rightarrow> store_files \<Rightarrow> store_files" where
  "save_store c s f = (save_backup c s f)\<lparr>sf_main := Some (encode_store c s)\<rparr>"

section \<open>Paths\<close>

text \<open>
  A path is whether it is absolute and its components. The relative path without components is the
  current directory.
\<close>

type_synonym path = "bool \<times> string list"

definition path_of :: "string \<Rightarrow> path" where
  "path_of s = (is_absolute s, path_parts s)"

definition join_path :: "path \<Rightarrow> path \<Rightarrow> path" where
  "join_path base p = (if fst p then p else (fst base, snd base @ snd p))"

record fs =
  fs_exists :: "path \<Rightarrow> bool"
  fs_is_file :: "path \<Rightarrow> bool"
  fs_is_dir :: "path \<Rightarrow> bool"
  fs_canonicalize :: "path \<Rightarrow> path option"
  fs_content_hash :: "path \<Rightarrow> string option"
  fs_names :: "path \<Rightarrow> string list option"
  fs_hash :: "string \<Rightarrow> string"

text \<open>The directory itself or the closest one above it that holds \<open>.git\<close>; \<open>n\<close> components remain.\<close>

fun repo_above :: "fs \<Rightarrow> path \<Rightarrow> nat \<Rightarrow> path option" where
  "repo_above fs p n =
     (let q = (fst p, take n (snd p))
      in if fs_exists fs (join_path q (False, [''.git''])) then Some q
         else (case n of 0 \<Rightarrow> None | Suc m \<Rightarrow> repo_above fs p m))"

declare repo_above.simps [simp del]

definition canonical_repo :: "fs \<Rightarrow> string \<Rightarrow> path option" where
  "canonical_repo fs cwd =
     map_option (\<lambda>c. unwrap_or c (repo_above fs c (length (snd c)))) (fs_canonicalize fs (path_of cwd))"

text \<open>How many components of a path make up its closest ancestor that exists.\<close>

fun existing_prefix :: "fs \<Rightarrow> path \<Rightarrow> nat \<Rightarrow> nat option" where
  "existing_prefix fs p n =
     (if fs_exists fs (fst p, take n (snd p)) then Some n
      else (case n of 0 \<Rightarrow> None | Suc m \<Rightarrow> existing_prefix fs p m))"

declare existing_prefix.simps [simp del]

definition join_parts :: "string list \<Rightarrow> string" where
  "join_parts = join ''/''"

definition normalize_relative :: "fs \<Rightarrow> path \<Rightarrow> string \<Rightarrow> string \<Rightarrow> (path \<times> string) option" where
  "normalize_relative fs repo cwd target =
     (if trim target = [] \<or> CHR 0x0A \<in> set target \<or> CHR 0x00 \<in> set target then None
      else let joined = join_path (path_of cwd) (path_of (trim target))
           in Option.bind (existing_prefix fs joined (length (snd joined))) (\<lambda>n.
                Option.bind (fs_canonicalize fs (fst joined, take n (snd joined))) (\<lambda>base.
                  let suffix = drop n (snd joined);
                      clean = (fst base, snd base @ suffix)
                  in if ''..'' \<in> set suffix then None
                     else if \<not> (fst clean = fst repo \<and> take (length (snd repo)) (snd clean) = snd repo) \<or>
                        ''..'' \<in> set (snd clean) then None
                     else Some (clean, join_parts (drop (length (snd repo)) (snd clean))))))"

definition directory_hash :: "fs \<Rightarrow> path \<Rightarrow> string option" where
  "directory_hash fs p = map_option (\<lambda>ns. fs_hash fs (join [CHR 0x00] (sort ns))) (fs_names fs p)"

definition absence_root_hash :: "fs \<Rightarrow> path \<Rightarrow> string option" where
  "absence_root_hash fs p =
     (if snd p = [] then None
      else Option.bind (existing_prefix fs (fst p, butlast (snd p)) (length (snd p) - 1)) (\<lambda>n.
        let ns = (fst p, take n (snd p)) in if fs_is_dir fs ns then directory_hash fs ns else None))"

section \<open>Artifacts\<close>

type_synonym stores = "(string \<times> artifact_store) list"
type_synonym digest = "string \<Rightarrow> string \<Rightarrow> string"

definition ADAPTER_VERSION :: string where "ADAPTER_VERSION = ''artifact-fs-v1''"

definition path_text :: "path \<Rightarrow> string" where
  "path_text p = (if fst p then ''/'' else []) @ join_parts (snd p)"

definition repo_digest :: "digest \<Rightarrow> path \<Rightarrow> string" where
  "repo_digest dg repo = dg ''repo-v1'' (path_text repo)"

definition get_store :: "string \<Rightarrow> stores \<Rightarrow> artifact_store" where
  "get_store d st = unwrap_or store_default (map_of st d)"

definition put_store :: "string \<Rightarrow> artifact_store \<Rightarrow> stores \<Rightarrow> stores" where
  "put_store = bt_put"

text \<open>The last element that passes a test, and the changes of the first and of the last one.\<close>

definition find_last :: "('a \<Rightarrow> bool) \<Rightarrow> 'a list \<Rightarrow> 'a option" where
  "find_last P xs = find P (rev xs)"

fun update_first :: "('a \<Rightarrow> bool) \<Rightarrow> ('a \<Rightarrow> 'a) \<Rightarrow> 'a list \<Rightarrow> 'a list" where
  "update_first P f [] = []"
| "update_first P f (x # xs) = (if P x then f x # xs else x # update_first P f xs)"

definition update_last :: "('a \<Rightarrow> bool) \<Rightarrow> ('a \<Rightarrow> 'a) \<Rightarrow> 'a list \<Rightarrow> 'a list" where
  "update_last P f xs = rev (update_first P f (rev xs))"

definition new_artifact ::
  "string \<Rightarrow> string \<Rightarrow> string option \<Rightarrow> string option \<Rightarrow> ExistenceState \<Rightarrow> string \<Rightarrow> i64 \<Rightarrow> string \<Rightarrow>
   artifact_record" where
  "new_artifact locator kind content root existence version now evidence =
     \<lparr>ar_locator_digest = locator, ar_locator_kind = kind, ar_content_hash = content,
      ar_coverage_root_hash = root,
      ar_state = \<lparr>as_existence = existence, as_population = PopUnknown, as_wiring = WireUnknown,
                  as_behavior = BehUnknown, as_version_hash = Some version\<rparr>,
      ar_versions = \<lparr>dv_existence = Some version, dv_population = None, dv_wiring = None,
                     dv_behavior = None\<rparr>,
      ar_adapter_version = ADAPTER_VERSION, ar_observed_at = now, ar_evidence_ref = evidence\<rparr>"

definition replace_artifact :: "artifact_record \<Rightarrow> artifact_store \<Rightarrow> artifact_store" where
  "replace_artifact r s =
     s\<lparr>st_records := filter (\<lambda>x. ar_locator_digest x \<noteq> ar_locator_digest r) (st_records s) @ [r]\<rparr>"

text \<open>
  The outer option is an error (the directory cannot be resolved, the file not be read), the inner
  one a target outside the repository.
\<close>

definition snapshot ::
  "fs \<Rightarrow> digest \<Rightarrow> i64 \<Rightarrow> string \<Rightarrow> string \<Rightarrow> stores \<Rightarrow> target_snapshot option option \<times> stores" where
  "snapshot fs dg now cwd target st =
     (case canonical_repo fs cwd of
        None \<Rightarrow> (None, st)
      | Some repo \<Rightarrow>
          (case normalize_relative fs repo cwd target of
             None \<Rightarrow> (Some None, st)
           | Some (path, relative) \<Rightarrow>
               (let rd = repo_digest dg repo;
                    locator = dg ''locator-v1'' relative;
                    s = get_store rd st;
                    existing = find_last (\<lambda>r. ar_locator_digest r = locator) (st_records s)
                in if fs_is_file fs path \<or> fs_is_dir fs path
                   then (case (if fs_is_file fs path then fs_content_hash fs path
                               else directory_hash fs path) of
                           None \<Rightarrow> (None, st)
                         | Some hash \<Rightarrow>
                             (let is_file = fs_is_file fs path;
                                  evidence = dg ''artifact-evidence-v1''
                                    (rd @ CHR 0x00 # locator @ CHR 0x00 # hash);
                                  known = (\<exists>r \<in> set_option existing.
                                    as_version_hash (ar_state r) = Some hash \<and>
                                    as_existence (ar_state r) = ExPresent);
                                  st' = (if known then st
                                         else put_store rd
                                           (replace_artifact
                                              (new_artifact locator (if is_file then ''file'' else ''directory'')
                                                 (if is_file then Some hash else None)
                                                 (if is_file then None else Some hash)
                                                 ExPresent hash now evidence) s) st)
                              in (Some (Some \<lparr>ts_locator_digest = locator, ts_version_hash = Some hash,
                                              ts_coverage = PresentFresh\<rparr>), st')))
                   else (let root = absence_root_hash fs path;
                             coverage = (case existing of
                                Some r \<Rightarrow>
                                  if as_existence (ar_state r) = ExAbsent \<and> ar_coverage_root_hash r = root
                                  then AbsentFresh else StaleCoverage
                              | None \<Rightarrow> Missing)
                         in (Some (Some \<lparr>ts_locator_digest = locator, ts_version_hash = root,
                                         ts_coverage = coverage\<rparr>), st)))))"

definition record_absence ::
  "fs \<Rightarrow> digest \<Rightarrow> i64 \<Rightarrow> string \<Rightarrow> string \<Rightarrow> string \<Rightarrow> stores \<Rightarrow> bool option \<times> stores" where
  "record_absence fs dg now cwd target evidence_ref st =
     (case canonical_repo fs cwd of
        None \<Rightarrow> (None, st)
      | Some repo \<Rightarrow>
          (case normalize_relative fs repo cwd target of
             None \<Rightarrow> (Some False, st)
           | Some (path, relative) \<Rightarrow>
               if fs_exists fs path then (Some False, st)
               else (case absence_root_hash fs path of
                       None \<Rightarrow> (Some False, st)
                     | Some root \<Rightarrow>
                         (let rd = repo_digest dg repo;
                              r = new_artifact (dg ''locator-v1'' relative) ''file'' None (Some root)
                                    ExAbsent root now (dg ''receipt-ref-v1'' evidence_ref)
                          in (Some True, put_store rd (replace_artifact r (get_store rd st)) st)))))"

definition controller_probe_exact ::
  "fs \<Rightarrow> digest \<Rightarrow> i64 \<Rightarrow> string \<Rightarrow> string \<Rightarrow> string \<Rightarrow> stores \<Rightarrow>
   ControllerProbeOutcome option \<times> stores" where
  "controller_probe_exact fs dg now cwd target evidence_ref st =
     (case snapshot fs dg now cwd target st of
        (None, st1) \<Rightarrow> (None, st1)
      | (Some None, st1) \<Rightarrow> (Some ProbeUnavailable, st1)
      | (Some (Some snap), st1) \<Rightarrow>
          if ts_coverage snap = PresentFresh then (Some ProbePresent, st1)
          else (case record_absence fs dg now cwd target evidence_ref st1 of
                  (None, st2) \<Rightarrow> (None, st2)
                | (Some True, st2) \<Rightarrow> (Some ProbeAbsent, st2)
                | (Some False, st2) \<Rightarrow> (Some ProbeUnavailable, st2)))"

subsection \<open>Typed receipts\<close>

definition receipt_population :: "json \<Rightarrow> PopulationState option" where
  "receipt_population r =
     (case get_str r ''population'' of
        Some v \<Rightarrow>
          if v = ''non_empty'' then Some NonEmpty else if v = ''empty'' then Some EmptyPopulation
          else None
      | None \<Rightarrow>
          map_option (\<lambda>n. if n = 0 then EmptyPopulation else NonEmpty)
            (Option.bind (jget r ''count'') as_u64))"

definition receipt_wiring :: "json \<Rightarrow> WiringState option" where
  "receipt_wiring r =
     (case get_str r ''wiring'' of
        Some v \<Rightarrow>
          if v = ''connected'' then Some Connected
          else if v = ''disconnected'' then Some Disconnected
          else if v = ''partial'' then Some WirePartial else None
      | None \<Rightarrow>
          map_option (\<lambda>n. if n = 0 then Disconnected else Connected)
            (Option.bind (jget r ''reference_count'') as_u64))"

definition receipt_behavior :: "json \<Rightarrow> BehaviorState option" where
  "receipt_behavior r =
     (case get_str r ''behavior'' of
        Some v \<Rightarrow>
          if v = ''working'' then Some BehWorking else if v = ''broken'' then Some Broken
          else if v = ''partial'' then Some BehPartial else None
      | None \<Rightarrow>
          map_option (\<lambda>ok. if ok then BehWorking else Broken)
            (Option.bind (or_else (jget r ''test_passed'') (jget r ''live_passed'')) as_bool))"

text \<open>The dimensions a receipt admits into a record.\<close>

definition admit_dimensions :: "json \<Rightarrow> string \<Rightarrow> artifact_record \<Rightarrow> artifact_record" where
  "admit_dimensions receipt version a =
     (let a1 = (case receipt_population receipt of
                  Some p \<Rightarrow> a\<lparr>ar_state := (ar_state a)\<lparr>as_population := p\<rparr>,
                             ar_versions := (ar_versions a)\<lparr>dv_population := Some version\<rparr>\<rparr>
                | None \<Rightarrow> a);
          a2 = (case receipt_wiring receipt of
                  Some w \<Rightarrow> a1\<lparr>ar_state := (ar_state a1)\<lparr>as_wiring := w\<rparr>,
                              ar_versions := (ar_versions a1)\<lparr>dv_wiring := Some version\<rparr>\<rparr>
                | None \<Rightarrow> a1)
      in case receipt_behavior receipt of
           Some b \<Rightarrow> a2\<lparr>ar_state := (ar_state a2)\<lparr>as_behavior := b\<rparr>,
                       ar_versions := (ar_versions a2)\<lparr>dv_behavior := Some version\<rparr>\<rparr>
         | None \<Rightarrow> a2)"

definition receipt_verdict :: "json \<Rightarrow> TypedReceipt" where
  "receipt_verdict receipt =
     (if has_key receipt ''population'' \<and> receipt_population receipt = None
      then Rejected ''population field is not a known state''
      else if has_key receipt ''wiring'' \<and> receipt_wiring receipt = None
      then Rejected ''wiring field is not a known state''
      else if has_key receipt ''behavior'' \<and> receipt_behavior receipt = None
      then Rejected ''behavior field is not a known state''
      else if receipt_population receipt = None \<and> receipt_wiring receipt = None \<and>
        receipt_behavior receipt = None
      then Rejected ''receipt named no dimension to admit''
      else Admitted)"

definition record_typed_receipt ::
  "fs \<Rightarrow> digest \<Rightarrow> i64 \<Rightarrow> string \<Rightarrow> string \<Rightarrow> json \<Rightarrow> string \<Rightarrow> stores \<Rightarrow> TypedReceipt option \<times> stores" where
  "record_typed_receipt fs dg now cwd target receipt evidence_ref st =
     (if get_str receipt ''schema'' \<noteq> Some ''artifact-state-v1''
      then (Some (Rejected ''not an artifact-state-v1 receipt''), st)
      else if get_str receipt ''target'' \<noteq> Some target
      then (Some (Rejected ''receipt names a different target''), st)
      else case get_str receipt ''version_hash'' of
        None \<Rightarrow> (Some (Rejected ''receipt carries no version_hash''), st)
      | Some version \<Rightarrow>
          (case canonical_repo fs cwd of
             None \<Rightarrow> (None, st)
           | Some repo \<Rightarrow>
               (case normalize_relative fs repo cwd target of
                  None \<Rightarrow> (Some (Rejected ''target is outside the admitted repo''), st)
                | Some (_, relative) \<Rightarrow>
                    (case snapshot fs dg now cwd target st of
                       (None, st1) \<Rightarrow> (None, st1)
                     | (Some None, st1) \<Rightarrow> (Some (Rejected ''target could not be snapshotted''), st1)
                     | (Some (Some snap), st1) \<Rightarrow>
                         if ts_version_hash snap \<noteq> Some version
                         then (Some (Rejected ''receipt version is stale for this file''), st1)
                         else (let rd = repo_digest dg repo; s = get_store rd st1;
                                   here = (\<lambda>r. ar_locator_digest r = dg ''locator-v1'' relative)
                               in if find_last here (st_records s) = None
                                  then (Some (Rejected ''no gate record for this locator''), st1)
                                  else case receipt_verdict receipt of
                                         Rejected why \<Rightarrow> (Some (Rejected why), st1)
                                       | Admitted \<Rightarrow>
                                           (Some Admitted,
                                            put_store rd
                                              (s\<lparr>st_records := update_last here
                                                   (\<lambda>a. (admit_dimensions receipt version a)
                                                      \<lparr>ar_observed_at := now,
                                                       ar_evidence_ref := dg ''receipt-ref-v1'' evidence_ref\<rparr>)
                                                   (st_records s)\<rparr>) st1))))))"

subsection \<open>Unknown shapes\<close>

text \<open>The keys of a payload without its values.\<close>

fun shape :: "json \<Rightarrow> string" where
  "shape JNull = ''null''"
| "shape (JBool _) = ''bool''"
| "shape (JNumber _) = ''number''"
| "shape (JString _) = ''string''"
| "shape (JArray []) = ''[]''"
| "shape (JArray (v # vs)) = ''['' @ shape v @ '']''"
| "shape (JObject m) =
     ''{'' @ concat (map (\<lambda>(k, t). k @ '':'' @ t @ '';'')
               (sort_key fst (map (\<lambda>(k, v). (k, shape v)) m))) @ ''}''"

definition record_unknown_shape ::
  "fs \<Rightarrow> digest \<Rightarrow> i64 \<Rightarrow> string \<Rightarrow> json \<Rightarrow> stores \<Rightarrow> string option \<times> stores" where
  "record_unknown_shape fs dg now cwd input st =
     (case canonical_repo fs cwd of
        None \<Rightarrow> (None, st)
      | Some repo \<Rightarrow>
          (let rd = repo_digest dg repo; s = get_store rd st;
               d = dg ''payload-shape-v1'' (shape input);
               here = (\<lambda>g. ag_shape_digest g = d);
               gaps = (if list_ex here (st_adapter_gaps s)
                       then update_first here
                              (\<lambda>g. g\<lparr>ag_last_seen_at := now, ag_count := min (2 ^ 32 - 1) (ag_count g + 1)\<rparr>)
                              (st_adapter_gaps s)
                       else st_adapter_gaps s @
                              [\<lparr>ag_shape_digest = d, ag_first_seen_at = now, ag_last_seen_at = now,
                                ag_count = 1\<rparr>])
           in (Some d, put_store rd (s\<lparr>st_adapter_gaps := gaps\<rparr>) st)))"

section \<open>Gates\<close>

definition waiting :: "GateState \<Rightarrow> bool" where
  "waiting s = (case s of AwaitingProof \<Rightarrow> True | TargetProbe \<Rightarrow> True | ControllerProbe \<Rightarrow> True | _ \<Rightarrow> False)"

definition sat_succ_u8 :: "u8 \<Rightarrow> u8" where
  "sat_succ_u8 n = (if n = 255 then 255 else n + 1)"

definition GATE_TTL_SECS :: i64 where "GATE_TTL_SECS = 30 * 60"

definition is_gate :: "string \<Rightarrow> string \<Rightarrow> gate_record \<Rightarrow> bool" where
  "is_gate session action g \<longleftrightarrow> gr_session_digest g = session \<and> gr_action_digest g = action"

definition retried_gate ::
  "i64 \<Rightarrow> string \<Rightarrow> GateState \<Rightarrow> GateDecision \<Rightarrow> string list \<Rightarrow> gate_record \<Rightarrow> gate_record" where
  "retried_gate now native state decision obligations g =
     (let g1 = g\<lparr>gr_state := state, gr_decision := decision,
                gr_clearance_consumed := (state = ClearedAbsent \<or> gr_clearance_consumed g),
                gr_updated_at := now, gr_obligation_ids := obligations\<rparr>
      in if native \<in> set (gr_native_identity_digests g) then g1
         else g1\<lparr>gr_attempts := sat_succ_u8 (gr_attempts g),
                 gr_native_identity_digests := gr_native_identity_digests g @ [native]\<rparr>)"

definition opened_gate ::
  "i64 \<Rightarrow> string \<Rightarrow> string \<Rightarrow> string option \<Rightarrow> string \<Rightarrow> GateState \<Rightarrow> GateDecision \<Rightarrow> string list \<Rightarrow>
   gate_record" where
  "opened_gate now session action locator native state decision obligations =
     \<lparr>gr_session_digest = session, gr_action_digest = action, gr_locator_digest = locator,
      gr_state = state, gr_decision = decision, gr_attempts = 1, gr_probe_steps = 0,
      gr_clearance_consumed = (state = ClearedAbsent), gr_probe_digests = [],
      gr_native_identity_digests = [native], gr_controller_notified = False,
      gr_obligation_ids = obligations, gr_opened_at = now, gr_updated_at = now\<rparr>"

definition expire_stale_gates :: "i64 \<Rightarrow> gate_record list \<Rightarrow> gate_record list" where
  "expire_stale_gates now gates =
     map (\<lambda>g. if \<not> waiting (gr_state g) \<or> now - gr_updated_at g < GATE_TTL_SECS then g
              else g\<lparr>gr_state := StaleGate, gr_updated_at := now\<rparr>) gates"

definition last_128 :: "'a list \<Rightarrow> 'a list" where
  "last_128 xs = drop (length xs - 128) xs"

definition record_gate ::
  "fs \<Rightarrow> digest \<Rightarrow> i64 \<Rightarrow> string \<Rightarrow> string \<Rightarrow> string \<Rightarrow> string \<Rightarrow> string option \<Rightarrow> GateState \<Rightarrow>
   GateDecision \<Rightarrow> string list \<Rightarrow> stores \<Rightarrow> gate_record option \<times> stores" where
  "record_gate fs dg now cwd session_id material native locator state decision obligations st =
     (case canonical_repo fs cwd of
        None \<Rightarrow> (None, st)
      | Some repo \<Rightarrow>
          (let rd = repo_digest dg repo; s = get_store rd st;
               session = dg ''session-v1'' session_id; action = dg ''action-v1'' material;
               nat_id = dg ''native-hook-v1'' native;
               (r, gates) =
                 (case find (is_gate session action) (st_gates s) of
                    Some g \<Rightarrow>
                      (retried_gate now nat_id state decision obligations g,
                       update_first (is_gate session action)
                         (retried_gate now nat_id state decision obligations) (st_gates s))
                  | None \<Rightarrow>
                      (let g = opened_gate now session action locator nat_id state decision obligations
                       in (g, st_gates s @ [g])))
           in (Some r, put_store rd (s\<lparr>st_gates := expire_stale_gates now (last_128 gates)\<rparr>) st)))"

text \<open>A read-only result is a new proof step; a mutation of the gate's own target ends the gate.\<close>

definition probe_gate :: "string \<Rightarrow> GateState \<Rightarrow> gate_record \<Rightarrow> gate_record" where
  "probe_gate signature state g =
     (if signature \<in> set (gr_probe_digests g) then g
      else g\<lparr>gr_probe_digests := gr_probe_digests g @ [signature],
             gr_probe_steps := min 3 (sat_succ_u8 (gr_probe_steps g)),
             gr_state := state, gr_controller_notified := False\<rparr>)"

definition post_gate ::
  "digest \<Rightarrow> i64 \<Rightarrow> ToolEffect \<Rightarrow> string \<Rightarrow> string option \<Rightarrow> gate_record \<Rightarrow> gate_record" where
  "post_gate dg now effect material locator g =
     (case effect of
        ReadOnly \<Rightarrow> probe_gate (dg ''probe-v1'' material) TargetProbe g
      | Mutation _ \<Rightarrow>
          if gr_locator_digest g = locator
          then g\<lparr>gr_state := StaleGate, gr_controller_notified := False\<rparr> else g
      | _ \<Rightarrow> g)\<lparr>gr_updated_at := now\<rparr>"

definition note_post_tool ::
  "fs \<Rightarrow> digest \<Rightarrow> i64 \<Rightarrow> string \<Rightarrow> string \<Rightarrow> ToolEffect \<Rightarrow> string \<Rightarrow> string option \<Rightarrow> stores \<Rightarrow>
   unit option \<times> stores" where
  "note_post_tool fs dg now cwd session_id effect material target st =
     (case canonical_repo fs cwd of
        None \<Rightarrow> (None, st)
      | Some repo \<Rightarrow>
          (let rd = repo_digest dg repo; s = get_store rd st;
               session = dg ''session-v1'' session_id;
               locator = Option.bind target (\<lambda>t.
                 map_option (\<lambda>(_, relative). dg ''locator-v1'' relative)
                   (normalize_relative fs repo cwd t));
               here = (\<lambda>g. gr_session_digest g = session \<and> waiting (gr_state g))
           in (Some (),
               if list_ex here (st_gates s)
               then put_store rd (s\<lparr>st_gates := update_last here
                      (post_gate dg now effect material locator) (st_gates s)\<rparr>) st
               else st)))"

definition controller_probed :: "i64 \<Rightarrow> string \<Rightarrow> gate_record \<Rightarrow> gate_record" where
  "controller_probed now signature g =
     (let g1 = (if signature \<in> set (gr_probe_digests g) then g
                else g\<lparr>gr_probe_digests := gr_probe_digests g @ [signature],
                       gr_probe_steps := min 3 (sat_succ_u8 (gr_probe_steps g))\<rparr>)
      in g1\<lparr>gr_state := ControllerProbe, gr_controller_notified := False, gr_updated_at := now\<rparr>)"

text \<open>The update of the gate of one action.\<close>

definition edit_gate ::
  "fs \<Rightarrow> digest \<Rightarrow> string \<Rightarrow> string \<Rightarrow> string \<Rightarrow> (gate_record \<Rightarrow> gate_record) \<Rightarrow> stores \<Rightarrow>
   unit option \<times> stores" where
  "edit_gate fs dg cwd session_id material f st =
     (case canonical_repo fs cwd of
        None \<Rightarrow> (None, st)
      | Some repo \<Rightarrow>
          (let rd = repo_digest dg repo; s = get_store rd st;
               here = is_gate (dg ''session-v1'' session_id) (dg ''action-v1'' material)
           in (Some (),
               if list_ex here (st_gates s)
               then put_store rd (s\<lparr>st_gates := update_first here f (st_gates s)\<rparr>) st else st)))"

definition note_controller_probe ::
  "fs \<Rightarrow> digest \<Rightarrow> i64 \<Rightarrow> string \<Rightarrow> string \<Rightarrow> string \<Rightarrow> string \<Rightarrow> stores \<Rightarrow> unit option \<times> stores" where
  "note_controller_probe fs dg now cwd session_id material signature =
     edit_gate fs dg cwd session_id material (controller_probed now (dg ''probe-v1'' signature))"

definition resolved_gate :: "i64 \<Rightarrow> GateState \<Rightarrow> GateDecision \<Rightarrow> gate_record \<Rightarrow> gate_record" where
  "resolved_gate now state decision g =
     g\<lparr>gr_state := state, gr_decision := decision, gr_updated_at := now,
       gr_controller_notified :=
         (if gr_state g \<noteq> state \<or> gr_decision g \<noteq> decision then False
          else gr_controller_notified g)\<rparr>"

definition set_gate_resolution ::
  "fs \<Rightarrow> digest \<Rightarrow> i64 \<Rightarrow> string \<Rightarrow> string \<Rightarrow> string \<Rightarrow> GateState \<Rightarrow> GateDecision \<Rightarrow> stores \<Rightarrow>
   unit option \<times> stores" where
  "set_gate_resolution fs dg now cwd session_id material state decision =
     edit_gate fs dg cwd session_id material (resolved_gate now state decision)"

definition absence_admitted :: "i64 \<Rightarrow> gate_record \<Rightarrow> gate_record" where
  "absence_admitted now g =
     g\<lparr>gr_state := ClearedAbsent, gr_decision := DeferToBase, gr_clearance_consumed := False,
       gr_controller_notified := False, gr_updated_at := now\<rparr>"

definition admit_absence_to_gate ::
  "fs \<Rightarrow> digest \<Rightarrow> i64 \<Rightarrow> string \<Rightarrow> string \<Rightarrow> string \<Rightarrow> stores \<Rightarrow> unit option \<times> stores" where
  "admit_absence_to_gate fs dg now cwd session_id material =
     edit_gate fs dg cwd session_id material (absence_admitted now)"

definition admit_absence_to_latest_gate ::
  "fs \<Rightarrow> digest \<Rightarrow> i64 \<Rightarrow> string \<Rightarrow> string \<Rightarrow> stores \<Rightarrow> unit option \<times> stores" where
  "admit_absence_to_latest_gate fs dg now cwd session_id st =
     (case canonical_repo fs cwd of
        None \<Rightarrow> (None, st)
      | Some repo \<Rightarrow>
          (let rd = repo_digest dg repo; s = get_store rd st;
               here = (\<lambda>g. gr_session_digest g = dg ''session-v1'' session_id \<and> waiting (gr_state g))
           in (Some (),
               if list_ex here (st_gates s)
               then put_store rd (s\<lparr>st_gates := update_last here (absence_admitted now) (st_gates s)\<rparr>) st
               else st)))"

definition gate_for_action ::
  "fs \<Rightarrow> digest \<Rightarrow> string \<Rightarrow> string \<Rightarrow> string \<Rightarrow> stores \<Rightarrow> gate_record option option" where
  "gate_for_action fs dg cwd session_id material st =
     map_option (\<lambda>repo.
       find_last (is_gate (dg ''session-v1'' session_id) (dg ''action-v1'' material))
         (st_gates (get_store (repo_digest dg repo) st))) (canonical_repo fs cwd)"

section \<open>The control of a Robot session\<close>

record gate_directive =
  rc_active :: bool
  rc_terminal :: bool
  rc_directive :: "string option"
  rc_probe_steps :: u8
  rc_state :: "GateState option"

definition exhausted_gate :: "gate_record \<Rightarrow> gate_record" where
  "exhausted_gate g =
     (if waiting (gr_state g) \<and> (3 \<le> gr_probe_steps g \<or> 3 < gr_attempts g)
      then g\<lparr>gr_state := Quarantined, gr_decision := QuarantineBranch, gr_controller_notified := False\<rparr>
      else g)"

definition control_text :: "GateState \<Rightarrow> (bool \<times> string) option" where
  "control_text s =
     (case s of
        Quarantined \<Rightarrow>
          Some (True, ''Terminal SafeBlocked for this Robot lease: stop this turn now, invoke no further tools, do not ask the user, and emit only the deterministic dossier/report.'')
      | RejectedPresent \<Rightarrow>
          Some (False, ''The artifact is structurally present. Replan autonomously to Modify, Wiring, Population, or Behavior; do not retry Create/Replace.'')
      | AwaitingProof \<Rightarrow>
          Some (False, ''Continue the bounded proof ladder autonomously with one new typed read-only probe. Do not repeat a probe signature and do not ask the user.'')
      | TargetProbe \<Rightarrow>
          Some (False, ''Continue the bounded proof ladder autonomously with one new typed read-only probe. Do not repeat a probe signature and do not ask the user.'')
      | ControllerProbe \<Rightarrow>
          Some (False, ''Continue the bounded proof ladder autonomously with one new typed read-only probe. Do not repeat a probe signature and do not ask the user.'')
      | _ \<Rightarrow> None)"

definition gate_control :: "gate_record \<Rightarrow> gate_directive" where
  "gate_control g =
     \<lparr>rc_active = (control_text (gr_state g) \<noteq> None),
      rc_terminal = (case control_text (gr_state g) of Some (t, _) \<Rightarrow> t | None \<Rightarrow> False),
      rc_directive =
        (if gr_controller_notified g then None else map_option snd (control_text (gr_state g))),
      rc_probe_steps = gr_probe_steps g, rc_state = Some (gr_state g)\<rparr>"

definition latest_store :: "string \<Rightarrow> stores \<Rightarrow> (string \<times> artifact_store) option" where
  "latest_store session st =
     find (\<lambda>(_, s). list_ex (\<lambda>g. gr_session_digest g = session) (st_gates s)) (rev st)"

text \<open>The change of state is stored only together with the directive it gives.\<close>

definition robot_gate_control :: "digest \<Rightarrow> i64 \<Rightarrow> string \<Rightarrow> stores \<Rightarrow> gate_directive \<times> stores" where
  "robot_gate_control dg now session_id st =
     (let session = dg ''session-v1'' session_id; here = (\<lambda>g. gr_session_digest g = session)
      in case latest_store session st of
           None \<Rightarrow>
             (\<lparr>rc_active = False, rc_terminal = False, rc_directive = None, rc_probe_steps = 0,
               rc_state = None\<rparr>, st)
         | Some (d, s) \<Rightarrow>
             (case find_last here (st_gates s) of
                None \<Rightarrow> (\<lparr>rc_active = False, rc_terminal = False, rc_directive = None,
                           rc_probe_steps = 0, rc_state = None\<rparr>, st)
              | Some g \<Rightarrow>
                  (let c = gate_control (exhausted_gate g)
                   in (c, if rc_directive c = None then st
                          else put_store d (s\<lparr>st_gates := update_last here
                                 (\<lambda>g. (exhausted_gate g)\<lparr>gr_controller_notified := True,
                                                         gr_updated_at := now\<rparr>) (st_gates s)\<rparr>) st))))"

definition replanned_gate :: "i64 \<Rightarrow> gate_record \<Rightarrow> gate_record" where
  "replanned_gate now g =
     (if gr_state g = RejectedPresent
      then g\<lparr>gr_state := Replanning, gr_decision := AutonomousResolve, gr_updated_at := now\<rparr> else g)"

definition mark_replan_delivered :: "digest \<Rightarrow> i64 \<Rightarrow> string \<Rightarrow> stores \<Rightarrow> stores" where
  "mark_replan_delivered dg now session_id st =
     (let session = dg ''session-v1'' session_id
      in case latest_store session st of
           None \<Rightarrow> st
         | Some (d, s) \<Rightarrow>
             put_store d (s\<lparr>st_gates := update_last (\<lambda>g. gr_session_digest g = session)
               (replanned_gate now) (st_gates s)\<rparr>) st)"

section \<open>The invariant of gates\<close>

definition gate_ok :: "gate_record \<Rightarrow> bool" where
  "gate_ok g \<longleftrightarrow>
     distinct (gr_probe_digests g) \<and> unat (gr_probe_steps g) = min 3 (length (gr_probe_digests g)) \<and>
     distinct (gr_native_identity_digests g) \<and> gr_native_identity_digests g \<noteq> [] \<and>
     unat (gr_attempts g) = min 255 (length (gr_native_identity_digests g))"

definition gate_key :: "gate_record \<Rightarrow> string \<times> string" where
  "gate_key g = (gr_session_digest g, gr_action_digest g)"

definition gates_ok :: "gate_record list \<Rightarrow> bool" where
  "gates_ok gs \<longleftrightarrow> list_all gate_ok gs \<and> distinct (map gate_key gs) \<and> length gs \<le> 128"

text \<open>An update that keeps a gate in order and under its key.\<close>

definition tame :: "(gate_record \<Rightarrow> gate_record) \<Rightarrow> bool" where
  "tame f \<longleftrightarrow> (\<forall>g. gate_ok g \<longrightarrow> gate_ok (f g)) \<and> (\<forall>g. gate_key (f g) = gate_key g)"

lemma unat_sat_succ: "unat (sat_succ_u8 n) = min 255 (unat n + 1)"
proof (cases "n = 255")
  case True
  then show ?thesis by (simp add: sat_succ_u8_def)
next
  case False
  have "unat n < 256" using unsigned_less [of n] by simp
  moreover from False have "unat n \<noteq> 255" by (auto simp: word_unat_eq_iff)
  ultimately have lt: "unat n + 1 < 256" by linarith
  then have "unat (n + 1) = unat n + 1"
    by (simp add: unat_word_ariths)
  with False lt show ?thesis by (simp add: sat_succ_u8_def)
qed

lemma unat_min3: "unat (min 3 (n :: u8)) = min 3 (unat n)"
  by (simp add: min_def word_le_nat_alt)

lemma min_min:
  "min 254 (min 255 n) = min 254 (n :: nat)" "min 2 (min 3 n) = min 2 (n :: nat)"
  by simp_all

lemma tameI:
  "(\<And>g. gate_ok g \<Longrightarrow> gate_ok (f g)) \<Longrightarrow> (\<And>g. gate_key (f g) = gate_key g) \<Longrightarrow> tame f"
  by (simp add: tame_def)

lemma tame_retried: "tame (retried_gate now nat_id state decision obligations)"
  by (rule tameI) (simp_all add: retried_gate_def gate_ok_def gate_key_def Let_def unat_sat_succ min_min)

lemma tame_probed: "tame (probe_gate signature state)"
  by (rule tameI) (simp_all add: probe_gate_def gate_ok_def gate_key_def unat_sat_succ unat_min3 min_min)

lemma tame_updated: "tame f \<Longrightarrow> tame (\<lambda>g. (f g)\<lparr>gr_updated_at := now\<rparr>)"
  by (simp add: tame_def gate_ok_def gate_key_def)

lemma tame_post: "tame (post_gate dg now effect material locator)"
  using tame_probed [of "dg ''probe-v1'' material" TargetProbe]
  by (cases effect) (simp_all add: tame_def post_gate_def gate_ok_def gate_key_def)

lemma tame_controller: "tame (controller_probed now signature)"
  by (rule tameI)
     (simp_all add: controller_probed_def gate_ok_def gate_key_def Let_def unat_sat_succ unat_min3 min_min)

lemma tame_simple:
  "tame (resolved_gate now state decision)" "tame (absence_admitted now)" "tame (replanned_gate now)"
  "tame (\<lambda>g. (exhausted_gate g)\<lparr>gr_controller_notified := n, gr_updated_at := now\<rparr>)"
  by (simp_all add: tame_def resolved_gate_def absence_admitted_def replanned_gate_def
      exhausted_gate_def gate_ok_def gate_key_def)

lemma opened_ok: "gate_ok (opened_gate now se ac lo na state decision obs)"
  by (simp add: opened_gate_def gate_ok_def)

lemma set_update_first: "set (update_first P f xs) \<subseteq> set xs \<union> f ` set xs"
  by (induction xs) auto

lemma map_update_first: "(\<And>x. k (f x) = k x) \<Longrightarrow> map k (update_first P f xs) = map k xs"
  by (induction xs) auto

lemma length_update_first [simp]: "length (update_first P f xs) = length xs"
  by (induction xs) auto

lemma gates_ok_update_first:
  assumes "gates_ok gs" "tame f"
  shows "gates_ok (update_first P f gs)"
proof -
  have "map gate_key (update_first P f gs) = map gate_key gs"
    using assms(2) by (intro map_update_first) (simp add: tame_def)
  then show ?thesis
    using assms set_update_first [of P f gs] by (auto simp: gates_ok_def list_all_iff tame_def)
qed

lemma gates_ok_rev [simp]: "gates_ok (rev gs) \<longleftrightarrow> gates_ok gs"
  by (simp add: gates_ok_def rev_map [symmetric])

lemma gates_ok_update_last: "gates_ok gs \<Longrightarrow> tame f \<Longrightarrow> gates_ok (update_last P f gs)"
  by (simp add: update_last_def gates_ok_update_first)

lemma tame_expired:
  "tame (\<lambda>g. if \<not> waiting (gr_state g) \<or> now - gr_updated_at g < GATE_TTL_SECS then g
              else g\<lparr>gr_state := StaleGate, gr_updated_at := now\<rparr>)"
  by (simp add: tame_def gate_ok_def gate_key_def)

lemma expire_ok:
  assumes "list_all gate_ok gs" "distinct (map gate_key gs)" "length gs \<le> 128"
  shows "gates_ok (expire_stale_gates now gs)"
proof -
  let ?f = "\<lambda>g. if \<not> waiting (gr_state g) \<or> now - gr_updated_at g < GATE_TTL_SECS then g
              else g\<lparr>gr_state := StaleGate, gr_updated_at := now\<rparr>"
  have t: "\<forall>g. gate_ok g \<longrightarrow> gate_ok (?f g)" "\<forall>g. gate_key (?f g) = gate_key g"
    using tame_expired [of now] unfolding tame_def by blast+
  have "map gate_key (map ?f gs) = map gate_key gs" using t(2) by simp
  then have d: "distinct (map gate_key (map ?f gs))" using assms(2) by (simp only:)
  have a: "list_all gate_ok (map ?f gs)" using assms(1) t(1) by (auto simp: list_all_iff)
  show ?thesis
    unfolding gates_ok_def expire_stale_gates_def using a d assms(3) by (simp only: length_map simp_thms)
qed

lemma last_128_ok:
  assumes "list_all gate_ok gs" "distinct (map gate_key gs)"
  shows "list_all gate_ok (last_128 gs) \<and> distinct (map gate_key (last_128 gs)) \<and>
    length (last_128 gs) \<le> 128"
  using assms by (auto simp: last_128_def list_all_iff drop_map [symmetric] dest: in_set_dropD)

section \<open>The invariant of stores\<close>

definition stores_ok :: "stores \<Rightarrow> bool" where
  "stores_ok st \<longleftrightarrow> bt_ok st \<and> (\<forall>d s. map_of st d = Some s \<longrightarrow> gates_ok (st_gates s))"

lemma get_store_ok: "stores_ok st \<Longrightarrow> gates_ok (st_gates (get_store d st))"
  by (cases "map_of st d") (auto simp: stores_ok_def get_store_def store_default_def gates_ok_def)

lemma put_store_ok: "stores_ok st \<Longrightarrow> gates_ok (st_gates s) \<Longrightarrow> stores_ok (put_store d s st)"
  by (auto simp: stores_ok_def put_store_def bt_ok_put map_of_bt_put)

lemma put_gates_ok: "stores_ok st \<Longrightarrow> gates_ok gs \<Longrightarrow> stores_ok (put_store d (s\<lparr>st_gates := gs\<rparr>) st)"
  by (simp add: put_store_ok)

lemma get_put_store [simp]: "get_store d (put_store e s st) = (if d = e then s else get_store d st)"
  by (simp add: get_store_def put_store_def map_of_bt_put)

lemma replace_artifact_gates [simp]: "st_gates (replace_artifact r s) = st_gates s"
  by (simp add: replace_artifact_def)

lemma snapshot_ok: "stores_ok st \<Longrightarrow> stores_ok (snd (snapshot fs dg now cwd target st))"
  by (auto simp: snapshot_def Let_def put_store_ok get_store_ok split: option.split)

lemma record_absence_ok:
  "stores_ok st \<Longrightarrow> stores_ok (snd (record_absence fs dg now cwd target ev st))"
  by (auto simp: record_absence_def Let_def put_store_ok get_store_ok split: option.split)

lemma probe_exact_ok:
  assumes "stores_ok st"
  shows "stores_ok (snd (controller_probe_exact fs dg now cwd target ev st))"
proof -
  have "stores_ok st1" if "snapshot fs dg now cwd target st = (x, st1)" for x st1
    using snapshot_ok [OF assms, of fs dg now cwd target] that by simp
  moreover have "stores_ok st2" if "record_absence fs dg now cwd target ev st1 = (x, st2)" "stores_ok st1"
    for x st1 st2
    using record_absence_ok [OF that(2), of fs dg now cwd target ev] that(1) by simp
  ultimately show ?thesis
    unfolding controller_probe_exact_def by (auto split: option.split prod.split bool.split)
qed

lemma typed_receipt_ok:
  assumes "stores_ok st"
  shows "stores_ok (snd (record_typed_receipt fs dg now cwd target receipt ev st))"
proof -
  have "stores_ok st1" if "snapshot fs dg now cwd target st = (x, st1)" for x st1
    using snapshot_ok [OF assms, of fs dg now cwd target] that by simp
  then show ?thesis
    using assms unfolding record_typed_receipt_def
    by (auto simp: Let_def put_store_ok get_store_ok split: option.split prod.split TypedReceipt.split)
qed

lemma unknown_shape_ok: "stores_ok st \<Longrightarrow> stores_ok (snd (record_unknown_shape fs dg now cwd input st))"
  by (auto simp: record_unknown_shape_def Let_def put_store_ok get_store_ok split: option.split)

lemma record_gate_gates:
  assumes "gates_ok gs"
  shows "gates_ok (expire_stale_gates now (last_128
    (case find (is_gate se ac) gs of
       Some g \<Rightarrow> update_first (is_gate se ac) (retried_gate now na state decision obs) gs
     | None \<Rightarrow> gs @ [opened_gate now se ac lo na state decision obs])))"
proof (cases "find (is_gate se ac) gs")
  case None
  then have "(se, ac) \<notin> set (map gate_key gs)"
    by (auto simp: find_None_iff is_gate_def gate_key_def)
  moreover have "gate_key (opened_gate now se ac lo na state decision obs) = (se, ac)"
    by (simp add: opened_gate_def gate_key_def)
  ultimately have "list_all gate_ok (gs @ [opened_gate now se ac lo na state decision obs])"
    "distinct (map gate_key (gs @ [opened_gate now se ac lo na state decision obs]))"
    using assms opened_ok by (simp_all add: gates_ok_def)
  from last_128_ok [OF this] expire_ok None show ?thesis by simp
next
  case (Some g)
  have "gates_ok (update_first (is_gate se ac) (retried_gate now na state decision obs) gs)"
    by (rule gates_ok_update_first [OF assms tame_retried])
  then show ?thesis
    using Some last_128_ok expire_ok by (auto simp: gates_ok_def)
qed

lemma record_gate_store:
  assumes "canonical_repo fs cwd = Some repo"
  shows "record_gate fs dg now cwd sid mat na lo state decision obs st =
    (let rd = repo_digest dg repo; s = get_store rd st; se = dg ''session-v1'' sid;
         ac = dg ''action-v1'' mat; nd = dg ''native-hook-v1'' na
     in (Some (case find (is_gate se ac) (st_gates s) of
                 Some g \<Rightarrow> retried_gate now nd state decision obs g
               | None \<Rightarrow> opened_gate now se ac lo nd state decision obs),
         put_store rd (s\<lparr>st_gates := expire_stale_gates now (last_128
           (case find (is_gate se ac) (st_gates s) of
              Some g \<Rightarrow> update_first (is_gate se ac) (retried_gate now nd state decision obs) (st_gates s)
            | None \<Rightarrow> st_gates s @ [opened_gate now se ac lo nd state decision obs]))\<rparr>) st))"
  by (simp add: record_gate_def assms Let_def split: option.split)

lemma record_gate_ok:
  assumes "stores_ok st"
  shows "stores_ok (snd (record_gate fs dg now cwd sid mat na lo state decision obs st))"
proof (cases "canonical_repo fs cwd")
  case None
  with assms show ?thesis by (simp add: record_gate_def)
next
  case (Some repo)
  show ?thesis
    unfolding record_gate_store [OF Some] Let_def snd_conv
    by (rule put_store_ok [OF assms]) (simp add: record_gate_gates [OF get_store_ok [OF assms]])
qed

lemma edit_gate_ok:
  "stores_ok st \<Longrightarrow> tame f \<Longrightarrow> stores_ok (snd (edit_gate fs dg cwd sid mat f st))"
  by (auto simp: edit_gate_def Let_def put_store_ok gates_ok_update_first get_store_ok split: option.split)

lemma post_tool_ok:
  "stores_ok st \<Longrightarrow> stores_ok (snd (note_post_tool fs dg now cwd sid effect mat target st))"
  by (auto simp: note_post_tool_def Let_def put_store_ok gates_ok_update_last tame_post get_store_ok
      split: option.split)

lemma admit_latest_ok:
  "stores_ok st \<Longrightarrow> stores_ok (snd (admit_absence_to_latest_gate fs dg now cwd sid st))"
  by (auto simp: admit_absence_to_latest_gate_def Let_def put_store_ok gates_ok_update_last
      tame_simple get_store_ok split: option.split)

lemma latest_store_mem:
  assumes "stores_ok st" "latest_store session st = Some (d, s)"
  shows "gates_ok (st_gates s)"
proof -
  from assms(2) have "(d, s) \<in> set st"
    by (auto simp: latest_store_def find_Some_iff) (metis nth_mem set_rev length_rev)
  then have "map_of st d = Some s"
    using assms(1) by (auto simp: stores_ok_def dest: bt_ok_distinct)
  with assms(1) show ?thesis by (auto simp: stores_ok_def)
qed

lemma control_ok: "stores_ok st \<Longrightarrow> stores_ok (snd (robot_gate_control dg now sid st))"
  by (auto simp: robot_gate_control_def Let_def
      intro!: put_gates_ok gates_ok_update_last tame_simple intro: latest_store_mem
      split: option.split prod.split)

lemma replan_ok: "stores_ok st \<Longrightarrow> stores_ok (mark_replan_delivered dg now sid st)"
  by (auto simp: mark_replan_delivered_def Let_def
      intro!: put_gates_ok gates_ok_update_last tame_simple intro: latest_store_mem
      split: option.split prod.split)

section \<open>Reachable stores\<close>

datatype store_event =
    Snapshot i64 string string
  | Absence i64 string string string
  | Receipt i64 string string json string
  | Shape i64 string json
  | Gate i64 string string string string "string option" GateState GateDecision "string list"
  | PostTool i64 string string ToolEffect string "string option"
  | Probed i64 string string string string
  | Resolved i64 string string string GateState GateDecision
  | AbsentGate i64 string string string
  | AbsentLatest i64 string string
  | Control i64 string
  | Replanned i64 string

definition store_step :: "fs \<Rightarrow> digest \<Rightarrow> store_event \<Rightarrow> stores \<Rightarrow> stores" where
  "store_step fs dg e st =
     (case e of
        Snapshot now cwd t \<Rightarrow> snd (snapshot fs dg now cwd t st)
      | Absence now cwd t ev \<Rightarrow> snd (record_absence fs dg now cwd t ev st)
      | Receipt now cwd t r ev \<Rightarrow> snd (record_typed_receipt fs dg now cwd t r ev st)
      | Shape now cwd input \<Rightarrow> snd (record_unknown_shape fs dg now cwd input st)
      | Gate now cwd sid m nt lo s d obs \<Rightarrow> snd (record_gate fs dg now cwd sid m nt lo s d obs st)
      | PostTool now cwd sid ef m t \<Rightarrow> snd (note_post_tool fs dg now cwd sid ef m t st)
      | Probed now cwd sid m sig \<Rightarrow> snd (note_controller_probe fs dg now cwd sid m sig st)
      | Resolved now cwd sid m s d \<Rightarrow> snd (set_gate_resolution fs dg now cwd sid m s d st)
      | AbsentGate now cwd sid m \<Rightarrow> snd (admit_absence_to_gate fs dg now cwd sid m st)
      | AbsentLatest now cwd sid \<Rightarrow> snd (admit_absence_to_latest_gate fs dg now cwd sid st)
      | Control now sid \<Rightarrow> snd (robot_gate_control dg now sid st)
      | Replanned now sid \<Rightarrow> mark_replan_delivered dg now sid st)"

lemma store_step_ok: "stores_ok st \<Longrightarrow> stores_ok (store_step fs dg e st)"
  by (cases e)
     (simp_all add: store_step_def snapshot_ok record_absence_ok typed_receipt_ok unknown_shape_ok
       record_gate_ok post_tool_ok note_controller_probe_def set_gate_resolution_def
       admit_absence_to_gate_def edit_gate_ok tame_controller tame_simple admit_latest_ok
       control_ok replan_ok)

interpretation stores: invariant_machine "store_step fs dg" stores_ok
  by unfold_locales (rule store_step_ok)

lemma stores_ok_Nil: "stores_ok []"
  by (simp add: stores_ok_def bt_ok_def)

text \<open>Under unique keys, the first and the last gate of an action are the same.\<close>

lemma find_append_list:
  "find P (xs @ ys) = (case find P xs of Some x \<Rightarrow> Some x | None \<Rightarrow> find P ys)"
  by (induction xs) auto

lemma find_someD: "find P xs = Some x \<Longrightarrow> x \<in> set xs \<and> P x"
  by (auto simp: find_Some_iff)

lemma find_rev_unique:
  assumes "distinct (map k xs)" "\<And>x. x \<in> set xs \<Longrightarrow> P x \<longleftrightarrow> k x = key"
  shows "find P (rev xs) = find P xs"
proof (cases "find P xs")
  case None
  then have "find P (rev xs) = None" by (simp add: find_None_iff)
  with None show ?thesis by simp
next
  case (Some x)
  from find_someD [OF this] have x: "x \<in> set xs" "P x" by auto
  then have "find P (rev xs) \<noteq> None" by (auto simp: find_None_iff)
  then obtain y where y: "find P (rev xs) = Some y" by blast
  from find_someD [OF this] have "y \<in> set xs" "P y" by auto
  with x assms have "k x = k y" by simp
  with x(1) \<open>y \<in> set xs\<close> assms(1) have "x = y" by (auto simp: distinct_map inj_on_def)
  with y Some show ?thesis by simp
qed

lemma find_gate_unique: "gates_ok gs \<Longrightarrow> find_last (is_gate se ac) gs = find (is_gate se ac) gs"
  unfolding find_last_def
  by (rule find_rev_unique [where k = gate_key and key = "(se, ac)"])
     (auto simp: gates_ok_def is_gate_def gate_key_def)

lemma find_update_first:
  "(\<And>x. P (f x) = P x) \<Longrightarrow> find P (update_first P f xs) = map_option f (find P xs)"
  by (induction xs) auto

lemma find_rev_update_other:
  assumes "\<And>x. P (f x) = P x" "\<And>x. P x \<Longrightarrow> \<not> Q x"
  shows "find P (rev (update_first Q f xs)) = find P (rev xs)"
proof (induction xs)
  case (Cons a xs)
  have "Q a \<Longrightarrow> \<not> P a" using assms(2) by blast
  then show ?case using Cons assms(1) by (simp add: find_append_list cong: option.case_cong)
qed simp

lemma find_last_gate:
  assumes "gates_ok gs" "r \<in> set gs" "is_gate se ac r"
  shows "find_last (is_gate se ac) gs = Some r"
proof -
  have "find_last (is_gate se ac) gs \<noteq> None"
    using assms(2,3) by (auto simp: find_last_def find_None_iff)
  then obtain x where x: "find_last (is_gate se ac) gs = Some x" by blast
  then have "x \<in> set gs" "is_gate se ac x" using find_someD by (fastforce simp: find_last_def)+
  moreover from this assms(3) have "gate_key x = gate_key r" by (simp add: is_gate_def gate_key_def)
  ultimately have "x = r" using assms by (auto simp: gates_ok_def distinct_map inj_on_def)
  with x show ?thesis by simp
qed

lemma in_last_128: "x \<in> set (last_128 (xs @ [x]))"
  by (simp add: last_128_def)

lemma last_128_short: "length xs \<le> 128 \<Longrightarrow> last_128 xs = xs"
  by (simp add: last_128_def)

lemma update_first_mem: "find P xs = Some g \<Longrightarrow> f g \<in> set (update_first P f xs)"
  by (induction xs) (auto split: if_splits)

lemma expire_mem: "r \<in> set gs \<Longrightarrow> gr_updated_at r = now \<Longrightarrow> r \<in> set (expire_stale_gates now gs)"
  by (force simp: expire_stale_gates_def GATE_TTL_SECS_def)

lemma retried_fields [simp]:
  "gr_updated_at (retried_gate now na state d obs g) = now"
  "gr_state (retried_gate now na state d obs g) = state"
  "gr_decision (retried_gate now na state d obs g) = d"
  "is_gate se ac (retried_gate now na state d obs g) = is_gate se ac g"
  by (simp_all add: retried_gate_def is_gate_def Let_def)

lemma opened_fields [simp]:
  "gr_updated_at (opened_gate now s ac lo na state d obs) = now"
  "gr_state (opened_gate now s ac lo na state d obs) = state"
  "gr_decision (opened_gate now s ac lo na state d obs) = d"
  "is_gate s ac (opened_gate now s ac lo na state d obs)"
  by (simp_all add: opened_gate_def is_gate_def)

lemma record_gate_found:
  assumes "stores_ok st"
    and "record_gate fs dg now cwd sid mat na lo state d obs st = (Some r, st')"
  shows "gate_for_action fs dg cwd sid mat st' = Some (Some r) \<and> gr_state r = state \<and> gr_decision r = d"
proof -
  obtain repo where repo: "canonical_repo fs cwd = Some repo"
    using assms(2) by (cases "canonical_repo fs cwd") (auto simp: record_gate_def)
  let ?P = "is_gate (dg ''session-v1'' sid) (dg ''action-v1'' mat)"
  let ?gs = "st_gates (get_store (repo_digest dg repo) st)"
  let ?ng = "st_gates (get_store (repo_digest dg repo) st')"
  have ok: "gates_ok ?gs" by (rule get_store_ok [OF assms(1)])
  have "stores_ok st'"
    using record_gate_ok [OF assms(1), of fs dg now cwd sid mat na lo state d obs] assms(2) by simp
  then have ok': "gates_ok ?ng" by (rule get_store_ok)
  note eq = assms(2) [unfolded record_gate_store [OF repo] Let_def prod.inject option.inject]
  have "r \<in> set ?ng \<and> ?P r \<and> gr_state r = state \<and> gr_decision r = d"
  proof (cases "find ?P ?gs")
    case None
    then show ?thesis using eq by (auto intro!: expire_mem in_last_128)
  next
    case (Some g)
    have "length ?gs \<le> 128" using ok by (simp add: gates_ok_def)
    then show ?thesis
      using eq Some find_someD [OF Some] update_first_mem [OF Some]
      by (auto simp: last_128_short intro!: expire_mem)
  qed
  then show ?thesis using find_last_gate [OF ok'] by (simp add: gate_for_action_def repo)
qed

lemma tame_key: "tame f \<Longrightarrow> is_gate a b (f x) = is_gate a b x"
  by (auto simp: tame_def is_gate_def gate_key_def)

lemma edit_gate_store:
  assumes "gate_for_action fs dg cwd sid mat st = Some (Some g)"
    "canonical_repo fs cwd = Some repo"
  shows "snd (edit_gate fs dg cwd sid mat f st) =
    put_store (repo_digest dg repo) ((get_store (repo_digest dg repo) st)\<lparr>st_gates :=
      update_first (is_gate (dg ''session-v1'' sid) (dg ''action-v1'' mat)) f
        (st_gates (get_store (repo_digest dg repo) st))\<rparr>) st"
proof -
  have "list_ex (is_gate (dg ''session-v1'' sid) (dg ''action-v1'' mat))
    (st_gates (get_store (repo_digest dg repo) st))"
    using assms find_someD by (fastforce simp: gate_for_action_def find_last_def list_ex_iff)
  with assms(2) show ?thesis by (simp add: edit_gate_def Let_def)
qed

lemma edit_gate_found:
  assumes "stores_ok st" "gate_for_action fs dg cwd sid mat st = Some (Some g)" "tame f"
  shows "gate_for_action fs dg cwd sid mat (snd (edit_gate fs dg cwd sid mat f st)) = Some (Some (f g))"
proof -
  let ?P = "is_gate (dg ''session-v1'' sid) (dg ''action-v1'' mat)"
  obtain repo where repo: "canonical_repo fs cwd = Some repo"
    using assms(2) by (auto simp: gate_for_action_def)
  let ?gs = "st_gates (get_store (repo_digest dg repo) st)"
  have ok: "gates_ok ?gs" by (rule get_store_ok [OF assms(1)])
  have found: "find ?P ?gs = Some g"
    using assms(2) find_gate_unique [OF ok] by (simp add: gate_for_action_def repo)
  show ?thesis
    using find_update_first [of ?P f ?gs, OF tame_key [OF assms(3)]] found
    by (simp add: gate_for_action_def repo edit_gate_store [OF assms(2) repo]
        find_gate_unique [OF gates_ok_update_first [OF ok assms(3)]])
qed

lemma edit_gate_other:
  assumes "gate_for_action fs dg cwd sid mat st = Some (Some g)" "tame f"
    "dg ''action-v1'' mat \<noteq> dg ''action-v1'' mat'"
  shows "gate_for_action fs dg cwd' sid' mat' (snd (edit_gate fs dg cwd sid mat f st)) =
    gate_for_action fs dg cwd' sid' mat' st"
proof -
  obtain repo where repo: "canonical_repo fs cwd = Some repo"
    using assms(1) by (auto simp: gate_for_action_def)
  have "find_last (is_gate (dg ''session-v1'' sid') (dg ''action-v1'' mat'))
          (update_first (is_gate (dg ''session-v1'' sid) (dg ''action-v1'' mat)) f gs) =
        find_last (is_gate (dg ''session-v1'' sid') (dg ''action-v1'' mat')) gs" for gs
    unfolding find_last_def
    using find_rev_update_other [of "is_gate (dg ''session-v1'' sid') (dg ''action-v1'' mat')" f
        "is_gate (dg ''session-v1'' sid) (dg ''action-v1'' mat)", OF tame_key [OF assms(2)]] assms(3)
    by (simp add: is_gate_def)
  then show ?thesis
    by (cases "canonical_repo fs cwd'")
       (simp_all add: gate_for_action_def edit_gate_store [OF assms(1) repo])
qed

section \<open>Properties\<close>

text \<open>
  C28. In every store that is reached, each gate's budget is exact: its proof steps are the number of
  distinct probes (counted up to three) and its attempts the number of distinct tool uses that asked
  (counted up to 255), so repeating a probe or a hook of the same tool use costs and proves nothing;
  no action of a session has two gates; and a repository keeps at most 128 gates.
\<close>

theorem gate_budget_exact:
  "map_of (fold (store_step fs dg) es []) d = Some s \<Longrightarrow>
   length (st_gates s) \<le> 128 \<and> distinct (map gate_key (st_gates s)) \<and>
   list_all (\<lambda>g. distinct (gr_probe_digests g) \<and>
     unat (gr_probe_steps g) = min 3 (length (gr_probe_digests g)) \<and>
     distinct (gr_native_identity_digests g) \<and>
     unat (gr_attempts g) = min 255 (length (gr_native_identity_digests g))) (st_gates s)"
  using stores.run_inv [OF stores_ok_Nil, of fs dg es]
  by (auto simp: stores_ok_def gates_ok_def gate_ok_def list_all_iff)

lemma decode_encode:
  assumes "sc_parse c (sc_print c (envelope c s)) = Some (envelope c s)"
    "sc_from_value c (sc_to_value c s) = Some s"
  shows "decode_store c (Some (encode_store c s)) = Some s"
  using assms by (simp add: decode_store_def encode_store_def envelope_def Let_def json_simps)


definition demo_codec :: store_codec where
  "demo_codec =
     \<lparr>sc_parse = (\<lambda>t. if t = ''x'' then Some (JObject [(''checksum'', JString ''c''),
        (''payload'', JNull), (''schema'', JNumber (PosInt 1))]) else None),
      sc_print = (\<lambda>_. ''x''), sc_to_value = (\<lambda>_. JNull), sc_from_value = (\<lambda>_. Some store_default),
      sc_checksum = (\<lambda>_. ''c'')\<rparr>"


text \<open>
  A gate never names a file outside its repository: a target that is resolved denotes a path
  that is the repository's path followed by components without \<open>..\<close>, which are the relative path
  whose digest identifies it, whatever the working directory and the links resolved on the way.
\<close>

theorem target_stays_in_repo:
  "normalize_relative fs repo cwd target = Some (p, relative) \<Longrightarrow>
   \<exists>parts. p = (fst repo, snd repo @ parts) \<and> relative = join_parts parts \<and> ''..'' \<notin> set parts"
proof -
  assume *: "normalize_relative fs repo cwd target = Some (p, relative)"
  have split: "snd p = take (length (snd repo)) (snd p) @ drop (length (snd repo)) (snd p)" by simp
  from * have "fst p = fst repo" "take (length (snd repo)) (snd p) = snd repo" "''..'' \<notin> set (snd p)"
    "relative = join_parts (drop (length (snd repo)) (snd p))"
    by (auto simp: normalize_relative_def Let_def bind_eq_Some_conv split: if_splits)
  with split show ?thesis
    by (intro exI [of _ "drop (length (snd repo)) (snd p)"])
       (auto simp: prod_eq_iff dest: in_set_dropD)
qed

text \<open>A file system for the witnesses: one repository at the root, nothing in it.\<close>

definition demo_fs :: fs where
  "demo_fs =
     \<lparr>fs_exists = (\<lambda>p. p \<in> {(True, []), (True, [''.git''])}), fs_is_file = (\<lambda>_. False),
      fs_is_dir = (\<lambda>p. p = (True, [])), fs_canonicalize = Some, fs_content_hash = (\<lambda>_. None),
      fs_names = (\<lambda>_. Some [''.git'']), fs_hash = id\<rparr>"

lemma demo_gate:
  "map_of (fold (store_step demo_fs (\<lambda>d v. v))
     [Gate 0 ''/'' ''s'' ''a'' ''n'' None AwaitingProof AskProof []] []) ''/'' =
   Some \<lparr>st_records = [], st_adapter_gaps = [],
     st_gates = [opened_gate 0 ''s'' ''a'' None ''n'' AwaitingProof AskProof []]\<rparr>"
  by code_simp

theorem gate_budget_exact_witness:
  "length [opened_gate 0 ''s'' ''a'' None ''n'' AwaitingProof AskProof []] \<le> 128"
  using gate_budget_exact [OF demo_gate] by simp

text \<open>
  What is resolved is what is found: after a gate's resolution is set, looking the action up
  gives the same gate with that state and decision, and no other action's gate of any repository
  is changed.
\<close>

theorem resolution_is_found:
  assumes "stores_ok st" "gate_for_action fs dg cwd sid mat st = Some (Some g)"
  shows "gate_for_action fs dg cwd sid mat
      (snd (set_gate_resolution fs dg now cwd sid mat state decision st)) =
        Some (Some (resolved_gate now state decision g)) \<and>
    (dg ''action-v1'' mat \<noteq> dg ''action-v1'' mat' \<longrightarrow>
      gate_for_action fs dg cwd' sid' mat'
        (snd (set_gate_resolution fs dg now cwd sid mat state decision st)) =
      gate_for_action fs dg cwd' sid' mat' st)"
  using edit_gate_found [OF assms tame_simple(1)] edit_gate_other [OF assms(2) tame_simple(1)]
  by (simp add: set_gate_resolution_def)

definition demo_stores :: stores where
  "demo_stores = store_step demo_fs (\<lambda>d v. v)
     (Gate 0 ''/'' ''s'' ''a'' ''n'' None AwaitingProof AskProof []) []"

lemma demo_stores_ok: "stores_ok demo_stores"
  unfolding demo_stores_def by (rule store_step_ok [OF stores_ok_Nil])

lemma demo_lookup:
  "gate_for_action demo_fs (\<lambda>d v. v) ''/'' ''s'' ''a'' demo_stores =
   Some (Some (opened_gate 0 ''s'' ''a'' None ''n'' AwaitingProof AskProof []))"
  by code_simp

lemma demo_normalized: "normalize_relative demo_fs (True, []) ''/'' ''x'' = Some ((True, [''x'']), ''x'')"
  by code_simp

theorem target_stays_in_repo_witness:
  "\<exists>parts. (True, [''x'']) = (True, [] @ parts) \<and> ''x'' = join_parts parts \<and> ''..'' \<notin> set parts"
  using target_stays_in_repo [of demo_fs "(True, [])" "''/''" "''x''" "(True, [''x''])" "''x''"]
  by (simp add: demo_normalized)

theorem resolution_is_found_witness:
  "gate_for_action demo_fs (\<lambda>d v. v) ''/'' ''s'' ''a''
     (snd (set_gate_resolution demo_fs (\<lambda>d v. v) 5 ''/'' ''s'' ''a'' Quarantined Deny demo_stores)) =
   Some (Some (resolved_gate 5 Quarantined Deny
     (opened_gate 0 ''s'' ''a'' None ''n'' AwaitingProof AskProof [])))"
  using resolution_is_found [OF demo_stores_ok demo_lookup, where mat' = "''b''"] by simp

end
