(* ===== verification/Gate_Proof.thy ===== *)
theory Gate_Proof
  imports Gate_Store
begin

text \<open>
  What the contract ledger proves before a mutation (\<open>crates/relay-compass/src/ledger.rs\<close>): the
  open obligations that name the target, or to which an artifact edge or a pin ties it. How the
  ledger is built from a transcript is not modelled: the theorems hold for every ledger. The Unicode
  case mapping \<open>lower\<close> is a parameter. Of an obligation the fields are kept that are read here.
\<close>

section \<open>Data\<close>

datatype ProofLayer = UnknownLayer | Inspection | UnitLayer | Integration | Live | Acceptance

fun layer_rank :: "ProofLayer \<Rightarrow> nat" where
  "layer_rank UnknownLayer = 0"
| "layer_rank Inspection = 1"
| "layer_rank UnitLayer = 2"
| "layer_rank Integration = 3"
| "layer_rank Live = 4"
| "layer_rank Acceptance = 5"

definition covers :: "ProofLayer \<Rightarrow> ProofLayer \<Rightarrow> bool" where
  "covers layer required =
     (if layer = UnknownLayer then False
      else layer_rank (if required = UnknownLayer then UnitLayer else required) \<le> layer_rank layer)"

datatype ObligationState = ObOpen | Claimed | ObVerified | Contradicted | Superseded

record obligation =
  ob_id :: string
  ob_state :: ObligationState
  ob_literal_set :: "string list"

record artifact_edge =
  ed_obligation_id :: string
  ed_target :: string
  ed_source_step :: u32

record contract_ledger =
  cl_epoch :: u32
  cl_obligations :: "obligation list"
  cl_artifact_edges :: "artifact_edge list"

record gate_proof =
  gp_obligation_ids :: "string list"
  gp_mutation :: MutationKind
  gp_coverage :: CoverageStatus

lemma covers_trans: "covers a b \<Longrightarrow> covers b c \<Longrightarrow> covers a c"
  by (cases b; cases c) (auto simp: covers_def split: if_splits)

section \<open>Proofs\<close>

definition pending :: "ObligationState \<Rightarrow> bool" where
  "pending s = (case s of ObOpen \<Rightarrow> True | Claimed \<Rightarrow> True | Contradicted \<Rightarrow> True | _ \<Rightarrow> False)"

fun add_edges ::
  "(string \<Rightarrow> string) \<Rightarrow> contract_ledger \<Rightarrow> string \<Rightarrow> artifact_edge list \<Rightarrow> string list \<Rightarrow> string list"
where
  "add_edges lower l target [] ids = ids"
| "add_edges lower l target (e # es) ids =
     add_edges lower l target es
       (if lower (ed_target e) = target \<and>
           list_ex (\<lambda>o'. ob_id o' = ed_obligation_id e \<and> pending (ob_state o')) (cl_obligations l) \<and>
           ed_obligation_id e \<notin> set ids
        then ids @ [ed_obligation_id e] else ids)"

definition prove_pre_mutation ::
  "(string \<Rightarrow> string) \<Rightarrow> contract_ledger \<Rightarrow> string \<Rightarrow> ToolEffect \<Rightarrow> CoverageStatus \<Rightarrow> gate_proof option"
where
  "prove_pre_mutation lower l target effect coverage =
     (case effect of
        Mutation m \<Rightarrow>
          if \<not> is_novelty m \<or> coverage = AbsentFresh then None
          else (let t = lower target;
                    named = map ob_id (filter (\<lambda>o'. pending (ob_state o') \<and>
                      list_ex (\<lambda>w. w \<noteq> [] \<and> contains w t) (ob_literal_set o')) (cl_obligations l));
                    ids = add_edges lower l t (cl_artifact_edges l) named
                in if ids = [] then None
                   else Some \<lparr>gp_obligation_ids = ids, gp_mutation = m, gp_coverage = coverage\<rparr>)
      | _ \<Rightarrow> None)"

definition prove_pre_mutation_pinned ::
  "contract_ledger \<Rightarrow> string \<Rightarrow> string \<Rightarrow> ToolEffect \<Rightarrow> CoverageStatus \<Rightarrow> gate_proof option" where
  "prove_pre_mutation_pinned l i target effect coverage =
     (case effect of
        Mutation m \<Rightarrow>
          if \<not> is_novelty m \<or> coverage = AbsentFresh then None
          else map_option
                 (\<lambda>o'. \<lparr>gp_obligation_ids = [ob_id o'], gp_mutation = m, gp_coverage = coverage\<rparr>)
                 (find (\<lambda>o'. ob_id o' = i \<and> pending (ob_state o') \<and> trim target \<noteq> [])
                    (cl_obligations l))
      | _ \<Rightarrow> None)"

section \<open>What a proof rests on\<close>

definition pending_ids :: "contract_ledger \<Rightarrow> string set" where
  "pending_ids l = ob_id ` {o' \<in> set (cl_obligations l). pending (ob_state o')}"

lemma add_edges_open:
  "set ids \<subseteq> pending_ids l \<Longrightarrow> set (add_edges lower l t es ids) \<subseteq> pending_ids l"
proof (induction es arbitrary: ids)
  case (Cons e es)
  have "list_ex (\<lambda>o'. ob_id o' = ed_obligation_id e \<and> pending (ob_state o')) (cl_obligations l) \<Longrightarrow>
    ed_obligation_id e \<in> pending_ids l"
    by (auto simp: list_ex_iff pending_ids_def intro: rev_image_eqI)
  with Cons show ?case by simp
qed simp

definition proof_ok :: "contract_ledger \<Rightarrow> ToolEffect \<Rightarrow> CoverageStatus \<Rightarrow> gate_proof \<Rightarrow> bool" where
  "proof_ok l effect coverage p \<longleftrightarrow>
     gp_obligation_ids p \<noteq> [] \<and> set (gp_obligation_ids p) \<subseteq> pending_ids l \<and>
     effect = Mutation (gp_mutation p) \<and> is_novelty (gp_mutation p) \<and>
     gp_coverage p = coverage \<and> coverage \<noteq> AbsentFresh"

lemma proved_ok:
  "prove_pre_mutation lower l target effect coverage = Some p \<Longrightarrow> proof_ok l effect coverage p"
  unfolding prove_pre_mutation_def
  by (cases effect)
     (auto simp: proof_ok_def Let_def split: if_splits
       dest!: subsetD [OF add_edges_open, rotated] simp: pending_ids_def)

lemma pinned_ok:
  "prove_pre_mutation_pinned l i target effect coverage = Some p \<Longrightarrow> proof_ok l effect coverage p"
  unfolding prove_pre_mutation_pinned_def
  by (cases effect)
     (auto simp: proof_ok_def pending_ids_def find_Some_iff split: if_splits dest: nth_mem)

end
