(* ===== verification/Gate_Controller.thy ===== *)
theory Gate_Controller
  imports Gate_Proof Hooks
begin

text \<open>
  The gate of mutations (\<open>crates/relay-agent/src/gate_controller.rs\<close>): what is decided before a tool
  use, what is learned after it, and how the robot's held actions are resolved by the controller
  itself. The state is the stores of artifacts and gates, the leases of the robot's probes and the
  terminal turns. An operation of type \<open>gate_op\<close> either returns a value or fails, and keeps the
  changes made before a failure. The census of classifications, tracing and the decision log write
  only logs and are left out. The theorems about whole runs let the environment (files, time,
  contract, pins) differ from event to event.
\<close>

section \<open>State and environment\<close>

text \<open>
  What one call of the hook sees: the files, the digest, the time (read once), how JSON is printed,
  which entry a hash table yields first (an index, taken modulo the length), the ledger of the transcript, the pins of the session, and
  whether the reading of shell segments is enforced (\<open>VSC_RELAY_SEGMENTED_GATE\<close>).
\<close>

record gate_env =
  ge_fs :: fs
  ge_digest :: digest
  ge_now :: i64
  ge_exists :: "string \<Rightarrow> bool"
  ge_print :: "json \<Rightarrow> string"
  ge_lower :: "string \<Rightarrow> string"
  ge_ledger :: "json \<Rightarrow> contract_ledger option"
  ge_pins :: "string \<Rightarrow> json list"
  ge_enforced :: bool
  ge_first :: "string list \<Rightarrow> nat"

record robot_probe_lease =
  rl_cwd :: string
  rl_target :: "string option"
  rl_action_material :: string
  rl_terminal_key :: string
  rl_target_probe_delivered :: bool
  rl_unknown_effect :: bool

record gate_world =
  gw_stores :: stores
  gw_leases :: "(string \<times> robot_probe_lease) list"
  gw_terminal :: "string list"

text \<open>
  An operation returns \<open>None\<close> when the code returns an error; what it changed before stays changed.
\<close>

type_synonym 'a gate_op = "gate_world \<Rightarrow> 'a option \<times> gate_world"

definition gok :: "'a \<Rightarrow> 'a gate_op" where
  "gok x w = (Some x, w)"

definition gbind :: "'a gate_op \<Rightarrow> ('a \<Rightarrow> 'b gate_op) \<Rightarrow> 'b gate_op" where
  "gbind m f w = (case m w of (None, v) \<Rightarrow> (None, v) | (Some x, v) \<Rightarrow> f x v)"

definition gthen :: "'a gate_op \<Rightarrow> 'b gate_op \<Rightarrow> 'b gate_op" where
  "gthen m k = gbind m (\<lambda>_. k)"

definition on_stores :: "(stores \<Rightarrow> 'a option \<times> stores) \<Rightarrow> 'a gate_op" where
  "on_stores f w = (case f (gw_stores w) of (r, st) \<Rightarrow> (r, w\<lparr>gw_stores := st\<rparr>))"

text \<open>\<open>r.ok()\<close>: an error is only an absent value.\<close>

definition gtry :: "'a gate_op \<Rightarrow> 'a option gate_op" where
  "gtry m w = (case m w of (r, v) \<Rightarrow> (Some r, v))"

definition gmodify :: "(gate_world \<Rightarrow> gate_world) \<Rightarrow> unit gate_op" where
  "gmodify f w = (Some (), f w)"

definition read_gate :: "gate_env \<Rightarrow> string \<Rightarrow> string \<Rightarrow> string \<Rightarrow> gate_record option gate_op" where
  "read_gate E cwd sid material =
     on_stores (\<lambda>st. (gate_for_action (ge_fs E) (ge_digest E) cwd sid material st, st))"

section \<open>The fields of a hook payload\<close>

definition session_id :: "json \<Rightarrow> string" where
  "session_id payload = unwrap_or ''unknown-session'' (get_str payload ''session_id'')"

definition payload_cwd :: "json \<Rightarrow> string" where
  "payload_cwd payload = unwrap_or ''.'' (get_str payload ''cwd'')"

definition cwd_alias :: "string \<Rightarrow> string" where
  "cwd_alias cwd = unwrap_or [] (file_name cwd)"

fun mutation_debug :: "MutationKind \<Rightarrow> string" where
  "mutation_debug Create = ''Create''"
| "mutation_debug Replace = ''Replace''"
| "mutation_debug Migrate = ''Migrate''"
| "mutation_debug Modify = ''Modify''"
| "mutation_debug Delete = ''Delete''"

fun effect_debug :: "ToolEffect \<Rightarrow> string" where
  "effect_debug ReadOnly = ''ReadOnly''"
| "effect_debug (Mutation m) = ''Mutation('' @ mutation_debug m @ '')''"
| "effect_debug ExternalSideEffect = ''ExternalSideEffect''"
| "effect_debug UnknownEffect = ''Unknown''"

definition identity_of :: "json \<Rightarrow> string list \<Rightarrow> string" where
  "identity_of payload names =
     concat (map (\<lambda>f. case get_str payload f of
       Some v \<Rightarrow> f @ ''='' @ v @ [CHR 0x00] | None \<Rightarrow> []) names)"

definition print_input :: "gate_env \<Rightarrow> json \<Rightarrow> string" where
  "print_input E payload = ge_print E (unwrap_or JNull (jget payload ''tool_input''))"

definition action_material :: "gate_env \<Rightarrow> json \<Rightarrow> ToolEffect \<Rightarrow> string option \<Rightarrow> string" where
  "action_material E payload effect target =
     (let i = identity_of payload [''session_id'', ''turn_id'']
      in (if i = [] then print_input E payload else i) @
         effect_debug effect @ [CHR 0x00] @ unwrap_or [] target)"

definition native_identity :: "gate_env \<Rightarrow> json \<Rightarrow> string" where
  "native_identity E payload =
     (let i = identity_of payload [''session_id'', ''turn_id'', ''tool_use_id'']
      in if i = [] then print_input E payload else i)"

section \<open>Terminal turns and leases of the robot\<close>

definition terminal_key :: "json \<Rightarrow> string" where
  "terminal_key payload =
     session_id payload @ [CHR 0x00] @ unwrap_or [] (get_str payload ''turn_id'')"

definition evicted :: "gate_env \<Rightarrow> string list \<Rightarrow> string" where
  "evicted E xs = xs ! (ge_first E xs mod length xs)"

definition mark_terminal_turn :: "gate_env \<Rightarrow> string \<Rightarrow> gate_world \<Rightarrow> gate_world" where
  "mark_terminal_turn E key w =
     (let ts = gw_terminal w;
          kept = (if 512 \<le> length ts \<and> key \<notin> set ts then remove1 (evicted E ts) ts else ts)
      in w\<lparr>gw_terminal := List.insert key kept\<rparr>)"

definition terminal_turn_is_blocked :: "string \<Rightarrow> gate_world \<Rightarrow> bool" where
  "terminal_turn_is_blocked key w \<longleftrightarrow> key \<in> set (gw_terminal w)"

definition register_robot_probe ::
  "gate_env \<Rightarrow> string \<Rightarrow> string \<Rightarrow> string option \<Rightarrow> string \<Rightarrow> string \<Rightarrow> bool \<Rightarrow> gate_world \<Rightarrow> gate_world"
where
  "register_robot_probe E sid cwd target material key unknown w =
     (let ls = gw_leases w;
          kept = (if 256 \<le> length ls \<and> map_of ls sid = None
                  then AList.delete (evicted E (map fst ls)) ls else ls);
          delivered = (case map_of kept sid of
            Some l \<Rightarrow> rl_action_material l = material \<and> rl_target_probe_delivered l | None \<Rightarrow> False)
      in w\<lparr>gw_leases := AList.update sid
             \<lparr>rl_cwd = cwd, rl_target = target, rl_action_material = material,
              rl_terminal_key = key, rl_target_probe_delivered = delivered,
              rl_unknown_effect = unknown\<rparr> kept\<rparr>)"

definition mark_target_probe_delivered :: "string \<Rightarrow> gate_world \<Rightarrow> gate_world" where
  "mark_target_probe_delivered sid w =
     (case map_of (gw_leases w) sid of
        Some l \<Rightarrow> w\<lparr>gw_leases :=
                     AList.update sid (l\<lparr>rl_target_probe_delivered := True\<rparr>) (gw_leases w)\<rparr>
      | None \<Rightarrow> w)"

definition drop_lease :: "string \<Rightarrow> gate_world \<Rightarrow> gate_world" where
  "drop_lease sid w = w\<lparr>gw_leases := AList.delete sid (gw_leases w)\<rparr>"

definition trace_gate :: "gate_env \<Rightarrow> string \<Rightarrow> robot_probe_lease \<Rightarrow> unit gate_op" where
  "trace_gate E sid l =
     gthen (read_gate E (rl_cwd l) sid (rl_action_material l)) (gok ())"

definition lease_probe :: "gate_env \<Rightarrow> string \<Rightarrow> robot_probe_lease \<Rightarrow> string \<Rightarrow> unit gate_op" where
  "lease_probe E sid l signature =
     on_stores (note_controller_probe (ge_fs E) (ge_digest E) (ge_now E) (rl_cwd l) sid
       (rl_action_material l) signature)"

definition lease_resolve ::
  "gate_env \<Rightarrow> string \<Rightarrow> robot_probe_lease \<Rightarrow> GateState \<Rightarrow> GateDecision \<Rightarrow> unit gate_op" where
  "lease_resolve E sid l state decision =
     on_stores (set_gate_resolution (ge_fs E) (ge_digest E) (ge_now E) (rl_cwd l) sid
       (rl_action_material l) state decision)"

definition lease_quarantine :: "gate_env \<Rightarrow> string \<Rightarrow> robot_probe_lease \<Rightarrow> unit gate_op" where
  "lease_quarantine E sid l =
     gthen (lease_resolve E sid l Quarantined QuarantineBranch)
       (gthen (gmodify (mark_terminal_turn E (rl_terminal_key l))) (trace_gate E sid l))"

definition run_lease :: "gate_env \<Rightarrow> string \<Rightarrow> robot_probe_lease \<Rightarrow> unit gate_op" where
  "run_lease E sid l =
     (if rl_unknown_effect l then
        gthen (lease_probe E sid l ''adapter-resolution-v1'') (lease_quarantine E sid l)
      else case rl_target l of
        None \<Rightarrow> lease_quarantine E sid l
      | Some target \<Rightarrow>
          gthen (lease_probe E sid l ''filesystem-metadata-v1'')
            (gbind (on_stores (controller_probe_exact (ge_fs E) (ge_digest E) (ge_now E) (rl_cwd l)
                      target (''controller-v1'' @ [CHR 0x00] @ sid @ [CHR 0x00] @ rl_action_material l)))
              (\<lambda>outcome. case outcome of
                 ProbePresent \<Rightarrow>
                   gthen (lease_resolve E sid l RejectedPresent Deny) (trace_gate E sid l)
               | ProbeAbsent \<Rightarrow>
                   gthen (lease_probe E sid l ''filesystem-namespace-v1'')
                     (gthen (on_stores (admit_absence_to_gate (ge_fs E) (ge_digest E) (ge_now E)
                               (rl_cwd l) sid (rl_action_material l)))
                        (trace_gate E sid l))
               | ProbeUnavailable \<Rightarrow>
                   gthen (lease_probe E sid l ''filesystem-namespace-v1'')
                     (lease_quarantine E sid l))))"

definition advance_robot_probe :: "gate_env \<Rightarrow> string \<Rightarrow> unit gate_op" where
  "advance_robot_probe E sid w =
     (case map_of (gw_leases w) sid of
        None \<Rightarrow> (Some (), w)
      | Some l \<Rightarrow>
          gbind (read_gate E (rl_cwd l) sid (rl_action_material l)) (\<lambda>g.
            case g of
              None \<Rightarrow> gmodify (drop_lease sid)
            | Some r \<Rightarrow>
                if \<not> waiting (gr_state r) then gmodify (drop_lease sid)
                else if \<not> rl_target_probe_delivered l then gok ()
                else gthen (run_lease E sid l) (gmodify (drop_lease sid))) w)"

section \<open>The policy\<close>

definition AUTO_PROBE_LIMIT :: u8 where "AUTO_PROBE_LIMIT = 3"
definition AUTO_TIMEOUT_SECS :: i64 where "AUTO_TIMEOUT_SECS = 110"

record policy_result =
  po_state :: GateState
  po_decision :: GateDecision
  po_hook_decision :: "string option"
  po_reason :: string

datatype CoveragePlan = ClearOnce | Evaluate CoverageStatus

definition coverage_plan :: "CoverageStatus \<Rightarrow> (GateState \<times> bool) option \<Rightarrow> CoveragePlan" where
  "coverage_plan coverage previous =
     (if coverage \<noteq> AbsentFresh then Evaluate coverage
      else if previous = Some (ClearedAbsent, True) then Evaluate StaleCoverage
      else ClearOnce)"

definition safe_blocked :: "string \<Rightarrow> policy_result" where
  "safe_blocked what =
     \<lparr>po_state = Quarantined, po_decision = QuarantineBranch, po_hook_decision = Some ''deny'',
      po_reason = ''Terminal SafeBlocked for this Robot '' @ what @ '', invoke no further tools, do not ask the user, and emit only the deterministic dossier/report''\<rparr>"

definition policy ::
  "Mode \<Rightarrow> CoverageStatus \<Rightarrow> bool \<Rightarrow> u8 \<Rightarrow> u8 \<Rightarrow> i64 \<Rightarrow> policy_result" where
  "policy mode coverage unknown_effect attempts probe_steps age_secs =
     (if mode = Manual then
        \<lparr>po_state = Advisory, po_decision = Annotate, po_hook_decision = None,
         po_reason = ''deterministic mutation risk annotated; Manual remains user-controlled''\<rparr>
      else if coverage = PresentFresh \<and> \<not> unknown_effect then
        \<lparr>po_state = RejectedPresent, po_decision = Deny, po_hook_decision = Some ''deny'',
         po_reason = ''artifact already exists at the exact locator and version; reject duplicate novelty and continue through Modify, Wiring, Population, or Behavior''\<rparr>
      else if mode = Auto then
        (if AUTO_PROBE_LIMIT \<le> probe_steps \<or> AUTO_TIMEOUT_SECS \<le> age_secs then
           \<lparr>po_state = AwaitingProof, po_decision = AskProof, po_hook_decision = Some ''ask_user'',
            po_reason = ''Auto exhausted its bounded proof window; return this exact mutation decision to the user''\<rparr>
         else
           \<lparr>po_state = AwaitingProof, po_decision = AskProof, po_hook_decision = Some ''deny'',
            po_reason = ''hold novelty mutation; obtain an exact structured read-only receipt (maximum three unique probes / 110 seconds), then retry''\<rparr>)
      else if AUTO_PROBE_LIMIT \<le> probe_steps \<or> AUTO_PROBE_LIMIT < attempts then
        safe_blocked ''lease: stop this turn now''
      else
        \<lparr>po_state = (if 1 < attempts then ControllerProbe else TargetProbe),
         po_decision = AutonomousResolve, po_hook_decision = Some ''deny'',
         po_reason = ''Robot must resolve autonomously: perform a unique typed read-only target probe, then an alternative capability if partial; helper output may choose a probe but is never evidence''\<rparr>)"

definition sticky_resolution :: "Mode \<Rightarrow> GateState option \<Rightarrow> policy_result option" where
  "sticky_resolution mode state =
     (if mode = Manual then None
      else if state = Some Quarantined then Some (safe_blocked ''lease: stop this turn now'')
      else if state = Some RejectedPresent then
        Some \<lparr>po_state = RejectedPresent, po_decision = Deny, po_hook_decision = Some ''deny'',
          po_reason = ''artifact is already present; do not retry Create/Replace and replan to Modify, Wiring, Population, or Behavior''\<rparr>
      else None)"

fun gate_state_label :: "GateState \<Rightarrow> string" where
  "gate_state_label Advisory = ''advisory''"
| "gate_state_label AwaitingProof = ''awaiting_proof''"
| "gate_state_label TargetProbe = ''target_probe''"
| "gate_state_label ControllerProbe = ''controller_probe''"
| "gate_state_label Replanning = ''replanning''"
| "gate_state_label ClearedAbsent = ''cleared_absent''"
| "gate_state_label RejectedPresent = ''rejected_present''"
| "gate_state_label Quarantined = ''quarantined''"
| "gate_state_label StaleGate = ''stale''"

definition make_hook_decision :: "policy_result \<Rightarrow> json option" where
  "make_hook_decision p =
     map_option (\<lambda>d. JObject [(''decision'', JString d),
       (''gate_state'', JString (gate_state_label (po_state p))),
       (''reason'', JString (po_reason p))]) (po_hook_decision p)"

section \<open>Pins\<close>

definition validate_pin :: "json \<Rightarrow> string \<Rightarrow> u32 \<Rightarrow> string option" where
  "validate_pin pin target epoch =
     (if get_str pin ''source'' \<in> {Some ''user'', Some ''controller''} \<and>
         get_str pin ''artifact_locator'' = Some target \<and>
         Option.bind (jget pin ''contract_epoch'') as_u64 = Some (ucast epoch)
      then get_str pin ''obligation_id'' else None)"

definition trusted_pin :: "json \<Rightarrow> string \<Rightarrow> u32 \<Rightarrow> string option" where
  "trusted_pin payload target epoch =
     Option.bind (jget payload ''relay_gate_pin'') (\<lambda>pin. validate_pin pin target epoch)"

fun find_pin :: "string \<Rightarrow> u32 \<Rightarrow> json list \<Rightarrow> string option" where
  "find_pin target epoch [] = None"
| "find_pin target epoch (p # ps) = or_else (validate_pin p target epoch) (find_pin target epoch ps)"

definition resolve_pin :: "gate_env \<Rightarrow> json \<Rightarrow> string \<Rightarrow> string \<Rightarrow> u32 \<Rightarrow> string option" where
  "resolve_pin E payload sid target epoch =
     or_else (trusted_pin payload target epoch) (find_pin target epoch (rev (ge_pins E sid)))"

section \<open>Before a tool use\<close>

definition shadow_segmented :: "gate_env \<Rightarrow> effect_assessment \<Rightarrow> bool" where
  "shadow_segmented E a \<longleftrightarrow> ea_source a = ShellSegmented \<and> \<not> ge_enforced E"

definition policy_of ::
  "gate_env \<Rightarrow> Mode \<Rightarrow> CoverageStatus \<Rightarrow> bool \<Rightarrow> gate_record \<Rightarrow> policy_result" where
  "policy_of E mode coverage unknown r =
     policy mode coverage unknown (gr_attempts r) (gr_probe_steps r) (ge_now E - gr_opened_at r)"

text \<open>
  The attempt is counted before it is recorded. At 255 attempts \<open>attempts + 1\<close> wraps to 0, as in a
  release build; a debug build panics there.
\<close>

definition provisional_policy ::
  "gate_env \<Rightarrow> Mode \<Rightarrow> CoverageStatus \<Rightarrow> bool \<Rightarrow> gate_record option \<Rightarrow> policy_result" where
  "provisional_policy E mode coverage unknown previous =
     (case previous of
        None \<Rightarrow> policy mode coverage unknown 1 0 0
      | Some r \<Rightarrow> policy mode coverage unknown (gr_attempts r + 1) (gr_probe_steps r)
                    (ge_now E - gr_opened_at r))"

text \<open>The gate is recorded under the provisional policy, and corrected after what was recorded.\<close>

definition evaluate_gate ::
  "gate_env \<Rightarrow> Mode \<Rightarrow> string \<Rightarrow> string \<Rightarrow> string \<Rightarrow> string \<Rightarrow> string option \<Rightarrow> CoverageStatus \<Rightarrow> bool \<Rightarrow>
   string list \<Rightarrow> gate_record option \<Rightarrow> policy_result gate_op" where
  "evaluate_gate E mode cwd sid material native locator coverage unknown obligations previous =
     (let p = provisional_policy E mode coverage unknown previous
      in gbind (on_stores (record_gate (ge_fs E) (ge_digest E) (ge_now E) cwd sid material native
                  locator (po_state p) (po_decision p) obligations))
           (\<lambda>r. let q = policy_of E mode coverage unknown r
                in if gr_state r \<noteq> po_state q \<or> gr_decision r \<noteq> po_decision q
                   then gthen (on_stores (set_gate_resolution (ge_fs E) (ge_digest E) (ge_now E) cwd
                                 sid material (po_state q) (po_decision q))) (gok q)
                   else gok q))"

definition answer_sticky ::
  "gate_env \<Rightarrow> Mode \<Rightarrow> string \<Rightarrow> policy_result \<Rightarrow> json option gate_op" where
  "answer_sticky E mode key s =
     gthen (gmodify (\<lambda>w. if mode = Robot \<and> po_state s = Quarantined
                         then mark_terminal_turn E key w else w))
       (gok (make_hook_decision s))"

definition pre_unknown ::
  "gate_env \<Rightarrow> Mode \<Rightarrow> json \<Rightarrow> effect_assessment \<Rightarrow> json option gate_op" where
  "pre_unknown E mode payload a =
     (let cwd = payload_cwd payload; sid = session_id payload; key = terminal_key payload;
          input = unwrap_or JNull (jget payload ''tool_input'')
      in gbind (on_stores (record_unknown_shape (ge_fs E) (ge_digest E) (ge_now E) cwd input)) (\<lambda>sd.
           case ea_target a of
             None \<Rightarrow> gok None
           | Some target \<Rightarrow>
               gbind (gtry (on_stores (snapshot (ge_fs E) (ge_digest E) (ge_now E) cwd target))) (\<lambda>snap.
               let locator = (case snap of Some (Some s) \<Rightarrow> ts_locator_digest s | _ \<Rightarrow> ''unbound'');
                   material = action_material E payload (ea_effect a) None @ [CHR 0x00] @ ''mode='' @
                     mode_label mode @ [CHR 0x00] @ ''shape='' @ sd @ [CHR 0x00] @ ''locator='' @ locator
               in gbind (read_gate E cwd sid material) (\<lambda>previous.
                  case sticky_resolution mode (map_option gr_state previous) of
                    Some s \<Rightarrow> answer_sticky E mode key s
                  | None \<Rightarrow>
                      gbind (evaluate_gate E mode cwd sid material (native_identity E payload) None
                               Missing True [] previous) (\<lambda>q.
                        gthen (gmodify (\<lambda>w.
                            if mode = Robot \<and> po_state q \<noteq> Quarantined
                            then register_robot_probe E sid cwd (Some target) material key True w
                            else if mode = Robot then mark_terminal_turn E key w else w))
                          (gok (make_hook_decision q)))))))"

definition pre_proved ::
  "gate_env \<Rightarrow> Mode \<Rightarrow> json \<Rightarrow> effect_assessment \<Rightarrow> string \<Rightarrow> string \<Rightarrow> string \<Rightarrow> contract_ledger \<Rightarrow>
   CoverageStatus \<Rightarrow> json option gate_op" where
  "pre_proved E mode payload a target locator material ledger coverage =
     (let cwd = payload_cwd payload; sid = session_id payload; key = terminal_key payload;
          proof = or_else (prove_pre_mutation (ge_lower E) ledger target (ea_effect a) coverage)
            (Option.bind (resolve_pin E payload sid target (cl_epoch ledger)) (\<lambda>i.
               prove_pre_mutation_pinned ledger i target (ea_effect a) coverage))
      in case proof of
           None \<Rightarrow> gok None
         | Some p \<Rightarrow>
             gbind (read_gate E cwd sid material) (\<lambda>previous.
             gbind (evaluate_gate E mode cwd sid material (native_identity E payload) (Some locator)
                      (gp_coverage p) False (gp_obligation_ids p) previous) (\<lambda>q.
               gthen (gmodify (\<lambda>w.
                   if mode = Robot \<and> po_state q \<in> {TargetProbe, ControllerProbe}
                   then register_robot_probe E sid cwd (Some target) material key False w
                   else if mode = Robot \<and> po_state q = Quarantined
                   then mark_terminal_turn E key w else w))
                 (gok (make_hook_decision q)))))"

definition pre_known ::
  "gate_env \<Rightarrow> Mode \<Rightarrow> json \<Rightarrow> effect_assessment \<Rightarrow> json option gate_op" where
  "pre_known E mode payload a =
     (let cwd = payload_cwd payload; sid = session_id payload; key = terminal_key payload
      in case ea_target a of
           None \<Rightarrow> gok None
         | Some target \<Rightarrow>
             gbind (on_stores (snapshot (ge_fs E) (ge_digest E) (ge_now E) cwd target)) (\<lambda>snap.
             case snap of
               None \<Rightarrow> gok None
             | Some s \<Rightarrow>
                 (case ge_ledger E payload of
                    None \<Rightarrow> gok None
                  | Some ledger \<Rightarrow>
                      let material = action_material E payload (ea_effect a) None @ [CHR 0x00] @
                            ''mode='' @ mode_label mode @ [CHR 0x00] @ ''locator='' @
                            ts_locator_digest s @ [CHR 0x00] @ ''epoch='' @
                            dec (unat (cl_epoch ledger)) @ [CHR 0x00] @ ''version='' @
                            unwrap_or ''unanchored'' (ts_version_hash s)
                      in gbind (read_gate E cwd sid material) (\<lambda>previous.
                         case sticky_resolution mode (map_option gr_state previous) of
                           Some st \<Rightarrow> answer_sticky E mode key st
                         | None \<Rightarrow>
                             (case coverage_plan (ts_coverage s)
                                (map_option (\<lambda>r. (gr_state r, gr_clearance_consumed r)) previous) of
                                ClearOnce \<Rightarrow>
                                  gthen (on_stores (record_gate (ge_fs E) (ge_digest E) (ge_now E) cwd sid
                                    material (native_identity E payload) (Some (ts_locator_digest s))
                                    ClearedAbsent DeferToBase [])) (gok None)
                              | Evaluate coverage \<Rightarrow>
                                  pre_proved E mode payload a target (ts_locator_digest s) material
                                    ledger coverage)))))"

definition pre_tool :: "gate_env \<Rightarrow> automation_config \<Rightarrow> json \<Rightarrow> json option gate_op" where
  "pre_tool E cfg payload =
     (if \<not> sm_enabled (ac_smart cfg) \<or> \<not> sm_gate (ac_smart cfg) then gok None
      else if is_relay_control_plane payload then gok None
      else let sid = session_id payload;
               mode = resolve cfg (Some sid) (cwd_alias (payload_cwd payload)) (ge_now E)
           in gthen (if mode = Robot then advance_robot_probe E sid else gok ())
                (let a = classify (ge_exists E) payload
                 in if shadow_segmented E a then gok None
                    else (\<lambda>w.
                      if mode = Robot \<and> ea_effect a \<noteq> ReadOnly \<and>
                         terminal_turn_is_blocked (terminal_key payload) w
                      then (Some (make_hook_decision (safe_blocked ''turn: stop now'')), w)
                      else if ea_effect a = UnknownEffect then pre_unknown E mode payload a w
                      else pre_known E mode payload a w)))"

section \<open>After a tool use\<close>

definition take_receipt ::
  "gate_env \<Rightarrow> string \<Rightarrow> string \<Rightarrow> string \<Rightarrow> json option \<Rightarrow> unit gate_op" where
  "take_receipt E cwd target receipt_id receipt =
     (case receipt of
        None \<Rightarrow> gok ()
      | Some v \<Rightarrow>
          gthen (on_stores (record_typed_receipt (ge_fs E) (ge_digest E) (ge_now E) cwd target
                   (unwrap_or v (jget v ''artifact_state_receipt'')) receipt_id)) (gok ()))"

definition take_absence ::
  "gate_env \<Rightarrow> string \<Rightarrow> string \<Rightarrow> string \<Rightarrow> string \<Rightarrow> json option \<Rightarrow> unit gate_op" where
  "take_absence E cwd sid target receipt_id receipt =
     (if Option.bind (Option.bind receipt (\<lambda>v. jget v ''exists'')) as_bool = Some False \<and>
         Option.bind (Option.bind receipt (\<lambda>v. or_else (jget v ''path'') (jget v ''target''))) as_str =
           Some target
      then gbind (on_stores (record_absence (ge_fs E) (ge_digest E) (ge_now E) cwd target receipt_id))
             (\<lambda>admitted. if admitted
                then on_stores (admit_absence_to_latest_gate (ge_fs E) (ge_digest E) (ge_now E) cwd sid)
                else gok ())
      else gok ())"

definition post_tool :: "gate_env \<Rightarrow> automation_config \<Rightarrow> json \<Rightarrow> unit gate_op" where
  "post_tool E cfg payload =
     (if \<not> sm_enabled (ac_smart cfg) \<or> \<not> sm_gate (ac_smart cfg) then gok ()
      else if is_relay_control_plane payload then gok ()
      else let a = classify (ge_exists E) payload; cwd = payload_cwd payload; sid = session_id payload
           in if shadow_segmented E a then gok ()
              else gthen (if ea_effect a = UnknownEffect
                          then gthen (on_stores (record_unknown_shape (ge_fs E) (ge_digest E) (ge_now E)
                                 cwd (unwrap_or JNull (jget payload ''tool_input'')))) (gok ())
                          else gok ())
                (case ea_target a of
                   None \<Rightarrow> gok ()
                 | Some target \<Rightarrow>
                     let material = action_material E payload (ea_effect a) (Some target);
                         receipt = or_else (jget payload ''tool_response'') (jget payload ''tool_output'');
                         receipt_id = unwrap_or material (get_str payload ''tool_use_id'')
                     in gthen (on_stores (note_post_tool (ge_fs E) (ge_digest E) (ge_now E) cwd sid
                                 (ea_effect a) material (Some target)))
                          (gthen (if ea_effect a = ReadOnly
                                  then gthen (take_receipt E cwd target receipt_id receipt)
                                         (take_absence E cwd sid target receipt_id receipt)
                                  else gok ())
                            (advance_robot_probe E sid))))"

section \<open>Rules for operations\<close>

text \<open>
  \<open>answers P m\<close>: every result of \<open>m\<close> satisfies \<open>P\<close>. \<open>keeps I m\<close>: \<open>m\<close> preserves \<open>I\<close>, whether it
  succeeds or fails.
\<close>

named_theorems gate_rules "introduction rules for answers and keeps"

definition answers :: "('a \<Rightarrow> bool) \<Rightarrow> 'a gate_op \<Rightarrow> bool" where
  "answers P m \<longleftrightarrow> (\<forall>w x. fst (m w) = Some x \<longrightarrow> P x)"

definition keeps :: "(gate_world \<Rightarrow> bool) \<Rightarrow> 'a gate_op \<Rightarrow> bool" where
  "keeps I m \<longleftrightarrow> (\<forall>w. I w \<longrightarrow> I (snd (m w)))"

lemma gbind_answers [gate_rules]: "(\<And>x. answers P (f x)) \<Longrightarrow> answers P (gbind m f)"
  by (auto simp: answers_def gbind_def split: prod.splits option.splits)

lemma gthen_answers [gate_rules]: "answers P k \<Longrightarrow> answers P (gthen m k)"
  by (simp add: gthen_def gbind_answers)

lemma gok_answers [gate_rules]: "P x \<Longrightarrow> answers P (gok x)"
  by (simp add: answers_def gok_def)

lemma gbind_keeps [gate_rules]: "keeps I m \<Longrightarrow> (\<And>x. keeps I (f x)) \<Longrightarrow> keeps I (gbind m f)"
  unfolding keeps_def gbind_def by (auto split: prod.split option.split)

lemma gthen_keeps [gate_rules]: "keeps I m \<Longrightarrow> keeps I k \<Longrightarrow> keeps I (gthen m k)"
  by (simp add: gthen_def gbind_keeps)

lemma gok_keeps [gate_rules]: "keeps I (gok x)"
  by (simp add: keeps_def gok_def)

lemma gtry_keeps [gate_rules]: "keeps I m \<Longrightarrow> keeps I (gtry m)"
  unfolding keeps_def gtry_def by (auto split: prod.split)

lemma gmodify_keeps: "(\<And>w. I w \<Longrightarrow> I (f w)) \<Longrightarrow> keeps I (gmodify f)"
  by (simp add: keeps_def gmodify_def)

lemma if_answers [gate_rules]:
  "(b \<Longrightarrow> answers P m) \<Longrightarrow> (\<not> b \<Longrightarrow> answers P k) \<Longrightarrow> answers P (if b then m else k)"
  by simp

lemma if_keeps [gate_rules]:
  "(b \<Longrightarrow> keeps I m) \<Longrightarrow> (\<not> b \<Longrightarrow> keeps I k) \<Longrightarrow> keeps I (if b then m else k)"
  by simp

lemma option_answers [gate_rules]:
  "(x = None \<Longrightarrow> answers P m) \<Longrightarrow> (\<And>y. x = Some y \<Longrightarrow> answers P (k y)) \<Longrightarrow>
   answers P (case x of None \<Rightarrow> m | Some y \<Rightarrow> k y)"
  by (cases x) simp_all

lemma option_keeps [gate_rules]:
  "(x = None \<Longrightarrow> keeps I m) \<Longrightarrow> (\<And>y. x = Some y \<Longrightarrow> keeps I (k y)) \<Longrightarrow>
   keeps I (case x of None \<Rightarrow> m | Some y \<Rightarrow> k y)"
  by (cases x) simp_all

section \<open>The state of the controller stays well formed\<close>

definition world_ok :: "gate_world \<Rightarrow> bool" where
  "world_ok w \<longleftrightarrow> stores_ok (gw_stores w) \<and>
     hm_ok (gw_leases w) \<and> length (gw_leases w) \<le> 256 \<and>
     distinct (gw_terminal w) \<and> length (gw_terminal w) \<le> 512"

lemma evicted_mem: "xs \<noteq> [] \<Longrightarrow> evicted E xs \<in> set xs"
  by (simp add: evicted_def)

lemma length_insert: "length (List.insert x xs) = (if x \<in> set xs then length xs else Suc (length xs))"
  by (simp add: List.insert_def)

lemma mark_terminal_ok: "world_ok w \<Longrightarrow> world_ok (mark_terminal_turn E key w)"
proof -
  assume w: "world_ok w"
  let ?ts = "gw_terminal w"
  have "length (remove1 (evicted E ?ts) ?ts) = length ?ts - 1" if "512 \<le> length ?ts"
    using that evicted_mem [of ?ts E] by (cases "?ts = []") (auto simp: length_remove1)
  with w show ?thesis
    by (auto simp: world_ok_def mark_terminal_turn_def Let_def length_insert distinct_insert)
qed

lemma length_update_key:
  "length (AList.update k v m) = (if k \<in> fst ` set m then length m else Suc (length m))"
  by (induction m) auto

lemma length_delete_key: "k \<in> fst ` set m \<Longrightarrow> length (AList.delete k m) < length m"
  unfolding AList.delete_eq by (auto intro: length_filter_less)

lemma delete_le: "length (AList.delete k m) \<le> length m"
  by (simp add: AList.delete_eq)

lemma register_ok: "world_ok w \<Longrightarrow> world_ok (register_robot_probe E sid cwd t m key u w)"
proof -
  assume w: "world_ok w"
  let ?ls = "gw_leases w" and ?e = "evicted E (map fst (gw_leases w))"
  have shrink: "length (AList.delete ?e ?ls) < 256" if "256 \<le> length ?ls"
  proof -
    have "?e \<in> fst ` set ?ls" using evicted_mem [of "map fst ?ls" E] that by fastforce
    from length_delete_key [OF this] w show ?thesis by (simp add: world_ok_def)
  qed
  have room: "sid \<in> fst ` set ?ls" if "map_of ?ls sid \<noteq> None" using that by (auto simp: map_of_eq_None_iff)
  show ?thesis
    using w shrink room
    by (auto simp: world_ok_def register_robot_probe_def Let_def length_update_key hm_ok_def
        distinct_update distinct_delete delete_le)
qed

lemma delivered_ok: "world_ok w \<Longrightarrow> world_ok (mark_target_probe_delivered sid w)"
  by (auto simp: world_ok_def mark_target_probe_delivered_def length_update_key hm_ok_def
      distinct_update split: option.split dest: map_of_SomeD intro: rev_image_eqI)

lemma drop_lease_ok: "world_ok w \<Longrightarrow> world_ok (drop_lease sid w)"
  using delete_le [of sid "gw_leases w"]
  by (simp add: world_ok_def drop_lease_def hm_ok_def distinct_delete)

lemma stores_keeps:
  "(\<And>st. stores_ok st \<Longrightarrow> stores_ok (snd (f st))) \<Longrightarrow> keeps world_ok (on_stores f)"
  by (auto simp: keeps_def on_stores_def world_ok_def split: prod.splits) (metis snd_conv)

lemma store_ops_keep [gate_rules]:
  "keeps world_ok (read_gate E cwd sid mat)"
  "keeps world_ok (on_stores (record_unknown_shape fs dg now cwd input))"
  "keeps world_ok (on_stores (snapshot fs dg now cwd target))"
  "keeps world_ok (on_stores (controller_probe_exact fs dg now cwd target ev))"
  "keeps world_ok (on_stores (record_gate fs dg now cwd sid mat na lo s d obs))"
  "keeps world_ok (on_stores (set_gate_resolution fs dg now cwd sid mat s d))"
  "keeps world_ok (on_stores (admit_absence_to_gate fs dg now cwd sid mat))"
  "keeps world_ok (on_stores (admit_absence_to_latest_gate fs dg now cwd sid))"
  "keeps world_ok (on_stores (note_controller_probe fs dg now cwd sid mat sig))"
  "keeps world_ok (on_stores (record_typed_receipt fs dg now cwd target r ev))"
  "keeps world_ok (on_stores (record_absence fs dg now cwd target ev))"
  "keeps world_ok (on_stores (note_post_tool fs dg now cwd sid effect mat t))"
  by (auto simp: read_gate_def unknown_shape_ok snapshot_ok record_gate_ok set_gate_resolution_def
      admit_absence_to_gate_def note_controller_probe_def edit_gate_ok tame_simple tame_controller
      admit_latest_ok typed_receipt_ok record_absence_ok post_tool_ok probe_exact_ok
      intro!: stores_keeps)

lemma modify_ops_keep [gate_rules]:
  "keeps world_ok (gmodify (mark_terminal_turn E key))"
  "keeps world_ok (gmodify (drop_lease sid))"
  "keeps world_ok (gmodify (\<lambda>w. if b then mark_terminal_turn E key w else w))"
  "keeps world_ok (gmodify (\<lambda>w. if b then register_robot_probe E sid cwd t m key u w
     else if b' then mark_terminal_turn E key w else w))"
  by (auto intro!: gmodify_keeps simp: mark_terminal_ok drop_lease_ok register_ok)

lemma lease_quarantine_keeps [gate_rules]: "keeps world_ok (lease_quarantine E sid l)"
  unfolding lease_quarantine_def lease_resolve_def trace_gate_def by (intro gate_rules)

lemma run_lease_keeps [gate_rules]: "keeps world_ok (run_lease E sid l)"
  unfolding run_lease_def lease_resolve_def trace_gate_def lease_probe_def
  by (intro gate_rules) (auto split: ControllerProbeOutcome.split intro!: gate_rules)

lemma advance_keeps [gate_rules]: "keeps world_ok (advance_robot_probe E sid)"
proof -
  have "keeps world_ok (\<lambda>w. case map_of (gw_leases w) sid of None \<Rightarrow> (Some (), w) | Some l \<Rightarrow> f l w)"
    if "\<And>l. keeps world_ok (f l)" for f :: "robot_probe_lease \<Rightarrow> unit gate_op"
    using that by (auto simp: keeps_def split: option.split)
  note rule = this
  show ?thesis unfolding advance_robot_probe_def by (rule rule) (intro gate_rules)
qed

lemma evaluate_keeps [gate_rules]:
  "keeps world_ok (evaluate_gate E mode cwd sid mat na lo cov u obs previous)"
  unfolding evaluate_gate_def Let_def by (intro gate_rules)

lemma sticky_keeps [gate_rules]: "keeps world_ok (answer_sticky E mode key s)"
  unfolding answer_sticky_def by (intro gate_rules)

lemma pre_unknown_keeps: "keeps world_ok (pre_unknown E mode payload a)"
  unfolding pre_unknown_def Let_def by (intro gate_rules)

lemma pre_proved_keeps [gate_rules]:
  "keeps world_ok (pre_proved E mode payload a target lo mat ledger cov)"
  unfolding pre_proved_def Let_def by (intro gate_rules)

lemma pre_known_keeps: "keeps world_ok (pre_known E mode payload a)"
  unfolding pre_known_def Let_def
  by (intro gate_rules) (auto split: CoveragePlan.split intro!: gate_rules)

lemma pre_tool_keeps: "keeps world_ok (pre_tool E cfg payload)"
proof -
  have "keeps world_ok (\<lambda>w. if b w then (Some x, w) else if c then m w else k w)"
    if "keeps world_ok m" "keeps world_ok k"
    for x :: "json option" and b c and m k :: "json option gate_op"
    using that by (simp add: keeps_def)
  note guard = this
  show ?thesis unfolding pre_tool_def Let_def
    by (intro gate_rules guard pre_unknown_keeps pre_known_keeps)
qed

lemma post_tool_keeps: "keeps world_ok (post_tool E cfg payload)"
  unfolding post_tool_def take_receipt_def take_absence_def Let_def by (intro gate_rules)

text \<open>What moves the controller: hooks, the delivery of a probe request, and the control loop.\<close>

datatype gate_event =
    PreTool gate_env automation_config json
  | PostTool gate_env automation_config json
  | Delivered string
  | Advance gate_env string

definition gate_step :: "gate_event \<Rightarrow> gate_world \<Rightarrow> gate_world" where
  "gate_step e w =
     (case e of
        PreTool E cfg payload \<Rightarrow> snd (pre_tool E cfg payload w)
      | PostTool E cfg payload \<Rightarrow> snd (post_tool E cfg payload w)
      | Delivered sid \<Rightarrow> mark_target_probe_delivered sid w
      | Advance E sid \<Rightarrow> snd (advance_robot_probe E sid w))"

interpretation gate_controller: invariant_machine gate_step world_ok
proof
  fix e w assume "world_ok w"
  then show "world_ok (gate_step e w)"
    using pre_tool_keeps post_tool_keeps advance_keeps delivered_ok
    by (cases e) (auto simp: gate_step_def keeps_def)
qed

definition world_empty :: gate_world where
  "world_empty = \<lparr>gw_stores = [], gw_leases = [], gw_terminal = []\<rparr>"

lemma world_empty_ok: "world_ok world_empty"
  by (simp add: world_ok_def world_empty_def stores_ok_Nil hm_ok_def)

text \<open>Every result of a call of \<open>m\<close> in a well-formed world, with the world after it.\<close>

definition after :: "('a \<Rightarrow> gate_world \<Rightarrow> bool) \<Rightarrow> 'a gate_op \<Rightarrow> bool" where
  "after Q m \<longleftrightarrow> (\<forall>w x v. m w = (Some x, v) \<longrightarrow> Q x v)"

named_theorems after_rules "introduction rules for after"

lemma gbind_after [after_rules]: "(\<And>x. after Q (f x)) \<Longrightarrow> after Q (gbind m f)"
  unfolding after_def gbind_def by (auto split: prod.splits option.splits)

lemma gthen_after [after_rules]: "after Q k \<Longrightarrow> after Q (gthen m k)"
  by (simp add: gthen_def gbind_after)

lemma gok_after [after_rules]: "(\<And>w. Q x w) \<Longrightarrow> after Q (gok x)"
  by (simp add: after_def gok_def)

lemma modify_after [after_rules]: "(\<And>w. Q x (f w)) \<Longrightarrow> after Q (gthen (gmodify f) (gok x))"
  by (simp add: after_def gthen_def gbind_def gok_def gmodify_def)

lemma if_after [after_rules]:
  "(b \<Longrightarrow> after Q m) \<Longrightarrow> (\<not> b \<Longrightarrow> after Q k) \<Longrightarrow> after Q (if b then m else k)"
  by simp

lemma option_after [after_rules]:
  "(x = None \<Longrightarrow> after Q m) \<Longrightarrow> (\<And>y. x = Some y \<Longrightarrow> after Q (k y)) \<Longrightarrow>
   after Q (case x of None \<Rightarrow> m | Some y \<Rightarrow> k y)"
  by (cases x) simp_all

text \<open>An answer of the gate: nothing, or a hold that fits the mode and ends a quarantined turn.\<close>

definition fits :: "Mode \<Rightarrow> policy_result \<Rightarrow> bool" where
  "fits mode p \<longleftrightarrow>
     (mode = Manual \<longrightarrow> po_hook_decision p = None) \<and>
     (mode = Auto \<longrightarrow> po_hook_decision p \<in> {Some ''deny'', Some ''ask_user''}) \<and>
     (mode = Robot \<longrightarrow> po_hook_decision p = Some ''deny'')"

lemma policy_fits: "fits mode (policy mode cov u attempts steps age)"
  by (cases mode) (auto simp: fits_def policy_def safe_blocked_def)

lemma sticky_fits: "sticky_resolution mode s = Some p \<Longrightarrow> fits mode p"
  by (cases mode) (auto simp: fits_def sticky_resolution_def safe_blocked_def split: if_splits)

lemma label_quarantined: "gate_state_label s = ''quarantined'' \<longleftrightarrow> s = Quarantined"
  by (cases s) simp_all

text \<open>What is promised of an answer \<open>r\<close> and the world \<open>w\<close> after it.\<close>

definition promised :: "Mode \<Rightarrow> string \<Rightarrow> json option \<Rightarrow> gate_world \<Rightarrow> bool" where
  "promised mode key r w \<longleftrightarrow>
     (\<forall>d. r = Some d \<longrightarrow>
        mode \<noteq> Manual \<and>
        (get_str d ''decision'' = Some ''deny'' \<or> mode = Auto \<and> get_str d ''decision'' = Some ''ask_user'') \<and>
        (mode = Robot \<and> get_str d ''gate_state'' = Some ''quarantined'' \<longrightarrow>
           terminal_turn_is_blocked key w))"

lemma promised_answer:
  assumes "fits mode p" "mode = Robot \<Longrightarrow> po_state p = Quarantined \<Longrightarrow> terminal_turn_is_blocked key w"
  shows "promised mode key (make_hook_decision p) w"
  using assms
  by (cases mode) (auto simp: promised_def make_hook_decision_def fits_def json_simps label_quarantined)

lemma promised_None: "promised mode key None w"
  by (simp add: promised_def)

lemma marked: "terminal_turn_is_blocked key (mark_terminal_turn E key w)"
  by (simp add: terminal_turn_is_blocked_def mark_terminal_turn_def Let_def)

lemma evaluate_policy: "answers (fits mode) (evaluate_gate E mode cwd sid mat na lo cov u obs previous)"
  unfolding evaluate_gate_def policy_of_def Let_def by (intro gate_rules policy_fits)

lemma gbind_after_answers:
  "answers P m \<Longrightarrow> (\<And>x. P x \<Longrightarrow> after Q (f x)) \<Longrightarrow> after Q (gbind m f)"
  unfolding after_def gbind_def answers_def
  by (auto split: prod.splits option.splits) (metis fst_conv)

lemma sticky_promised:
  "sticky_resolution mode s = Some p \<Longrightarrow> after (promised mode key) (answer_sticky E mode key p)"
  unfolding answer_sticky_def
  by (intro modify_after promised_answer) (auto simp: marked sticky_fits)

lemma unknown_promised:
  "after (promised mode (terminal_key payload)) (pre_unknown E mode payload a)"
  unfolding pre_unknown_def Let_def
  by (intro gbind_after option_after sticky_promised gok_after promised_None
      gbind_after_answers [OF evaluate_policy] modify_after promised_answer)
     (auto simp: marked)

lemma proved_promised:
  "after (promised mode (terminal_key payload)) (pre_proved E mode payload a t lo mat ledger cov)"
  unfolding pre_proved_def Let_def
  by (intro option_after gok_after promised_None gbind_after
      gbind_after_answers [OF evaluate_policy] modify_after promised_answer)
     (auto simp: marked)

lemma known_promised:
  "after (promised mode (terminal_key payload)) (pre_known E mode payload a)"
proof -
  have "after Q (case p of ClearOnce \<Rightarrow> m | Evaluate c \<Rightarrow> k c)"
    if "after Q m" "\<And>c. after Q (k c)" for Q p and m :: "json option gate_op" and k
    using that by (cases p) simp_all
  note plan = this
  show ?thesis
    unfolding pre_known_def Let_def
    by (intro gbind_after option_after sticky_promised gok_after promised_None plan
        gthen_after proved_promised)
qed

lemma fst_someD: "fst (m w) = Some x \<Longrightarrow> after Q m \<Longrightarrow> Q x (snd (m w))"
  unfolding after_def by (metis prod.collapse)

lemma pre_tool_promised:
  "after (promised (resolve cfg (Some (session_id payload)) (cwd_alias (payload_cwd payload)) (ge_now E))
     (terminal_key payload)) (pre_tool E cfg payload)"
proof -
  have guard: "after Q (\<lambda>w. if b w then (Some x, w) else if c then m w else k w)"
    if "\<And>w. b w \<Longrightarrow> Q x w" "after Q m" "after Q k"
    for Q b c and x :: "json option" and m k :: "json option gate_op"
    using that unfolding after_def by auto
  show ?thesis
    unfolding pre_tool_def Let_def
    by (intro if_after gthen_after gok_after promised_None guard unknown_promised known_promised
        promised_answer) (auto simp: fits_def safe_blocked_def)
qed

text \<open>Operations that leave the terminal turns alone, and those that only add to them.\<close>

definition quiet :: "'a gate_op \<Rightarrow> bool" where
  "quiet m \<longleftrightarrow> (\<forall>w. gw_terminal (snd (m w)) = gw_terminal w)"

definition grows :: "'a gate_op \<Rightarrow> bool" where
  "grows m \<longleftrightarrow> (\<forall>w. length (gw_terminal w) < 512 \<longrightarrow>
     set (gw_terminal w) \<subseteq> set (gw_terminal (snd (m w))))"

named_theorems quiet_rules "introduction rules for quiet and grows"

lemma quiet_gbind [quiet_rules]: "quiet m \<Longrightarrow> (\<And>x. quiet (f x)) \<Longrightarrow> quiet (gbind m f)"
  unfolding quiet_def gbind_def by (auto split: prod.split option.split) (metis snd_conv)+

lemma quiet_gthen [quiet_rules]: "quiet m \<Longrightarrow> quiet k \<Longrightarrow> quiet (gthen m k)"
  by (simp add: gthen_def quiet_gbind)

lemma quiet_gok [quiet_rules]: "quiet (gok x)"
  by (simp add: quiet_def gok_def)

lemma quiet_stores [quiet_rules]: "quiet (on_stores f)"
  by (simp add: quiet_def on_stores_def split: prod.split)

lemma quiet_read [quiet_rules]: "quiet (read_gate E cwd sid mat)"
  by (simp add: read_gate_def quiet_stores)

lemma quiet_drop [quiet_rules]: "quiet (gmodify (drop_lease sid))"
  by (simp add: quiet_def gmodify_def drop_lease_def)

lemma quiet_lease [quiet_rules]:
  "quiet (trace_gate E sid l)" "quiet (lease_probe E sid l sig)" "quiet (lease_resolve E sid l s d)"
  unfolding trace_gate_def lease_probe_def lease_resolve_def by (intro quiet_rules)+

lemma grows_quiet: "quiet m \<Longrightarrow> grows m"
  by (simp add: quiet_def grows_def)

lemma grows_after [quiet_rules]: "quiet m \<Longrightarrow> (\<And>x. grows (f x)) \<Longrightarrow> grows (gbind m f)"
  unfolding quiet_def grows_def gbind_def
  by (auto split: prod.split option.split) (metis snd_conv subset_iff)+

lemma grows_then: "quiet m \<Longrightarrow> grows k \<Longrightarrow> grows (gthen m k)"
  by (simp add: gthen_def grows_after)

lemma grows_before: "grows m \<Longrightarrow> quiet k \<Longrightarrow> grows (gthen m k)"
  unfolding quiet_def grows_def gthen_def gbind_def
  by (auto split: prod.split option.split) (metis snd_conv subset_iff)+

lemma grows_mark: "grows (gmodify (mark_terminal_turn E key))"
  by (auto simp: grows_def gmodify_def mark_terminal_turn_def Let_def)

lemma grows_quarantine: "grows (lease_quarantine E sid l)"
  unfolding lease_quarantine_def
  by (intro grows_then grows_before grows_mark quiet_rules)

lemma grows_run: "grows (run_lease E sid l)"
proof -
  have "grows (case x of ProbePresent \<Rightarrow> a | ProbeAbsent \<Rightarrow> b | ProbeUnavailable \<Rightarrow> c)"
    if "grows a" "grows b" "grows c" for x and a b c :: "unit gate_op"
    using that by (cases x) simp_all
  note outcome = this
  have pick: "grows (case x of None \<Rightarrow> a | Some t \<Rightarrow> b t)"
    if "grows a" "\<And>t. grows (b t)" for x :: "string option" and a and b :: "string \<Rightarrow> unit gate_op"
    using that by (cases x) simp_all
  have either: "grows (if x then a else b)" if "grows a" "grows b" for x and a b :: "unit gate_op"
    using that by simp
  have quiets: "grows (gthen (lease_resolve E sid l s d) (trace_gate E sid l))"
    "grows (gthen (lease_probe E sid l sig) (gthen (on_stores f) (trace_gate E sid l)))" for s d sig f
    by (intro grows_quiet quiet_rules)+
  show ?thesis unfolding run_lease_def
    by (intro either pick grows_then grows_after outcome grows_quarantine quiets quiet_rules)
qed

lemma grows_advance: "grows (advance_robot_probe E sid)"
proof -
  have "grows (\<lambda>w. case map_of (gw_leases w) sid of None \<Rightarrow> (Some (), w) | Some l \<Rightarrow> f l w)"
    if "\<And>l. grows (f l)" for f :: "robot_probe_lease \<Rightarrow> unit gate_op"
    using that by (auto simp: grows_def split: option.split)
  note rule = this
  have body: "grows (case g of None \<Rightarrow> gmodify (drop_lease sid) | Some r \<Rightarrow>
      if \<not> waiting (gr_state r) then gmodify (drop_lease sid)
      else if \<not> rl_target_probe_delivered l then gok ()
      else gthen (run_lease E sid l) (gmodify (drop_lease sid)))" for g l
    using grows_before [OF grows_run quiet_drop] grows_quiet [OF quiet_drop] grows_quiet [OF quiet_gok [of "()"]]
    by (simp split: option.split)
  show ?thesis unfolding advance_robot_probe_def
    by (intro rule grows_after body quiet_rules)
qed

text \<open>A tool use of the robot that the controller looks at.\<close>

definition robot_mutation :: "gate_env \<Rightarrow> automation_config \<Rightarrow> json \<Rightarrow> bool" where
  "robot_mutation E cfg payload \<longleftrightarrow>
     sm_enabled (ac_smart cfg) \<and> sm_gate (ac_smart cfg) \<and> \<not> is_relay_control_plane payload \<and>
     resolve cfg (Some (session_id payload)) (cwd_alias (payload_cwd payload)) (ge_now E) = Robot \<and>
     \<not> shadow_segmented E (classify (ge_exists E) payload) \<and>
     ea_effect (classify (ge_exists E) payload) \<noteq> ReadOnly"

lemma blocked_turn_denied:
  assumes "robot_mutation E cfg payload" "terminal_turn_is_blocked (terminal_key payload) w"
    "length (gw_terminal w) < 512"
  shows "fst (pre_tool E cfg payload w) \<in> {None, Some (make_hook_decision (safe_blocked ''turn: stop now''))}"
proof -
  obtain r v where run: "advance_robot_probe E (session_id payload) w = (r, v)" by fastforce
  have "terminal_turn_is_blocked (terminal_key payload) v"
    using grows_advance [of E "session_id payload"] assms(2,3) run
    by (auto simp: grows_def terminal_turn_is_blocked_def) (metis snd_conv subsetD)
  with assms(1) run show ?thesis
    by (cases r) (simp_all add: robot_mutation_def pre_tool_def Let_def gthen_def gbind_def)
qed

section \<open>Recorded evaluations\<close>

lemma policy_gives_up:
  "mode = Robot \<Longrightarrow> 3 < attempts \<Longrightarrow>
   po_state (policy mode cov u attempts steps age) \<in> {Quarantined, RejectedPresent}"
  by (auto simp: policy_def safe_blocked_def AUTO_PROBE_LIMIT_def)

lemma policy_of_resolved [simp]:
  "policy_of E mode cov u (resolved_gate now s d r) = policy_of E mode cov u r"
  by (simp add: policy_of_def resolved_gate_def)

lemma resolved_fields [simp]:
  "gr_state (resolved_gate now s d g) = s" "gr_decision (resolved_gate now s d g) = d"
  "gr_attempts (resolved_gate now s d g) = gr_attempts g"
  by (simp_all add: resolved_gate_def)

lemma evaluate_recorded:
  assumes w: "world_ok w"
    and run: "evaluate_gate E mode cwd sid mat na lo cov u obs previous w = (Some q, w')"
  shows "\<exists>r. gate_for_action (ge_fs E) (ge_digest E) cwd sid mat (gw_stores w') = Some (Some r) \<and>
    gr_state r = po_state q \<and> gr_decision r = po_decision q \<and> q = policy_of E mode cov u r"
proof -
  let ?fs = "ge_fs E" and ?dg = "ge_digest E" and ?now = "ge_now E"
  let ?p = "provisional_policy E mode cov u previous"
  obtain x st where rec: "record_gate ?fs ?dg ?now cwd sid mat na lo (po_state ?p) (po_decision ?p)
      obs (gw_stores w) = (x, st)" by fastforce
  with run obtain r where r: "x = Some r"
    by (cases x) (auto simp: evaluate_gate_def Let_def gbind_def on_stores_def)
  have ok: "stores_ok (gw_stores w)" using w by (simp add: world_ok_def)
  note found = record_gate_found [OF ok rec [unfolded r]]
  have ok': "stores_ok st"
    using record_gate_ok [OF ok, of ?fs ?dg ?now cwd sid mat na lo "po_state ?p" "po_decision ?p" obs]
      rec by simp
  let ?q = "policy_of E mode cov u r"
  show ?thesis
  proof (cases "gr_state r \<noteq> po_state ?q \<or> gr_decision r \<noteq> po_decision ?q")
    case True
    let ?set = "set_gate_resolution ?fs ?dg ?now cwd sid mat (po_state ?q) (po_decision ?q) st"
    have "q = ?q \<and> gw_stores w' = snd ?set"
      using run rec r True
      by (cases ?set; cases "fst ?set")
         (auto simp: evaluate_gate_def Let_def gbind_def gthen_def gok_def on_stores_def)
    then show ?thesis
      using edit_gate_found [OF ok' found [THEN conjunct1] tame_simple(1)]
      by (simp add: set_gate_resolution_def)
  next
    case False
    then have "q = ?q \<and> gw_stores w' = st"
      using run rec r by (auto simp: evaluate_gate_def Let_def gbind_def gok_def on_stores_def)
    with False found show ?thesis by auto
  qed
qed

lemma found_gate_ok:
  assumes "gate_for_action fs dg cwd sid mat st = Some (Some r)" "stores_ok st"
  shows "gate_ok r"
proof -
  obtain repo where "canonical_repo fs cwd = Some repo"
    using assms(1) by (auto simp: gate_for_action_def)
  with assms(1) have "r \<in> set (st_gates (get_store (repo_digest dg repo) st))"
    using find_someD by (fastforce simp: gate_for_action_def find_last_def)
  then show ?thesis
    using get_store_ok [OF assms(2), of "repo_digest dg repo"] by (auto simp: gates_ok_def list_all_iff)
qed

section \<open>Properties\<close>

text \<open>
  C2. The gate only ever holds a tool use: an answer of \<open>pre_tool\<close> is a denial or, in Auto only, a
  question to the user, and it never allows anything. In Manual it never answers at all, in Robot it
  never asks the user, and an answer that quarantines in Robot has ended the turn: the turn is
  marked in the world left behind.
\<close>

theorem gate_only_holds:
  assumes "fst (pre_tool E cfg payload w) = Some (Some d)"
    "mode = resolve cfg (Some (session_id payload)) (cwd_alias (payload_cwd payload)) (ge_now E)"
  shows "mode \<noteq> Manual \<and>
    (get_str d ''decision'' = Some ''deny'' \<or> mode = Auto \<and> get_str d ''decision'' = Some ''ask_user'') \<and>
    (mode = Robot \<and> get_str d ''gate_state'' = Some ''quarantined'' \<longrightarrow>
       terminal_turn_is_blocked (terminal_key payload) (snd (pre_tool E cfg payload w)))"
  using fst_someD [where m = "pre_tool E cfg payload", OF assms(1) pre_tool_promised] assms(2)
  by (simp add: promised_def)


text \<open>
  C19. What a gate was evaluated to is what the store says of the action afterwards: looking it up
  gives one record, with the state and decision of the answer, and the answer is the policy applied
  to that record, even where the provisional policy differed. In Robot the attempts are bounded: with
  more than three distinct tool uses recorded the gate is quarantined or rejected.
\<close>

theorem evaluation_is_recorded:
  assumes "world_ok w"
    "evaluate_gate E mode cwd sid mat na lo cov u obs previous w = (Some q, w')"
  shows "\<exists>r. gate_for_action (ge_fs E) (ge_digest E) cwd sid mat (gw_stores w') = Some (Some r) \<and>
    gr_state r = po_state q \<and> gr_decision r = po_decision q \<and> q = policy_of E mode cov u r \<and>
    (mode = Robot \<and> 3 < length (gr_native_identity_digests r) \<longrightarrow>
       po_state q \<in> {Quarantined, RejectedPresent})"
proof -
  obtain r where r: "gate_for_action (ge_fs E) (ge_digest E) cwd sid mat (gw_stores w') = Some (Some r)"
    "gr_state r = po_state q" "gr_decision r = po_decision q" "q = policy_of E mode cov u r"
    using evaluate_recorded [OF assms] by blast
  have "world_ok w'"
    using evaluate_keeps [of E mode cwd sid mat na lo cov u obs previous] assms
    by (auto simp: keeps_def)
  then have "gate_ok r" using found_gate_ok r(1) by (auto simp: world_ok_def)
  then have "3 < length (gr_native_identity_digests r) \<Longrightarrow> 3 < gr_attempts r"
    by (simp add: gate_ok_def word_less_nat_alt)
  with r policy_gives_up show ?thesis by (auto simp: policy_of_def)
qed

text \<open>
  A clearance is used once: after the gate has cleared an action because its target is absent,
  the same action in the same state of the files is not cleared again; its coverage counts as stale
  and the mutation has to be proved.
\<close>

theorem clearance_is_one_shot:
  assumes "stores_ok st"
    "record_gate fs dg now cwd sid mat na lo ClearedAbsent DeferToBase obs st = (Some r, st')"
  shows "\<exists>g. gate_for_action fs dg cwd sid mat st' = Some (Some g) \<and>
    coverage_plan AbsentFresh (Some (gr_state g, gr_clearance_consumed g)) = Evaluate StaleCoverage"
proof -
  obtain repo where "canonical_repo fs cwd = Some repo"
    using assms(2) by (cases "canonical_repo fs cwd") (auto simp: record_gate_def)
  then have "gr_clearance_consumed r"
    using assms(2)
    by (auto simp: record_gate_store Let_def retried_gate_def opened_gate_def split: option.splits)
  then show ?thesis
    using record_gate_found [OF assms] by (auto simp: coverage_plan_def)
qed

text \<open>
  Whatever hooks, deliveries and controller turns come in, the controller keeps at most 256
  leases, one per session, and at most 512 terminal turns, and every repository's gates keep their
  exact budgets.
\<close>

theorem controller_stays_bounded:
  "length (gw_leases (fold gate_step es world_empty)) \<le> 256 \<and>
   distinct (map fst (gw_leases (fold gate_step es world_empty))) \<and>
   length (gw_terminal (fold gate_step es world_empty)) \<le> 512 \<and>
   distinct (gw_terminal (fold gate_step es world_empty)) \<and>
   stores_ok (gw_stores (fold gate_step es world_empty))"
  using gate_controller.run_inv [OF world_empty_ok, of es] by (simp add: world_ok_def hm_ok_def)

section \<open>Witnesses\<close>

definition demo_gate_env :: gate_env where
  "demo_gate_env =
     \<lparr>ge_fs = demo_fs, ge_digest = (\<lambda>d v. v), ge_now = 0, ge_exists = (\<lambda>_. False),
      ge_print = (\<lambda>_. []), ge_lower = id, ge_ledger = (\<lambda>_. None), ge_pins = (\<lambda>_. []),
      ge_enforced = False, ge_first = (\<lambda>_. 0)\<rparr>"

definition demo_config :: automation_config where
  "demo_config = (automation_default True)\<lparr>ac_default := Robot,
     ac_smart := (smart_default True)\<lparr>sm_enabled := True, sm_gate := True\<rparr>\<rparr>"

definition demo_write :: json where
  "demo_write = JObject [(''cwd'', JString ''/''), (''session_id'', JString ''s''),
     (''turn_id'', JString ''t''),
     (''tool_input'', JObject [(''content'', JString ''c''), (''file_path'', JString ''x'')])]"

definition demo_blocked :: gate_world where
  "demo_blocked = world_empty\<lparr>gw_terminal := [terminal_key demo_write]\<rparr>"

lemma demo_robot:
  "resolve demo_config (Some (session_id demo_write)) (cwd_alias (payload_cwd demo_write)) (ge_now demo_gate_env) =
   Robot"
  by code_simp

lemma demo_mutation: "robot_mutation demo_gate_env demo_config demo_write"
  by code_simp

lemma demo_denied:
  "pre_tool demo_gate_env demo_config demo_write demo_blocked =
   (Some (make_hook_decision (safe_blocked ''turn: stop now'')), demo_blocked)"
  by code_simp

lemma demo_answer:
  "make_hook_decision (safe_blocked what) = Some (JObject [(''decision'', JString ''deny''),
     (''gate_state'', JString ''quarantined''), (''reason'', JString (po_reason (safe_blocked what)))])"
  by (simp add: make_hook_decision_def safe_blocked_def)

theorem gate_only_holds_witness:
  "terminal_turn_is_blocked (terminal_key demo_write)
     (snd (pre_tool demo_gate_env demo_config demo_write demo_blocked))"
  using gate_only_holds [of demo_gate_env demo_config demo_write demo_blocked, OF _ demo_robot [symmetric]]
  by (simp add: demo_denied demo_answer json_simps)


lemma demo_evaluation:
  "fst (evaluate_gate demo_gate_env Robot ''/'' ''s'' ''a'' ''n'' None Missing False [] None world_empty) =
   Some (policy Robot Missing False 1 0 0)"
  by code_simp

theorem evaluation_is_recorded_witness:
  "\<exists>r. gate_for_action demo_fs (\<lambda>d v. v) ''/'' ''s'' ''a''
      (gw_stores (snd (evaluate_gate demo_gate_env Robot ''/'' ''s'' ''a'' ''n'' None Missing False []
        None world_empty))) = Some (Some r) \<and> gr_state r = TargetProbe"
  using evaluation_is_recorded [OF world_empty_ok, of demo_gate_env Robot "''/''" "''s''" "''a''" "''n''"
    None Missing False "[]" None] demo_evaluation
  by (cases "evaluate_gate demo_gate_env Robot ''/'' ''s'' ''a'' ''n'' None Missing False [] None world_empty")
     (auto simp: demo_gate_env_def policy_def AUTO_PROBE_LIMIT_def)

lemma demo_clearance:
  "fst (record_gate demo_fs (\<lambda>d v. v) 0 ''/'' ''s'' ''a'' ''n'' None ClearedAbsent DeferToBase [] []) =
   Some (opened_gate 0 ''s'' ''a'' None ''n'' ClearedAbsent DeferToBase [])"
  by code_simp

theorem clearance_is_one_shot_witness:
  "\<exists>g. gate_for_action demo_fs (\<lambda>d v. v) ''/'' ''s'' ''a''
      (snd (record_gate demo_fs (\<lambda>d v. v) 0 ''/'' ''s'' ''a'' ''n'' None ClearedAbsent DeferToBase [] [])) =
      Some (Some g) \<and>
    coverage_plan AbsentFresh (Some (gr_state g, gr_clearance_consumed g)) = Evaluate StaleCoverage"
  using clearance_is_one_shot [OF stores_ok_Nil, of demo_fs "\<lambda>d v. v" 0 "''/''" "''s''" "''a''"
    "''n''" None "[]"] demo_clearance
  by (cases "record_gate demo_fs (\<lambda>d v. v) 0 ''/'' ''s'' ''a'' ''n'' None ClearedAbsent DeferToBase [] []")
     auto

end
