(* ===== verification/Ingress.thy ===== *)
theory Ingress
  imports Gate_Controller Permission
begin

text \<open>
  The hooks' entry (\<open>crates/relay-agent/src/ingress.rs\<close>): one decision for every tool call, from the
  gate, the dangerous patterns and the mode, given to every connection that asks for it, and the wait
  for the operator's answer. A connection is one step until it is answered or waits; its answer comes
  with the operator's press or with the timeout, which are steps of their own. The Telegram sends,
  the JSON reader, the configuration and the machine's name are in the environment; the log of
  decisions is left out. It is the place where gate, permissions, holds and buttons meet.
\<close>

section \<open>State\<close>

text \<open>
  A hook that waits for the operator: the tool call it is about, the connection that asked, and the
  cards that were sent. A tool call is either being decided, with the connections that wait for the
  same decision, or decided at some time.
\<close>

record hook_wait =
  hw_identity :: string
  hw_caller :: nat
  hw_cards :: "card_ref list"

datatype hook_state = PendingHook "nat list" | CompleteHook json i64

record ingress =
  ig_gate :: gate_world
  ig_perm :: perm_state
  ig_counter :: u64
  ig_pending :: "(string \<times> hook_wait) list"
  ig_hooks :: "(string \<times> hook_state) list"

record ingress_env =
  ie_gate :: gate_env
  ie_config :: automation_config
  ie_danger_file :: "string option"
  ie_digest :: "string \<Rightarrow> string"
  ie_machine :: string
  ie_telegram :: bool
  ie_recipients :: "int list"
  ie_send :: "int \<Rightarrow> int option"
  ie_instant :: nat
  ie_parse :: "string \<Rightarrow> json option"

abbreviation ie_now :: "ingress_env \<Rightarrow> i64" where
  "ie_now env \<equiv> ge_now (ie_gate env)"

abbreviation ie_lower :: "ingress_env \<Rightarrow> string \<Rightarrow> string" where
  "ie_lower env \<equiv> ge_lower (ie_gate env)"

datatype ingress_effect = SendTo int string "json option" | EditCard card_ref string

text \<open>A decision, or the identifier of the request the operator has to answer.\<close>

datatype hook_outcome = Reply json | Waiting string

section \<open>Texts\<close>

definition DOT :: string where "DOT = [CHR 0xC2, CHR 0xB7]"
definition SHIELD :: string where "SHIELD = [CHR 0xF0, CHR 0x9F, CHR 0x9B, CHR 0xA1]"
definition FOLDER :: string where "FOLDER = [CHR 0xF0, CHR 0x9F, CHR 0x93, CHR 0x81]"
definition SCALES :: string where
  "SCALES = [CHR 0xE2, CHR 0x9A, CHR 0x96, CHR 0xEF, CHR 0xB8, CHR 0x8F]"
definition LENS :: string where "LENS = [CHR 0xF0, CHR 0x9F, CHR 0x94, CHR 0x8E]"
definition RED :: string where "RED = [CHR 0xF0, CHR 0x9F, CHR 0x94, CHR 0xB4]"
definition BELL :: string where "BELL = [CHR 0xF0, CHR 0x9F, CHR 0x94, CHR 0x94]"
definition EYE :: string where "EYE = [CHR 0xF0, CHR 0x9F, CHR 0x91, CHR 0x81]"
definition TIMER :: string where "TIMER = [CHR 0xE2, CHR 0x8F, CHR 0xB1]"

definition hook_json :: "string \<Rightarrow> string \<Rightarrow> json" where
  "hook_json decision reason = JObject [(''decision'', JString decision), (''reason'', JString reason)]"

definition ask_json :: json where
  "ask_json = JObject [(''decision'', JString ''ask'')]"

definition basename :: "string \<Rightarrow> string" where
  "basename p = unwrap_or p (file_name p)"

definition dangerous_guard_nudge :: "string \<Rightarrow> string option \<Rightarrow> string" where
  "dangerous_guard_nudge tool target =
     (let what = (case target of Some t \<Rightarrow> '' ('' @ truncate_chars t 200 @ '')'' | None \<Rightarrow> [])
      in ''Auto-guard blocked a dangerous '' @ tool @ what @ ''. Do not run it - it is destructive or irreversible. Reach the goal a safer, reversible way; if it is genuinely required, stop and explain to the user why it is needed instead of running it.'')"

definition guard_note :: "ingress_env \<Rightarrow> string \<Rightarrow> string \<Rightarrow> string option \<Rightarrow> string" where
  "guard_note env alias tool target =
     SHIELD @ '' <b>Blocked dangerous</b> '' @ DOT @ '' <b>'' @ esc_html (ie_machine env) @ ''</b>'' @
     NL # FOLDER @ '' <code>'' @ esc_html alias @ ''</code>'' @
     NL # ROBOT @ '' '' @ esc_html tool @ '' <code>'' @ esc_html (unwrap_or [] target) @ ''</code>'' @
     NL # ''<i>auto-guard nudged the agent to a safe path</i>''"

definition permission_text ::
  "ingress_env \<Rightarrow> string \<Rightarrow> string \<Rightarrow> string option \<Rightarrow> bool \<Rightarrow> string option \<Rightarrow> string option \<Rightarrow> string" where
  "permission_text env alias tool target danger reason pattern =
     RED @ '' '' @ (if danger then STOP @ '' <b>DANGEROUS</b> '' else []) @ ''permission '' @ DOT @ '' '' @
     esc_html (ie_machine env) @
     NL # FOLDER @ '' <code>'' @ esc_html alias @ ''</code>'' @
     NL # ROBOT @ '' '' @ esc_html tool @ '' <code>'' @ esc_html (unwrap_or [] target) @ ''</code>'' @
     (case reason of Some r \<Rightarrow> NL # SCALES @ '' <i>'' @ esc_html r @ ''</i>'' | None \<Rightarrow> []) @
     (case pattern of
        Some p \<Rightarrow> NL # LENS @ '' <i>matched</i> <code>'' @ esc_html p @ ''</code>'' | None \<Rightarrow> [])"

section \<open>Deciding a tool use\<close>

definition autonomous_danger_decision ::
  "automation_config \<Rightarrow> string option \<Rightarrow> string \<Rightarrow> bool \<Rightarrow> i64 \<Rightarrow> json option" where
  "autonomous_danger_decision cfg sid alias danger now =
     (if danger \<and> resolve cfg sid alias now = Robot
      then Some (hook_json ''deny'' ''Robot safety policy denied this destructive action; replan with a non-destructive alternative and do not ask the user'')
      else None)"

definition fail_open_gate :: "json option option \<Rightarrow> json option" where
  "fail_open_gate r = (case r of Some d \<Rightarrow> d | None \<Rightarrow> None)"

definition set_store :: "cb_store \<Rightarrow> ingress \<Rightarrow> ingress" where
  "set_store cb s = s\<lparr>ig_perm := (ig_perm s)\<lparr>pm_store := cb\<rparr>\<rparr>"

definition hook_cards :: "ingress_env \<Rightarrow> card_ref list" where
  "hook_cards env =
     concat (map (\<lambda>chat. case ie_send env chat of Some mid \<Rightarrow> [(chat, mid)] | None \<Rightarrow> [])
       (ie_recipients env))"

text \<open>The first half of \<open>forward_permission_and_wait\<close>, until it waits.\<close>

definition forward_permission ::
  "ingress_env \<Rightarrow> string \<Rightarrow> nat \<Rightarrow> string \<Rightarrow> string \<Rightarrow> string option \<Rightarrow> bool \<Rightarrow> string option \<Rightarrow>
   string option \<Rightarrow> ingress \<Rightarrow> hook_outcome \<times> ingress_effect list \<times> ingress" where
  "forward_permission env identity caller alias tool target danger reason pattern s =
     (if \<not> ie_telegram env \<or> ie_recipients env = [] then (Reply ask_json, [], s)
      else let (reqid, counter) = next_request_id (ig_counter s);
               (kb, cb) = keyboard [[(CHECK @ '' Approve'', ''approve|'' @ reqid),
                                     (STOP @ '' Deny'', ''deny|'' @ reqid)]] (pm_store (ig_perm s));
               text = permission_text env alias tool target danger reason pattern;
               wait = \<lparr>hw_identity = identity, hw_caller = caller, hw_cards = hook_cards env\<rparr>
           in (Waiting reqid, map (\<lambda>chat. SendTo chat text (Some kb)) (ie_recipients env),
               set_store cb (s\<lparr>ig_counter := counter,
                               ig_pending := AList.update reqid wait (ig_pending s)\<rparr>)))"

definition after_gate ::
  "ingress_env \<Rightarrow> string \<Rightarrow> nat \<Rightarrow> json \<Rightarrow> json \<Rightarrow> ingress \<Rightarrow>
   hook_outcome \<times> ingress_effect list \<times> ingress" where
  "after_gate env identity caller payload decision s =
     (let (tool, target, cwd) = tool_summary payload; alias = basename cwd;
          pattern = matched_danger (ie_lower env) (ie_danger_file env) target;
          s1 = s\<lparr>ig_perm := (ig_perm s)\<lparr>pm_held := mark_gate_hold (ie_now env) payload (pm_held (ig_perm s))\<rparr>\<rparr>
      in if get_str decision ''decision'' = Some ''ask_user''
         then forward_permission env identity caller alias tool target (pattern \<noteq> None)
                (get_str decision ''reason'') pattern s1
         else let probing = get_str decision ''gate_state'' \<in> {Some ''target_probe'', Some ''controller_probe''};
                  s2 = (case get_str payload ''session_id'' of
                          Some sid \<Rightarrow> if probing
                                      then s1\<lparr>ig_gate := mark_target_probe_delivered sid (ig_gate s1)\<rparr> else s1
                        | None \<Rightarrow> s1)
              in (Reply decision, [], s2))"

definition base_decision ::
  "ingress_env \<Rightarrow> string \<Rightarrow> nat \<Rightarrow> json \<Rightarrow> ingress \<Rightarrow> hook_outcome \<times> ingress_effect list \<times> ingress" where
  "base_decision env identity caller payload s =
     (let (tool, target, cwd) = tool_summary payload; alias = basename cwd;
          pattern = matched_danger (ie_lower env) (ie_danger_file env) target;
          danger = (pattern \<noteq> None); cfg = ie_config env;
          sid = get_str payload ''session_id'';
          mode = resolve cfg sid alias (ie_now env)
      in case autonomous_danger_decision cfg sid alias danger (ie_now env) of
           Some d \<Rightarrow> (Reply d, [], s)
         | None \<Rightarrow>
             if danger \<and> ar_guard_dangerous (ac_auto cfg) \<and> mode = Auto
             then (Reply (hook_json ''deny'' (dangerous_guard_nudge tool target)),
                   if ie_telegram env
                   then map (\<lambda>chat. SendTo chat (guard_note env alias tool target) None) (ie_recipients env)
                   else [], s)
             else if \<not> danger then (Reply ask_json, [], s)
             else forward_permission env identity caller alias tool target True None pattern s)"

definition decide_pretool_once ::
  "ingress_env \<Rightarrow> string \<Rightarrow> nat \<Rightarrow> json \<Rightarrow> ingress \<Rightarrow> hook_outcome \<times> ingress_effect list \<times> ingress" where
  "decide_pretool_once env identity caller payload s =
     (let (result, w) = pre_tool (ie_gate env) (ie_config env) payload (ig_gate s);
          s1 = s\<lparr>ig_gate := w\<rparr>
      in case fail_open_gate result of
           Some d \<Rightarrow> after_gate env identity caller payload d s1
         | None \<Rightarrow> base_decision env identity caller payload s1)"

section \<open>One decision for every tool call\<close>

type_synonym replies = "(nat \<times> json) list"

definition fresh_hooks :: "i64 \<Rightarrow> (string \<times> hook_state) list \<Rightarrow> (string \<times> hook_state) list" where
  "fresh_hooks now = hm_retain (\<lambda>st. case st of CompleteHook _ at \<Rightarrow> now - at \<le> 130 | PendingHook _ \<Rightarrow> True)"

text \<open>The leader has its decision: it is kept, and given to the leader and to all who wait for it.\<close>

definition finish_hook ::
  "i64 \<Rightarrow> string \<Rightarrow> nat \<Rightarrow> json \<Rightarrow> ingress \<Rightarrow> replies \<times> ingress" where
  "finish_hook now identity caller decision s =
     (let waiters = (case map_of (ig_hooks s) identity of Some (PendingHook ws) \<Rightarrow> ws | _ \<Rightarrow> [])
      in (map (\<lambda>c. (c, decision)) (waiters @ [caller]),
          s\<lparr>ig_hooks := AList.update identity (CompleteHook decision now) (ig_hooks s)\<rparr>))"

definition decide_pretool ::
  "ingress_env \<Rightarrow> nat \<Rightarrow> json \<Rightarrow> ingress \<Rightarrow> replies \<times> ingress_effect list \<times> ingress" where
  "decide_pretool env caller payload s =
     (let identity = native_identity_digest (ie_digest env) (ge_print (ie_gate env)) payload;
          hooks = fresh_hooks (ie_now env) (ig_hooks s)
      in case map_of hooks identity of
           Some (CompleteHook d _) \<Rightarrow> ([(caller, d)], [], s\<lparr>ig_hooks := hooks\<rparr>)
         | Some (PendingHook ws) \<Rightarrow>
             ([], [], s\<lparr>ig_hooks := AList.update identity (PendingHook (ws @ [caller])) hooks\<rparr>)
         | None \<Rightarrow>
             (case decide_pretool_once env identity caller payload
                     (s\<lparr>ig_hooks := AList.update identity (PendingHook []) hooks\<rparr>) of
                (Reply d, fx, s1) \<Rightarrow>
                  (let (replies, s2) = finish_hook (ie_now env) identity caller d s1
                   in (replies, fx, s2))
              | (Waiting _, fx, s1) \<Rightarrow> ([], fx, s1)))"

text \<open>An operator's press on a card (\<open>resolve\<close>), and the end of the 110 seconds.\<close>

definition resolve_hook :: "i64 \<Rightarrow> string \<Rightarrow> bool \<Rightarrow> ingress \<Rightarrow> bool \<times> replies \<times> ingress" where
  "resolve_hook now reqid allow s =
     (case map_of (ig_pending s) reqid of
        None \<Rightarrow> (False, [], s)
      | Some w \<Rightarrow>
          (let d = (if allow then hook_json ''allow'' ''approved via Telegram''
                    else hook_json ''deny'' ''denied via Telegram'');
               (replies, s1) = finish_hook now (hw_identity w) (hw_caller w) d
                 (s\<lparr>ig_pending := AList.delete reqid (ig_pending s)\<rparr>)
           in (True, replies, s1)))"

definition hook_timeout :: "i64 \<Rightarrow> string \<Rightarrow> ingress \<Rightarrow> replies \<times> ingress_effect list \<times> ingress" where
  "hook_timeout now reqid s =
     (case map_of (ig_pending s) reqid of
        None \<Rightarrow> ([], [], s)
      | Some w \<Rightarrow>
          (let (replies, s1) = finish_hook now (hw_identity w) (hw_caller w)
                 (hook_json ''ask'' ''no Telegram response'')
                 (s\<lparr>ig_pending := AList.delete reqid (ig_pending s)\<rparr>)
           in (replies,
               map (\<lambda>c. EditCard c (TIMER @ '' timed out - answer the prompt in VS Code'')) (hw_cards w),
               s1)))"

section \<open>Notifications\<close>

definition notify_waiting :: "ingress_env \<Rightarrow> string \<Rightarrow> bool" where
  "notify_waiting env msg \<longleftrightarrow>
     contains ''waiting'' (ie_lower env msg) \<or> contains ''permission'' (ie_lower env msg) \<or>
     contains ''input'' (ie_lower env msg)"

definition notify_rows :: "string \<Rightarrow> (string \<times> string) list list" where
  "notify_rows alias =
     [[(CHECK @ '' Yes / Approve'', ''act:ok:'' @ alias),
       (STOP @ '' No / Deny'', ''act:stop:'' @ alias @ '':claude'')],
      [(EYE @ '' Open window'', ''act:focus:'' @ alias)]]"

definition notify :: "ingress_env \<Rightarrow> json \<Rightarrow> ingress \<Rightarrow> ingress_effect list \<times> ingress" where
  "notify env payload s =
     (if \<not> ie_telegram env then ([], s)
      else let msg = unwrap_or ''notification'' (get_str payload ''message'');
               alias = basename (unwrap_or [] (get_str payload ''cwd''));
               text = BELL @ '' <b>'' @ esc_html (ie_machine env) @ ''</b> '' @ DOT @ '' <code>'' @
                      esc_html alias @ ''</code>'' @ NL # esc_html msg
           in if \<not> notify_waiting env msg
              then (map (\<lambda>chat. SendTo chat text None) (ie_recipients env), s)
              else let (live, dd) = has_live_card (ie_instant env) alias (pm_dedup (ig_perm s));
                       s1 = s\<lparr>ig_perm := (ig_perm s)\<lparr>pm_dedup := dd\<rparr>\<rparr>
                   in if live then ([], s1)
                      else let (kb, cb) = keyboard (notify_rows alias) (pm_store (ig_perm s1))
                           in (map (\<lambda>chat. SendTo chat text (Some kb)) (ie_recipients env),
                               set_store cb s1))"

section \<open>Connections and events\<close>

text \<open>A connection of a hook: one line, answered only before a tool use.\<close>

definition handle_conn ::
  "ingress_env \<Rightarrow> nat \<Rightarrow> string \<Rightarrow> ingress \<Rightarrow> replies \<times> ingress_effect list \<times> ingress" where
  "handle_conn env caller line s =
     (case parse_request (ie_parse env) (trim line) of
        None \<Rightarrow> ([], [], s)
      | Some (event, payload) \<Rightarrow>
          if event = ''pre-tool-use'' then decide_pretool env caller payload s
          else if event = ''notification'' then ([], notify env payload s)
          else if event = ''post-tool-use''
          then ([], [], s\<lparr>ig_gate := snd (post_tool (ie_gate env) (ie_config env) payload (ig_gate s))\<rparr>)
          else ([], [], s))"

text \<open>
  What happens to the process: a hook connects, the operator answers a card, the wait for an answer
  ends, or a permission request is made or answered beside the hooks.
\<close>

datatype ingress_event =
    HookLine ingress_env nat string
  | Answer i64 string bool
  | TimedOut i64 string
  | Beside perm_event

definition ingress_do :: "ingress_event \<Rightarrow> ingress \<Rightarrow> replies \<times> ingress_effect list \<times> ingress" where
  "ingress_do e s =
     (case e of
        HookLine env caller line \<Rightarrow> handle_conn env caller line s
      | Answer now reqid allow \<Rightarrow> (let (_, replies, s') = resolve_hook now reqid allow s in (replies, [], s'))
      | TimedOut now reqid \<Rightarrow> hook_timeout now reqid s
      | Beside p \<Rightarrow> ([], [], s\<lparr>ig_perm := perm_step p (ig_perm s)\<rparr>))"

definition ingress_step :: "ingress_event \<Rightarrow> ingress \<Rightarrow> ingress" where
  "ingress_step e s = snd (snd (ingress_do e s))"

fun ingress_replies :: "ingress_event list \<Rightarrow> ingress \<Rightarrow> replies" where
  "ingress_replies [] s = []"
| "ingress_replies (e # es) s = fst (ingress_do e s) @ ingress_replies es (ingress_step e s)"

definition ingress_empty :: "held \<Rightarrow> dedup \<Rightarrow> cb_store \<Rightarrow> ingress" where
  "ingress_empty held dd cb =
     \<lparr>ig_gate = world_empty,
      ig_perm = \<lparr>pm_pending = [], pm_dedup = dd, pm_store = cb, pm_held = held\<rparr>,
      ig_counter = 1, ig_pending = [], ig_hooks = []\<rparr>"

section \<open>Frames\<close>

text \<open>Everything but what the operator's answers and the decisions are about.\<close>

definition same_hooks :: "ingress \<Rightarrow> ingress \<Rightarrow> bool" where
  "same_hooks s t \<longleftrightarrow> ig_counter t = ig_counter s \<and> ig_pending t = ig_pending s \<and> ig_hooks t = ig_hooks s"

lemma same_hooks_refl [simp]: "same_hooks s s"
  by (simp add: same_hooks_def)

text \<open>What became of the leader: it has its decision, or it waits under a new identifier.\<close>

definition led :: "string \<Rightarrow> nat \<Rightarrow> ingress \<Rightarrow> hook_outcome \<Rightarrow> ingress \<Rightarrow> bool" where
  "led i c s out t \<longleftrightarrow>
     (case out of
        Reply d \<Rightarrow> get_str d ''decision'' \<noteq> Some ''allow'' \<and> same_hooks s t
      | Waiting r \<Rightarrow> (\<exists>cards.
          r = fst (next_request_id (ig_counter s)) \<and> ig_counter t = ig_counter s + 1 \<and>
          ig_hooks t = ig_hooks s \<and>
          ig_pending t = AList.update r \<lparr>hw_identity = i, hw_caller = c, hw_cards = cards\<rparr> (ig_pending s)))"

lemma not_allow [simp]:
  "get_str ask_json ''decision'' = Some ''ask''"
  "get_str (hook_json d r) ''decision'' = Some d"
  by (simp_all add: ask_json_def hook_json_def json_simps)

lemma set_store_frame [simp]: "same_hooks s (set_store cb t) = same_hooks s t"
  "ig_counter (set_store cb t) = ig_counter t" "ig_pending (set_store cb t) = ig_pending t"
  "ig_hooks (set_store cb t) = ig_hooks t"
  by (simp_all add: set_store_def same_hooks_def)

lemma led_forward:
  "forward_permission env i c al tool target danger reason pattern s = (out, fx, t) \<Longrightarrow> led i c s out t"
  by (auto simp: forward_permission_def led_def next_request_id_def Let_def case_prod_beta split: if_split_asm)

lemma led_from: "led i c s' out t \<Longrightarrow> same_hooks s s' \<Longrightarrow> led i c s out t"
  by (cases out) (auto simp: led_def same_hooks_def)

lemma led_gate:
  assumes "after_gate env i c payload d s = (out, fx, t)" "get_str d ''decision'' \<noteq> Some ''allow''"
  shows "led i c s out t"
proof (cases "get_str d ''decision'' = Some ''ask_user''")
  case True
  with assms(1) show ?thesis
    by (auto simp: after_gate_def Let_def case_prod_beta same_hooks_def dest!: led_forward intro: led_from)
next
  case False
  with assms show ?thesis
    by (auto simp: after_gate_def Let_def case_prod_beta led_def same_hooks_def split: option.splits if_splits)
qed

lemma led_base: "base_decision env i c payload s = (out, fx, t) \<Longrightarrow> led i c s out t"
  by (auto simp: base_decision_def Let_def case_prod_beta led_def [of _ _ _ "Reply _"] autonomous_danger_decision_def
      split: if_splits dest: led_forward)

lemma led_once:
  assumes "decide_pretool_once env i c payload s = (out, fx, t)"
  shows "led i c s out t"
proof -
  obtain r w where run: "pre_tool (ie_gate env) (ie_config env) payload (ig_gate s) = (r, w)" by fastforce
  let ?s = "s\<lparr>ig_gate := w\<rparr>"
  have same: "same_hooks s ?s" by (simp add: same_hooks_def)
  show ?thesis
  proof (cases "fail_open_gate r")
    case None
    with assms run have "base_decision env i c payload ?s = (out, fx, t)"
      by (simp add: decide_pretool_once_def)
    then show ?thesis using same by (blast intro: led_base led_from)
  next
    case (Some d)
    then have r: "r = Some (Some d)" by (simp add: fail_open_gate_def split: option.splits)
    from pre_tool_promised [of "ie_config env" payload "ie_gate env"] run r
    have "get_str d ''decision'' \<noteq> Some ''allow''"
      by (simp add: after_def promised_def) fastforce
    moreover from assms run Some have "after_gate env i c payload d ?s = (out, fx, t)"
      by (simp add: decide_pretool_once_def)
    ultimately show ?thesis using same by (blast intro: led_gate led_from)
  qed
qed

section \<open>Invariant\<close>

text \<open>
  A hook that waits belongs to a tool call that is being decided, and no two hooks wait for the same
  one.
\<close>

definition ingress_ok :: "ingress \<Rightarrow> bool" where
  "ingress_ok s \<longleftrightarrow>
     hm_ok (ig_pending s) \<and> hm_ok (ig_hooks s) \<and>
     (\<forall>r w. map_of (ig_pending s) r = Some w \<longrightarrow>
        (\<exists>ws. map_of (ig_hooks s) (hw_identity w) = Some (PendingHook ws))) \<and>
     (\<forall>r w r' w'. map_of (ig_pending s) r = Some w \<and> map_of (ig_pending s) r' = Some w' \<and>
        hw_identity w = hw_identity w' \<longrightarrow> r = r')"

text \<open>How a step changes the tool calls and the hooks that wait, seen from outside.\<close>

definition ident :: "ingress_env \<Rightarrow> json \<Rightarrow> string" where
  "ident env payload = native_identity_digest (ie_digest env) (ge_print (ie_gate env)) payload"

lemma fresh_hooks_get: "hm_ok hooks \<Longrightarrow> map_of (fresh_hooks now hooks) i =
   opt_filter (\<lambda>st. case st of CompleteHook _ at \<Rightarrow> now - at \<le> 130 | PendingHook _ \<Rightarrow> True) (map_of hooks i)"
  by (simp add: fresh_hooks_def map_of_retain)

lemma fresh_hooks_ok: "hm_ok hooks \<Longrightarrow> hm_ok (fresh_hooks now hooks)"
  by (simp add: fresh_hooks_def hm_ok_retain)

lemma fresh_hooks_pending: "hm_ok hooks \<Longrightarrow>
  map_of (fresh_hooks now hooks) i = Some (PendingHook ws) \<longleftrightarrow> map_of hooks i = Some (PendingHook ws)"
  by (auto simp: fresh_hooks_get opt_filter_eq_Some)

lemma fresh_hooks_none: "hm_ok hooks \<Longrightarrow> map_of (fresh_hooks now hooks) i = None \<Longrightarrow>
  map_of hooks i \<noteq> Some (PendingHook ws)"
  by (auto simp: fresh_hooks_get)

section \<open>Steps as moves\<close>

text \<open>
  The protocol of a decision. A step either leaves the tool calls alone, replays a decision, joins
  the hooks that wait for one, decides at once (and then allows nothing), asks the operator, or hands
  the answer to all who wait for it.
\<close>

definition calls :: "ingress_event \<Rightarrow> nat \<Rightarrow> string \<Rightarrow> i64 \<Rightarrow> bool" where
  "calls e c i now \<longleftrightarrow>
     (case e of
        HookLine env caller line \<Rightarrow>
          caller = c \<and> ie_now env = now \<and>
          (\<exists>p \<in> set_option (parse_request (ie_parse env) (trim line)).
             fst p = ''pre-tool-use'' \<and> ident env (snd p) = i)
      | _ \<Rightarrow> False)"

definition settles :: "ingress_event \<Rightarrow> string \<Rightarrow> json \<Rightarrow> i64 \<Rightarrow> bool" where
  "settles e r d now \<longleftrightarrow>
     e = Answer now r True \<and> d = hook_json ''allow'' ''approved via Telegram'' \<or>
     e = Answer now r False \<and> d = hook_json ''deny'' ''denied via Telegram'' \<or>
     e = TimedOut now r \<and> d = hook_json ''ask'' ''no Telegram response''"

inductive hook_move :: "ingress_event \<Rightarrow> ingress \<Rightarrow> replies \<Rightarrow> ingress \<Rightarrow> bool" for e s where
  idle: "same_hooks s t \<Longrightarrow> hook_move e s [] t"
| replay: "calls e c i now \<Longrightarrow> map_of (fresh_hooks now (ig_hooks s)) i = Some (CompleteHook d at) \<Longrightarrow>
    ig_pending t = ig_pending s \<Longrightarrow> ig_counter t = ig_counter s \<Longrightarrow>
    ig_hooks t = fresh_hooks now (ig_hooks s) \<Longrightarrow> hook_move e s [(c, d)] t"
| follow: "calls e c i now \<Longrightarrow> map_of (fresh_hooks now (ig_hooks s)) i = Some (PendingHook ws) \<Longrightarrow>
    ig_pending t = ig_pending s \<Longrightarrow> ig_counter t = ig_counter s \<Longrightarrow>
    ig_hooks t = AList.update i (PendingHook (ws @ [c])) (fresh_hooks now (ig_hooks s)) \<Longrightarrow>
    hook_move e s [] t"
| decide: "calls e c i now \<Longrightarrow> map_of (fresh_hooks now (ig_hooks s)) i = None \<Longrightarrow>
    get_str d ''decision'' \<noteq> Some ''allow'' \<Longrightarrow>
    ig_pending t = ig_pending s \<Longrightarrow> ig_counter t = ig_counter s \<Longrightarrow>
    ig_hooks t = AList.update i (CompleteHook d now)
      (AList.update i (PendingHook []) (fresh_hooks now (ig_hooks s))) \<Longrightarrow>
    hook_move e s [(c, d)] t"
| ask: "calls e c i now \<Longrightarrow> map_of (fresh_hooks now (ig_hooks s)) i = None \<Longrightarrow>
    r = fst (next_request_id (ig_counter s)) \<Longrightarrow> ig_counter t = ig_counter s + 1 \<Longrightarrow>
    ig_hooks t = AList.update i (PendingHook []) (fresh_hooks now (ig_hooks s)) \<Longrightarrow>
    ig_pending t =
      AList.update r \<lparr>hw_identity = i, hw_caller = c, hw_cards = cards\<rparr> (ig_pending s) \<Longrightarrow>
    hook_move e s [] t"
| settle: "settles e r d now \<Longrightarrow> map_of (ig_pending s) r = Some w \<Longrightarrow>
    ig_counter t = ig_counter s \<Longrightarrow> ig_pending t = AList.delete r (ig_pending s) \<Longrightarrow>
    rs = fst (finish_hook now (hw_identity w) (hw_caller w) d s) \<Longrightarrow>
    ig_hooks t = AList.update (hw_identity w) (CompleteHook d now) (ig_hooks s) \<Longrightarrow>
    hook_move e s rs t"

lemma notify_frame: "notify env payload s = (fx, t) \<Longrightarrow> same_hooks s t"
  by (auto simp: notify_def Let_def case_prod_beta same_hooks_def split: if_splits)

lemma finish_frame:
  "ig_counter (snd (finish_hook now i c d s)) = ig_counter s"
  "ig_pending (snd (finish_hook now i c d s)) = ig_pending s"
  "ig_hooks (snd (finish_hook now i c d s)) = AList.update i (CompleteHook d now) (ig_hooks s)"
  by (simp_all add: finish_hook_def Let_def)

lemma finish_replies:
  "fst (finish_hook now i c d s) =
     map (\<lambda>x. (x, d)) ((case map_of (ig_hooks s) i of Some (PendingHook ws) \<Rightarrow> ws | _ \<Rightarrow> []) @ [c])"
  by (simp add: finish_hook_def Let_def)

lemma decide_moves:
  assumes "decide_pretool env c p s = (rs, fx, t)" "calls e c (ident env p) (ie_now env)"
  shows "hook_move e s rs t"
proof -
  let ?i = "ident env p" and ?now = "ie_now env"
  let ?hooks = "fresh_hooks ?now (ig_hooks s)"
  let ?s = "s\<lparr>ig_hooks := AList.update ?i (PendingHook []) ?hooks\<rparr>"
  consider (complete) d at where "map_of ?hooks ?i = Some (CompleteHook d at)"
    | (pending) ws where "map_of ?hooks ?i = Some (PendingHook ws)"
    | (fresh) "map_of ?hooks ?i = None"
    by (metis hook_state.exhaust option.exhaust)
  then show ?thesis
  proof cases
    case complete
    with assms show ?thesis
      by (auto simp: decide_pretool_def Let_def ident_def intro: hook_move.replay)
  next
    case pending
    with assms show ?thesis
      by (auto simp: decide_pretool_def Let_def ident_def intro: hook_move.follow)
  next
    case fresh
    obtain out fx' u where once: "decide_pretool_once env ?i c p ?s = (out, fx', u)"
      by (cases "decide_pretool_once env ?i c p ?s") auto
    note led = led_once [OF once]
    show ?thesis
    proof (cases out)
      case (Reply d)
      with led have u: "get_str d ''decision'' \<noteq> Some ''allow''" "same_hooks ?s u"
        by (auto simp: led_def)
      from assms(1) fresh once Reply
      have "rs = fst (finish_hook ?now ?i c d u)" "t = snd (finish_hook ?now ?i c d u)"
        by (auto simp: decide_pretool_def Let_def ident_def case_prod_beta)
      with u assms(2) fresh show ?thesis
        by (auto simp: finish_replies finish_frame same_hooks_def update_conv intro!: hook_move.decide)
    next
      case (Waiting r)
      from assms(1) fresh once Waiting have "rs = []" "t = u"
        by (auto simp: decide_pretool_def Let_def ident_def)
      with led Waiting assms(2) fresh show ?thesis
        by (auto simp: led_def intro: hook_move.ask)
    qed
  qed
qed

lemma conn_moves:
  assumes "handle_conn env c line s = (rs, fx, t)"
  shows "hook_move (HookLine env c line) s rs t"
proof (cases "parse_request (ie_parse env) (trim line)")
  case None
  with assms show ?thesis by (auto simp: handle_conn_def intro: hook_move.idle)
next
  case (Some ev)
  obtain name p where ev: "ev = (name, p)" by fastforce
  show ?thesis
  proof (cases "name = ''pre-tool-use''")
    case True
    with Some ev have "calls (HookLine env c line) c (ident env p) (ie_now env)"
      by (simp add: calls_def)
    with assms Some ev True show ?thesis by (auto simp: handle_conn_def intro: decide_moves)
  next
    case False
    with assms Some ev have "rs = []" "same_hooks s t"
      by (auto simp: handle_conn_def same_hooks_def dest: notify_frame split: if_splits prod.splits)
    then show ?thesis by (auto intro: hook_move.idle)
  qed
qed

lemma settle_moves:
  assumes "settles e r d now" "map_of (ig_pending s) r = Some w"
    "fst (finish_hook now (hw_identity w) (hw_caller w) d (s\<lparr>ig_pending := AList.delete r (ig_pending s)\<rparr>)) = rs"
    "snd (finish_hook now (hw_identity w) (hw_caller w) d (s\<lparr>ig_pending := AList.delete r (ig_pending s)\<rparr>)) = t"
  shows "hook_move e s rs t"
  using assms(3,4)
  by (intro hook_move.settle [OF assms(1,2)]) (auto simp: finish_replies finish_frame)

lemma ingress_moves: "hook_move e s (fst (ingress_do e s)) (snd (snd (ingress_do e s)))"
proof (cases e)
  case (HookLine env c line)
  then show ?thesis by (cases "handle_conn env c line s") (simp add: ingress_do_def conn_moves)
next
  case (Answer now r allow)
  let ?d = "if allow then hook_json ''allow'' ''approved via Telegram'' else hook_json ''deny'' ''denied via Telegram''"
  have settles: "settles e r ?d now" using Answer by (simp add: settles_def)
  show ?thesis
  proof (cases "map_of (ig_pending s) r")
    case None
    then show ?thesis by (simp add: Answer ingress_do_def resolve_hook_def hook_move.idle)
  next
    case (Some w)
    show ?thesis
      by (rule settle_moves [OF settles Some])
         (simp_all add: Answer Some ingress_do_def resolve_hook_def Let_def case_prod_beta)
  qed
next
  case (TimedOut now r)
  have settles: "settles e r (hook_json ''ask'' ''no Telegram response'') now"
    using TimedOut by (simp add: settles_def)
  show ?thesis
  proof (cases "map_of (ig_pending s) r")
    case None
    then show ?thesis by (simp add: TimedOut ingress_do_def hook_timeout_def hook_move.idle)
  next
    case (Some w)
    show ?thesis
      by (rule settle_moves [OF settles Some])
         (simp_all add: TimedOut Some ingress_do_def hook_timeout_def Let_def case_prod_beta)
  qed
next
  case (Beside p)
  then show ?thesis by (simp add: ingress_do_def same_hooks_def hook_move.idle)
qed

lemma step_moves: "hook_move e s (fst (ingress_do e s)) (ingress_step e s)"
  unfolding ingress_step_def by (rule ingress_moves)

lemma ingress_ok_step:
  assumes ok: "ingress_ok s" and "hook_move e s rs t"
  shows "ingress_ok t"
proof -
  from ok have hm: "hm_ok (ig_pending s)" "hm_ok (ig_hooks s)"
    and own: "\<And>r w. map_of (ig_pending s) r = Some w \<Longrightarrow>
      \<exists>ws. map_of (ig_hooks s) (hw_identity w) = Some (PendingHook ws)"
    and one: "\<And>r w r' w'. map_of (ig_pending s) r = Some w \<Longrightarrow> map_of (ig_pending s) r' = Some w' \<Longrightarrow>
      hw_identity w = hw_identity w' \<Longrightarrow> r = r'"
    by (auto simp: ingress_ok_def)
  note fr = fresh_hooks_pending [OF hm(2)] fresh_hooks_ok [OF hm(2)]
  note maps = hm.get_put hm.ok_put hm.get_del hm.ok_del hm fr
  from assms(2) show ?thesis
  proof cases
    case idle
    then have t: "ig_pending t = ig_pending s" "ig_hooks t = ig_hooks s" by (simp_all add: same_hooks_def)
    show ?thesis using ok unfolding ingress_ok_def t .
  next
    case (replay c i now d at)
    with own one show ?thesis by (simp add: ingress_ok_def maps)
  next
    case (follow c i now ws)
    with own one show ?thesis by (auto simp: ingress_ok_def maps)
  next
    case (decide c i now d)
    have "map_of (ig_pending s) r = Some w \<Longrightarrow> hw_identity w \<noteq> i" for r w
      using own [of r w] fresh_hooks_none [OF hm(2) decide(3)] by auto
    with decide own one show ?thesis by (fastforce simp: ingress_ok_def maps)
  next
    case (ask c i now r cards)
    have other: "map_of (ig_pending s) r = Some w \<Longrightarrow> hw_identity w \<noteq> i" for r w
      using own [of r w] fresh_hooks_none [OF hm(2) ask(3)] by auto
    show ?thesis
      unfolding ingress_ok_def ask(6,7)
      using own other by (auto simp: maps dest: one) 
  next
    case (settle r d now w)
    have "map_of (ig_pending s) r' = Some w' \<Longrightarrow> r' \<noteq> r \<Longrightarrow> hw_identity w' \<noteq> hw_identity w" for r' w'
      using one [OF _ settle(2)] by blast
    with settle own one show ?thesis by (fastforce simp: ingress_ok_def maps)
  qed
qed

interpretation ingress: invariant_machine ingress_step ingress_ok
  by unfold_locales (rule ingress_ok_step [OF _ step_moves])

section \<open>History of a run\<close>

definition asked :: "ingress_event list \<Rightarrow> nat \<Rightarrow> string \<Rightarrow> bool" where
  "asked es c i \<longleftrightarrow> (\<exists>e \<in> set es. \<exists>now. calls e c i now)"

text \<open>The operator approved a card that was waiting for the tool call \<open>i\<close> at that moment.\<close>

definition approved_by_operator :: "ingress_event list \<Rightarrow> ingress \<Rightarrow> string \<Rightarrow> bool" where
  "approved_by_operator es s i \<longleftrightarrow>
     (\<exists>es1 now r es2 w. es = es1 @ Answer now r True # es2 \<and>
        map_of (ig_pending (fold ingress_step es1 s)) r = Some w \<and> hw_identity w = i)"

definition allows :: "json \<Rightarrow> bool" where
  "allows d \<longleftrightarrow> get_str d ''decision'' = Some ''allow''"

lemma asked_snoc: "asked es c i \<Longrightarrow> asked (es @ [e]) c i"
  by (auto simp: asked_def)

lemma asked_new: "calls e c i now \<Longrightarrow> asked (es @ [e]) c i"
  by (auto simp: asked_def)

lemma approved_snoc: "approved_by_operator es s i \<Longrightarrow> approved_by_operator (es @ [e]) s i"
  unfolding approved_by_operator_def by force

lemma approved_new:
  "map_of (ig_pending (fold ingress_step es s)) r = Some w \<Longrightarrow> settles e r d now \<Longrightarrow> allows d \<Longrightarrow>
   approved_by_operator (es @ [e]) s (hw_identity w)"
proof -
  assume w: "map_of (ig_pending (fold ingress_step es s)) r = Some w" and "settles e r d now" "allows d"
  then have "e = Answer now r True" by (auto simp: settles_def allows_def)
  with w show ?thesis unfolding approved_by_operator_def by blast
qed

lemma replies_append:
  "ingress_replies (es @ fs) s = ingress_replies es s @ ingress_replies fs (fold ingress_step es s)"
  by (induction es arbitrary: s) simp_all

lemma replies_snoc:
  "ingress_replies (es @ [e]) s = ingress_replies es s @ fst (ingress_do e (fold ingress_step es s))"
  by (simp add: replies_append)

text \<open>What is known of the decisions and of those who wait, from the events so far.\<close>

definition history_ok :: "ingress \<Rightarrow> ingress_event list \<Rightarrow> bool" where
  "history_ok s es \<longleftrightarrow>
     (let t = fold ingress_step es s
      in ingress_ok t \<and>
         (\<forall>i ws c. map_of (ig_hooks t) i = Some (PendingHook ws) \<and> c \<in> set ws \<longrightarrow> asked es c i) \<and>
         (\<forall>r w. map_of (ig_pending t) r = Some w \<longrightarrow> asked es (hw_caller w) (hw_identity w)) \<and>
         (\<forall>i d at. map_of (ig_hooks t) i = Some (CompleteHook d at) \<and> allows d \<longrightarrow>
            approved_by_operator es s i) \<and>
         (\<forall>c d. (c, d) \<in> set (ingress_replies es s) \<and> allows d \<longrightarrow>
            (\<exists>i. asked es c i \<and> approved_by_operator es s i)))"

lemma history_okD:
  assumes "history_ok s es"
  shows "ingress_ok (fold ingress_step es s)"
    and "map_of (ig_hooks (fold ingress_step es s)) i = Some (PendingHook ws) \<Longrightarrow> c \<in> set ws \<Longrightarrow> asked es c i"
    and "map_of (ig_pending (fold ingress_step es s)) r = Some w \<Longrightarrow> asked es (hw_caller w) (hw_identity w)"
    and "map_of (ig_hooks (fold ingress_step es s)) i = Some (CompleteHook d at) \<Longrightarrow> allows d \<Longrightarrow>
      approved_by_operator es s i"
    and "(c, d) \<in> set (ingress_replies es s) \<Longrightarrow> allows d \<Longrightarrow>
      \<exists>i. asked es c i \<and> approved_by_operator es s i"
  using assms unfolding history_ok_def Let_def by blast+

lemma history_okI:
  assumes "ingress_ok (fold ingress_step es s)"
    and "\<And>i ws c. map_of (ig_hooks (fold ingress_step es s)) i = Some (PendingHook ws) \<Longrightarrow> c \<in> set ws \<Longrightarrow> asked es c i"
    and "\<And>r w. map_of (ig_pending (fold ingress_step es s)) r = Some w \<Longrightarrow> asked es (hw_caller w) (hw_identity w)"
    and "\<And>i d at. map_of (ig_hooks (fold ingress_step es s)) i = Some (CompleteHook d at) \<Longrightarrow> allows d \<Longrightarrow>
      approved_by_operator es s i"
    and "\<And>c d. (c, d) \<in> set (ingress_replies es s) \<Longrightarrow> allows d \<Longrightarrow>
      \<exists>i. asked es c i \<and> approved_by_operator es s i"
  shows "history_ok s es"
  using assms unfolding history_ok_def Let_def by blast

lemma history_step:
  assumes h: "history_ok s es"
  shows "history_ok s (es @ [e])"
proof -
  let ?t = "fold ingress_step es s" and ?u = "ingress_step e (fold ingress_step es s)"
  let ?rs = "fst (ingress_do e ?t)"
  note D = history_okD [OF h]
  have run: "fold ingress_step (es @ [e]) s = ?u" by simp
  from D(1) have hm: "hm_ok (ig_pending ?t)" "hm_ok (ig_hooks ?t)" by (simp_all add: ingress_ok_def)
  note maps = hm.get_put hm.get_del hm.ok_put fresh_hooks_ok [OF hm(2)] hm fresh_hooks_get [OF hm(2)]
  note up = asked_snoc approved_snoc asked_new
  from step_moves [of e ?t]
  have "(\<forall>i ws c. map_of (ig_hooks ?u) i = Some (PendingHook ws) \<and> c \<in> set ws \<longrightarrow> asked (es @ [e]) c i) \<and>
    (\<forall>r w. map_of (ig_pending ?u) r = Some w \<longrightarrow> asked (es @ [e]) (hw_caller w) (hw_identity w)) \<and>
    (\<forall>i d at. map_of (ig_hooks ?u) i = Some (CompleteHook d at) \<and> allows d \<longrightarrow>
       approved_by_operator (es @ [e]) s i) \<and>
    (\<forall>c d. (c, d) \<in> set ?rs \<and> allows d \<longrightarrow>
       (\<exists>i. asked (es @ [e]) c i \<and> approved_by_operator (es @ [e]) s i))"
  proof cases
    case idle
    then show ?thesis
      by (auto simp: same_hooks_def intro: up D(2-4))
  next
    case (replay c i now d at)
    have dd: "approved_by_operator es s i" if "allows d"
      using replay(3) that by (auto simp: maps intro: D(4))
    show ?thesis unfolding replay(1,4,6)
      by (intro conjI) (auto simp: maps intro: up D(2-4) dd replay(2))
  next
    case (follow c i now ws)
    have old: "map_of (ig_hooks ?t) i = Some (PendingHook ws)" using follow(3) by (simp add: maps)
    show ?thesis unfolding follow(1,4,6)
      by (intro conjI) (auto simp: maps intro: up D(2-4) follow(2) D(2) [OF old])
  next
    case (decide c i now d)
    have no: "\<not> allows d" using decide(4) by (simp add: allows_def)
    show ?thesis unfolding decide(1,5,7)
      by (intro conjI) (auto simp: maps no intro: up D(2-4))
  next
    case (ask c i now r cards)
    show ?thesis unfolding ask(1,6,7)
      by (intro conjI) (auto simp: maps intro: up D(2-4) ask(2))
  next
    case (settle r d now w)
    have ok: "allows d \<Longrightarrow> approved_by_operator (es @ [e]) s (hw_identity w)"
      using approved_new [OF settle(2,1)] .
    have "asked es c (hw_identity w)" if "(c, d') \<in> set ?rs" for c d'
      using that settle(5) by (auto simp: finish_replies intro: D(2,3) settle(2) split: option.splits hook_state.splits)
    moreover have "d' = d" if "(c, d') \<in> set ?rs" for c d'
      using that settle(5) by (auto simp: finish_replies)
    ultimately have "\<forall>c d'. (c, d') \<in> set ?rs \<and> allows d' \<longrightarrow>
        (\<exists>i. asked (es @ [e]) c i \<and> approved_by_operator (es @ [e]) s i)"
      using ok by (blast intro: up)
    then show ?thesis using ok unfolding settle(4,6)
      by (intro conjI) (auto simp: maps intro: up D(2-4))
  qed
  note new = this
  have "\<exists>i. asked (es @ [e]) c i \<and> approved_by_operator (es @ [e]) s i"
    if "(c, d) \<in> set (ingress_replies (es @ [e]) s)" "allows d" for c d
  proof (cases "(c, d) \<in> set ?rs")
    case True
    with new that(2) show ?thesis by blast
  next
    case False
    with that(1) have "(c, d) \<in> set (ingress_replies es s)" by (simp add: replies_snoc)
    from D(5) [OF this that(2)] show ?thesis by (blast intro: up)
  qed
  then have "\<forall>c d. (c, d) \<in> set (ingress_replies (es @ [e]) s) \<and> allows d \<longrightarrow>
      (\<exists>i. asked (es @ [e]) c i \<and> approved_by_operator (es @ [e]) s i)" by blast
  then show ?thesis
    using new ingress_ok_step [OF D(1) step_moves, of e] unfolding history_ok_def Let_def run
    by (elim conjE) (intro conjI)
qed

lemma history_run: "ingress_ok s \<Longrightarrow> ig_pending s = [] \<Longrightarrow> ig_hooks s = [] \<Longrightarrow> history_ok s es"
proof (induction es rule: rev_induct)
  case Nil
  then show ?case by (simp add: history_ok_def)
next
  case (snoc e es)
  then show ?case by (blast intro: history_step)
qed

lemma ingress_empty_ok: "ingress_ok (ingress_empty held dd cb)"
  by (simp add: ingress_ok_def ingress_empty_def hm_ok_def)

section \<open>Every hook that waits has someone who will answer it\<close>

text \<open>As long as the counter of requests does not wrap around, their identifiers are fresh.\<close>

definition numbered :: "ingress \<Rightarrow> bool" where
  "numbered s \<longleftrightarrow>
     (\<forall>r w. map_of (ig_pending s) r = Some w \<longrightarrow> (\<exists>n < unat (ig_counter s). r = ''r'' @ dec n)) \<and>
     (\<forall>i ws. map_of (ig_hooks s) i = Some (PendingHook ws) \<longrightarrow>
        (\<exists>r w. map_of (ig_pending s) r = Some w \<and> hw_identity w = i))"

lemma numbered_step:
  assumes ok: "ingress_ok s" and num: "numbered s" and room: "unat (ig_counter s) + 1 < 2 ^ 64"
    and "hook_move e s rs t"
  shows "numbered t \<and> unat (ig_counter t) \<le> unat (ig_counter s) + 1"
proof -
  from ok have hm: "hm_ok (ig_pending s)" "hm_ok (ig_hooks s)" by (simp_all add: ingress_ok_def)
  from num have keys: "\<And>r w. map_of (ig_pending s) r = Some w \<Longrightarrow>
      \<exists>n < unat (ig_counter s). r = ''r'' @ dec n"
    and led: "\<And>i ws. map_of (ig_hooks s) i = Some (PendingHook ws) \<Longrightarrow>
      \<exists>r w. map_of (ig_pending s) r = Some w \<and> hw_identity w = i"
    by (auto simp: numbered_def)
  from ok have one: "\<And>r w r' w'. map_of (ig_pending s) r = Some w \<Longrightarrow> map_of (ig_pending s) r' = Some w' \<Longrightarrow>
      hw_identity w = hw_identity w' \<Longrightarrow> r = r'"
    by (auto simp: ingress_ok_def)
  note fr = fresh_hooks_pending [OF hm(2)] fresh_hooks_ok [OF hm(2)]
  note maps = hm.get_put hm.ok_put hm.get_del hm.ok_del hm fr
  have inc: "unat (ig_counter s + 1) = unat (ig_counter s) + 1"
    using room by (simp add: unat_word_ariths)
  from assms(4) show ?thesis
  proof cases
    case idle
    then have t: "ig_pending t = ig_pending s" "ig_hooks t = ig_hooks s" "ig_counter t = ig_counter s"
      by (simp_all add: same_hooks_def)
    have "numbered t" using num unfolding numbered_def t .
    then show ?thesis by (simp add: t)
  next
    case (replay c i now d at)
    then show ?thesis using keys led by (auto simp: numbered_def maps)
  next
    case (follow c i now ws)
    then have "\<exists>r w. map_of (ig_pending s) r = Some w \<and> hw_identity w = i" using led fr(1) by blast
    with follow show ?thesis using keys led by (auto simp: numbered_def maps)
  next
    case (decide c i now d)
    then show ?thesis using keys led by (auto simp: numbered_def maps)
  next
    case (ask c i now r cards)
    have r: "r = ''r'' @ dec (unat (ig_counter s))" using ask(4) by (simp add: next_request_id_def)
    have free: "map_of (ig_pending s) r = None"
      using keys [of r] r by (cases "map_of (ig_pending s) r") (auto dest: dec_inj)
    show ?thesis
      unfolding numbered_def ask(5-7) inc
    proof (intro conjI allI impI)
      fix r' w' assume "map_of (AList.update r \<lparr>hw_identity = i, hw_caller = c, hw_cards = cards\<rparr> (ig_pending s)) r' = Some w'"
      then show "\<exists>n < unat (ig_counter s) + 1. r' = ''r'' @ dec n"
        using keys [of r'] r by (auto simp: maps split: if_splits intro: less_SucI)
    next
      fix i' ws assume a: "map_of (AList.update i (PendingHook []) (fresh_hooks now (ig_hooks s))) i' = Some (PendingHook ws)"
      show "\<exists>r' w. map_of (AList.update r \<lparr>hw_identity = i, hw_caller = c, hw_cards = cards\<rparr> (ig_pending s)) r' = Some w
          \<and> hw_identity w = i'"
      proof (cases "i' = i")
        case True
        then show ?thesis by (intro exI [of _ r]) (simp add: maps)
      next
        case False
        with a have "map_of (ig_hooks s) i' = Some (PendingHook ws)" by (simp add: maps)
        from led [OF this] obtain r' w where w: "map_of (ig_pending s) r' = Some w" "hw_identity w = i'" by blast
        then have "r' \<noteq> r" using free by auto
        with w show ?thesis by (intro exI [of _ r'] exI [of _ w]) (simp add: hm.get_put [OF hm(1)])
      qed
    qed simp
  next
    case (settle r d now w)
    have "\<exists>r' w'. map_of (AList.delete r (ig_pending s)) r' = Some w' \<and> hw_identity w' = i"
      if hook: "map_of (ig_hooks s) i = Some (PendingHook ws)" and ne: "i \<noteq> hw_identity w" for i ws
    proof -
      obtain r' w' where a: "map_of (ig_pending s) r' = Some w'" "hw_identity w' = i"
        using led [OF hook] by blast
      then have "r' \<noteq> r" using settle(2) ne by auto
      with a show ?thesis by (intro exI [of _ r'] exI [of _ w']) (simp add: hm.get_del [OF hm(1)])
    qed
    note other = this
    show ?thesis unfolding numbered_def settle(3,4,6)
    proof (intro conjI allI impI)
      fix r' w' assume "map_of (AList.delete r (ig_pending s)) r' = Some w'"
      then show "\<exists>n < unat (ig_counter s). r' = ''r'' @ dec n"
        by (intro keys) (simp add: maps split: if_splits)
    next
      fix i ws assume "map_of (AList.update (hw_identity w) (CompleteHook d now) (ig_hooks s)) i = Some (PendingHook ws)"
      then have "map_of (ig_hooks s) i = Some (PendingHook ws)" "i \<noteq> hw_identity w"
        by (simp_all add: maps split: if_splits)
      then show "\<exists>r' w'. map_of (AList.delete r (ig_pending s)) r' = Some w' \<and> hw_identity w' = i"
        by (rule other)
    qed simp
  qed
qed

lemma numbered_run:
  assumes "ingress_ok s" "numbered s" "unat (ig_counter s) + length es < 2 ^ 64"
  shows "numbered (fold ingress_step es s) \<and>
    unat (ig_counter (fold ingress_step es s)) \<le> unat (ig_counter s) + length es"
  using assms(3)
proof (induction es rule: rev_induct)
  case (snoc e es)
  then have IH: "numbered (fold ingress_step es s)"
    "unat (ig_counter (fold ingress_step es s)) \<le> unat (ig_counter s) + length es" by auto
  have "ingress_ok (fold ingress_step es s)" by (rule ingress.run_inv [OF assms(1)])
  from numbered_step [OF this IH(1) _ step_moves, of e] IH(2) snoc.prems show ?case by auto
qed (simp add: assms(2))

lemma numbered_empty: "numbered (ingress_empty held dd cb)"
  by (simp add: numbered_def ingress_empty_def)

section \<open>Replays and holds\<close>

text \<open>The time an event reads, if it reads one that matters here.\<close>

definition event_time :: "ingress_event \<Rightarrow> i64 option" where
  "event_time e =
     (case e of
        HookLine env _ _ \<Rightarrow> Some (ie_now env)
      | Beside (Request env _ _ _ _ _ _) \<Rightarrow> Some (pe_secs env)
      | _ \<Rightarrow> None)"

definition during :: "i64 \<Rightarrow> i64 \<Rightarrow> ingress_event \<Rightarrow> bool" where
  "during t u e \<longleftrightarrow> (case event_time e of Some n \<Rightarrow> t \<le> n \<and> n \<le> u | None \<Rightarrow> True)"

lemma calls_time: "calls e c i now \<Longrightarrow> event_time e = Some now"
  by (auto simp: calls_def event_time_def split: ingress_event.splits)

lemma complete_step:
  assumes ok: "ingress_ok s" and dn: "map_of (ig_hooks s) i = Some (CompleteHook d t)"
    and time: "during t0 u e" "u - t \<le> 130" and "hook_move e s rs s'"
  shows "map_of (ig_hooks s') i = Some (CompleteHook d t)"
proof -
  from ok have hm: "hm_ok (ig_hooks s)"
    and own: "\<And>r w. map_of (ig_pending s) r = Some w \<Longrightarrow>
      \<exists>ws. map_of (ig_hooks s) (hw_identity w) = Some (PendingHook ws)"
    by (auto simp: ingress_ok_def)
  note maps = hm.get_put hm.ok_put hm fresh_hooks_get [OF hm] fresh_hooks_ok [OF hm]
  have now: "now - t \<le> 130" if "calls e c j now" for c j now
    using calls_time [OF that] time by (auto simp: during_def)
  from assms(5) show ?thesis
  proof cases
    case idle
    then show ?thesis using dn by (simp add: same_hooks_def)
  next
    case (replay c j now d' at)
    then show ?thesis using dn now by (simp add: maps)
  next
    case (follow c j now ws)
    then show ?thesis using dn now [OF follow(2)] by (auto simp: maps)
  next
    case (decide c j now d')
    then show ?thesis using dn now [OF decide(2)] by (auto simp: maps)
  next
    case (ask c j now r cards)
    then show ?thesis using dn now [OF ask(2)] by (auto simp: maps)
  next
    case (settle r d' now w)
    then show ?thesis using dn own [OF settle(2)] by (auto simp: maps)
  qed
qed

lemma complete_run:
  assumes "ingress_ok s" "map_of (ig_hooks s) i = Some (CompleteHook d t)"
    "list_all (during t0 u) es" "u - t \<le> 130"
  shows "map_of (ig_hooks (fold ingress_step es s)) i = Some (CompleteHook d t)"
  using assms(3)
proof (induction es rule: rev_induct)
  case (snoc e es)
  then show ?case
    using complete_step [OF ingress.run_inv [OF assms(1)] _ _ assms(4) step_moves] by auto
qed (simp add: assms(2))

text \<open>The tool uses held by the gate, as a step leaves them.\<close>

lemma forward_held:
  "pm_held (ig_perm (snd (snd (forward_permission env i c al tool target danger reason pattern s)))) =
   pm_held (ig_perm s)"
  by (simp add: forward_permission_def Let_def case_prod_beta set_store_def)

lemma after_gate_held:
  "pm_held (ig_perm (snd (snd (after_gate env i c payload d s)))) =
   mark_gate_hold (ie_now env) payload (pm_held (ig_perm s))"
  by (simp add: after_gate_def Let_def case_prod_beta forward_held split: option.split)

lemma base_held: "pm_held (ig_perm (snd (snd (base_decision env i c payload s)))) = pm_held (ig_perm s)"
  by (simp add: base_decision_def Let_def case_prod_beta forward_held split: option.split)

lemma once_held:
  "pm_held (ig_perm (snd (snd (decide_pretool_once env i c payload s)))) \<in>
   {pm_held (ig_perm s), mark_gate_hold (ie_now env) payload (pm_held (ig_perm s))}"
  by (simp add: decide_pretool_once_def Let_def case_prod_beta after_gate_held base_held split: option.split)

lemma finish_perm: "ig_perm (snd (finish_hook now i c d s)) = ig_perm s"
  by (simp add: finish_hook_def Let_def)

lemma decide_held:
  "pm_held (ig_perm (snd (snd (decide_pretool env c payload s)))) \<in>
   {pm_held (ig_perm s), mark_gate_hold (ie_now env) payload (pm_held (ig_perm s))}"
proof -
  let ?i = "native_identity_digest (ie_digest env) (ge_print (ie_gate env)) payload"
  let ?hooks = "fresh_hooks (ie_now env) (ig_hooks s)"
  let ?s = "s\<lparr>ig_hooks := AList.update ?i (PendingHook []) ?hooks\<rparr>"
  obtain out fx u where once: "decide_pretool_once env ?i c payload ?s = (out, fx, u)"
    by (cases "decide_pretool_once env ?i c payload ?s") auto
  then show ?thesis
    using once_held [of env ?i c payload ?s]
    by (cases "map_of ?hooks ?i"; cases out)
       (auto simp: decide_pretool_def Let_def case_prod_beta finish_perm split: hook_state.split)
qed

lemma notify_held: "pm_held (ig_perm (snd (notify env payload s))) = pm_held (ig_perm s)"
  by (simp add: notify_def Let_def case_prod_beta set_store_def)

lemma held_marked:
  assumes "hm_ok h" "t \<le> now" "now \<le> u" "u - t \<le> 130" "map_of h i = Some at" "t \<le> at"
  shows "\<exists>at'. map_of (mark_gate_hold now payload h) i = Some at' \<and> t \<le> at'"
    and "\<exists>at'. map_of (snd (gate_holds_tool_use now j h)) i = Some at' \<and> t \<le> at'"
proof -
  have get: "map_of (fresh_holds now h) i = Some at"
    using assms by (simp add: fresh_get)
  show "\<exists>at'. map_of (snd (gate_holds_tool_use now j h)) i = Some at' \<and> t \<le> at'"
    using get assms by (simp add: gate_holds_tool_use_def)
  show "\<exists>at'. map_of (mark_gate_hold now payload h) i = Some at' \<and> t \<le> at'"
    using get assms hm.get_put [OF fresh_ok [OF assms(1)]]
    by (auto simp: mark_gate_hold_def split: option.split)
qed

lemma mark_ok: "hm_ok h \<Longrightarrow> hm_ok (mark_gate_hold now payload h)"
  using hold_step_ok [of h "(now, MarkHold payload)"] by (simp add: hold_step_def)

lemma query_ok: "hm_ok h \<Longrightarrow> hm_ok (snd (gate_holds_tool_use now j h))"
  using hold_step_ok [of h "(now, QueryHold j)"] by (simp add: hold_step_def)

text \<open>What a permission request does to the tool uses held.\<close>

lemma request_held:
  "pm_held (snd (on_request env pid al r tu tool input st)) \<in>
   {pm_held st, snd (gate_holds_tool_use (pe_secs env) tu (pm_held st))}"
proof -
  have fwd: "pm_held (snd (forward_request env p st')) = pm_held st'" for p st'
    by (simp add: forward_request_def Let_def case_prod_beta)
  show ?thesis
    unfolding on_request_def Let_def case_prod_beta by (simp add: fwd)
qed

definition still_held :: "i64 \<Rightarrow> string \<Rightarrow> ingress \<Rightarrow> bool" where
  "still_held t i s \<longleftrightarrow> hm_ok (pm_held (ig_perm s)) \<and> (\<exists>at. map_of (pm_held (ig_perm s)) i = Some at \<and> t \<le> at)"

lemma still_held_step:
  assumes h: "still_held t i s" and e: "during t u e" and "u - t \<le> 130"
  shows "still_held t i (ingress_step e s)"
proof -
  let ?h = "pm_held (ig_perm s)"
  obtain at where ok: "hm_ok ?h" and at: "map_of ?h i = Some at" "t \<le> at"
    using h by (auto simp: still_held_def)
  have mark: "still_held t i s'" if "pm_held (ig_perm s') \<in> {?h, mark_gate_hold now payload ?h}"
    "t \<le> now" "now \<le> u" for s' now payload
    using that held_marked(1) [OF ok that(2,3) assms(3) at, of payload] h mark_ok [OF ok]
    by (auto simp: still_held_def)
  show ?thesis
  proof (cases e)
    case (HookLine env c line)
    have now: "t \<le> ie_now env" "ie_now env \<le> u"
      using e HookLine by (simp_all add: during_def event_time_def)
    have "\<exists>payload. pm_held (ig_perm (ingress_step e s)) \<in> {?h, mark_gate_hold (ie_now env) payload ?h}"
      using decide_held [of env c _ s] notify_held [of env _ s]
      by (auto simp: HookLine ingress_step_def ingress_do_def handle_conn_def split: option.split prod.split)
    then show ?thesis using mark [OF _ now] by blast
  next
    case (Answer now r allow)
    then have "pm_held (ig_perm (ingress_step e s)) = ?h"
      by (simp add: ingress_step_def ingress_do_def resolve_hook_def Let_def case_prod_beta finish_perm
          split: option.split)
    then show ?thesis using h by (simp add: still_held_def)
  next
    case (TimedOut now r)
    then have "pm_held (ig_perm (ingress_step e s)) = ?h"
      by (simp add: ingress_step_def ingress_do_def hook_timeout_def Let_def case_prod_beta finish_perm
          split: option.split)
    then show ?thesis using h by (simp add: still_held_def)
  next
    case (Beside p)
    have step: "ingress_step e s = s\<lparr>ig_perm := perm_step p (ig_perm s)\<rparr>"
      by (simp add: Beside ingress_step_def ingress_do_def)
    show ?thesis
    proof (cases p)
      case (Request env pid al r tu tool input)
      have now: "t \<le> pe_secs env" "pe_secs env \<le> u"
        using e Beside Request by (simp_all add: during_def event_time_def)
      show ?thesis
        using request_held [of env pid al r tu tool input "ig_perm s"] h query_ok [OF ok, of "pe_secs env" tu]
          held_marked(2) [OF ok now assms(3) at, of tu]
        by (auto simp: step Request perm_step_def still_held_def)
    qed (use h in \<open>simp_all add: step perm_step_def still_held_def\<close>)
  qed
qed

lemma still_held_run:
  "still_held t i s \<Longrightarrow> list_all (during t u) es \<Longrightarrow> u - t \<le> 130 \<Longrightarrow> still_held t i (fold ingress_step es s)"
  by (induction es arbitrary: s) (auto intro: still_held_step)

section \<open>Properties\<close>

text \<open>
  C3. A tool call is allowed by the relay only when the operator approved a card that was waiting for
  this very tool call: whatever the gate, the configuration and the other agents do, a connection is
  answered with a permission only after an approval of a request made for a call with the same
  identity as one the connection asked about.
\<close>

theorem approval_is_for_the_shown_call:
  assumes "(c, d) \<in> set (ingress_replies es (ingress_empty held dd cb))"
    and "get_str d ''decision'' = Some ''allow''"
  shows "\<exists>i. asked es c i \<and> approved_by_operator es (ingress_empty held dd cb) i"
proof -
  have "history_ok (ingress_empty held dd cb) es"
    by (rule history_run [OF ingress_empty_ok]) (simp_all add: ingress_empty_def)
  from history_okD(5) [OF this assms(1)] assms(2) show ?thesis by (simp add: allows_def)
qed

text \<open>
  C4. No hook is forgotten: as long as fewer than \<open>2 ^ 64\<close> events have happened, whenever agents wait
  for a decision there is a request before the operator whose answer, or whose timeout, is handed to
  every one of them and to the agent that asked first.
\<close>

theorem no_hook_is_forgotten:
  assumes "length es < 2 ^ 64 - 1" "s = fold ingress_step es (ingress_empty held dd cb)"
    and "map_of (ig_hooks s) i = Some (PendingHook ws)"
  shows "\<exists>r w. map_of (ig_pending s) r = Some w \<and> hw_identity w = i \<and>
    (\<forall>e d now. settles e r d now \<longrightarrow> fst (ingress_do e s) = map (\<lambda>c. (c, d)) (ws @ [hw_caller w]))"
proof -
  have "unat (ig_counter (ingress_empty held dd cb)) + length es < 2 ^ 64"
    using assms(1) by (simp add: ingress_empty_def)
  from numbered_run [OF ingress_empty_ok numbered_empty this]
  obtain r w where r: "map_of (ig_pending s) r = Some w" "hw_identity w = i"
    using assms(2,3) by (auto simp: numbered_def)
  have "fst (ingress_do e s) = map (\<lambda>c. (c, d)) (ws @ [hw_caller w])" if "settles e r d now" for e d now
    using that r assms(3)
    by (auto simp: settles_def ingress_do_def resolve_hook_def hook_timeout_def Let_def case_prod_beta finish_replies)
  with r show ?thesis by blast
qed

text \<open>
  A decision stands: for 130 seconds after it was made, whatever happens in between, the same tool
  call is answered with the same decision, at once, with no message and without asking the gate.
\<close>

theorem decision_stands:
  assumes "ingress_ok s" "map_of (ig_hooks s) i = Some (CompleteHook d t)"
    and "list_all (during t (ie_now env)) es" "ie_now env - t \<le> 130"
    and "parse_request (ie_parse env) (trim line) = Some (''pre-tool-use'', payload)" "ident env payload = i"
  shows "ingress_do (HookLine env c line) (fold ingress_step es s) =
    ([(c, d)], [], (fold ingress_step es s)\<lparr>ig_hooks := fresh_hooks (ie_now env) (ig_hooks (fold ingress_step es s))\<rparr>)"
proof -
  let ?s = "fold ingress_step es s"
  have ok: "hm_ok (ig_hooks ?s)" using ingress.run_inv [OF assms(1)] by (simp add: ingress_ok_def)
  from complete_run [OF assms(1-4)] assms(4,6)
  show ?thesis
    by (simp add: ingress_do_def handle_conn_def assms(5) decide_pretool_def Let_def ident_def fresh_hooks_get [OF ok])
qed

text \<open>
  C6. The gate owns the tool use it decided on: for 130 seconds after the gate's answer, whatever
  happens in between, a permission request of the agent for that tool use neither injects an answer
  nor sends a card, so the two paths never give two verdicts on it.
\<close>

theorem gate_owns_the_tool_use:
  assumes "hm_ok (pm_held (ig_perm s))" "get_str payload ''tool_use_id'' = Some tu" "tu \<noteq> []"
    and "s' = snd (snd (after_gate env i c payload d s))"
    and "list_all (during (ie_now env) (pe_secs penv)) es" "pe_secs penv - ie_now env \<le> 130"
    and "ie_now env \<le> pe_secs penv"
  shows "on_request penv pid al r tu tool input (ig_perm (fold ingress_step es s')) =
    ([], if r = [] then ig_perm (fold ingress_step es s')
         else (ig_perm (fold ingress_step es s'))\<lparr>pm_held :=
                fresh_holds (pe_secs penv) (pm_held (ig_perm (fold ingress_step es s')))\<rparr>)"
proof -
  let ?p = "ig_perm (fold ingress_step es s')"
  have "still_held (ie_now env) tu s'"
    using assms(2,3) fresh_ok [OF assms(1), of "ie_now env"]
    by (simp add: still_held_def assms(4) after_gate_held mark_gate_hold_def hm.get_put hm.ok_put)
  from still_held_run [OF this assms(5,6)]
  have "map_of (fresh_holds (pe_secs penv) (pm_held ?p)) tu \<noteq> None"
    using assms(6) by (auto simp: still_held_def fresh_get)
  then show ?thesis using assms(3) by (simp add: on_request_def gate_holds_tool_use_def Let_def)
qed

text \<open>The operator is asked: every chat gets the card, whose buttons name the request that waits.\<close>

definition asks_operator ::
  "ingress_env \<Rightarrow> string \<Rightarrow> nat \<Rightarrow> ingress_effect list \<Rightarrow> ingress \<Rightarrow> bool" where
  "asks_operator env i c fx t \<longleftrightarrow>
     (\<exists>r text kb cards.
        fx = map (\<lambda>chat. SendTo chat text (Some kb)) (ie_recipients env) \<and>
        map_of (ig_pending t) r = Some \<lparr>hw_identity = i, hw_caller = c, hw_cards = cards\<rparr> \<and>
        map (\<lambda>j. decode_or_raw (button j) (pm_store (ig_perm t))) (keyboard_buttons kb) =
          [''approve|'' @ r, ''deny|'' @ r])"

lemma forward_asks:
  assumes "forward_permission env i c al tool target danger reason pattern s = (out, fx, t)"
    and "ie_telegram env" "ie_recipients env \<noteq> []" "store_ok (pm_store (ig_perm s))"
  shows "(\<exists>r. out = Waiting r) \<and> asks_operator env i c fx t"
proof -
  obtain r n where r: "next_request_id (ig_counter s) = (r, n)" by fastforce
  let ?rows = "[[(CHECK @ '' Approve'', ''approve|'' @ r), (STOP @ '' Deny'', ''deny|'' @ r)]]"
  obtain kb cb where kb: "keyboard ?rows (pm_store (ig_perm s)) = (kb, cb)" by fastforce
  have "map (\<lambda>j. decode_or_raw (button j) cb) (keyboard_buttons kb) = [''approve|'' @ r, ''deny|'' @ r]"
    using keyboard_carries [OF kb assms(4)] by (simp add: CAP_def)
  note buttons = this
  from assms(1-3) r kb have out: "out = Waiting r"
    and fx: "fx = map (\<lambda>chat. SendTo chat (permission_text env al tool target danger reason pattern) (Some kb))
      (ie_recipients env)"
    and t: "ig_pending t = AList.update r \<lparr>hw_identity = i, hw_caller = c, hw_cards = hook_cards env\<rparr> (ig_pending s)"
      "pm_store (ig_perm t) = cb"
    by (auto simp: forward_permission_def set_store_def)
  have "asks_operator env i c fx t"
    unfolding asks_operator_def fx t
    using buttons
    by (intro exI [of _ r] exI [of _ "permission_text env al tool target danger reason pattern"]
        exI [of _ kb] exI [of _ "hook_cards env"] conjI) (simp_all add: update_conv')
  with out show ?thesis by blast
qed

lemma asks_frame:
  "asks_operator env i c fx s \<Longrightarrow> ig_pending t = ig_pending s \<Longrightarrow>
   pm_store (ig_perm t) = pm_store (ig_perm s) \<Longrightarrow> asks_operator env i c fx t"
  by (simp add: asks_operator_def)

text \<open>
  C5. A dangerous call never slips through to the agent's own prompt while the operator can be
  reached: when the gate says nothing of it, it is denied for the robot and, with the guard on, in
  Auto mode, and otherwise every paired chat gets a card whose two buttons answer exactly the request
  that now waits for this call.
\<close>

theorem dangerous_call_reaches_operator:
  assumes "decide_pretool env c payload s = (rs, fx, t)"
    and "map_of (fresh_hooks (ie_now env) (ig_hooks s)) (ident env payload) = None"
    and "fail_open_gate (fst (pre_tool (ie_gate env) (ie_config env) payload (ig_gate s))) = None"
    and "tool_summary payload = (tool, target, cwd)"
    and "is_destructive (ie_lower env) (ie_danger_file env) target"
    and "ie_telegram env" "ie_recipients env \<noteq> []" "store_ok (pm_store (ig_perm s))"
    and "mode = resolve (ie_config env) (get_str payload ''session_id'') (basename cwd) (ie_now env)"
  shows "if mode = Robot \<or> mode = Auto \<and> ar_guard_dangerous (ac_auto (ie_config env))
    then map (\<lambda>(caller, d). (caller, get_str d ''decision'')) rs = [(c, Some ''deny'')]
    else rs = [] \<and> asks_operator env (ident env payload) c fx t"
proof -
  let ?i = "ident env payload"
  let ?s = "s\<lparr>ig_hooks := AList.update ?i (PendingHook []) (fresh_hooks (ie_now env) (ig_hooks s))\<rparr>"
  obtain res w where gate: "pre_tool (ie_gate env) (ie_config env) payload (ig_gate s) = (res, w)" by fastforce
  let ?s1 = "?s\<lparr>ig_gate := w\<rparr>"
  obtain out fx' u where base: "base_decision env ?i c payload ?s1 = (out, fx', u)" by (metis prod_cases3)
  from gate base assms(3) have once: "decide_pretool_once env ?i c payload ?s = (out, fx', u)"
    by (simp add: decide_pretool_once_def)
  obtain p where p: "matched_danger (ie_lower env) (ie_danger_file env) target = Some p"
    using assms(5) by (auto simp: is_destructive_def)
  note outcome = assms(1) [unfolded decide_pretool_def Let_def, folded ident_def]
  show ?thesis
  proof (cases "mode = Robot \<or> mode = Auto \<and> ar_guard_dangerous (ac_auto (ie_config env))")
    case True
    then have "\<exists>why. out = Reply (hook_json ''deny'' why) \<and> same_hooks ?s1 u"
      using base p by (auto simp: base_decision_def assms(4) Let_def autonomous_danger_decision_def
          assms(9) [symmetric])
    then obtain why where out: "out = Reply (hook_json ''deny'' why)" and same: "same_hooks ?s1 u" by blast
    have "rs = fst (finish_hook (ie_now env) ?i c (hook_json ''deny'' why) u)"
      using outcome once out assms(2) by (simp add: case_prod_beta)
    with same True show ?thesis by (simp add: finish_replies same_hooks_def update_conv')
  next
    case False
    then have "forward_permission env ?i c (basename cwd) tool target True None (Some p) ?s1 = (out, fx', u)"
      using base by (auto simp: base_decision_def assms(4) Let_def autonomous_danger_decision_def p
          assms(9) [symmetric])
    from forward_asks [OF this assms(6,7)] assms(8)
    obtain r where "out = Waiting r" "asks_operator env ?i c fx' u" by auto
    with outcome once assms(2) False show ?thesis by simp
  qed
qed

section \<open>An example\<close>

definition demo_call :: json where
  "demo_call = JObject [(''cwd'', JString ''/w''), (''tool_name'', JString ''Bash''),
     (''tool_use_id'', JString ''u''), (''tool_input'', JObject [(''command'', JString ''rm -rf x'')])]"

definition demo_ingress_env :: ingress_env where
  "demo_ingress_env =
     \<lparr>ie_gate = demo_gate_env, ie_config = automation_default True, ie_danger_file = None,
      ie_digest = id, ie_machine = ''m'', ie_telegram = True, ie_recipients = [1],
      ie_send = (\<lambda>_. Some 7), ie_instant = 0,
      ie_parse = (\<lambda>l. Some (JObject [(''event'', JString ''pre-tool-use''), (''payload'', demo_call)]))\<rparr>"

abbreviation demo_start :: ingress where
  "demo_start \<equiv> ingress_empty [] dedup_new store_new"

lemma demo_waits:
  "map_of (ig_pending (ingress_step (HookLine demo_ingress_env 5 []) demo_start)) ''r1'' =
     Some \<lparr>hw_identity = ident demo_ingress_env demo_call, hw_caller = 5, hw_cards = [(1, 7)]\<rparr> \<and>
   map_of (ig_hooks (ingress_step (HookLine demo_ingress_env 5 []) demo_start))
     (ident demo_ingress_env demo_call) = Some (PendingHook [])"
  by code_simp

lemma demo_approved:
  "ingress_replies [HookLine demo_ingress_env 5 [], Answer 3 ''r1'' True] demo_start =
     [(5, hook_json ''allow'' ''approved via Telegram'')]"
  by code_simp

theorem approval_is_for_the_shown_call_witness:
  "\<exists>i. asked [HookLine demo_ingress_env 5 [], Answer 3 ''r1'' True] 5 i \<and>
     approved_by_operator [HookLine demo_ingress_env 5 [], Answer 3 ''r1'' True] demo_start i"
  by (rule approval_is_for_the_shown_call [where d = "hook_json ''allow'' ''approved via Telegram''"])
     (unfold demo_approved, simp_all)

theorem no_hook_is_forgotten_witness:
  "\<exists>r w. map_of (ig_pending (ingress_step (HookLine demo_ingress_env 5 []) demo_start)) r = Some w \<and>
     hw_identity w = ident demo_ingress_env demo_call"
  using no_hook_is_forgotten [of "[HookLine demo_ingress_env 5 []]", OF _ refl, of "[]" dedup_new store_new
      "ident demo_ingress_env demo_call" "[]"] demo_waits
  by auto

theorem decision_stands_witness:
  "fst (ingress_do (HookLine demo_ingress_env 5 [])
     (demo_start\<lparr>ig_hooks := [(ident demo_ingress_env demo_call, CompleteHook ask_json 0)]\<rparr>)) = [(5, ask_json)]"
proof -
  have "parse_request (ie_parse demo_ingress_env) (trim []) = Some (''pre-tool-use'', demo_call)"
    by (simp add: demo_ingress_env_def parse_request_def json_simps)
  from decision_stands [where env = demo_ingress_env and es = "[]" and t = 0 and line = "[]" and d = ask_json
      and c = 5 and s = "demo_start\<lparr>ig_hooks := [(ident demo_ingress_env demo_call, CompleteHook ask_json 0)]\<rparr>",
      OF _ _ _ _ this refl]
  show ?thesis
    by (simp add: ingress_ok_def hm_ok_def ingress_empty_def demo_ingress_env_def demo_gate_env_def)
qed

theorem gate_owns_the_tool_use_witness:
  "fst (on_request demo_perm_env 9 ''w'' ''q'' ''u'' ''Bash'' JNull
     (ig_perm (snd (snd (after_gate demo_ingress_env ''i'' 5 demo_call (hook_json ''deny'' ''n'') demo_start))))) = []"
proof -
  have "get_str demo_call ''tool_use_id'' = Some ''u''"
    by (simp add: demo_call_def json_simps)
  from gate_owns_the_tool_use [where s = demo_start and env = demo_ingress_env and i = "''i''" and c = 5
      and d = "hook_json ''deny'' ''n''" and es = "[]" and penv = demo_perm_env and pid = 9 and al = "''w''"
      and r = "''q''" and tool = "''Bash''" and input = JNull, OF _ this _ refl]
  show ?thesis
    by (simp add: ingress_empty_def hm_ok_def demo_ingress_env_def demo_gate_env_def demo_perm_env_def)
qed

theorem dangerous_call_reaches_operator_witness:
  "asks_operator demo_ingress_env (ident demo_ingress_env demo_call) 5
     (fst (snd (decide_pretool demo_ingress_env 5 demo_call demo_start)))
     (snd (snd (decide_pretool demo_ingress_env 5 demo_call demo_start)))"
proof -
  obtain rs fx t where run: "decide_pretool demo_ingress_env 5 demo_call demo_start = (rs, fx, t)"
    by (metis prod_cases3)
  have silent: "fail_open_gate (fst (pre_tool (ie_gate demo_ingress_env) (ie_config demo_ingress_env) demo_call
      (ig_gate demo_start))) = None" by code_simp
  have summary: "tool_summary demo_call = (''Bash'', Some ''rm -rf x'', ''/w'')" by code_simp
  have danger: "is_destructive (ie_lower demo_ingress_env) (ie_danger_file demo_ingress_env) (Some ''rm -rf x'')"
    by code_simp
  have mode: "resolve (ie_config demo_ingress_env) (get_str demo_call ''session_id'') (basename ''/w'')
      (ie_now demo_ingress_env) = Manual" by code_simp
  have env: "ie_telegram demo_ingress_env" "ie_recipients demo_ingress_env \<noteq> []"
    by (simp_all add: demo_ingress_env_def)
  have start: "map_of (fresh_hooks n (ig_hooks demo_start)) j = None" "store_ok (pm_store (ig_perm demo_start))" for n j
    by (simp_all add: ingress_empty_def fresh_hooks_def hm_retain_def store_ok_new)
  from dangerous_call_reaches_operator [OF run start(1) silent summary danger env start(2) mode [symmetric]]
  show ?thesis unfolding run by simp
qed

end
