(* ===== verification/Reactor.thy ===== *)
theory Reactor
  imports Events Automation
begin

text \<open>
  The reaction to errors of a session (\<open>crates/relay-agent/src/reactor.rs\<close>): the class of the error
  decides between nothing, a notice and a retry after a growing wait, once per error, and a retry that
  is due writes to the session only if it is still in error. The digest, the random part of the wait
  and what a task finds when it is due are in the environments; the log is left out.
\<close>

section \<open>Planning\<close>

record retry =
  rt_attempts :: u32
  rt_acted_sig :: "string option"

definition retry_new :: retry where
  "retry_new = \<lparr>rt_attempts = 0, rt_acted_sig = None\<rparr>"

record notify_ctx =
  nc_machine_id :: string
  nc_workspace :: string
  nc_branch :: "string option"
  nc_agent :: AgentKind
  nc_session_ref :: string
  nc_title :: "string option"
  nc_alias :: string

datatype Plan = SkipError | TerminalError | RateLimited | GaveUp u32 | RetryAt u32 u64

definition saturating_mul64 :: "u64 \<Rightarrow> u64 \<Rightarrow> u64" where
  "saturating_mul64 a b = (if unat a * unat b < 2 ^ 64 then a * b else 0xFFFFFFFFFFFFFFFF)"

text \<open>\<open>jitter\<close> takes the random part of a span: the span times a number between 0 and 1, cut off.\<close>

definition backoff :: "u32 \<Rightarrow> u64 \<Rightarrow> u64 \<Rightarrow> (u64 \<Rightarrow> u64) \<Rightarrow> u64" where
  "backoff attempt base cap jitter =
     (let shift = min (unat attempt - 1) 16;
          expo = saturating_mul64 base (push_bit shift 1);
          capped = max (min expo cap) 1;
          half = capped div 2
      in half + jitter (capped - half))"

definition plan :: "ErrorClass \<Rightarrow> u32 \<Rightarrow> retry_rules \<Rightarrow> (u64 \<Rightarrow> u64) \<Rightarrow> Plan" where
  "plan class attempts rules jitter =
     (case class of
        Terminal \<Rightarrow> TerminalError
      | RateLimit \<Rightarrow> (if rr_wait_for_reset rules then RateLimited else SkipError)
      | Transient \<Rightarrow>
          (if rr_max_attempts rules \<le> attempts then GaveUp attempts
           else let attempt = attempts + 1
                in RetryAt attempt (backoff attempt (rr_base_secs rules) (rr_cap_secs rules) jitter)))"

definition sig_of :: "(string \<Rightarrow> string) \<Rightarrow> string option \<Rightarrow> string \<Rightarrow> string" where
  "sig_of digest tip message =
     (case tip of
        Some t \<Rightarrow> if t \<noteq> [] then t else take 16 (digest message)
      | None \<Rightarrow> take 16 (digest message))"

section \<open>Observations\<close>

type_synonym reactor = "(string \<times> retry) list"

record retry_task =
  tk_pid :: "u32 option"
  tk_session :: string
  tk_path :: string
  tk_attempt :: u32
  tk_max :: u32
  tk_delay :: u64
  tk_notify :: bool
  tk_ctx :: notify_ctx

datatype reactor_effect = Notice notify_ctx string string | Schedule retry_task | Continue u32 string

record observe_env =
  oe_pid :: "u32 option"
  oe_path :: string
  oe_config :: automation_config
  oe_now :: i64
  oe_lower :: "string \<Rightarrow> string"
  oe_digest :: "string \<Rightarrow> string"
  oe_jitter :: "u64 \<Rightarrow> u64"
  oe_ctx :: notify_ctx

definition react :: "observe_env \<Rightarrow> string \<Rightarrow> retry_rules \<Rightarrow> Plan \<Rightarrow> reactor_effect list" where
  "react env sid rules p =
     (case p of
        SkipError \<Rightarrow> []
      | TerminalError \<Rightarrow> []
      | RateLimited \<Rightarrow>
          if rr_notify rules
          then [Notice (oe_ctx env) ''rate-limit'' ''hit a usage/rate limit - auto-retry paused until it resets'']
          else []
      | GaveUp n \<Rightarrow>
          if rr_notify rules
          then [Notice (oe_ctx env) ''retry'' (''gave up after '' @ dec (unat n) @ '' auto-retries'')]
          else []
      | RetryAt n delay \<Rightarrow>
          [Schedule \<lparr>tk_pid = oe_pid env, tk_session = sid, tk_path = oe_path env, tk_attempt = n,
             tk_max = rr_max_attempts rules, tk_delay = delay, tk_notify = rr_notify rules,
             tk_ctx = oe_ctx env\<rparr>])"

definition observe_error ::
  "observe_env \<Rightarrow> string \<Rightarrow> string \<Rightarrow> string option \<Rightarrow> reactor \<Rightarrow> reactor_effect list \<times> reactor" where
  "observe_error env sid message tip m =
     (let rules = ar_retry (ac_auto (oe_config env)) in
      if resolve (oe_config env) (Some sid) (nc_alias (oe_ctx env)) (oe_now env) \<noteq> Auto then ([], m)
      else if \<not> rr_enabled rules then ([], m)
      else let sig = sig_of (oe_digest env) tip message;
               entry = unwrap_or retry_new (map_of m sid)
           in if rt_acted_sig entry = Some sig then ([], AList.update sid entry m)
              else let p = plan (classify_error (oe_lower env) message) (rt_attempts entry) rules (oe_jitter env);
                       entry' = entry\<lparr>rt_acted_sig := Some sig,
                                 rt_attempts := (case p of RetryAt n _ \<Rightarrow> n | _ \<Rightarrow> rt_attempts entry)\<rparr>
                   in (react env sid rules p, AList.update sid entry' m))"

definition observe_claude ::
  "observe_env \<Rightarrow> string \<Rightarrow> claude_state \<Rightarrow> string option \<Rightarrow> reactor \<Rightarrow> reactor_effect list \<times> reactor" where
  "observe_claude env sid state tip m =
     (case state of
        ClIdle \<Rightarrow> ([], AList.delete sid m)
      | ClError message \<Rightarrow> observe_error env sid message tip m
      | _ \<Rightarrow> ([], m))"

section \<open>A retry that is due\<close>

text \<open>
  What a task finds when its delay is over: the process of the session, if there is one that can be
  written to, the state of the transcript as it is read for that process, and whether the write
  succeeds.
\<close>

record fire_env =
  fe_available :: "string \<Rightarrow> u32 option"
  fe_state :: "string \<Rightarrow> u32 option \<Rightarrow> claude_state option"
  fe_tapped :: "string \<Rightarrow> u32 option"
  fe_sent :: bool

definition is_error :: "claude_state option \<Rightarrow> bool" where
  "is_error st = (case st of Some (ClError _) \<Rightarrow> True | _ \<Rightarrow> False)"

definition of_max :: "retry_task \<Rightarrow> string" where
  "of_max t = dec (unat (tk_attempt t)) @ ''/'' @ dec (unat (tk_max t))"

definition fire_retry :: "fire_env \<Rightarrow> retry_task \<Rightarrow> reactor_effect list" where
  "fire_retry env t =
     (let live = or_else (fe_available env (tk_session t)) (tk_pid t) in
      if \<not> is_error (fe_state env (tk_path t) live) then []
      else case fe_tapped env (tk_session t) of
             None \<Rightarrow>
               if tk_notify t
               then [Notice (tk_ctx t) ''retry''
                       (''transient error but session not tapped - retry manually ('' @ of_max t @ '')'')]
               else []
           | Some pid \<Rightarrow>
               Continue pid ''continue'' #
               (if fe_sent env \<and> tk_notify t
                then [Notice (tk_ctx t) ''retry'' (''auto-retry '' @ of_max t @ '' after transient error'')]
                else []))"

text \<open>The event a notice becomes.\<close>

definition notice :: "(string \<Rightarrow> 'd) \<Rightarrow> int \<Rightarrow> notify_ctx \<Rightarrow> string \<Rightarrow> string \<Rightarrow> 'd relay_event" where
  "notice digest at c action detail =
     relay_event_new digest (nc_machine_id c) (nc_workspace c) (nc_branch c) (nc_agent c)
       (nc_session_ref c) (nc_title c) at (AutoAction action detail) Tail"

section \<open>Backoff\<close>

lemma unat_u64: "unat (x :: u64) < 2 ^ 64"
  using unsigned_less [of x] by simp

lemma unat_u32: "unat (x :: u32) < 2 ^ 32"
  using unsigned_less [of x] by simp

lemma unat_saturating: "unat (saturating_mul64 a b) = min (unat a * unat b) (2 ^ 64 - 1)"
  by (simp add: saturating_mul64_def unat_word_ariths)

lemma unat_min: "unat (min a b) = min (unat a) (unat (b :: u64))"
  by (simp add: min_def word_le_nat_alt)

lemma half_jitter:
  fixes x :: u64
  assumes "j (x - x div 2) \<le> x - x div 2"
  shows "x div 2 \<le> x div 2 + j (x - x div 2) \<and> x div 2 + j (x - x div 2) \<le> x"
proof -
  have le: "unat (x div 2) \<le> unat x" by (simp add: unat_div)
  have "unat (x - x div 2) = unat x - unat (x div 2)"
    by (rule unat_sub) (simp add: word_le_nat_alt unat_div)
  then have j: "unat (j (x - x div 2)) \<le> unat x - unat (x div 2)"
    using assms by (simp add: word_le_nat_alt)
  then have "unat (x div 2) + unat (j (x - x div 2)) < 2 ^ 64"
    using le unat_u64 [of x] by simp
  then have "unat (x div 2 + j (x - x div 2)) = unat (x div 2) + unat (j (x - x div 2))"
    by (simp add: unat_word_ariths)
  with j le show ?thesis by (simp add: word_le_nat_alt)
qed

section \<open>Runs\<close>

type_synonym observation = "observe_env \<times> string \<times> claude_state \<times> string option"

definition observe :: "observation \<Rightarrow> reactor \<Rightarrow> reactor_effect list \<times> reactor" where
  "observe e m = (case e of (env, sid, state, tip) \<Rightarrow> observe_claude env sid state tip m)"

definition observe_step :: "observation \<Rightarrow> reactor \<Rightarrow> reactor" where
  "observe_step e m = snd (observe e m)"

fun observe_run :: "observation list \<Rightarrow> reactor \<Rightarrow> reactor_effect list" where
  "observe_run [] m = []"
| "observe_run (e # es) m = fst (observe e m) @ observe_run es (observe_step e m)"

lemma observe_run_snoc:
  "observe_run (es @ [e]) m = observe_run es m @ fst (observe e (fold observe_step es m))"
  by (induction es arbitrary: m) simp_all

lemma observe_ok: "hm_ok m \<Longrightarrow> hm_ok (observe_step e m)"
  by (cases e) (auto simp: observe_step_def observe_def observe_claude_def observe_error_def Let_def
      hm.ok_put hm.ok_del split: claude_state.split)

interpretation reactor: invariant_machine observe_step hm_ok
  by unfold_locales (rule observe_ok)

text \<open>The retries scheduled for a session, by their number.\<close>

definition attempt_of :: "string \<Rightarrow> reactor_effect \<Rightarrow> u32 list" where
  "attempt_of sid x = (case x of Schedule t \<Rightarrow> if tk_session t = sid then [tk_attempt t] else [] | _ \<Rightarrow> [])"

definition attempts_of :: "string \<Rightarrow> reactor_effect list \<Rightarrow> u32 list" where
  "attempts_of sid fx = concat (map (attempt_of sid) fx)"

definition tries :: "string \<Rightarrow> reactor \<Rightarrow> nat" where
  "tries sid m = (case map_of m sid of Some r \<Rightarrow> unat (rt_attempts r) | None \<Rightarrow> 0)"

abbreviation max_of :: "observation \<Rightarrow> nat" where
  "max_of e \<equiv> unat (rr_max_attempts (ar_retry (ac_auto (oe_config (fst e)))))"

lemma attempts_append [simp]:
  "attempts_of sid (a @ b) = attempts_of sid a @ attempts_of sid b" "attempts_of sid [] = []"
  by (simp_all add: attempts_of_def)

lemma attempts_react:
  "attempts_of sid (react env sid' rules p) =
   (case p of RetryAt n _ \<Rightarrow> if sid' = sid then [n] else [] | _ \<Rightarrow> [])"
  by (simp add: attempts_of_def attempt_of_def react_def split: Plan.split)

lemma plan_retry:
  "plan class attempts rules j = RetryAt n d \<Longrightarrow>
   n = attempts + 1 \<and> unat n = unat attempts + 1 \<and> unat n \<le> unat (rr_max_attempts rules) \<and>
   d = backoff n (rr_base_secs rules) (rr_cap_secs rules) j"
  by (auto simp: plan_def Let_def word_le_nat_alt unat_word_ariths split: ErrorClass.splits if_splits)
     (use unat_u32 [of "rr_max_attempts rules"] in \<open>simp_all\<close>)

text \<open>One observation: either it schedules the next retry of the session, or none.\<close>

lemma observe_tries:
  assumes "hm_ok m" "fst (snd e) = sid \<Longrightarrow> fst (snd (snd e)) \<noteq> ClIdle"
  shows "attempts_of sid (fst (observe e m)) = [] \<and> tries sid (observe_step e m) = tries sid m \<or>
    (\<exists>n. attempts_of sid (fst (observe e m)) = [n] \<and> unat n = tries sid m + 1 \<and>
       unat n \<le> max_of e \<and> tries sid (observe_step e m) = unat n)"
proof -
  obtain env s state tip where e: "e = (env, s, state, tip)" by (cases e)
  let ?rules = "ar_retry (ac_auto (oe_config env))" and ?entry = "unwrap_or retry_new (map_of m s)"
  have same: "tries sid (AList.update s ?entry m) = tries sid m"
    by (cases "map_of m s") (simp_all add: tries_def update_conv' retry_new_def)
  show ?thesis
  proof (cases "\<exists>msg. state = ClError msg")
    case False
    with assms e show ?thesis
      by (cases state) (auto simp: observe_step_def observe_def observe_claude_def tries_def
          hm.get_del [OF assms(1)])
  next
    case True
    then obtain msg where state: "state = ClError msg" ..
    let ?p = "plan (classify_error (oe_lower env) msg) (rt_attempts ?entry) ?rules (oe_jitter env)"
    let ?sig = "sig_of (oe_digest env) tip msg"
    let ?next = "?entry\<lparr>rt_acted_sig := Some ?sig,
      rt_attempts := (case ?p of RetryAt n _ \<Rightarrow> n | _ \<Rightarrow> rt_attempts ?entry)\<rparr>"
    consider (silent) "observe e m = ([], m)" | (again) "observe e m = ([], AList.update s ?entry m)"
      | (acts) "observe e m = (react env s ?rules ?p, AList.update s ?next m)"
    proof -
      have "observe e m = ([], m) \<or> observe e m = ([], AList.update s ?entry m) \<or>
          observe e m = (react env s ?rules ?p, AList.update s ?next m)"
        unfolding e state observe_def observe_claude_def observe_error_def Let_def by simp
      then show ?thesis using that by blast
    qed
    then show ?thesis
    proof cases
      case silent
      then show ?thesis by (simp add: observe_step_def)
    next
      case again
      then show ?thesis by (simp add: observe_step_def same)
    next
      case acts
      have entry: "s = sid \<Longrightarrow> unat (rt_attempts ?entry) = tries sid m"
        by (cases "map_of m s") (simp_all add: tries_def retry_new_def)
      show ?thesis
      proof (cases "\<exists>n d. ?p = RetryAt n d \<and> s = sid")
        case True
        then obtain n d where p: "?p = RetryAt n d" "s = sid" by blast
        have "unat n = unat (rt_attempts ?entry) + 1 \<and> unat n \<le> unat (rr_max_attempts ?rules)"
          using plan_retry [OF p(1)] by blast
        then have "unat n = tries sid m + 1" "unat n \<le> max_of e"
          using entry [OF p(2)] by (simp_all add: e)
        then show ?thesis
          unfolding observe_step_def acts fst_conv snd_conv attempts_react p(1)
          by (intro disjI2 exI [of _ n]) (simp add: p(2) tries_def update_conv')
      next
        case False
        then have "tries sid (AList.update s ?next m) = tries sid m"
          using entry by (cases ?p) (auto simp: tries_def update_conv' retry_new_def split: option.splits)
        with False show ?thesis
          unfolding observe_step_def acts fst_conv snd_conv attempts_react
          by (intro disjI1) (auto split: Plan.split)
      qed
    qed
  qed
qed

lemma tries_run:
  assumes "hm_ok m" "list_all (\<lambda>e. (fst (snd e) = sid \<longrightarrow> fst (snd (snd e)) \<noteq> ClIdle) \<and> max_of e \<le> mx) es"
    "tries sid m \<le> mx"
  shows "map unat (attempts_of sid (observe_run es m)) =
      [Suc (tries sid m)..<Suc (tries sid (fold observe_step es m))] \<and>
    tries sid (fold observe_step es m) \<le> mx \<and> tries sid m \<le> tries sid (fold observe_step es m)"
  using assms(2)
proof (induction es rule: rev_induct)
  case (snoc e es)
  let ?m = "fold observe_step es m"
  from snoc have IH: "map unat (attempts_of sid (observe_run es m)) = [Suc (tries sid m)..<Suc (tries sid ?m)]"
    "tries sid ?m \<le> mx" "tries sid m \<le> tries sid ?m" by auto
  have "hm_ok ?m" by (rule reactor.run_inv [OF assms(1)])
  from observe_tries [OF this, of e sid] snoc.prems IH
  show ?case by (auto simp: observe_run_snoc)
qed (simp add: assms)

section \<open>Properties\<close>

text \<open>
  The wait before a retry doubles with each attempt up to the cap and stays in the upper half of
  that time, whatever the jitter: with \<open>T\<close> the base time \<open>2 ^ (attempt - 1)\<close> times (at most
  \<open>2 ^ 16\<close> times), bounded by the cap and at least a second, the wait is between \<open>T div 2\<close> and
  \<open>T\<close>, with no overflow for any configuration.
\<close>

theorem backoff_window:
  assumes "\<And>x. jitter x \<le> x"
    and "T = max (min (unat base * 2 ^ min (unat attempt - 1) 16) (unat cap)) 1"
  shows "T div 2 \<le> unat (backoff attempt base cap jitter) \<and> unat (backoff attempt base cap jitter) \<le> T"
proof -
  let ?k = "min (unat attempt - 1) 16"
  let ?c = "max (min (saturating_mul64 base (push_bit ?k 1)) cap) 1"
  have k: "(2::nat) ^ ?k < 2 ^ 64" by (rule power_strict_increasing) simp_all
  have p: "unat (push_bit ?k 1 :: u64) = 2 ^ ?k"
    unfolding unsigned_push_bit_eq using k by (simp add: push_bit_eq_mult take_bit_nat_eq_self)
  have "unat (min (saturating_mul64 base (push_bit ?k 1)) cap) = min (unat base * 2 ^ ?k) (unat cap)"
    unfolding unat_min unat_saturating p using unat_u64 [of cap] by linarith
  then have c: "unat ?c = T" by (simp add: assms(2) max_def word_le_nat_alt)
  have "unat (?c div 2) = T div 2" unfolding unat_div c by simp
  moreover have "?c div 2 \<le> backoff attempt base cap jitter \<and> backoff attempt base cap jitter \<le> ?c"
    unfolding backoff_def Let_def by (rule half_jitter) (rule assms(1))
  ultimately show ?thesis
    using c unfolding word_le_nat_alt by metis
qed

theorem backoff_window_witness:
  "unat (backoff 3 2 60 (\<lambda>x. x div 2)) \<le> max (min (unat (2::u64) * 2 ^ min (unat (3::u32) - 1) 16) (unat (60::u64))) 1"
  by (rule backoff_window [OF _ refl, THEN conjunct2]) (simp add: word_le_nat_alt unat_div)

text \<open>
  C33. A session is retried at most as often as the rules allow: until it is seen idle, whatever errors
  of whatever sessions are observed, the retries scheduled for it are numbered from 1 without a gap
  or a repetition and never exceed the limit.
\<close>

theorem retries_are_bounded:
  assumes "hm_ok m" "map_of m sid = None"
    and "list_all (\<lambda>e. (fst (snd e) = sid \<longrightarrow> fst (snd (snd e)) \<noteq> ClIdle) \<and> max_of e \<le> mx) es"
  shows "\<exists>k \<le> mx. map unat (attempts_of sid (observe_run es m)) = [1..<Suc k]"
  using tries_run [OF assms(1,3)] assms(2) by (auto simp: tries_def)

text \<open>
  The same error is acted on once: after an error was looked at in Auto mode, seeing it again, by
  the same tip of the transcript or the same message, does nothing, whatever other sessions do in
  between.
\<close>

theorem same_error_acted_once:
  assumes "hm_ok m" "resolve (oe_config env) (Some sid) (nc_alias (oe_ctx env)) (oe_now env) = Auto"
    and "rr_enabled (ar_retry (ac_auto (oe_config env)))"
    and "list_all (\<lambda>e. fst (snd e) \<noteq> sid) es"
    and "sig_of (oe_digest env') tip' msg' = sig_of (oe_digest env) tip msg"
  shows "observe_run (es @ [(env', sid, ClError msg', tip')]) (observe_step (env, sid, ClError msg, tip) m) =
    observe_run es (observe_step (env, sid, ClError msg, tip) m)"
proof -
  let ?m = "observe_step (env, sid, ClError msg, tip) m"
  have frame: "map_of (observe_step e m) sid = map_of m sid" if "fst (snd e) \<noteq> sid" "hm_ok m" for e m
    using that by (cases e) (auto simp: observe_step_def observe_def observe_claude_def observe_error_def
        Let_def update_conv' hm.get_del split: claude_state.split)
  have "hm_ok n \<Longrightarrow> map_of (fold observe_step es n) sid = map_of n sid" for n
    using assms(4) by (induction es arbitrary: n) (auto simp: frame observe_ok)
  then have "map_of (fold observe_step es ?m) sid = map_of ?m sid" using observe_ok [OF assms(1)] .
  moreover have "\<exists>r. map_of ?m sid = Some r \<and> rt_acted_sig r = Some (sig_of (oe_digest env) tip msg)"
    using assms(2,3) by (auto simp: observe_step_def observe_def observe_claude_def observe_error_def Let_def update_conv')
  ultimately show ?thesis
    using assms(5) by (auto simp: observe_run_snoc observe_def observe_claude_def observe_error_def Let_def)
qed

definition demo_observe :: observe_env where
  "demo_observe =
     \<lparr>oe_pid = None, oe_path = ''/t'', oe_config = set_scope ScDefault Auto None (automation_default True),
      oe_now = 0, oe_lower = to_ascii_lowercase, oe_digest = id, oe_jitter = id,
      oe_ctx = \<lparr>nc_machine_id = ''m'', nc_workspace = ''/w'', nc_branch = None, nc_agent = ClaudeCode,
                nc_session_ref = ''s'', nc_title = None, nc_alias = ''w''\<rparr>\<rparr>"

theorem retries_are_bounded_witness:
  "\<exists>k \<le> 3. map unat (attempts_of ''s'' (observe_run [(demo_observe, ''s'', ClError ''overloaded'', Some ''a''),
     (demo_observe, ''s'', ClError ''overloaded'', Some ''b'')] [])) = [1..<Suc k]"
  by (rule retries_are_bounded)
     (simp_all add: hm_ok_def demo_observe_def set_scope_def automation_default_def auto_default_def retry_default_def)

theorem same_error_acted_once_witness:
  "observe_run ([(demo_observe, ''q'', ClIdle, None)] @ [(demo_observe, ''s'', ClError ''x'', Some ''a'')])
     (observe_step (demo_observe, ''s'', ClError ''overloaded'', Some ''a'') []) =
   observe_run [(demo_observe, ''q'', ClIdle, None)]
     (observe_step (demo_observe, ''s'', ClError ''overloaded'', Some ''a'') [])"
  by (rule same_error_acted_once)
     (simp_all add: hm_ok_def sig_of_def demo_observe_def resolve_def set_scope_def automation_default_def
       auto_default_def retry_default_def)

end
