(* ===== verification/Question.thy ===== *)
theory Question
  imports Permission
begin

text \<open>
  Questions of an agent to its user (\<open>crates/relay-agent/src/question.rs\<close>): the lines of a process
  are read for questions and permission requests, a question is answered by a provider where that is
  allowed, or becomes a card whose buttons pick the answers and submit them. The desk holds the open
  questions beside the state of the permission requests. A line is one step; the task of an automatic
  answer, which the code runs on its own, is a step of its own. What providers answer, the last
  messages of the transcript, the comparison of confidences and which sends succeed are in the
  environments; finding the process and its alias is left to them too.
\<close>

section \<open>State\<close>

record q_pending =
  qp_request_id :: string
  qp_tool_use_id :: string
  qp_questions :: json
  qp_answers :: "(nat \<times> string list) list"
  qp_cards :: "card_ref list"
  qp_alias :: string
  qp_session_id :: "string option"
  qp_started :: nat

type_synonym questions = "(u32 \<times> q_pending) list"

record desk =
  dk_questions :: questions
  dk_perm :: perm_state

text \<open>
  An effect of the relay on the outside: a line written to the agent's process, a message or an edit
  in Telegram, one of the permission requests, or a task that goes on by itself.
\<close>

record auto_task =
  ak_pid :: u32
  ak_alias :: string
  ak_session_id :: "string option"
  ak_request_id :: string
  ak_tool_use_id :: string
  ak_questions :: json
  ak_min_confidence :: u64

datatype q_effect =
    QInject u32 json
  | QSend int string "json option"
  | QEdit card_ref string
  | QPerm perm_effect
  | QSpawn auto_task

record q_env =
  qe_perm :: perm_env
  qe_alias :: "string option"

section \<open>Questions\<close>

definition is_multi :: "json \<Rightarrow> bool" where
  "is_multi qv = unwrap_or False (Option.bind (jget qv ''multiSelect'') as_bool)"

definition questions_list :: "json \<Rightarrow> json list" where
  "questions_list v = unwrap_or [] (as_array v)"

definition options_list :: "json \<Rightarrow> json list" where
  "options_list qv = unwrap_or [] (Option.bind (jget qv ''options'') as_array)"

definition q_text :: "json \<Rightarrow> string" where
  "q_text qv = unwrap_or [] (get_str qv ''question'')"

definition chosen :: "q_pending \<Rightarrow> nat \<Rightarrow> string list" where
  "chosen p qi = unwrap_or [] (map_of (qp_answers p) qi)"

section \<open>Texts\<close>

definition YELLOW :: string where "YELLOW = [CHR 0xF0, CHR 0x9F, CHR 0x9F, CHR 0xA1]"
definition ARROW :: string where
  "ARROW = [CHR 0xE2, CHR 0x9E, CHR 0xA1, CHR 0xEF, CHR 0xB8, CHR 0x8F]"
definition TICK :: string where "TICK = [CHR 0xE2, CHR 0x9C, CHR 0x93]"
definition MIDDLE_DOT :: string where "MIDDLE_DOT = [CHR 0xC2, CHR 0xB7]"

definition COLLAPSE_NOTE :: string where
  "COLLAPSE_NOTE = YELLOW @ '' answer this on the interactive question card''"

definition question_text :: "bool \<Rightarrow> q_pending \<Rightarrow> nat \<Rightarrow> json \<Rightarrow> string" where
  "question_text several p qi qv =
     NL # NL # ''<b>'' @ (if several then ''Q'' @ dec (qi + 1) @ '' '' @ MIDDLE_DOT @ '' '' else []) @
     esc_html (unwrap_or [] (get_str qv ''header'')) @ ''</b>'' @
     (if is_multi qv then '' <i>(multiple)</i>'' else []) @ NL # esc_html (q_text qv) @
     (if chosen p qi \<noteq> []
      then NL # ARROW @ '' <b>'' @ esc_html (join '', '' (chosen p qi)) @ ''</b>''
      else [])"

definition option_button :: "u32 \<Rightarrow> q_pending \<Rightarrow> nat \<Rightarrow> nat \<Rightarrow> json \<Rightarrow> string \<times> string" where
  "option_button pid p qi oi ov =
     (let label = unwrap_or ''?'' (get_str ov ''label'')
      in ((if label \<in> set (chosen p qi) then TICK @ '' '' else []) @ truncate_chars label 18,
          ''aq:p:'' @ dec (unat pid) @ '':'' @ dec qi @ '':'' @ dec oi))"

text \<open>The buttons of a question stand two in a row.\<close>

fun in_pairs :: "'a list \<Rightarrow> 'a list list" where
  "in_pairs (x # y # zs) = [x, y] # in_pairs zs"
| "in_pairs [x] = [[x]]"
| "in_pairs [] = []"

definition option_buttons :: "u32 \<Rightarrow> q_pending \<Rightarrow> nat \<Rightarrow> json \<Rightarrow> (string \<times> string) list" where
  "option_buttons pid p qi qv =
     map (\<lambda>(oi, ov). option_button pid p qi oi ov) (enumerate 0 (options_list qv))"

definition submit_button :: "u32 \<Rightarrow> q_pending \<Rightarrow> string \<times> string" where
  "submit_button pid p =
     (let qs = questions_list (qp_questions p);
          answered = length (filter (\<lambda>qi. chosen p qi \<noteq> []) [0..<length qs])
      in (CHECK @ '' Submit ('' @ dec answered @ ''/'' @ dec (length qs) @ '')'', ''aq:s:'' @ dec (unat pid)))"

definition question_rows :: "u32 \<Rightarrow> q_pending \<Rightarrow> (string \<times> string) list list" where
  "question_rows pid p =
     concat (map (\<lambda>(qi, qv). in_pairs (option_buttons pid p qi qv))
       (enumerate 0 (questions_list (qp_questions p)))) @ [[submit_button pid p]]"

definition render_question :: "u32 \<Rightarrow> q_pending \<Rightarrow> cb_store \<Rightarrow> (string \<times> json) \<times> cb_store" where
  "render_question pid p s =
     (let qs = questions_list (qp_questions p);
          text = YELLOW @ '' <b>Question</b> - <b>'' @ esc_html (qp_alias p) @ ''</b>'' @
                 concat (map (\<lambda>(qi, qv). question_text (1 < length qs) p qi qv) (enumerate 0 qs));
          (kb, s') = keyboard (question_rows pid p) s
      in ((text, kb), s'))"

section \<open>Picking and submitting\<close>

text \<open>The label a press chooses, if the question and the option exist and it has one.\<close>

definition option_label :: "json \<Rightarrow> nat \<Rightarrow> string option" where
  "option_label qv oi =
     (let os = options_list qv in if oi < length os then get_str (os ! oi) ''label'' else None)"

definition picked_label :: "q_pending \<Rightarrow> nat \<Rightarrow> nat \<Rightarrow> string option" where
  "picked_label p qi oi =
     (case as_array (qp_questions p) of
        None \<Rightarrow> None
      | Some qs \<Rightarrow> if qi < length qs then option_label (qs ! qi) oi else None)"

definition pick :: "nat \<Rightarrow> string \<Rightarrow> q_pending \<Rightarrow> q_pending" where
  "pick qi label p =
     (let entry = chosen p qi;
          entry' = (if is_multi (questions_list (qp_questions p) ! qi)
                    then if label \<in> set entry then remove1 label entry else entry @ [label]
                    else [label])
      in p\<lparr>qp_answers := AList.update qi entry' (qp_answers p)\<rparr>)"

definition handle_pick ::
  "u32 \<Rightarrow> nat \<Rightarrow> nat \<Rightarrow> questions \<Rightarrow> cb_store \<Rightarrow> (string \<times> json) option \<times> questions \<times> cb_store" where
  "handle_pick pid qi oi qs s =
     (case map_of qs pid of
        None \<Rightarrow> (None, qs, s)
      | Some p \<Rightarrow>
          (case picked_label p qi oi of
             None \<Rightarrow> (None, qs, s)
           | Some label \<Rightarrow>
               (let p' = pick qi label p; (card, s') = render_question pid p' s
                in (Some card, AList.update pid p' qs, s'))))"

definition build_answer_response :: "string \<Rightarrow> string \<Rightarrow> json \<Rightarrow> (string \<times> json) list \<Rightarrow> json" where
  "build_answer_response request_id use_id questions answers =
     JObject
       [(''response'', JObject
          [(''request_id'', JString request_id),
           (''response'', JObject
              [(''behavior'', JString ''allow''),
               (''toolUseID'', JString use_id),
               (''updatedInput'', JObject [(''answers'', JObject answers), (''questions'', questions)]),
               (''updatedPermissions'', JArray [])]),
           (''subtype'', JString ''success'')]),
        (''type'', JString ''control_response'')]"

definition answer_value :: "q_pending \<Rightarrow> nat \<Rightarrow> json \<Rightarrow> json" where
  "answer_value p qi qv =
     (if is_multi qv then JArray (map JString (chosen p qi))
      else JString (case chosen p qi of [] \<Rightarrow> [] | l # _ \<Rightarrow> l))"

definition answers_map :: "q_pending \<Rightarrow> (string \<times> json) list" where
  "answers_map p =
     fold (\<lambda>(qi, qv). bt_put (q_text qv) (answer_value p qi qv))
       (enumerate 0 (questions_list (qp_questions p))) []"

definition handle_submit ::
  "perm_env \<Rightarrow> u32 \<Rightarrow> questions \<Rightarrow> (string + card_ref list) \<times> q_effect list \<times> questions" where
  "handle_submit env pid qs =
     (case map_of qs pid of
        None \<Rightarrow> (Inl ''question is no longer active'', [], qs)
      | Some p \<Rightarrow>
          if \<not> session_stable env (qp_session_id p)
          then (Inl ''session changed - answer not sent'', [], AList.delete pid qs)
          else let total = length (questions_list (qp_questions p));
                   answered = length (filter (\<lambda>i. chosen p i \<noteq> []) [0..<total])
               in if answered < total
                  then (Inl (''answer every tab ('' @ dec answered @ ''/'' @ dec total @ '')''), [], qs)
                  else let response = build_answer_response (qp_request_id p) (qp_tool_use_id p)
                                        (qp_questions p) (answers_map p)
                       in if \<not> pe_inject_ok env then (Inl ''inject'', [QInject pid response], qs)
                          else (Inr (qp_cards p), [QInject pid response], AList.delete pid qs))"

section \<open>Answers by a provider\<close>

text \<open>
  A provider's reply: confidences are double-precision numbers, kept as their bits and compared by
  the parameter \<open>below\<close>.
\<close>

record provider_reply =
  pv_backend :: string
  pv_option_index :: "nat option"
  pv_message :: "string option"
  pv_confidence :: "u64 option"
  pv_reason :: string

definition pick_answer ::
  "(u64 \<Rightarrow> u64 \<Rightarrow> bool) \<Rightarrow> nat option \<Rightarrow> string option \<Rightarrow> u64 \<Rightarrow> u64 \<Rightarrow> (string \<times> string) list \<Rightarrow>
   string option" where
  "pick_answer below option_index message confidence min_confidence options =
     (if below confidence min_confidence then None
      else case option_index of
             Some i \<Rightarrow> if i < length options then Some (fst (options ! i)) else None
           | None \<Rightarrow>
               (let text = trim (unwrap_or [] message) in if text \<noteq> [] then Some text else None))"

definition answer_prompt :: "string \<Rightarrow> string \<Rightarrow> (string \<times> string) list \<Rightarrow> string \<Rightarrow> string" where
  "answer_prompt header qtext options context =
     (if trim context \<noteq> []
      then ''Recent session context (oldest first):'' @ NL # trim context @ [NL, NL] else []) @
     ''The coding agent asked its user this single-select question:'' @ NL #
     (if header \<noteq> [] then ''Topic: '' @ header @ [NL] else []) @
     ''Question: '' @ qtext @ NL # ''Options:'' @ NL #
     concat (map (\<lambda>(i, label, desc).
       if trim desc = [] then ''  '' @ dec i @ '': '' @ label @ [NL]
       else ''  '' @ dec i @ '': '' @ label @ '' - '' @ desc @ [NL]) (enumerate 0 options)) @
     NL # ''Choose on the user's behalf. Set option_index to the best option's 0-based index, or put a short free-text answer in message if no option fits. Set confidence (0-1) and reason.''"

text \<open>The session's last messages, each with who said it.\<close>

definition answer_context :: "(bool \<times> string) list \<Rightarrow> string" where
  "answer_context msgs =
     concat (map (\<lambda>(agent, text).
       (if agent then ''agent'' else ''user'') @ '': '' @ truncate_chars (trim text) 400 @ [NL]) msgs)"

definition auto_answer_eligible ::
  "automation_config \<Rightarrow> i64 \<Rightarrow> string option \<Rightarrow> string \<Rightarrow> json \<Rightarrow> bool" where
  "auto_answer_eligible cfg now session_id alias questions =
     (if \<not> ar_auto_answer_questions (ac_auto cfg) then False
      else case session_id of
             None \<Rightarrow> False
           | Some sid \<Rightarrow>
               if resolve cfg (Some sid) alias now \<noteq> Auto then False
               else case questions_list questions of
                      [q0] \<Rightarrow> \<not> is_multi q0 \<and> options_list q0 \<noteq> []
                    | _ \<Rightarrow> False)"

record provider_env =
  pr_below :: "u64 \<Rightarrow> u64 \<Rightarrow> bool"
  pr_show :: "u64 \<Rightarrow> string"
  pr_tail :: "string \<Rightarrow> (bool \<times> string) list"
  pr_ask :: "string \<Rightarrow> string \<Rightarrow> provider_reply option"

text \<open>\<open>ask\<close> gives no reply when every provider fails or the time is over.\<close>

definition resolve_auto_answer ::
  "provider_env \<Rightarrow> string \<Rightarrow> string \<Rightarrow> string \<Rightarrow> (string \<times> string) list \<Rightarrow> u64 \<Rightarrow>
   (string \<times> provider_reply) option" where
  "resolve_auto_answer pv session_id header qtext options min_confidence =
     Option.bind (pr_ask pv session_id (answer_prompt header qtext options (answer_context (pr_tail pv session_id))))
       (\<lambda>r. map_option (\<lambda>a. (a, r))
          (pick_answer (pr_below pv) (pv_option_index r) (pv_message r) (unwrap_or 0 (pv_confidence r))
             min_confidence options))"

definition option_pairs :: "json \<Rightarrow> (string \<times> string) list" where
  "option_pairs q0 =
     map (\<lambda>ov. (unwrap_or [] (get_str ov ''label''), unwrap_or [] (get_str ov ''description'')))
       (options_list q0)"

definition commit_auto_answer ::
  "perm_env \<Rightarrow> provider_env \<Rightarrow> string \<Rightarrow> auto_task \<Rightarrow> bool \<times> q_effect list" where
  "commit_auto_answer env pv sid t =
     (case questions_list (ak_questions t) of
        [] \<Rightarrow> (False, [])
      | q0 # _ \<Rightarrow>
          if options_list q0 = [] then (False, [])
          else case resolve_auto_answer pv sid (unwrap_or [] (get_str q0 ''header'')) (q_text q0)
                      (option_pairs q0) (ak_min_confidence t) of
                 None \<Rightarrow> (False, [])
               | Some (answer, r) \<Rightarrow>
                   if \<not> session_stable env (Some sid) then (False, [])
                   else let inject = QInject (ak_pid t)
                              (build_answer_response (ak_request_id t) (ak_tool_use_id t) (ak_questions t)
                                 [(q_text q0, JString answer)])
                        in if \<not> pe_inject_ok env then (False, [inject])
                           else let note = ROBOT @ '' <b>Auto-answered</b> '' @ MIDDLE_DOT @ '' <b>'' @
                                      esc_html (ak_alias t) @ ''</b>'' @ NL # esc_html (q_text q0) @
                                      NL # ARROW @ '' <b>'' @ esc_html answer @ ''</b>'' @
                                      NL # ''<i>'' @ esc_html (pv_backend r) @ '' '' @ MIDDLE_DOT @ '' '' @
                                      esc_html (pv_reason r) @ '' '' @ MIDDLE_DOT @ '' conf '' @
                                      pr_show pv (unwrap_or 0 (pv_confidence r)) @ ''</i>''
                                in (True, inject # map (\<lambda>chat. QSend chat note None) (pe_recipients env)))"

section \<open>Cards\<close>

definition send_question_card ::
  "perm_env \<Rightarrow> auto_task \<Rightarrow> desk \<Rightarrow> q_effect list \<times> desk" where
  "send_question_card env t d =
     (let p = \<lparr>qp_request_id = ak_request_id t, qp_tool_use_id = ak_tool_use_id t,
               qp_questions = ak_questions t, qp_answers = [], qp_cards = [], qp_alias = ak_alias t,
               qp_session_id = ak_session_id t, qp_started = pe_instant env\<rparr>;
          st = dk_perm d;
          dd = mark_live_card (pe_instant env) (ak_alias t) (pm_dedup st);
          ((text, kb), cb) = render_question (ak_pid t) p (pm_store st)
      in (map (\<lambda>chat. QSend chat text (Some kb)) (pe_recipients env),
          \<lparr>dk_questions = AList.update (ak_pid t) (p\<lparr>qp_cards := sent_cards env\<rparr>) (dk_questions d),
           dk_perm = st\<lparr>pm_dedup := dd, pm_store := cb\<rparr>\<rparr>))"

text \<open>The task of a question that may be answered by itself.\<close>

definition run_auto_task ::
  "perm_env \<Rightarrow> provider_env \<Rightarrow> auto_task \<Rightarrow> desk \<Rightarrow> q_effect list \<times> desk" where
  "run_auto_task env pv t d =
     (let (handled, fx) = (case ak_session_id t of
                             Some sid \<Rightarrow> commit_auto_answer env pv sid t
                           | None \<Rightarrow> (False, []))
      in if handled then (fx, d)
         else let (fx', d') = send_question_card env t d in (fx @ fx', d'))"

section \<open>The lines of a process\<close>

definition edits :: "card_ref list \<Rightarrow> string \<Rightarrow> q_effect list" where
  "edits cards text = map (\<lambda>c. QEdit c text) cards"

definition on_question :: "q_env \<Rightarrow> u32 \<Rightarrow> string \<Rightarrow> string \<Rightarrow> json \<Rightarrow> desk \<Rightarrow> q_effect list \<times> desk" where
  "on_question env pid request_id alias req d =
     (let pe = qe_perm env;
          use_id = unwrap_or [] (get_str req ''tool_use_id'');
          (cards, dd) = mark_received (pe_instant pe) use_id (pm_dedup (dk_perm d));
          d1 = d\<lparr>dk_perm := (dk_perm d)\<lparr>pm_dedup := dd\<rparr>\<rparr>;
          collapse = edits cards COLLAPSE_NOTE;
          live = (case map_of (dk_questions d) pid of Some p \<Rightarrow> qp_request_id p = request_id | None \<Rightarrow> False)
      in if live then (collapse, d1)
         else let questions = unwrap_or (JArray []) (Option.bind (jget req ''input'') (\<lambda>i. jget i ''questions''));
                  sid = pe_session_first pe;
                  cfg = pe_config pe;
                  t = \<lparr>ak_pid = pid, ak_alias = alias, ak_session_id = sid, ak_request_id = request_id,
                       ak_tool_use_id = use_id, ak_questions = questions,
                       ak_min_confidence = ar_auto_answer_min_confidence (ac_auto cfg)\<rparr>
              in if auto_answer_eligible cfg (pe_secs pe) sid alias questions
                 then (collapse @ [QSpawn t], d1)
                 else let (fx, d2) = send_question_card pe t d1 in (collapse @ fx, d2))"

definition on_control :: "q_env \<Rightarrow> u32 \<Rightarrow> json \<Rightarrow> desk \<Rightarrow> q_effect list \<times> desk" where
  "on_control env pid v d =
     (let req = unwrap_or JNull (jget v ''request'');
          tool = unwrap_or [] (get_str req ''tool_name'')
      in if unwrap_or [] (get_str req ''subtype'') \<noteq> ''can_use_tool'' then ([], d)
         else let request_id = unwrap_or [] (get_str v ''request_id'');
                  alias = unwrap_or (''pid '' @ dec (unat pid)) (qe_alias env)
              in if tool = ''AskUserQuestion'' then on_question env pid request_id alias req d
                 else let (fx, st) = on_request (qe_perm env) pid alias request_id
                            (unwrap_or [] (get_str req ''tool_use_id'')) tool
                            (unwrap_or JNull (jget req ''input'')) (dk_perm d)
                      in (map QPerm fx, d\<lparr>dk_perm := st\<rparr>))"

text \<open>A question whose tool use a line refers to was answered in the editor.\<close>

definition drop_question :: "u32 \<Rightarrow> string \<Rightarrow> desk \<Rightarrow> q_effect list \<times> desk" where
  "drop_question pid note d =
     (case map_of (dk_questions d) pid of
        None \<Rightarrow> ([], d)
      | Some p \<Rightarrow>
          (let (cards, dd) = forget (qp_tool_use_id p) (pm_dedup (dk_perm d))
           in (edits cards note @ edits (qp_cards p) note,
               \<lparr>dk_questions = AList.delete pid (dk_questions d),
                dk_perm = (dk_perm d)\<lparr>pm_dedup := dd\<rparr>\<rparr>)))"

definition on_other_line :: "u32 \<Rightarrow> json \<Rightarrow> desk \<Rightarrow> q_effect list \<times> desk" where
  "on_other_line pid v d =
     (let refs = (case map_of (dk_questions d) pid of
                    Some p \<Rightarrow> qp_tool_use_id p \<noteq> [] \<and> refs_tool_use_id v (qp_tool_use_id p)
                  | None \<Rightarrow> False);
          (fx, d1) = (if refs then drop_question pid ''answered in VS Code'' d else ([], d));
          (groups, ps) = void_referenced pid v (pm_pending (dk_perm d1))
      in (fx @ concat (map (\<lambda>cards. edits cards ''answered in VS Code'') groups),
          d1\<lparr>dk_perm := (dk_perm d1)\<lparr>pm_pending := ps\<rparr>\<rparr>))"

definition handle_stream_line :: "q_env \<Rightarrow> u32 \<Rightarrow> json \<Rightarrow> desk \<Rightarrow> q_effect list \<times> desk" where
  "handle_stream_line env pid v d =
     (if unwrap_or [] (get_str v ''type'') = ''control_request'' then on_control env pid v d
      else on_other_line pid v d)"

text \<open>The stream of a process ended: when the process is gone, all it asked is closed.\<close>

definition reader_end :: "bool \<Rightarrow> u32 \<Rightarrow> desk \<Rightarrow> q_effect list \<times> desk" where
  "reader_end alive pid d =
     (if alive then ([], d)
      else let (fx, d1) = drop_question pid ''session closed - question is no longer active'' d;
               (groups, ps) = drain_pid pid (pm_pending (dk_perm d1))
           in (fx @ concat (map (\<lambda>cards. edits cards ''session closed - permission is no longer active'') groups),
               d1\<lparr>dk_perm := (dk_perm d1)\<lparr>pm_pending := ps\<rparr>\<rparr>))"

section \<open>Invariant\<close>

definition labels_of :: "json \<Rightarrow> string set" where
  "labels_of qv = {l. \<exists>oi. option_label qv oi = Some l}"

text \<open>
  What was picked are labels the question offers, none twice, and exactly one unless the question
  allows several.
\<close>

definition answers_ok :: "q_pending \<Rightarrow> bool" where
  "answers_ok p \<longleftrightarrow>
     hm_ok (qp_answers p) \<and>
     (\<forall>qi sel. map_of (qp_answers p) qi = Some sel \<longrightarrow>
        qi < length (questions_list (qp_questions p)) \<and> distinct sel \<and>
        set sel \<subseteq> labels_of (questions_list (qp_questions p) ! qi) \<and>
        (\<not> is_multi (questions_list (qp_questions p) ! qi) \<longrightarrow> length sel = 1))"

definition questions_ok :: "questions \<Rightarrow> bool" where
  "questions_ok qs \<longleftrightarrow> hm_ok qs \<and> (\<forall>pid p. map_of qs pid = Some p \<longrightarrow> answers_ok p)"

lemma answers_okI:
  assumes "hm_ok (qp_answers p)"
    and "\<And>qi sel. map_of (qp_answers p) qi = Some sel \<Longrightarrow>
      qi < length (questions_list (qp_questions p)) \<and> distinct sel \<and>
      set sel \<subseteq> labels_of (questions_list (qp_questions p) ! qi) \<and>
      (\<not> is_multi (questions_list (qp_questions p) ! qi) \<longrightarrow> length sel = 1)"
  shows "answers_ok p"
  using assms by (simp add: answers_ok_def)

lemma picked_label_D:
  assumes "picked_label p qi oi = Some l"
  shows "qi < length (questions_list (qp_questions p))" "l \<in> labels_of (questions_list (qp_questions p) ! qi)"
  using assms by (auto simp: picked_label_def questions_list_def labels_of_def split: option.splits if_splits)

lemma chosen_ok:
  assumes "answers_ok p" "qi < length (questions_list (qp_questions p))"
  shows "distinct (chosen p qi)" "set (chosen p qi) \<subseteq> labels_of (questions_list (qp_questions p) ! qi)"
    "chosen p qi \<noteq> [] \<Longrightarrow> map_of (qp_answers p) qi = Some (chosen p qi)"
  using assms by (cases "map_of (qp_answers p) qi"; auto simp: chosen_def answers_ok_def)+

lemma pick_frame [simp]:
  "qp_questions (pick qi l p) = qp_questions p" "qp_request_id (pick qi l p) = qp_request_id p"
  "qp_cards (pick qi l p) = qp_cards p" "qp_session_id (pick qi l p) = qp_session_id p"
  by (simp_all add: pick_def Let_def)

lemma chosen_pick:
  "chosen (pick qi l p) j =
     (if j \<noteq> qi then chosen p j
      else if is_multi (questions_list (qp_questions p) ! qi)
      then if l \<in> set (chosen p qi) then remove1 l (chosen p qi) else chosen p qi @ [l]
      else [l])"
  by (simp add: chosen_def pick_def Let_def update_conv')

lemma pick_ok:
  assumes ok: "answers_ok p" and l: "picked_label p qi oi = Some l"
  shows "answers_ok (pick qi l p)"
proof (rule answers_okI)
  show "hm_ok (qp_answers (pick qi l p))"
    using ok by (simp add: pick_def Let_def answers_ok_def hm.ok_put)
next
  fix j sel assume sel: "map_of (qp_answers (pick qi l p)) j = Some sel"
  note L = picked_label_D [OF l]
  note C = chosen_ok [OF ok L(1)]
  show "j < length (questions_list (qp_questions (pick qi l p))) \<and> distinct sel \<and>
      set sel \<subseteq> labels_of (questions_list (qp_questions (pick qi l p)) ! j) \<and>
      (\<not> is_multi (questions_list (qp_questions (pick qi l p)) ! j) \<longrightarrow> length sel = 1)"
  proof (cases "j = qi")
    case True
    from sel have "sel = chosen (pick qi l p) qi" by (simp add: True chosen_def)
    with C L True show ?thesis
      by (auto simp: chosen_pick dest: set_mp [OF set_remove1_subset])
  next
    case False
    with sel have "map_of (qp_answers p) j = Some sel"
      by (simp add: pick_def Let_def update_conv')
    with ok show ?thesis by (simp add: answers_ok_def)
  qed
qed

lemma questions_ok_put: "questions_ok qs \<Longrightarrow> answers_ok p \<Longrightarrow> questions_ok (AList.update pid p qs)"
  by (auto simp: questions_ok_def hm.ok_put hm.get_put)

lemma questions_ok_del: "questions_ok qs \<Longrightarrow> questions_ok (AList.delete pid qs)"
  by (auto simp: questions_ok_def hm.ok_del hm.get_del)

text \<open>What can happen to the desk.\<close>

datatype desk_event =
    StreamLine q_env u32 json
  | StreamEnd bool u32
  | AutoTask perm_env provider_env auto_task
  | PickOption u32 nat nat
  | SubmitAnswers perm_env u32

definition desk_do :: "desk_event \<Rightarrow> desk \<Rightarrow> q_effect list \<times> desk" where
  "desk_do e d =
     (case e of
        StreamLine env pid v \<Rightarrow> handle_stream_line env pid v d
      | StreamEnd alive pid \<Rightarrow> reader_end alive pid d
      | AutoTask env pv t \<Rightarrow> run_auto_task env pv t d
      | PickOption pid qi oi \<Rightarrow>
          (let (card, qs, cb) = handle_pick pid qi oi (dk_questions d) (pm_store (dk_perm d))
           in ([], \<lparr>dk_questions = qs, dk_perm = (dk_perm d)\<lparr>pm_store := cb\<rparr>\<rparr>))
      | SubmitAnswers env pid \<Rightarrow>
          (let (res, fx, qs) = handle_submit env pid (dk_questions d) in (fx, d\<lparr>dk_questions := qs\<rparr>)))"

definition desk_step :: "desk_event \<Rightarrow> desk \<Rightarrow> desk" where
  "desk_step e d = snd (desk_do e d)"

definition desk_ok :: "desk \<Rightarrow> bool" where
  "desk_ok d \<longleftrightarrow> questions_ok (dk_questions d) \<and> perms_ok (pm_pending (dk_perm d))"

lemma handle_pick_ok: "questions_ok qs \<Longrightarrow> questions_ok (fst (snd (handle_pick pid qi oi qs s)))"
  by (auto simp: handle_pick_def Let_def case_prod_beta questions_ok_def hm.ok_put hm.get_put pick_ok
      split: option.split)

lemma handle_submit_ok: "questions_ok qs \<Longrightarrow> questions_ok (snd (snd (handle_submit env pid qs)))"
  by (auto simp: handle_submit_def Let_def questions_ok_del split: option.split)

lemma card_desk:
  "dk_questions (snd (send_question_card env t d)) =
     AList.update (ak_pid t)
       \<lparr>qp_request_id = ak_request_id t, qp_tool_use_id = ak_tool_use_id t,
        qp_questions = ak_questions t, qp_answers = [], qp_cards = sent_cards env, qp_alias = ak_alias t,
        qp_session_id = ak_session_id t, qp_started = pe_instant env\<rparr> (dk_questions d)"
  "pm_pending (dk_perm (snd (send_question_card env t d))) = pm_pending (dk_perm d)"
  by (simp_all add: send_question_card_def Let_def case_prod_beta)

lemma card_ok: "desk_ok d \<Longrightarrow> desk_ok (snd (send_question_card env t d))"
  unfolding desk_ok_def card_desk
  by (auto intro!: questions_ok_put answers_okI simp: hm_ok_def)

lemma desk_ok_dedup: "desk_ok d \<Longrightarrow> desk_ok (d\<lparr>dk_perm := (dk_perm d)\<lparr>pm_dedup := dd\<rparr>\<rparr>)"
  by (simp add: desk_ok_def)

lemma drop_ok: "desk_ok d \<Longrightarrow> desk_ok (snd (drop_question pid note d))"
  by (simp add: drop_question_def desk_ok_def Let_def case_prod_beta questions_ok_del split: option.split)

lemma desk_ok_pending:
  "desk_ok d \<Longrightarrow> perms_ok ps \<Longrightarrow> desk_ok (d\<lparr>dk_perm := (dk_perm d)\<lparr>pm_pending := ps\<rparr>\<rparr>)"
  by (simp add: desk_ok_def)

lemma drop_where_ok: "perms_ok ps \<Longrightarrow> perms_ok (snd (drop_where P ps))"
  by (simp add: drop_where_def Let_def perms_ok_del_all)

lemma on_question_ok: "desk_ok d \<Longrightarrow> desk_ok (snd (on_question env pid i al req d))"
  by (simp add: on_question_def Let_def case_prod_beta desk_ok_dedup card_ok)

lemma on_control_ok: "desk_ok d \<Longrightarrow> desk_ok (snd (on_control env pid v d))"
  by (simp add: on_control_def Let_def case_prod_beta on_question_ok)
     (simp add: desk_ok_def perms_ok_request)

lemma stream_ok: "desk_ok d \<Longrightarrow> desk_ok (snd (handle_stream_line env pid v d))"
  by (simp add: handle_stream_line_def on_control_ok on_other_line_def Let_def case_prod_beta drop_ok)
     (intro impI conjI desk_ok_pending drop_ok; simp add: void_referenced_def drop_where_ok drop_ok desk_ok_def [of d]
        drop_ok [of d, unfolded desk_ok_def])

lemma end_ok: "desk_ok d \<Longrightarrow> desk_ok (snd (reader_end alive pid d))"
  by (simp add: reader_end_def Let_def case_prod_beta)
     (intro impI desk_ok_pending drop_ok; simp add: drain_pid_def drop_where_ok drop_ok [of d, unfolded desk_ok_def] desk_ok_def)

lemma auto_ok: "desk_ok d \<Longrightarrow> desk_ok (snd (run_auto_task env pv t d))"
  by (simp add: run_auto_task_def Let_def case_prod_beta card_ok)

lemma desk_ok_step: "desk_ok d \<Longrightarrow> desk_ok (desk_step e d)"
  by (cases e)
     (simp_all add: desk_step_def desk_do_def stream_ok end_ok auto_ok Let_def case_prod_beta,
      simp_all add: desk_ok_def handle_pick_ok handle_submit_ok)

interpretation desk: invariant_machine desk_step desk_ok
  by unfold_locales (rule desk_ok_step)

definition desk_start :: "held \<Rightarrow> dedup \<Rightarrow> cb_store \<Rightarrow> desk" where
  "desk_start held dd cb =
     \<lparr>dk_questions = [], dk_perm = \<lparr>pm_pending = [], pm_dedup = dd, pm_store = cb, pm_held = held\<rparr>\<rparr>"

lemma desk_start_ok: "desk_ok (desk_start held dd cb)"
  by (simp add: desk_ok_def desk_start_def questions_ok_def perms_ok_def hm_ok_def)

section \<open>Properties\<close>

lemma answers_untouched:
  "\<forall>x \<in> set L. f x \<noteq> t \<Longrightarrow>
   map_of (fold (\<lambda>(qi, qv). bt_put (f qv) (g qi qv)) (enumerate n L) m) t = map_of m t"
  by (induction L arbitrary: n m) (auto simp: map_of_bt_put)

lemma answers_lookup:
  assumes "qi < length L" "\<forall>j. qi < j \<and> j < length L \<longrightarrow> f (L ! j) \<noteq> f (L ! qi)"
  shows "map_of (fold (\<lambda>(qi, qv). bt_put (f qv) (g qi qv)) (enumerate n L) m) (f (L ! qi)) =
    Some (g (n + qi) (L ! qi))"
  using assms
proof (induction L arbitrary: n m qi)
  case (Cons x L)
  show ?case
  proof (cases qi)
    case 0
    have "\<forall>y \<in> set L. f y \<noteq> f x" using Cons.prems(2) 0 by (fastforce simp: in_set_conv_nth)
    from answers_untouched [OF this, of g "Suc n" "bt_put (f x) (g n x) m"] 0
    show ?thesis by (simp add: map_of_bt_put)
  next
    case (Suc k)
    have "\<forall>j. k < j \<and> j < length L \<longrightarrow> f (L ! j) \<noteq> f (L ! k)"
    proof (intro allI impI)
      fix j assume "k < j \<and> j < length L"
      then show "f (L ! j) \<noteq> f (L ! k)" using Cons.prems(2) [rule_format, of "Suc j"] Suc by simp
    qed
    from Cons.IH [OF _ this, of "Suc n"] Cons.prems(1) Suc show ?thesis by simp
  qed
qed simp

lemma all_answered:
  "\<not> length (filter (\<lambda>i. chosen p i \<noteq> []) [0..<n]) < n \<Longrightarrow> qi < n \<Longrightarrow> chosen p qi \<noteq> []"
proof
  assume full: "\<not> length (filter (\<lambda>i. chosen p i \<noteq> []) [0..<n]) < n" and "qi < n" "chosen p qi = []"
  then have "length (filter (\<lambda>i. chosen p i \<noteq> []) [0..<n]) < length [0..<n]"
    by (intro length_filter_less [of qi]) auto
  with full show False by simp
qed


text \<open>
  Pressing an option twice undoes it where several are allowed, and where one is allowed the last
  press counts; no press changes the answer to another question.
\<close>

theorem picks_toggle:
  assumes "answers_ok p" "picked_label p qi oi = Some l" "picked_label p qi oi' = Some l'"
  shows "(if is_multi (questions_list (qp_questions p) ! qi)
      then set (chosen (pick qi l (pick qi l p)) qi) = set (chosen p qi)
      else chosen (pick qi l' (pick qi l p)) qi = [l']) \<and>
    (\<forall>j. j \<noteq> qi \<longrightarrow> chosen (pick qi l p) j = chosen p j)"
  using chosen_ok(1) [OF assms(1) picked_label_D(1) [OF assms(2)]]
  by (auto simp: chosen_pick)

text \<open>
  C31. A question is never lost to the automatic answer: the task either got an answer through to the
  session that asked, which is one of the offered labels or the provider's own text, given with at
  least the configured confidence, or it puts the question before the operator.
\<close>

theorem question_is_never_lost:
  assumes "run_auto_task env pv t d = (fx, d')" "questions_list (ak_questions t) = q0 # rest"
  shows "(\<exists>sid r a. ak_session_id t = Some sid \<and> session_stable env (Some sid) \<and> pe_inject_ok env \<and>
      pr_ask pv sid (answer_prompt (unwrap_or [] (get_str q0 ''header'')) (q_text q0) (option_pairs q0)
         (answer_context (pr_tail pv sid))) = Some r \<and>
      \<not> pr_below pv (unwrap_or 0 (pv_confidence r)) (ak_min_confidence t) \<and>
      (a \<in> fst ` set (option_pairs q0) \<or> pv_option_index r = None \<and> a = trim (unwrap_or [] (pv_message r)) \<and> a \<noteq> []) \<and>
      QInject (ak_pid t) (build_answer_response (ak_request_id t) (ak_tool_use_id t) (ak_questions t)
        [(q_text q0, JString a)]) \<in> set fx \<and> d' = d) \<or>
    (\<exists>p. map_of (dk_questions d') (ak_pid t) = Some p \<and> qp_request_id p = ak_request_id t \<and>
      qp_questions p = ak_questions t \<and> qp_session_id p = ak_session_id t \<and> qp_answers p = [] \<and>
      (\<forall>chat \<in> set (pe_recipients env). \<exists>text kb. QSend chat text (Some kb) \<in> set fx))"
proof (cases "\<exists>sid. ak_session_id t = Some sid \<and> fst (commit_auto_answer env pv sid t)")
  case False
  then have "\<not> fst (case ak_session_id t of Some sid \<Rightarrow> commit_auto_answer env pv sid t | None \<Rightarrow> (False, []))"
    by (auto split: option.splits)
  with assms(1) have d': "d' = snd (send_question_card env t d)"
    and fx: "set (fst (send_question_card env t d)) \<subseteq> set fx"
    by (auto simp: run_auto_task_def Let_def case_prod_beta)
  have "\<forall>chat \<in> set (pe_recipients env). \<exists>text kb. QSend chat text (Some kb) \<in> set (fst (send_question_card env t d))"
    by (auto simp: send_question_card_def Let_def case_prod_beta)
  with fx have "\<forall>chat \<in> set (pe_recipients env). \<exists>text kb. QSend chat text (Some kb) \<in> set fx" by blast
  then show ?thesis unfolding d' card_desk by (simp add: update_conv')
next
  case True
  then obtain sid where sid: "ak_session_id t = Some sid" and answered: "fst (commit_auto_answer env pv sid t)" by blast
  obtain a r where res: "resolve_auto_answer pv sid (unwrap_or [] (get_str q0 ''header'')) (q_text q0)
      (option_pairs q0) (ak_min_confidence t) = Some (a, r)"
    using answered assms(2) by (auto simp: commit_auto_answer_def split: if_splits option.splits)
  with answered assms(2) have "session_stable env (Some sid)" "pe_inject_ok env"
    and inj: "QInject (ak_pid t) (build_answer_response (ak_request_id t) (ak_tool_use_id t) (ak_questions t)
        [(q_text q0, JString a)]) \<in> set (snd (commit_auto_answer env pv sid t))"
    by (auto simp: commit_auto_answer_def Let_def split: if_splits)
  moreover have "fx = snd (commit_auto_answer env pv sid t)" "d' = d"
    using assms(1) sid answered by (auto simp: run_auto_task_def Let_def case_prod_beta)
  moreover have "pr_ask pv sid (answer_prompt (unwrap_or [] (get_str q0 ''header'')) (q_text q0) (option_pairs q0)
         (answer_context (pr_tail pv sid))) = Some r"
    and "\<not> pr_below pv (unwrap_or 0 (pv_confidence r)) (ak_min_confidence t)"
    and "a \<in> fst ` set (option_pairs q0) \<or> pv_option_index r = None \<and> a = trim (unwrap_or [] (pv_message r)) \<and> a \<noteq> []"
    using res by (auto simp: resolve_auto_answer_def pick_answer_def Let_def bind_eq_Some_conv split: if_splits option.splits)
  ultimately show ?thesis using sid by blast
qed

section \<open>An example\<close>

definition demo_question :: json where
  "demo_question = JObject [(''options'', JArray [JObject [(''label'', JString ''A'')], JObject [(''label'', JString ''B'')]]),
     (''question'', JString ''q'')]"

definition demo_line :: json where
  "demo_line = JObject [(''request'', JObject [(''input'', JObject [(''questions'', JArray [demo_question])]),
       (''subtype'', JString ''can_use_tool''), (''tool_name'', JString ''AskUserQuestion'')]),
     (''request_id'', JString ''r''), (''type'', JString ''control_request'')]"

definition demo_task :: auto_task where
  "demo_task = \<lparr>ak_pid = 9, ak_alias = ''w'', ak_session_id = Some ''s'', ak_request_id = ''r'',
     ak_tool_use_id = ''u'', ak_questions = JArray [demo_question], ak_min_confidence = 0\<rparr>"

definition demo_pending :: q_pending where
  "demo_pending = \<lparr>qp_request_id = ''r'', qp_tool_use_id = ''u'', qp_questions = JArray [demo_question],
     qp_answers = [], qp_cards = [], qp_alias = ''w'', qp_session_id = None, qp_started = 0\<rparr>"

definition demo_qenv :: q_env where
  "demo_qenv = \<lparr>qe_perm = demo_perm_env, qe_alias = Some []\<rparr>"

lemma demo_submit:
  "handle_submit demo_perm_env 9 (dk_questions (fold desk_step
     [StreamLine demo_qenv 9 demo_line, PickOption 9 0 1] (desk_start [] dedup_new store_new))) =
   (Inr [(1, 2)],
    [QInject 9 (build_answer_response ''r'' [] (JArray [demo_question]) [(''q'', JString ''B'')])], [])"
  by code_simp


theorem picks_toggle_witness:
  "chosen (pick 0 ''A'' (pick 0 ''B'' demo_pending)) 0 = [''A'']"
  using picks_toggle [of demo_pending 0 1 "''B''" 0 "''A''"]
  by (simp add: demo_pending_def answers_ok_def hm_ok_def picked_label_def option_label_def options_list_def
      demo_question_def questions_list_def is_multi_def json_simps)

theorem question_is_never_lost_witness:
  "\<exists>p. map_of (dk_questions (snd (run_auto_task demo_perm_env
       \<lparr>pr_below = (<), pr_show = (\<lambda>_. []), pr_tail = (\<lambda>_. []), pr_ask = (\<lambda>_ _. None)\<rparr>
       demo_task (desk_start [] dedup_new store_new)))) 9 = Some p \<and> qp_request_id p = ''r''"
proof -
  let ?pv = "\<lparr>pr_below = (<), pr_show = (\<lambda>_. []), pr_tail = (\<lambda>_. []), pr_ask = (\<lambda>_ _. None)\<rparr>"
  obtain fx d' where run: "run_auto_task demo_perm_env ?pv demo_task (desk_start [] dedup_new store_new) = (fx, d')"
    by fastforce
  have "questions_list (ak_questions demo_task) = [demo_question]"
    by (simp add: demo_task_def questions_list_def json_simps)
  from question_is_never_lost [OF run this] run show ?thesis
    by (auto simp: demo_task_def)
qed

end
