(* ===== verification/Tracker.thy ===== *)
theory Tracker
  imports Events Telegram
begin

text \<open>
  What the operator is told of the sessions (\<open>crates/relay-agent/src/main.rs\<close>): the events an
  observation of a session gives rise to, which of them are emitted, the card of an event with its
  buttons, the cutting of long texts and the list of sessions. The digest of the fingerprint and the
  clock are parameters; token usage, which is only passed through, is left out.
\<close>

section \<open>What is known of a session\<close>

record 'd track =
  tr_label :: string
  tr_fingerprint :: "'d option"
  tr_mode :: "string option"

type_synonym 'd tracker = "(string \<times> 'd track) list"

record win_ctx =
  wc_machine_id :: string
  wc_workspace :: string
  wc_branch :: "string option"
  wc_agent :: AgentKind
  wc_session_ref :: string
  wc_title :: "string option"
  wc_mode :: "string option"

definition key_of :: "win_ctx \<Rightarrow> string" where
  "key_of ctx = agent_str (wc_agent ctx) @ ''|'' @ wc_session_ref ctx"

definition is_busy :: "string \<Rightarrow> bool" where
  "is_busy label \<longleftrightarrow>
     label \<in> set [''working'', ''subagent'', ''awaiting_permission'', ''pending_question'']"

section \<open>Events of an observation\<close>

definition mode_events :: "(string \<Rightarrow> bool) \<Rightarrow> 'd track option \<Rightarrow> win_ctx \<Rightarrow> EventKind list" where
  "mode_events alert prev ctx =
     (case wc_mode ctx of
        None \<Rightarrow> []
      | Some cur \<Rightarrow>
          (let prev_mode = Option.bind prev tr_mode
           in if prev_mode = Some cur then []
              else if prev_mode \<noteq> None \<or> alert cur
              then [ModeChanged (unwrap_or ''unknown'' prev_mode) cur (alert cur)]
              else []))"

definition claude_alert :: "string \<Rightarrow> bool" where
  "claude_alert m \<longleftrightarrow> m = ''acceptEdits'' \<or> m = ''bypassPermissions''"

definition codex_alert :: "string \<Rightarrow> bool" where
  "codex_alert m \<longleftrightarrow> m = ''never''"

definition was_busy :: "'d track option \<Rightarrow> bool" where
  "was_busy prev = (case prev of Some t \<Rightarrow> is_busy (tr_label t) | None \<Rightarrow> False)"

definition claude_events ::
  "'d tracker \<Rightarrow> win_ctx \<Rightarrow> claude_state \<Rightarrow> string \<Rightarrow> string \<Rightarrow> bool \<Rightarrow> EventKind list" where
  "claude_events tracker ctx state entrypoint excerpt pending_gui =
     (let prev = map_of tracker (key_of ctx)
      in (if prev = None then [SessionStarted entrypoint] else []) @
         mode_events claude_alert prev ctx @
         (case state of
            ClPendingQuestion q \<Rightarrow> [QuestionAsked q]
          | ClAwaitingPermission tool target suspected \<Rightarrow> [AwaitingPermission tool target suspected]
          | ClError message \<Rightarrow> [ErrorEvent message]
          | ClIdle \<Rightarrow>
              if pending_gui \<or> was_busy prev
              then [TurnComplete (truncate_chars excerpt 8000) None] else []
          | _ \<Rightarrow> []))"

definition codex_events ::
  "'d tracker \<Rightarrow> win_ctx \<Rightarrow> codex_state \<Rightarrow> string \<Rightarrow> u64 option \<Rightarrow> EventKind list" where
  "codex_events tracker ctx state excerpt duration =
     (let prev = map_of tracker (key_of ctx);
          turn = (if was_busy prev then [TurnComplete (truncate_chars excerpt 8000) duration] else [])
      in (if prev = None then [SessionStarted ''codex_vscode''] else []) @
         mode_events codex_alert prev ctx @
         (case state of
            CxIdle \<Rightarrow> turn
          | CxNeedsReplyMaybe _ \<Rightarrow> turn
          | CxError message \<Rightarrow> [ErrorEvent message]
          | _ \<Rightarrow> []))"

text \<open>A notice of the compass is reported when it differs from the last of its kind.\<close>

definition push_compass_autoaction ::
  "string \<Rightarrow> string \<Rightarrow> string \<Rightarrow> (string \<times> string) list \<Rightarrow> EventKind list \<times> (string \<times> string) list" where
  "push_compass_autoaction session_id action detail seen =
     (let key = session_id @ CHR 0x00 # action
      in if map_of seen key = Some detail then ([], seen)
         else ([AutoAction action detail], AList.update key detail seen))"

section \<open>Emission\<close>

definition event_of :: "(string \<Rightarrow> 'd) \<Rightarrow> int \<Rightarrow> win_ctx \<Rightarrow> EventKind \<Rightarrow> 'd relay_event" where
  "event_of digest at ctx kind =
     relay_event_new digest (wc_machine_id ctx) (wc_workspace ctx) (wc_branch ctx) (wc_agent ctx)
       (wc_session_ref ctx) (wc_title ctx) at kind Tail"

fun emit_kinds ::
  "(string \<Rightarrow> 'd) \<Rightarrow> int \<Rightarrow> win_ctx \<Rightarrow> string \<Rightarrow> EventKind list \<Rightarrow> 'd tracker \<Rightarrow>
   'd relay_event list \<times> 'd tracker" where
  "emit_kinds digest at ctx label [] tracker = ([], tracker)"
| "emit_kinds digest at ctx label (kind # kinds) tracker =
     (let event = event_of digest at ctx kind;
          before = Option.bind (map_of tracker (key_of ctx)) tr_fingerprint
      in if before = Some (re_fingerprint event) then emit_kinds digest at ctx label kinds tracker
         else let (out, t) = emit_kinds digest at ctx label kinds
                    (AList.update (key_of ctx)
                       \<lparr>tr_label = label, tr_fingerprint = Some (re_fingerprint event), tr_mode = wc_mode ctx\<rparr>
                       tracker)
              in (event # out, t))"

definition emit_all ::
  "(string \<Rightarrow> 'd) \<Rightarrow> int \<Rightarrow> win_ctx \<Rightarrow> EventKind list \<Rightarrow> string \<Rightarrow> 'd tracker \<Rightarrow>
   'd relay_event list \<times> 'd tracker" where
  "emit_all digest at ctx kinds label tracker =
     (let (out, t) = emit_kinds digest at ctx label kinds tracker;
          entry = (case map_of t (key_of ctx) of
                     Some e \<Rightarrow> e\<lparr>tr_label := label, tr_mode := wc_mode ctx\<rparr>
                   | None \<Rightarrow> \<lparr>tr_label = label, tr_fingerprint = None, tr_mode = wc_mode ctx\<rparr>)
      in (out, AList.update (key_of ctx) entry t))"

text \<open>
  One session in a scan: in the first scan only a turn that answers a message sent from the interface
  is reported. \<open>notices\<close> are those of the compass.
\<close>

definition scan_claude ::
  "(string \<Rightarrow> 'd) \<Rightarrow> int \<Rightarrow> bool \<Rightarrow> win_ctx \<Rightarrow> claude_state \<Rightarrow> string \<Rightarrow> string \<Rightarrow> bool \<Rightarrow> EventKind list \<Rightarrow>
   'd tracker \<Rightarrow> 'd relay_event list \<times> 'd tracker" where
  "scan_claude digest at initial ctx state entrypoint excerpt pending_gui notices tracker =
     (let kinds = claude_events tracker ctx state entrypoint excerpt pending_gui;
          kept = (if initial then filter (\<lambda>k. pending_gui \<and> (\<exists>e d. k = TurnComplete e d)) kinds else kinds)
      in emit_all digest at ctx (kept @ notices) (claude_label state) tracker)"

definition scan_codex ::
  "(string \<Rightarrow> 'd) \<Rightarrow> int \<Rightarrow> bool \<Rightarrow> win_ctx \<Rightarrow> codex_state \<Rightarrow> string \<Rightarrow> u64 option \<Rightarrow>
   'd tracker \<Rightarrow> 'd relay_event list \<times> 'd tracker" where
  "scan_codex digest at initial ctx state excerpt duration tracker =
     emit_all digest at ctx (if initial then [] else codex_events tracker ctx state excerpt duration)
       (codex_label state) tracker"

section \<open>Long texts\<close>

text \<open>\<open>split_inclusive\<close> at line ends: the lines with their ends.\<close>

fun split_inclusive_lines :: "string \<Rightarrow> string list" where
  "split_inclusive_lines [] = []"
| "split_inclusive_lines (c # s) =
     (if c = CHR 0x0A then [c] # split_inclusive_lines s
      else case split_inclusive_lines s of
             [] \<Rightarrow> [[c]]
           | l # ls \<Rightarrow> (c # l) # ls)"

text \<open>A chunk that reaches the maximum is put out, character by character.\<close>

fun push_chars :: "nat \<Rightarrow> string list \<Rightarrow> string list \<Rightarrow> string \<Rightarrow> string list \<times> string" where
  "push_chars mx [] out cur = (out, cur)"
| "push_chars mx (ch # cs) out cur =
     (let cur' = cur @ ch
      in if mx \<le> char_count cur' then push_chars mx cs (out @ [cur']) []
         else push_chars mx cs out cur')"

definition chunk_line :: "nat \<Rightarrow> string \<Rightarrow> string list \<times> string \<Rightarrow> string list \<times> string" where
  "chunk_line mx line st =
     (let (out, cur) = st;
          (out, cur) = (if cur \<noteq> [] \<and> mx < char_count cur + char_count line then (out @ [cur], []) else (out, cur))
      in if mx < char_count line then push_chars mx (chars_of line) out cur else (out, cur @ line))"

definition chunk_text :: "string \<Rightarrow> nat \<Rightarrow> string list" where
  "chunk_text s mx =
     (let (out, cur) = fold (chunk_line mx) (split_inclusive_lines s) ([], []);
          out = (if cur \<noteq> [] then out @ [cur] else out)
      in if out = [] then [[]] else out)"

section \<open>Cards of sessions\<close>

record session_card =
  sc_alias :: string
  sc_agent :: string
  sc_session_id :: string
  sc_title :: "string option"
  sc_workspace :: string
  sc_branch :: "string option"
  sc_state :: string
  sc_mode :: string
  sc_tapped :: bool
  sc_rewrite :: bool
  sc_last_activity_secs :: "u64 option"

definition card_supersedes :: "session_card \<Rightarrow> session_card \<Rightarrow> bool" where
  "card_supersedes candidate current =
     (if sc_tapped candidate \<and> \<not> sc_tapped current then True
      else if \<not> sc_tapped candidate \<and> sc_tapped current then False
      else unwrap_or 0 (sc_last_activity_secs current) < unwrap_or 0 (sc_last_activity_secs candidate))"

definition take_card ::
  "session_card \<Rightarrow> string list \<times> (string \<times> session_card) list \<Rightarrow> string list \<times> (string \<times> session_card) list" where
  "take_card c st =
     (let (order, best) = st; i = sc_session_id c
      in case map_of best i of
           Some cur \<Rightarrow> if card_supersedes c cur then (order, AList.update i c best) else (order, best)
         | None \<Rightarrow> (order @ [i], AList.update i c best))"

definition dedup_session_cards :: "session_card list \<Rightarrow> session_card list" where
  "dedup_session_cards cards =
     (let (order, best) = fold take_card cards ([], []) in List.map_filter (map_of best) order)"

section \<open>What is emitted\<close>

fun changes :: "'d option \<Rightarrow> 'd list \<Rightarrow> 'd list" where
  "changes a [] = []"
| "changes a (x # xs) = (if a = Some x then changes a xs else x # changes (Some x) xs)"

lemma changes_Some: "a # changes (Some a) xs = remdups_adj (a # xs)"
  by (induction xs arbitrary: a) auto

lemma changes_None: "changes None xs = remdups_adj xs"
  by (cases xs) (simp_all add: changes_Some)

definition latest :: "'d option \<Rightarrow> 'd list \<Rightarrow> 'd option" where
  "latest a xs = (if xs = [] then a else Some (last xs))"

lemma latest_Cons [simp]: "latest a (x # xs) = latest (Some x) xs" "latest a [] = a"
  by (simp_all add: latest_def)

lemma changes_append: "changes a (xs @ ys) = changes a xs @ changes (latest a (changes a xs)) ys"
  by (induction xs arbitrary: a) simp_all

abbreviation fp_of :: "(string \<Rightarrow> 'd) \<Rightarrow> win_ctx \<Rightarrow> EventKind \<Rightarrow> 'd" where
  "fp_of digest ctx k \<equiv> fingerprint digest (wc_machine_id ctx) (wc_workspace ctx) (wc_agent ctx) (wc_session_ref ctx) k"

lemma event_fp [simp]: "re_fingerprint (event_of digest at ctx k) = fp_of digest ctx k"
  by (simp add: event_of_def relay_event_new_def)

definition fp_at :: "'d tracker \<Rightarrow> string \<Rightarrow> 'd option" where
  "fp_at tracker key = Option.bind (map_of tracker key) tr_fingerprint"

lemma emit_kinds_spec:
  assumes "emit_kinds digest at ctx label kinds tracker = (out, t)"
  shows "map re_fingerprint out = changes (fp_at tracker (key_of ctx)) (map (fp_of digest ctx) kinds) \<and>
    fp_at t (key_of ctx) = latest (fp_at tracker (key_of ctx)) (map re_fingerprint out) \<and>
    (\<forall>key. key \<noteq> key_of ctx \<longrightarrow> map_of t key = map_of tracker key)"
  using assms
proof (induction kinds arbitrary: tracker out t)
  case (Cons k kinds)
  let ?tr = "AList.update (key_of ctx)
    \<lparr>tr_label = label, tr_fingerprint = Some (fp_of digest ctx k), tr_mode = wc_mode ctx\<rparr> tracker"
  show ?case
  proof (cases "fp_at tracker (key_of ctx) = Some (fp_of digest ctx k)")
    case True
    with Cons.prems have "emit_kinds digest at ctx label kinds tracker = (out, t)"
      by (simp add: fp_at_def Let_def)
    from Cons.IH [OF this] True show ?thesis by simp
  next
    case False
    obtain out' t' where rec: "emit_kinds digest at ctx label kinds ?tr = (out', t')" by fastforce
    with Cons.prems False have out: "out = event_of digest at ctx k # out'" "t = t'"
      by (simp_all add: fp_at_def Let_def)
    have "fp_at ?tr (key_of ctx) = Some (fp_of digest ctx k)" by (simp add: fp_at_def update_conv')
    with Cons.IH [OF rec] False show ?thesis by (simp add: out update_conv')
  qed
qed simp

lemma emit_all_spec:
  assumes "emit_all digest at ctx kinds label tracker = (out, t)"
  shows "map re_fingerprint out = changes (fp_at tracker (key_of ctx)) (map (fp_of digest ctx) kinds)"
    and "\<exists>e. map_of t (key_of ctx) = Some e \<and> tr_label e = label \<and> tr_mode e = wc_mode ctx \<and>
      tr_fingerprint e = latest (fp_at tracker (key_of ctx)) (map re_fingerprint out)"
    and "key \<noteq> key_of ctx \<Longrightarrow> map_of t key = map_of tracker key"
proof -
  obtain t' where em: "emit_kinds digest at ctx label kinds tracker = (out, t')"
    and t: "t = AList.update (key_of ctx) (case map_of t' (key_of ctx) of
        Some e \<Rightarrow> e\<lparr>tr_label := label, tr_mode := wc_mode ctx\<rparr>
      | None \<Rightarrow> \<lparr>tr_label = label, tr_fingerprint = None, tr_mode = wc_mode ctx\<rparr>) t'"
    using assms by (cases "emit_kinds digest at ctx label kinds tracker") (auto simp: emit_all_def Let_def)
  note S = emit_kinds_spec [OF em]
  show "map re_fingerprint out = changes (fp_at tracker (key_of ctx)) (map (fp_of digest ctx) kinds)"
    using S by blast
  show "\<exists>e. map_of t (key_of ctx) = Some e \<and> tr_label e = label \<and> tr_mode e = wc_mode ctx \<and>
      tr_fingerprint e = latest (fp_at tracker (key_of ctx)) (map re_fingerprint out)"
    using S by (cases "map_of t' (key_of ctx)") (auto simp: t update_conv' fp_at_def)
  show "map_of t key = map_of tracker key" if "key \<noteq> key_of ctx"
    using S that by (simp add: t update_conv')
qed

text \<open>A run: the scans of sessions in order, and the events of one session among what they emit.\<close>

type_synonym emission = "int \<times> win_ctx \<times> EventKind list \<times> string"

definition emit_one :: "(string \<Rightarrow> 'd) \<Rightarrow> emission \<Rightarrow> 'd tracker \<Rightarrow> 'd relay_event list \<times> 'd tracker" where
  "emit_one digest e tracker = (case e of (at, ctx, kinds, label) \<Rightarrow> emit_all digest at ctx kinds label tracker)"

fun emit_run :: "(string \<Rightarrow> 'd) \<Rightarrow> emission list \<Rightarrow> 'd tracker \<Rightarrow> (string \<times> 'd relay_event) list" where
  "emit_run digest [] tracker = []"
| "emit_run digest (e # es) tracker =
     (let (out, t) = emit_one digest e tracker
      in map (\<lambda>x. (key_of (fst (snd e)), x)) out @ emit_run digest es t)"

definition events_for :: "string \<Rightarrow> (string \<times> 'x) list \<Rightarrow> 'x list" where
  "events_for key xs = map snd (filter (\<lambda>x. fst x = key) xs)"

text \<open>The fingerprints of all events that were to be reported of a session, in order.\<close>

definition candidates :: "(string \<Rightarrow> 'd) \<Rightarrow> string \<Rightarrow> emission list \<Rightarrow> 'd list" where
  "candidates digest key es =
     concat (map (\<lambda>(at, ctx, kinds, label). if key_of ctx = key then map (fp_of digest ctx) kinds else []) es)"

lemma events_for_append [simp]: "events_for key (a @ b) = events_for key a @ events_for key b"
  by (simp add: events_for_def)

lemma events_for_tagged [simp]: "events_for key (map (\<lambda>x. (k, x)) xs) = (if k = key then xs else [])"
  by (simp add: events_for_def filter_map comp_def)

lemma emit_run_spec:
  "map re_fingerprint (events_for key (emit_run digest es tracker)) =
   changes (fp_at tracker key) (candidates digest key es)"
proof (induction es arbitrary: tracker)
  case Nil
  then show ?case by (simp add: events_for_def candidates_def)
next
  case (Cons e es)
  obtain at ctx kinds label where e: "e = (at, ctx, kinds, label)" by (cases e)
  obtain out t where em: "emit_all digest at ctx kinds label tracker = (out, t)" by fastforce
  note S = emit_all_spec [OF em]
  show ?case
  proof (cases "key_of ctx = key")
    case True
    with S(2) have "fp_at t key = latest (fp_at tracker key) (map re_fingerprint out)"
      by (auto simp: fp_at_def)
    with S(1) True show ?thesis
      by (simp add: e emit_one_def em Cons.IH candidates_def changes_append)
  next
    case False
    with S(3) [of key] have "fp_at t key = fp_at tracker key" by (simp add: fp_at_def)
    with False show ?thesis by (simp add: e emit_one_def em Cons.IH candidates_def)
  qed
qed

section \<open>Properties\<close>

text \<open>
  C32. Of each session exactly the changes are reported: over any sequence of scans, interleaved with
  those of other sessions, the fingerprints of what is emitted for a session that was not known
  before are those of all events observed of it, with runs of equal ones cut to one.
\<close>

theorem emission_reports_changes:
  assumes "map_of tracker key = None"
  shows "map re_fingerprint (events_for key (emit_run digest es tracker)) =
    remdups_adj (candidates digest key es)"
  by (simp add: emit_run_spec fp_at_def assms changes_None)

text \<open>
  A session that did not change is not reported again: when a session is scanned twice in the same
  state and mode, the second scan emits nothing, whatever it was before.
\<close>

theorem rescan_is_silent:
  assumes "scan_claude digest at False ctx state entrypoint excerpt gui [] tracker = (out, t)"
  shows "fst (scan_claude digest at' False ctx state entrypoint' excerpt' False [] t) = []"
proof -
  let ?kinds = "claude_events tracker ctx state entrypoint excerpt gui"
  from assms have em: "emit_all digest at ctx ?kinds (claude_label state) tracker = (out, t)"
    by (simp add: scan_claude_def)
  note S = emit_all_spec [OF em]
  from S(2) obtain e where e: "map_of t (key_of ctx) = Some e" "tr_label e = claude_label state"
    "tr_mode e = wc_mode ctx" "tr_fingerprint e = latest (fp_at tracker (key_of ctx)) (map re_fingerprint out)"
    by blast
  define k where "k = (case state of
      ClPendingQuestion q \<Rightarrow> [QuestionAsked q]
    | ClAwaitingPermission tool target suspected \<Rightarrow> [AwaitingPermission tool target suspected]
    | ClError message \<Rightarrow> [ErrorEvent message]
    | _ \<Rightarrow> [])"
  have second: "claude_events t ctx state entrypoint' excerpt' False = k"
    using e by (cases state) (auto simp: claude_events_def mode_events_def was_busy_def is_busy_def k_def
        split: option.split)
  have "k = [] \<or> (\<exists>x pre. k = [x] \<and> ?kinds = pre @ [x])"
    by (cases state) (simp_all add: k_def claude_events_def Let_def)
  then have "changes (tr_fingerprint e) (map (fp_of digest ctx) k) = []"
  proof
    assume "\<exists>x pre. k = [x] \<and> ?kinds = pre @ [x]"
    then obtain x pre where x: "k = [x]" "?kinds = pre @ [x]" by blast
    have "latest a (changes a (xs @ [y])) = Some y" for a :: "'a option" and xs y
      by (induction xs arbitrary: a) simp_all
    with S(1) e(4) x show ?thesis by simp
  qed simp
  moreover obtain out2 t2 where em2: "emit_all digest at' ctx k (claude_label state) t = (out2, t2)" by fastforce
  ultimately have "map re_fingerprint out2 = []"
    using emit_all_spec(1) [OF em2] e(1) by (simp add: fp_at_def)
  then show ?thesis by (simp add: scan_claude_def second em2)
qed

text \<open>
  A turn that ends with the same text as the turn before it is not reported: after a turn was
  reported complete, the session works again and completes another turn with the same last message,
  and nothing is emitted for it.
\<close>

theorem repeated_turn_is_silent:
  assumes "gui \<or> was_busy (map_of tracker (key_of ctx))"
    and "scan_claude digest a1 False ctx ClIdle ep excerpt gui [] tracker = (out1, t1)"
    and "scan_claude digest a2 False ctx (ClWorking n) ep excerpt' False [] t1 = (out2, t2)"
  shows "was_busy (map_of t2 (key_of ctx)) \<and>
    fst (scan_claude digest a3 False ctx ClIdle ep excerpt False [] t2) = []"
proof -
  let ?tc = "TurnComplete (truncate_chars excerpt 8000) None"
  from assms(2) have em1: "emit_all digest a1 ctx (claude_events tracker ctx ClIdle ep excerpt gui)
      (claude_label ClIdle) tracker = (out1, t1)" by (simp add: scan_claude_def)
  from emit_all_spec(2) [OF em1] obtain e1 where e1: "map_of t1 (key_of ctx) = Some e1"
    "tr_mode e1 = wc_mode ctx" "tr_fingerprint e1 = latest (fp_at tracker (key_of ctx)) (map re_fingerprint out1)"
    by blast
  have "latest a (changes a (xs @ [y])) = Some y" for a :: "'a option" and xs y
    by (induction xs arbitrary: a) simp_all
  then have fp1: "tr_fingerprint e1 = Some (fp_of digest ctx ?tc)"
    using e1(3) emit_all_spec(1) [OF em1] assms(1) by (simp add: claude_events_def Let_def)
  have "claude_events t1 ctx (ClWorking n) ep excerpt' False = []"
    using e1 by (simp add: claude_events_def mode_events_def split: option.split)
  with assms(3) have em2: "emit_all digest a2 ctx [] ''working'' t1 = (out2, t2)" by (simp add: scan_claude_def)
  from emit_all_spec(1,2) [OF em2] obtain e2 where e2: "map_of t2 (key_of ctx) = Some e2"
    "tr_label e2 = ''working''" "tr_mode e2 = wc_mode ctx" "tr_fingerprint e2 = Some (fp_of digest ctx ?tc)"
    using e1(1) fp1 by (auto simp: fp_at_def)
  have busy: "was_busy (map_of t2 (key_of ctx))" by (simp add: was_busy_def e2 is_busy_def)
  then have "claude_events t2 ctx ClIdle ep excerpt False = [?tc]"
    using e2 by (simp add: claude_events_def mode_events_def split: option.split)
  moreover obtain out3 t3 where em3: "emit_all digest a3 ctx [?tc] (claude_label ClIdle) t2 = (out3, t3)" by fastforce
  moreover have "map re_fingerprint out3 = []"
    using emit_all_spec(1) [OF em3] e2 by (simp add: fp_at_def)
  ultimately show ?thesis using busy by (simp add: scan_claude_def)
qed

section \<open>Long texts are cut without loss\<close>

lemma chars_of_append_count: "char_count (a @ b) \<le> char_count a + char_count b"
proof (induction a rule: chars_of.induct)
  case (2 x a)
  show ?case
  proof (cases "dropWhile is_cont_byte a = []")
    case False
    then have "takeWhile is_cont_byte (a @ b) = takeWhile is_cont_byte a"
      "dropWhile is_cont_byte (a @ b) = dropWhile is_cont_byte a @ b"
      by (auto simp: takeWhile_append dropWhile_append)
    with 2 show ?thesis by (simp add: char_count_def)
  next
    case True
    then have all: "\<forall>y \<in> set a. is_cont_byte y" by simp
    have "char_count (dropWhile is_cont_byte b) \<le> char_count b"
    proof (induction b)
      case (Cons y b)
      have "char_count (dropWhile is_cont_byte b) \<le> char_count (y # b)" by (simp add: char_count_def)
      then show ?case by auto
    qed simp
    with all True show ?thesis by (simp add: char_count_def dropWhile_append3 takeWhile_append2 dropWhile_append)
  qed
qed (simp add: char_count_def)

lemma char_count_piece: "ch \<in> set (chars_of s) \<Longrightarrow> char_count ch = 1"
proof (induction s rule: chars_of.induct)
  case (2 b bs)
  have "dropWhile is_cont_byte (takeWhile is_cont_byte bs) = []" by (auto simp: dropWhile_eq_Nil_conv dest: set_takeWhileD)
  with 2 show ?case by (auto simp: char_count_def)
qed simp

lemma split_inclusive_concat: "concat (split_inclusive_lines s) = s"
  by (induction s) (auto split: list.split)

definition chunks_ok :: "nat \<Rightarrow> string list \<times> string \<Rightarrow> bool" where
  "chunks_ok mx st \<longleftrightarrow> (\<forall>c \<in> set (fst st). char_count c \<le> mx) \<and> char_count (snd st) \<le> mx"

lemma push_chars_spec:
  assumes "push_chars mx cs out cur = (out', cur')" "\<forall>ch \<in> set cs. char_count ch = 1"
  shows "concat out' @ cur' = concat out @ cur @ concat cs \<and>
    (0 < mx \<and> char_count cur < mx \<and> (\<forall>c \<in> set out. char_count c \<le> mx) \<longrightarrow>
     chunks_ok mx (out', cur'))"
  using assms
proof (induction cs arbitrary: out cur)
  case Nil
  then show ?case by (auto simp: chunks_ok_def)
next
  case (Cons ch cs)
  have le: "char_count (cur @ ch) \<le> char_count cur + 1"
    using chars_of_append_count [of cur ch] Cons.prems(2) by simp
  show ?case
  proof (cases "mx \<le> char_count (cur @ ch)")
    case True
    with Cons.prems have rec: "push_chars mx cs (out @ [cur @ ch]) [] = (out', cur')" by (simp add: Let_def)
    have "\<forall>ch \<in> set cs. char_count ch = 1" using Cons.prems(2) by simp
    from Cons.IH [OF rec this] le show ?thesis by (auto simp: char_count_def)
  next
    case False
    with Cons.prems have rec: "push_chars mx cs out (cur @ ch) = (out', cur')" by (simp add: Let_def)
    have "\<forall>ch \<in> set cs. char_count ch = 1" using Cons.prems(2) by simp
    from Cons.IH [OF rec this] False show ?thesis by auto
  qed
qed

lemma chunk_line_spec:
  assumes "chunk_line mx line (out, cur) = (out', cur')"
  shows "concat out' @ cur' = concat out @ cur @ line \<and>
    (0 < mx \<and> chunks_ok mx (out, cur) \<longrightarrow> chunks_ok mx (out', cur'))"
proof -
  define flush where "flush \<longleftrightarrow> cur \<noteq> [] \<and> mx < char_count cur + char_count line"
  define o1 where "o1 = (if flush then out @ [cur] else out)"
  define c1 where "c1 = (if flush then [] else cur)"
  have same: "concat o1 @ c1 = concat out @ cur" by (simp add: o1_def c1_def)
  have res: "(out', cur') = (if mx < char_count line then push_chars mx (chars_of line) o1 c1 else (o1, c1 @ line))"
    using assms by (auto simp: chunk_line_def Let_def flush_def o1_def c1_def)
  have pieces: "\<forall>ch \<in> set (chars_of line). char_count ch = 1" by (auto simp: char_count_piece)
  show ?thesis
  proof (cases "mx < char_count line")
    case True
    with res have push: "push_chars mx (chars_of line) o1 c1 = (out', cur')" by simp
    have "c1 = []" using True by (auto simp: c1_def flush_def)
    then have "0 < mx \<and> chunks_ok mx (out, cur) \<longrightarrow>
        0 < mx \<and> char_count c1 < mx \<and> (\<forall>c \<in> set o1. char_count c \<le> mx)"
      by (auto simp: chunks_ok_def o1_def char_count_def split: if_splits)
    with push_chars_spec [OF push pieces] same show ?thesis by auto
  next
    case False
    with res have "out' = o1" "cur' = c1 @ line" by auto
    moreover have "char_count (c1 @ line) \<le> mx" if "char_count cur \<le> mx"
      using chars_of_append_count [of c1 line] False that
      by (auto simp: c1_def flush_def char_count_def)
    ultimately show ?thesis using same by (auto simp: chunks_ok_def o1_def)
  qed
qed

lemma chunk_lines_spec:
  assumes "fold (chunk_line mx) ls (out, cur) = (out', cur')"
  shows "concat out' @ cur' = concat out @ cur @ concat ls \<and>
    (0 < mx \<and> chunks_ok mx (out, cur) \<longrightarrow> chunks_ok mx (out', cur'))"
  using assms
proof (induction ls arbitrary: out cur)
  case (Cons l ls)
  obtain o1 c1 where c: "chunk_line mx l (out, cur) = (o1, c1)" by fastforce
  with Cons.prems have "fold (chunk_line mx) ls (o1, c1) = (out', cur')" by simp
  from Cons.IH [OF this] chunk_line_spec [OF c] show ?case by auto
qed auto

text \<open>
  A long text reaches the operator whole: its chunks, in order, are the text, and none holds more
  characters than the limit.
\<close>

theorem chunks_are_the_text:
  "concat (chunk_text s mx) = s \<and> (0 < mx \<longrightarrow> (\<forall>c \<in> set (chunk_text s mx). char_count c \<le> mx))"
proof -
  obtain out cur where f: "fold (chunk_line mx) (split_inclusive_lines s) ([], []) = (out, cur)" by fastforce
  have "chunks_ok mx ([], [])" by (simp add: chunks_ok_def char_count_def)
  with chunk_lines_spec [OF f] show ?thesis
    by (auto simp: chunk_text_def f Let_def split_inclusive_concat chunks_ok_def char_count_def)
qed

theorem chunks_are_the_text_witness:
  "list_all (\<lambda>c. char_count c \<le> 1) (chunk_text ''ab'' 1)"
  using chunks_are_the_text [of "''ab''" 1] by (simp add: list_all_iff)

section \<open>One card per session\<close>

definition cards_ok :: "session_card list \<Rightarrow> string list \<times> (string \<times> session_card) list \<Rightarrow> bool" where
  "cards_ok cs st \<longleftrightarrow>
     distinct (fst st) \<and> set (fst st) = sc_session_id ` set cs \<and> dom (map_of (snd st)) = set (fst st) \<and>
     (\<forall>i b. map_of (snd st) i = Some b \<longrightarrow>
        b \<in> set cs \<and> sc_session_id b = i \<and> (\<forall>c \<in> set cs. sc_session_id c = i \<longrightarrow> \<not> card_supersedes c b))"

lemma supersedes_trans:
  "card_supersedes c b \<Longrightarrow> \<not> card_supersedes x b \<Longrightarrow> \<not> card_supersedes x c"
  by (auto simp: card_supersedes_def split: if_splits)

lemma supersedes_irrefl: "\<not> card_supersedes c c"
  by (simp add: card_supersedes_def)

lemma take_card_ok:
  assumes "cards_ok cs (order, best)"
  shows "cards_ok (cs @ [c]) (take_card c (order, best))"
proof (cases "map_of best (sc_session_id c)")
  case None
  then have new: "sc_session_id c \<notin> set order" using assms by (auto simp: cards_ok_def domIff)
  have "set order = sc_session_id ` set cs" using assms by (simp add: cards_ok_def)
  with new have other: "x \<in> set cs \<Longrightarrow> sc_session_id x \<noteq> sc_session_id c" for x
    by (metis imageI)
  show ?thesis
    using assms None new
    by (auto simp: cards_ok_def take_card_def Let_def update_conv' supersedes_irrefl split: if_splits dest: other)
next
  case (Some b)
  then have b: "sc_session_id c \<in> set order" using assms by (auto simp: cards_ok_def)
  show ?thesis
  proof (cases "card_supersedes c b")
    case True
    have better: "\<not> card_supersedes x c" if "x \<in> set cs" "sc_session_id x = sc_session_id c" for x
      using assms Some that by (intro supersedes_trans [OF True]) (simp add: cards_ok_def)
    have "take_card c (order, best) = (order, AList.update (sc_session_id c) c best)"
      using Some True by (simp add: take_card_def)
    with assms b show ?thesis
      by (auto simp: cards_ok_def update_conv' supersedes_irrefl better split: if_splits)
  next
    case False
    with assms Some b show ?thesis
      by (auto simp: cards_ok_def take_card_def Let_def)
  qed
qed

lemma take_cards_ok: "cards_ok cs st \<Longrightarrow> cards_ok (cs @ ds) (fold take_card ds st)"
proof (induction ds arbitrary: cs st)
  case (Cons d ds)
  obtain order best where st: "st = (order, best)" by (cases st)
  from Cons.IH [OF take_card_ok [OF Cons.prems [unfolded st]], of d] show ?case by (simp add: st)
qed simp

text \<open>
  Every session is listed once, by its best card: the cards shown are of the input, one for each
  session of it, and no card of the same session supersedes the one shown.
\<close>

theorem one_card_per_session:
  "distinct (map sc_session_id (dedup_session_cards cards)) \<and>
   sc_session_id ` set (dedup_session_cards cards) = sc_session_id ` set cards \<and>
   set (dedup_session_cards cards) \<subseteq> set cards \<and>
   (\<forall>b \<in> set (dedup_session_cards cards). \<forall>c \<in> set cards.
      sc_session_id c = sc_session_id b \<longrightarrow> \<not> card_supersedes c b)"
proof -
  obtain order best where f: "fold take_card cards ([], []) = (order, best)" by fastforce
  have ok: "cards_ok cards (order, best)"
    using take_cards_ok [of "[]" "([], [])" cards] by (simp add: cards_ok_def f)
  have sub: "set xs \<subseteq> dom (map_of best) \<Longrightarrow>
      map sc_session_id (List.map_filter (map_of best) xs) = xs" for xs
  proof (induction xs)
    case (Cons i xs)
    then obtain y where y: "map_of best i = Some y" by auto
    with ok have "sc_session_id y = i" by (auto simp: cards_ok_def)
    with y Cons show ?case by (simp add: map_filter_simps)
  qed (simp add: map_filter_simps)
  have ids: "map sc_session_id (dedup_session_cards cards) = order"
    using ok by (simp add: dedup_session_cards_def f) (rule sub, simp add: cards_ok_def)
  have mem: "b \<in> set (dedup_session_cards cards) \<Longrightarrow> \<exists>i. map_of best i = Some b" for b
    by (auto simp: dedup_session_cards_def f map_filter_def)
  show ?thesis
    using ok ids mem unfolding cards_ok_def
    by (metis (no_types, lifting) fst_conv snd_conv image_set subsetI)
qed

theorem one_card_per_session_witness:
  "\<forall>b \<in> set (dedup_session_cards []). \<not> card_supersedes b b"
  using one_card_per_session [of "[]"] by (auto simp: supersedes_irrefl)

definition demo_ctx :: win_ctx where
  "demo_ctx = \<lparr>wc_machine_id = ''m'', wc_workspace = ''/w'', wc_branch = None, wc_agent = ClaudeCode,
     wc_session_ref = ''s'', wc_title = None, wc_mode = None\<rparr>"

abbreviation scan_demo ::
  "claude_state \<Rightarrow> bool \<Rightarrow> string tracker \<Rightarrow> string relay_event list \<times> string tracker" where
  "scan_demo state gui \<equiv> scan_claude id 0 False demo_ctx state ''cli'' ''ok'' gui []"

theorem emission_reports_changes_witness:
  "map re_fingerprint (events_for ''claude|s'' (emit_run id
     [(0, demo_ctx, [ErrorEvent ''e''], ''error''), (1, demo_ctx, [ErrorEvent ''e''], ''error'')] [])) =
   [fp_of id demo_ctx (ErrorEvent ''e'')]"
  by (subst emission_reports_changes) (simp_all add: candidates_def key_of_def demo_ctx_def agent_str_def)

theorem rescan_is_silent_witness:
  "fst (scan_demo (ClError ''e'') False (snd (scan_demo (ClError ''e'') False []))) = []"
  by (rule rescan_is_silent) (rule surjective_pairing)

theorem repeated_turn_is_silent_witness:
  "fst (scan_demo ClIdle False (snd (scan_demo (ClWorking 0) False (snd (scan_demo ClIdle True []))))) = []"
  by (rule conjunct2 [OF repeated_turn_is_silent])
     (rule disjI1, rule TrueI, rule surjective_pairing, rule surjective_pairing)

section \<open>Cards of events\<close>

definition utf :: "nat list \<Rightarrow> string" where
  "utf = map char_of"

definition LF :: char where "LF = CHR 0x0A"

definition mode_note :: "string \<Rightarrow> string" where
  "mode_note mode =
     (if mode = ''bypassPermissions''
      then '' - permissions are bypassed; the agent will not ask before running tools''
      else if mode = ''acceptEdits'' then '' - edits may be auto-accepted without asking''
      else if mode = ''never'' then '' - Codex runs unattended; it will not ask before running tools''
      else [])"

definition auto_action_detail :: "string \<Rightarrow> string \<Rightarrow> string" where
  "auto_action_detail action detail =
     (if action = ''robot_verified_final'' then ''ROBOT VERIFIED FINAL: '' @ detail
      else if action = ''robot_claimed_complete'' then ''ROBOT CLAIMED COMPLETE: '' @ detail
      else if action = ''robot_safe_partial'' then ''ROBOT SAFE PARTIAL: '' @ detail
      else if action = ''robot_final'' then ''ROBOT FINAL (legacy): '' @ detail
      else ''AUTO '' @ action @ '': '' @ detail)"

fun event_detail :: "EventKind \<Rightarrow> string" where
  "event_detail (SessionStarted entrypoint) = ''session started ('' @ entrypoint @ '')''"
| "event_detail (QuestionAsked q) =
     ''QUESTION: '' @ truncate_chars (case auq_questions q of [] \<Rightarrow> [] | x # _ \<Rightarrow> q_question x) 160"
| "event_detail (AwaitingPermission tool target suspected) =
     ''PERMISSION'' @ (if suspected then ''?'' else []) @ '': '' @ tool @ '' '' @ unwrap_or [] target"
| "event_detail (TurnComplete excerpt duration) =
     ''DONE'' @ (case duration of Some m \<Rightarrow> '' ('' @ dec (unat m div 1000) @ ''s)'' | None \<Rightarrow> []) @ '': '' @
     truncate_chars excerpt 280"
| "event_detail (ErrorEvent message) = ''ERROR: '' @ message"
| "event_detail (StateChanged a b) = a @ '' -> '' @ b"
| "event_detail (ModeChanged a b _) = ''MODE: '' @ a @ '' -> '' @ b @ mode_note b"
| "event_detail (SubagentActivity n) = ''subagents: '' @ dec (unat n)"
| "event_detail (AutoAction action detail) = auto_action_detail action detail"
| "event_detail SessionEnded = ''session ended''"

definition event_icon :: "EventKind \<Rightarrow> string" where
  "event_icon k =
     (case k of
        QuestionAsked _ \<Rightarrow> utf [0xF0, 0x9F, 0x9F, 0xA1]
      | AwaitingPermission _ _ _ \<Rightarrow> utf [0xF0, 0x9F, 0x94, 0xB4]
      | ErrorEvent _ \<Rightarrow> utf [0xE2, 0x9A, 0xA0, 0xEF, 0xB8, 0x8F]
      | TurnComplete _ _ \<Rightarrow> utf [0xF0, 0x9F, 0x9F, 0xA2]
      | SessionStarted _ \<Rightarrow> utf [0xE2, 0x80, 0xA2]
      | ModeChanged _ _ alert \<Rightarrow>
          if alert then utf [0xF0, 0x9F, 0x9A, 0xA8] else utf [0xF0, 0x9F, 0x94, 0x80]
      | AutoAction action _ \<Rightarrow>
          if action = ''robot_verified_final'' then utf [0xE2, 0x9C, 0x85]
          else if action = ''robot_claimed_complete'' then utf [0xF0, 0x9F, 0x9F, 0xA3]
          else if action = ''robot_safe_partial'' then utf [0xF0, 0x9F, 0x9F, 0xA0]
          else if action = ''robot_final'' then utf [0xE2, 0x96, 0xAB, 0xEF, 0xB8, 0x8F]
          else utf [0xF0, 0x9F, 0xA4, 0x96]
      | _ \<Rightarrow> utf [0xE2, 0x96, 0xAB, 0xEF, 0xB8, 0x8F])"

definition agent_glyph :: "AgentKind \<Rightarrow> string" where
  "agent_glyph a =
     (case a of ClaudeCode \<Rightarrow> utf [0xF0, 0x9F, 0xA4, 0x96] | Codex \<Rightarrow> utf [0xF0, 0x9F, 0xA7, 0xA0])"

definition option_line :: "nat \<times> q_option \<Rightarrow> string" where
  "option_line x =
     LF # ''  '' @ dec (fst x + 1) @ ''. <b>'' @ esc_html (qo_label (snd x)) @ ''</b>'' @
     (if trim (qo_description (snd x)) \<noteq> []
      then '' - '' @ esc_html (truncate_chars (qo_description (snd x)) 110) else [])"

definition question_lines :: "question \<Rightarrow> string" where
  "question_lines q =
     LF # LF # (if trim (q_header q) \<noteq> [] then ''<b>'' @ esc_html (q_header q) @ ''</b>'' @ [LF] else []) @
     esc_html (q_question q) @ (if q_multi_select q then '' <i>(multiple allowed)</i>'' else []) @
     concat (map option_line (enumerate 0 (q_options q)))"

definition event_text :: "string \<Rightarrow> string \<Rightarrow> 'd relay_event \<Rightarrow> string" where
  "event_text machine alias e =
     event_icon (re_kind e) @ '' <b>'' @ agent_str (re_agent e) @ ''</b> '' @ utf [0xC2, 0xB7] @ '' '' @
     esc_html machine @ LF # utf [0xF0, 0x9F, 0x93, 0x81] @ '' <code>'' @ esc_html alias @ ''</code> '' @
     utf [0xE2, 0x8C, 0xA5] @ '' '' @ esc_html (unwrap_or ''-'' (re_git_branch e)) @
     LF # agent_glyph (re_agent e) @ '' <b>'' @
     esc_html (truncate_chars (unwrap_or ''-'' (re_title e)) 160) @ ''</b>'' @
     LF # esc_html (event_detail (re_kind e)) @
     (case re_kind e of QuestionAsked q \<Rightarrow> concat (map question_lines (auq_questions q)) | _ \<Rightarrow> [])"

definition full_text :: "EventKind \<Rightarrow> string option" where
  "full_text k = (case k of TurnComplete excerpt _ \<Rightarrow> Some excerpt | ErrorEvent message \<Rightarrow> Some message | _ \<Rightarrow> None)"

definition send_row :: "string \<Rightarrow> 'd relay_event \<Rightarrow> (string \<times> string) list" where
  "send_row alias e =
     [if re_agent e = ClaudeCode
      then (utf [0xE2, 0x9C, 0x8D, 0xEF, 0xB8, 0x8F] @ '' Send'', ''act:sayid:'' @ alias @ '':'' @ re_session_ref e)
      else (utf [0xE2, 0x96, 0xB6, 0xEF, 0xB8, 0x8F] @ '' Continue'', ''act:cont:'' @ alias @ '':'' @ agent_str (re_agent e)),
      (utf [0xF0, 0x9F, 0x91, 0x81] @ '' Focus'', ''act:focus:'' @ alias)]"

text \<open>
  The rows of buttons of an event, and the store: a long text is kept there and shown by its
  identifier.
\<close>

definition event_rows ::
  "string \<Rightarrow> 'd relay_event \<Rightarrow> cb_store \<Rightarrow> (string \<times> string) list list option \<times> cb_store" where
  "event_rows alias e s =
     (case re_kind e of
        QuestionAsked _ \<Rightarrow>
          (Some [[(utf [0xF0, 0x9F, 0x91, 0x81] @ '' Open in VS Code to answer'', ''act:focus:'' @ alias)]], s)
      | AwaitingPermission _ _ _ \<Rightarrow>
          (Some [[(utf [0xE2, 0x9C, 0x85] @ '' Yes / Approve'', ''act:ok:'' @ alias),
                  (utf [0xE2, 0x9B, 0x94] @ '' No / Deny'', ''act:stop:'' @ alias @ '':'' @ agent_str (re_agent e))],
                 [(utf [0xF0, 0x9F, 0x91, 0x81] @ '' Focus'', ''act:focus:'' @ alias)]], s)
      | ModeChanged _ _ _ \<Rightarrow>
          (Some [[(utf [0xF0, 0x9F, 0x91, 0x81] @ '' Focus'', ''act:focus:'' @ alias)]], s)
      | k \<Rightarrow>
          (case full_text k of
             None \<Rightarrow> (None, s)
           | Some full \<Rightarrow>
               if 280 < char_count full
               then let (i, s') = store_put full s
                    in (Some [[(utf [0xF0, 0x9F, 0x93, 0x84] @ '' Show full text'', ''ft:'' @ dec i)], send_row alias e], s')
               else (Some [send_row alias e], s)))"

definition format_event ::
  "string \<Rightarrow> string \<Rightarrow> 'd relay_event \<Rightarrow> cb_store \<Rightarrow> cb_store \<Rightarrow>
   (string \<times> json option) \<times> cb_store \<times> cb_store" where
  "format_event machine alias e texts cbs =
     (let (rows, texts1) = event_rows alias e texts
      in case rows of
           None \<Rightarrow> ((event_text machine alias e, None), texts1, cbs)
         | Some rs \<Rightarrow>
             (let (kb, cbs1) = keyboard rs cbs in ((event_text machine alias e, Some kb), texts1, cbs1)))"

text \<open>
  A long text is never lost behind its card: the card of a completed turn or an error whose text
  does not fit carries a button, whose data names an entry of the text store that holds the whole
  text, and still holds it after up to 4095 further texts were stored.
\<close>

theorem full_text_is_kept:
  assumes "store_ok texts" "store_ok cbs" "full_text (re_kind e) = Some full" "280 < char_count full"
    and "format_event machine alias e texts cbs = ((text, kb), texts', cbs')"
    and "texts'' = fold (\<lambda>d s. snd (store_put d s)) ds texts'" "length ds < CAP"
  shows "\<exists>k i. kb = Some k \<and> decode_or_raw (button (hd (keyboard_buttons k))) cbs' = ''ft:'' @ dec i \<and>
    store_get texts'' i = Some full"
proof -
  obtain i texts1 where put: "store_put full texts = (i, texts1)" by fastforce
  let ?rows = "[[(utf [0xF0, 0x9F, 0x93, 0x84] @ '' Show full text'', ''ft:'' @ dec i)], send_row alias e]"
  obtain k cbs1 where k: "keyboard ?rows cbs = (k, cbs1)" by fastforce
  have rows: "event_rows alias e texts = (Some ?rows, texts1)"
    using assms(3,4) put by (cases "re_kind e") (auto simp: event_rows_def full_text_def)
  with assms(5) k have kb: "kb = Some k" "texts' = texts1" "cbs' = cbs1" by (auto simp: format_event_def)
  have ok1: "store_ok texts1" using store_ok_put [OF assms(1), of full] put by simp
  have "holds i full 0 texts1" using holds_put [OF assms(1), of full] put by simp
  from holds_run [OF ok1 this, of ds] have "holds i full (length ds) texts''"
    using assms(7) by (simp add: assms(6) kb)
  then have "store_get texts'' i = Some full" by (simp add: holds_def)
  moreover have "map (\<lambda>j. decode_or_raw (button j) cbs1) (keyboard_buttons k) = map snd (concat ?rows)"
    by (rule keyboard_carries [OF k assms(2)]) (simp add: send_row_def CAP_def)
  then have "decode_or_raw (button (hd (keyboard_buttons k))) cbs1 = ''ft:'' @ dec i"
    by (cases "keyboard_buttons k") simp_all
  ultimately show ?thesis using kb by blast
qed

lemma char_count_ascii: "char_count (replicate n CHR ''a'') = n"
proof (induction n)
  case (Suc n)
  have "dropWhile is_cont_byte (replicate n CHR ''a'') = replicate n CHR ''a''"
    by (cases n) (simp_all add: is_cont_byte_def)
  with Suc show ?case by (simp add: char_count_def)
qed (simp add: char_count_def)

theorem full_text_is_kept_witness:
  "\<exists>k. snd (fst (format_event ''m'' ''w'' (event_of id 0 demo_ctx (ErrorEvent (replicate 300 CHR ''a''))) store_new store_new)) = Some k"
proof -
  let ?e = "event_of id 0 demo_ctx (ErrorEvent (replicate 300 CHR ''a''))"
  obtain body kb t' s' where f: "format_event ''m'' ''w'' ?e store_new store_new = ((body, kb), t', s')" by (metis surj_pair)
  have "full_text (re_kind ?e) = Some (replicate 300 CHR ''a'')"
    by (simp add: event_of_def relay_event_new_def full_text_def)
  from full_text_is_kept [OF store_ok_new store_ok_new this _ f refl, of "[]"]
  have "\<exists>k. kb = Some k" by (simp only: char_count_ascii CAP_def) auto
  then show ?thesis by (simp only: f fst_conv snd_conv)
qed

end
