(* ===== verification/Decision.thy ===== *)
theory Decision
  imports Rust_Data
begin

text \<open>
  The answer of a supervising model (\<open>crates/relay-agent/src/supervisor/decision.rs\<close>): the first JSON
  object is cut out of the reply, whatever prose surrounds it, and read as a decision. Parsing of the
  object, and the conversion of its numbers to double precision, are parameters.
\<close>

section \<open>Actions\<close>

datatype Action = Continue | Retry | AcceptPlan | Feedback | Stop | Wait

definition action_parse :: "(string \<Rightarrow> string) \<Rightarrow> string \<Rightarrow> Action option" where
  "action_parse lower s =
     (let t = lower (trim s)
      in if t = ''continue'' then Some Continue
         else if t = ''retry'' then Some Retry
         else if t = ''accept_plan'' \<or> t = ''accept'' then Some AcceptPlan
         else if t = ''feedback'' then Some Feedback
         else if t = ''stop'' then Some Stop
         else if t = ''wait'' then Some Wait
         else None)"

definition action_label :: "Action \<Rightarrow> string" where
  "action_label a =
     (case a of Continue \<Rightarrow> ''continue'' | Retry \<Rightarrow> ''retry'' | AcceptPlan \<Rightarrow> ''accept_plan''
      | Feedback \<Rightarrow> ''feedback'' | Stop \<Rightarrow> ''stop'' | Wait \<Rightarrow> ''wait'')"

record decision =
  de_action :: Action
  de_message :: "string option"
  de_option_index :: "nat option"
  de_wait_seconds :: "u64 option"
  de_reason :: string
  de_confidence :: "u64 option"

section \<open>The object in a reply\<close>

text \<open>
  The bytes up to the brace that closes the first one: \<open>depth\<close> counts open braces outside strings,
  a backslash in a string hides the byte after it.
\<close>

fun scan_json :: "int \<Rightarrow> bool \<Rightarrow> bool \<Rightarrow> string \<Rightarrow> string option" where
  "scan_json depth in_str escaped [] = None"
| "scan_json depth in_str escaped (b # bs) =
     (if in_str
      then map_option (Cons b)
             (if escaped then scan_json depth True False bs
              else if b = CHR 0x5C then scan_json depth True True bs
              else if b = CHR 0x22 then scan_json depth False escaped bs
              else scan_json depth True escaped bs)
      else if b = CHR 0x22 then map_option (Cons b) (scan_json depth True escaped bs)
      else if b = CHR ''{'' then map_option (Cons b) (scan_json (depth + 1) in_str escaped bs)
      else if b = CHR ''}''
      then (if depth - 1 = 0 then Some [b] else map_option (Cons b) (scan_json (depth - 1) in_str escaped bs))
      else map_option (Cons b) (scan_json depth in_str escaped bs))"

definition extract_json :: "string \<Rightarrow> string option" where
  "extract_json text =
     (case dropWhile (\<lambda>b. b \<noteq> CHR ''{'') text of
        [] \<Rightarrow> None
      | s \<Rightarrow> scan_json 0 False False s)"

section \<open>Reading a decision\<close>

definition parse_decision ::
  "(string \<Rightarrow> json option) \<Rightarrow> (json \<Rightarrow> u64 option) \<Rightarrow> (string \<Rightarrow> string) \<Rightarrow> string \<Rightarrow> string + decision" where
  "parse_decision parse as_f64 lower text =
     (case extract_json text of
        None \<Rightarrow> Inl ''no JSON object in supervisor response''
      | Some j \<Rightarrow>
          case parse j of
            None \<Rightarrow> Inl ''json''
          | Some v \<Rightarrow>
              case Option.bind (get_str v ''action'') (action_parse lower) of
                None \<Rightarrow> Inl ''missing or invalid action''
              | Some a \<Rightarrow>
                  Inr \<lparr>de_action = a,
                       de_message = opt_filter (\<lambda>s. s \<noteq> []) (get_str v ''message''),
                       de_option_index = map_option unat (Option.bind (jget v ''option_index'') as_u64),
                       de_wait_seconds = Option.bind (jget v ''wait_seconds'') as_u64,
                       de_reason = unwrap_or [] (get_str v ''reason''),
                       de_confidence = Option.bind (jget v ''confidence'') as_f64\<rparr>)"

section \<open>The braces as a grammar\<close>

text \<open>
  The reference: strings with escapes, text free of quotes and braces, and groups in braces.
\<close>

inductive string_body :: "string \<Rightarrow> bool" where
  body_Nil: "string_body []"
| body_char: "c \<noteq> CHR 0x22 \<Longrightarrow> c \<noteq> CHR 0x5C \<Longrightarrow> string_body s \<Longrightarrow> string_body (c # s)"
| body_escape: "string_body s \<Longrightarrow> string_body (CHR 0x5C # c # s)"

inductive items :: "string \<Rightarrow> bool" where
  items_Nil: "items []"
| items_char: "c \<noteq> CHR 0x22 \<Longrightarrow> c \<noteq> CHR ''{'' \<Longrightarrow> c \<noteq> CHR ''}'' \<Longrightarrow> items s \<Longrightarrow> items (c # s)"
| items_string: "string_body q \<Longrightarrow> items s \<Longrightarrow> items (CHR 0x22 # q @ CHR 0x22 # s)"
| items_group: "items g \<Longrightarrow> items s \<Longrightarrow> items (CHR ''{'' # g @ CHR ''}'' # s)"

text \<open>\<open>d\<close> groups that are open are closed, the last at the end.\<close>

inductive closes :: "nat \<Rightarrow> string \<Rightarrow> bool" where
  closes_one: "items g \<Longrightarrow> closes (Suc 0) (g @ [CHR ''}''])"
| closes_more: "items g \<Longrightarrow> closes (Suc d) r \<Longrightarrow> closes (Suc (Suc d)) (g @ CHR ''}'' # r)"

inductive_cases closes_SucE: "closes (Suc d) j"
inductive_cases items_ConsE: "items (c # s)"
inductive_cases string_body_ConsE: "string_body (c # s)"

lemma items_append: "items a \<Longrightarrow> items b \<Longrightarrow> items (a @ b)"
proof (induction rule: items.induct)
  case (items_string q s)
  from items.items_string [OF items_string(1) items_string.IH [OF items_string.prems]] show ?case by simp
next
  case (items_group g s)
  from items.items_group [OF items_group(1) items_group.IH(2) [OF items_group.prems]] show ?case by simp
qed (auto intro: items.intros)

lemma scan_string:
  assumes "string_body q"
  shows "scan_json d True False (q @ CHR 0x22 # rest) =
    map_option (\<lambda>r. q @ CHR 0x22 # r) (scan_json d False False rest)"
  using assms
  by (induction rule: string_body.induct) (auto simp: option.map_comp comp_def)

lemma scan_items:
  assumes "items g" "1 \<le> d"
  shows "scan_json d False False (g @ rest) = map_option (\<lambda>r. g @ r) (scan_json d False False rest)"
  using assms
proof (induction arbitrary: rest d rule: items.induct)
  case items_Nil
  show ?case by (simp add: option.map_ident)
next
  case (items_char c s)
  then show ?case by (simp add: option.map_comp comp_def)
next
  case (items_string q s)
  then show ?case by (simp add: scan_string option.map_comp comp_def)
next
  case (items_group g s)
  from items_group.IH(1) [of "d + 1" "CHR ''}'' # s @ rest"] items_group.IH(2) [of d rest] items_group.prems
  show ?case by (simp add: option.map_comp comp_def)
qed

lemma scan_closes:
  "closes d j \<Longrightarrow> scan_json (int d) False False (j @ rest) = Some j"
proof (induction arbitrary: rest rule: closes.induct)
  case (closes_one g)
  then show ?case by (simp add: scan_items)
next
  case (closes_more g d r)
  then show ?case by (simp add: scan_items)
qed

lemma closes_prefix:
  assumes "items a" "closes (Suc d) r"
  shows "closes (Suc d) (a @ r)"
  using assms(2)
proof (rule closes_SucE)
  fix g assume "r = g @ ''}''" "d = 0" "items g"
  then show ?thesis using closes_one [OF items_append [OF assms(1)]] by simp
next
  fix g e q assume "r = g @ CHR ''}'' # q" "d = Suc e" "items g" "closes (Suc e) q"
  then show ?thesis using closes_more [OF items_append [OF assms(1)]] by simp
qed

lemma closes_open:
  assumes "closes (Suc (Suc d)) r"
  shows "closes (Suc d) (CHR ''{'' # r)"
proof -
  from assms obtain g q where r: "r = g @ CHR ''}'' # q" "items g" "closes (Suc d) q"
    by (auto elim: closes_SucE)
  from items_group [OF r(2) items_Nil] have "items (CHR ''{'' # g @ ''}'')" by simp
  from closes_prefix [OF this r(3)] show ?thesis by (simp add: r(1))
qed

text \<open>The other way: what is scanned in a string, and up to the closing brace.\<close>

lemma scan_string_D:
  "scan_json d True e s = Some j \<Longrightarrow>
   \<exists>q r s'. j = q @ CHR 0x22 # r \<and> s = q @ CHR 0x22 # s' \<and> scan_json d False False s' = Some r \<and>
     (if e then \<exists>c q'. q = c # q' \<and> string_body q' else string_body q)"
proof (induction s arbitrary: e j)
  case (Cons b s)
  show ?case
  proof (cases e)
    case True
    with Cons.prems obtain k where k: "scan_json d True False s = Some k" "j = b # k" by auto
    from Cons.IH [OF k(1)] obtain q r s' where "k = q @ CHR 0x22 # r" "s = q @ CHR 0x22 # s'"
      "scan_json d False False s' = Some r" "string_body q" by auto
    with k True show ?thesis by (intro exI [of _ "b # q"] exI [of _ r] exI [of _ s']) simp
  next
    case False
    consider (esc) "b = CHR 0x5C" | (quot) "b = CHR 0x22" | (plain) "b \<noteq> CHR 0x5C" "b \<noteq> CHR 0x22" by blast
    then show ?thesis
    proof cases
      case esc
      with Cons.prems False obtain k where k: "scan_json d True True s = Some k" "j = b # k" by auto
      from Cons.IH [OF k(1)] obtain c q r s' where "k = (c # q) @ CHR 0x22 # r" "s = (c # q) @ CHR 0x22 # s'"
        "scan_json d False False s' = Some r" "string_body q" by auto
      with k False esc show ?thesis
        by (intro exI [of _ "b # c # q"] exI [of _ r] exI [of _ s']) (simp add: body_escape)
    next
      case quot
      with Cons.prems False obtain k where "scan_json d False False s = Some k" "j = b # k" by auto
      with quot False show ?thesis by (intro exI [of _ "[]"] exI [of _ k] exI [of _ s]) (simp add: body_Nil)
    next
      case plain
      with Cons.prems False obtain k where k: "scan_json d True False s = Some k" "j = b # k" by auto
      from Cons.IH [OF k(1)] obtain q r s' where "k = q @ CHR 0x22 # r" "s = q @ CHR 0x22 # s'"
        "scan_json d False False s' = Some r" "string_body q" by auto
      with k False plain show ?thesis
        by (intro exI [of _ "b # q"] exI [of _ r] exI [of _ s']) (simp add: body_char)
    qed
  qed
qed simp

lemma scan_D:
  "scan_json (1 + int d) False False s = Some j \<Longrightarrow> closes (Suc d) j \<and> (\<exists>post. s = j @ post)"
proof (induction "length s" arbitrary: s d j rule: less_induct)
  case less
  from less.prems obtain b bs where s: "s = b # bs" by (cases s) auto
  consider (quot) "b = CHR 0x22" | (brace) "b = CHR ''{''" | (ends) "b = CHR ''}''"
    | (plain) "b \<noteq> CHR 0x22" "b \<noteq> CHR ''{''" "b \<noteq> CHR ''}''" by blast
  then show ?case
  proof cases
    case quot
    with less.prems s obtain k where k: "scan_json (1 + int d) True False bs = Some k" "j = b # k" by auto
    from scan_string_D [OF k(1)] obtain q r s' where q: "k = q @ CHR 0x22 # r" "bs = q @ CHR 0x22 # s'"
      "scan_json (1 + int d) False False s' = Some r" "string_body q" by auto
    from less.hyps [OF _ q(3)] s q(2) have r: "closes (Suc d) r" "\<exists>post. s' = r @ post" by simp_all
    from closes_prefix [OF items_string [OF q(4) items_Nil] r(1)] r(2) k q s quot show ?thesis by auto
  next
    case brace
    with less.prems s obtain k where k: "scan_json (1 + int (Suc d)) False False bs = Some k" "j = b # k"
      by (auto simp: algebra_simps)
    from less.hyps [OF _ k(1)] s have "closes (Suc (Suc d)) k" "\<exists>post. bs = k @ post" by simp_all
    with k s brace show ?thesis by (auto intro: closes_open)
  next
    case ends
    show ?thesis
    proof (cases d)
      case 0
      with less.prems s ends have "j = ''}''" by simp
      with s ends 0 closes_one [OF items_Nil] show ?thesis by simp
    next
      case (Suc e)
      with less.prems s ends obtain k where k: "scan_json (1 + int e) False False bs = Some k" "j = b # k" by auto
      from less.hyps [OF _ k(1)] s have "closes (Suc e) k" "\<exists>post. bs = k @ post" by simp_all
      with closes_more [OF items_Nil, of e k] k s ends Suc show ?thesis by auto
    qed
  next
    case plain
    with less.prems s obtain k where k: "scan_json (1 + int d) False False bs = Some k" "j = b # k" by auto
    from less.hyps [OF _ k(1)] s have r: "closes (Suc d) k" "\<exists>post. bs = k @ post" by simp_all
    from closes_prefix [OF items_char [OF plain items_Nil] r(1)] r(2) k s show ?thesis by auto
  qed
qed

text \<open>
  What is read out of a reply is its first braced group, strings and escapes respected: a text is
  cut out exactly when no brace stands before it and it is an opening brace, well nested items and
  the brace that closes it; what surrounds it does not matter.
\<close>

theorem first_object_is_found:
  "extract_json text = Some j \<longleftrightarrow>
   (\<exists>pre g post. text = pre @ j @ post \<and> CHR ''{'' \<notin> set pre \<and> j = CHR ''{'' # g @ ''}'' \<and> items g)"
proof
  assume ex: "extract_json text = Some j"
  define pre where "pre = takeWhile (\<lambda>b. b \<noteq> CHR ''{'') text"
  define s where "s = dropWhile (\<lambda>b. b \<noteq> CHR ''{'') text"
  from ex have "s \<noteq> []" by (cases s) (simp_all add: extract_json_def flip: s_def)
  with ex have sc: "scan_json 0 False False s = Some j"
    by (cases s) (simp_all add: extract_json_def flip: s_def)
  from \<open>s \<noteq> []\<close> have "hd s = CHR ''{''"
    using hd_dropWhile [of "\<lambda>b. b \<noteq> CHR ''{''" "text"] by (auto simp: s_def)
  with \<open>s \<noteq> []\<close> obtain bs where s: "s = CHR ''{'' # bs" by (cases s) auto
  with sc obtain k where k: "scan_json 1 False False bs = Some k" "j = CHR ''{'' # k" by auto
  from scan_D [of 0 bs k] k obtain post where post: "closes (Suc 0) k" "bs = k @ post" by auto
  then obtain g where "k = g @ ''}''" "items g" by (auto elim: closes_SucE)
  moreover have "text = pre @ s" by (simp add: pre_def s_def)
  moreover have "CHR ''{'' \<notin> set pre" by (auto simp: pre_def dest: set_takeWhileD)
  ultimately show "\<exists>pre g post. text = pre @ j @ post \<and> CHR ''{'' \<notin> set pre \<and> j = CHR ''{'' # g @ ''}'' \<and> items g"
    using s k post by (intro exI [of _ pre] exI [of _ g] exI [of _ post]) simp
next
  assume "\<exists>pre g post. text = pre @ j @ post \<and> CHR ''{'' \<notin> set pre \<and> j = CHR ''{'' # g @ ''}'' \<and> items g"
  then obtain pre g post where t: "text = pre @ j @ post" "CHR ''{'' \<notin> set pre" "j = CHR ''{'' # g @ ''}''" "items g"
    by blast
  have "dropWhile (\<lambda>b. b \<noteq> CHR ''{'') text = j @ post"
    using t(2) unfolding t(1) by (subst dropWhile_append2) (auto simp: t(3))
  moreover have "scan_json 0 False False (j @ post) = Some j"
    using scan_closes [OF closes_one [OF t(4)], of post] by (simp add: t(3))
  ultimately show "extract_json text = Some j" by (simp add: extract_json_def t(3))
qed

theorem first_object_is_found_witness:
  "extract_json ''so: {a} {b}'' = Some ''{a}''"
proof -
  have "items ''a''" by (intro items.intros) simp_all
  then show ?thesis
    unfolding first_object_is_found
    by (intro exI [of _ "''so: ''"] exI [of _ "''a''"] exI [of _ "'' {b}''"]) simp
qed

end
