(* ===== verification/Pool.thy ===== *)
theory Pool
  imports Decision Automation_Cli
begin

text \<open>
  The pool of supervising models (\<open>crates/relay-agent/src/supervisor/pool.rs\<close>): which providers may be
  asked and in which order, the spend ceilings, and the cooling of a provider that failed. Money is a
  double-precision number kept as its bits; comparing and multiplying it, the replies of the providers
  and the usage totals are parameters. A question is one step.
\<close>

section \<open>Planning\<close>

definition COOLDOWN_SECS :: i64 where "COOLDOWN_SECS = 120"

record discovered =
  di_id :: string
  di_available :: bool
  di_models :: "string list"
  di_path :: "string option"

record planned_call =
  pc_backend :: Backend
  pc_model :: string
  pc_path :: string

definition model_for :: "string \<Rightarrow> providers \<Rightarrow> discovered \<Rightarrow> string option" where
  "model_for i cfg d =
     or_else (opt_filter (\<lambda>m. trim m \<noteq> []) (Option.bind (map_of (pv_per_provider cfg) i) po_model))
       (case di_models d of [] \<Rightarrow> None | m # _ \<Rightarrow> Some m)"

definition requires_model :: "Backend \<Rightarrow> bool" where
  "requires_model b \<longleftrightarrow> b = BkOllama \<or> b = BkOpenRouter"

text \<open>Of several entries with one name the last counts, as in the map the code builds.\<close>

definition found_provider :: "discovered list \<Rightarrow> string \<Rightarrow> discovered option" where
  "found_provider ds i = map_of (rev (map (\<lambda>d. (di_id d, d)) ds)) i"

definition eligible_call :: "providers \<Rightarrow> discovered list \<Rightarrow> string set \<Rightarrow> string \<Rightarrow> planned_call option" where
  "eligible_call cfg ds cooling i =
     (if i \<in> cooling then None
      else case found_provider ds i of
             None \<Rightarrow> None
           | Some d \<Rightarrow>
               if \<not> di_available d then None
               else case backend_of i of
                      None \<Rightarrow> None
                    | Some b \<Rightarrow>
                        let model = model_for i cfg d
                        in if requires_model b \<and> model = None then None
                           else Some \<lparr>pc_backend = b, pc_model = unwrap_or [] model, pc_path = unwrap_or [] (di_path d)\<rparr>)"

definition eligible_calls :: "providers \<Rightarrow> discovered list \<Rightarrow> string set \<Rightarrow> planned_call list" where
  "eligible_calls cfg ds cooling = List.map_filter (eligible_call cfg ds cooling) (pv_enabled cfg)"

definition plan_calls :: "providers \<Rightarrow> discovered list \<Rightarrow> string set \<Rightarrow> u64 \<Rightarrow> planned_call list" where
  "plan_calls cfg ds cooling cursor =
     (let calls = eligible_calls cfg ds cooling
      in case pv_strategy cfg of
           Single \<Rightarrow> take 1 calls
         | Priority \<Rightarrow> calls
         | RoundRobin \<Rightarrow> if calls \<noteq> [] then rotate (unat cursor mod length calls) calls else calls
         | CostOptimized \<Rightarrow> sort_key (\<lambda>c. if pc_backend c = BkOllama then 0 else (1::nat)) calls)"

section \<open>The pool\<close>

record pool =
  pl_cursor :: u64
  pl_cooldown :: "(string \<times> i64) list"

definition pool_new :: pool where
  "pool_new = \<lparr>pl_cursor = 0, pl_cooldown = []\<rparr>"

definition cooling :: "i64 \<Rightarrow> pool \<Rightarrow> string set" where
  "cooling now p = set (map fst (filter (\<lambda>(_, until). now < until) (pl_cooldown p)))"

definition penalize :: "string \<Rightarrow> i64 \<Rightarrow> pool \<Rightarrow> pool" where
  "penalize i now p = p\<lparr>pl_cooldown := AList.update i (now + COOLDOWN_SECS) (pl_cooldown p)\<rparr>"

definition advance :: "pool \<Rightarrow> pool" where
  "advance p = p\<lparr>pl_cursor := pl_cursor p + 1\<rparr>"

text \<open>
  What a question reads: the reply to a call, and what was spent; \<open>mn_positive\<close>, \<open>mn_ge\<close> and
  \<open>mn_cost\<close> (of tokens, at a price per thousand) are the arithmetic of money.
\<close>

record money =
  mn_positive :: "u64 \<Rightarrow> bool"
  mn_ge :: "u64 \<Rightarrow> u64 \<Rightarrow> bool"
  mn_cost :: "u64 \<Rightarrow> u64 \<Rightarrow> u64"

record pool_env =
  pl_money :: money
  pl_reply :: "planned_call \<Rightarrow> (decision \<times> u64 option) option"
  pl_text :: "planned_call \<Rightarrow> string option"
  pl_spent_total :: u64
  pl_spent :: "string \<Rightarrow> u64"

definition provider_price :: "money \<Rightarrow> string \<Rightarrow> providers \<Rightarrow> u64 option" where
  "provider_price M i cfg =
     opt_filter (mn_positive M) (Option.bind (map_of (pv_per_provider cfg) i) po_usd_per_ktok)"

definition est_usd :: "money \<Rightarrow> string \<Rightarrow> providers \<Rightarrow> u64 option \<Rightarrow> u64" where
  "est_usd M i cfg tokens =
     (case (provider_price M i cfg, tokens) of
        (Some price, Some count) \<Rightarrow> mn_cost M count price
      | _ \<Rightarrow> 0)"

definition within_budget :: "money \<Rightarrow> string \<Rightarrow> providers \<Rightarrow> u64 \<Rightarrow> u64 \<Rightarrow> bool" where
  "within_budget M i cfg spent_total spent_provider \<longleftrightarrow>
     (case Option.bind (map_of (pv_per_provider cfg) i) po_max_usd of
        Some mx \<Rightarrow> \<not> (mn_positive M mx \<and> mn_ge M spent_provider mx)
      | None \<Rightarrow> True) \<and>
     (case pv_budget_usd cfg of
        Some budget \<Rightarrow>
          \<not> (mn_positive M budget \<and> mn_ge M spent_total budget \<and> provider_price M i cfg \<noteq> None)
      | None \<Rightarrow> True)"

datatype pool_effect =
    Asked planned_call
  | Recorded string string "u64 option" u64 bool
  | AskedText planned_call

abbreviation call_id :: "planned_call \<Rightarrow> string" where
  "call_id c \<equiv> backend_id (pc_backend c)"

abbreviation affordable :: "pool_env \<Rightarrow> providers \<Rightarrow> planned_call \<Rightarrow> bool" where
  "affordable E cfg c \<equiv>
     within_budget (pl_money E) (call_id c) cfg (pl_spent_total E) (pl_spent E (call_id c))"

text \<open>The calls in order, up to the first that is answered; the number of those skipped.\<close>

fun try_ask ::
  "pool_env \<Rightarrow> providers \<Rightarrow> i64 \<Rightarrow> planned_call list \<Rightarrow> nat \<Rightarrow> pool \<Rightarrow>
   (Backend \<times> decision) option \<times> nat \<times> pool_effect list \<times> pool" where
  "try_ask E cfg now [] skipped p = (None, skipped, [], p)"
| "try_ask E cfg now (c # cs) skipped p =
     (if \<not> affordable E cfg c then try_ask E cfg now cs (skipped + 1) p
      else case pl_reply E c of
             Some (d, tokens) \<Rightarrow>
               (Some (pc_backend c, d), skipped,
                [Asked c, Recorded (call_id c) (pc_model c) tokens (est_usd (pl_money E) (call_id c) cfg tokens) True],
                advance p)
           | None \<Rightarrow>
               (let (r, k, fx, p') = try_ask E cfg now cs skipped (penalize (call_id c) now p)
                in (r, k, Asked c # Recorded (call_id c) (pc_model c) None 0 False # fx, p')))"

definition no_provider :: string where
  "no_provider = ''no eligible provider (enabled + available + not cooling + has model)''"

definition ask ::
  "pool_env \<Rightarrow> providers \<Rightarrow> discovered list \<Rightarrow> i64 \<Rightarrow> pool \<Rightarrow>
   (string + Backend \<times> decision) \<times> pool_effect list \<times> pool" where
  "ask E cfg ds now p =
     (let plan = plan_calls cfg ds (cooling now p) (pl_cursor p)
      in if plan = [] then (Inl no_provider, [], p)
         else let (r, skipped, fx, p') = try_ask E cfg now plan 0 p
              in (case r of
                    Some x \<Rightarrow> (Inr x, fx, p')
                  | None \<Rightarrow>
                      (Inl (if skipped = length plan
                            then ''spend ceiling reached: all '' @ dec (length plan) @ '' provider(s) over budget''
                            else ''all '' @ dec (length plan - skipped) @ '' eligible providers failed''), fx, p')))"

fun try_text ::
  "pool_env \<Rightarrow> i64 \<Rightarrow> planned_call list \<Rightarrow> pool \<Rightarrow> (Backend \<times> string) option \<times> pool_effect list \<times> pool" where
  "try_text E now [] p = (None, [], p)"
| "try_text E now (c # cs) p =
     (case opt_filter (\<lambda>t. trim t \<noteq> []) (pl_text E c) of
        Some t \<Rightarrow> (Some (pc_backend c, t), [AskedText c], advance p)
      | None \<Rightarrow>
          (let (r, fx, p') = try_text E now cs (penalize (call_id c) now p) in (r, AskedText c # fx, p')))"

definition improve ::
  "pool_env \<Rightarrow> providers \<Rightarrow> discovered list \<Rightarrow> i64 \<Rightarrow> pool \<Rightarrow>
   (string + Backend \<times> string) \<times> pool_effect list \<times> pool" where
  "improve E cfg ds now p =
     (let plan = plan_calls cfg ds (cooling now p) (pl_cursor p)
      in if plan = [] then (Inl no_provider, [], p)
         else let (r, fx, p') = try_text E now plan p
              in (case r of
                    Some x \<Rightarrow> (Inr x, fx, p')
                  | None \<Rightarrow> (Inl (''all '' @ dec (length plan) @ '' eligible providers failed''), fx, p')))"

section \<open>Who is asked\<close>

definition asked_of :: "pool_effect \<Rightarrow> planned_call list" where
  "asked_of x = (case x of Asked c \<Rightarrow> [c] | AskedText c \<Rightarrow> [c] | _ \<Rightarrow> [])"

definition asked :: "pool_effect list \<Rightarrow> planned_call list" where
  "asked fx = concat (map asked_of fx)"

lemma asked_simps [simp]:
  "asked [] = []" "asked (x # xs) = asked_of x @ asked xs"
  "asked_of (Asked c) = [c]" "asked_of (AskedText c) = [c]" "asked_of (Recorded i m t u ok) = []"
  by (simp_all add: asked_def asked_of_def)

text \<open>
  What a question does with its plan: the calls made are the first part of those affordable, and end
  with the one that is answered.
\<close>

definition ended_with :: "pool_env \<Rightarrow> (Backend \<times> decision) option \<Rightarrow> planned_call list \<Rightarrow> bool" where
  "ended_with E r calls \<longleftrightarrow>
     (case r of
        None \<Rightarrow> list_all (\<lambda>c. pl_reply E c = None) calls
      | Some (b, d) \<Rightarrow>
          calls \<noteq> [] \<and> pc_backend (last calls) = b \<and> map_option fst (pl_reply E (last calls)) = Some d \<and>
          list_all (\<lambda>c. pl_reply E c = None) (butlast calls))"

lemma ended_with_Cons: "pl_reply E c = None \<Longrightarrow> ended_with E r cs \<Longrightarrow> ended_with E r (c # cs)"
  by (auto simp: ended_with_def split: option.splits)

lemma try_ask_spec:
  assumes "try_ask E cfg now cs k p = (r, k', fx, p')"
  shows "\<exists>rest. filter (affordable E cfg) cs = asked fx @ rest \<and> (r = None \<longrightarrow> rest = []) \<and> ended_with E r (asked fx)"
  using assms
proof (induction cs arbitrary: k r k' fx p p')
  case Nil
  then show ?case by (auto simp: ended_with_def)
next
  case (Cons c cs)
  consider (skip) "\<not> affordable E cfg c" | (answer) d t where "affordable E cfg c" "pl_reply E c = Some (d, t)"
    | (failure) "affordable E cfg c" "pl_reply E c = None" by (cases "pl_reply E c") auto
  then show ?case
  proof cases
    case skip
    with Cons.prems have "try_ask E cfg now cs (k + 1) p = (r, k', fx, p')" by simp
    from Cons.IH [OF this] skip show ?thesis by simp
  next
    case answer
    with Cons.prems show ?thesis by (auto simp: ended_with_def)
  next
    case failure
    obtain r1 k1 fx1 p1 where rec: "try_ask E cfg now cs k (penalize (call_id c) now p) = (r1, k1, fx1, p1)"
      by (metis prod_cases4)
    with Cons.prems failure have res: "r = r1" "asked fx = c # asked fx1" by auto
    from Cons.IH [OF rec] failure ended_with_Cons [OF failure(2)] show ?thesis by (auto simp: res)
  qed
qed

lemma try_ask_asked:
  assumes "try_ask E cfg now cs k p = (r, k', fx, p')"
  shows "set (asked fx) \<subseteq> set cs"
proof -
  from try_ask_spec [OF assms] obtain rest where "filter (affordable E cfg) cs = asked fx @ rest" by blast
  from arg_cong [OF this, of set] filter_is_subset [of "affordable E cfg" cs] show ?thesis by simp
qed

lemma try_text_spec:
  assumes "try_text E now cs p = (r, fx, p')"
  shows "\<exists>rest. cs = asked fx @ rest"
  using assms
proof (induction cs arbitrary: p r fx p')
  case (Cons c cs)
  show ?case
  proof (cases "opt_filter (\<lambda>t. trim t \<noteq> []) (pl_text E c)")
    case None
    obtain r1 fx1 p1 where rec: "try_text E now cs (penalize (call_id c) now p) = (r1, fx1, p1)"
      by (metis prod_cases3)
    with Cons.IH [OF rec] None Cons.prems show ?thesis by auto
  next
    case (Some t)
    with Cons.prems show ?thesis by auto
  qed
qed simp

section \<open>Providers on this machine\<close>

text \<open>
  \<open>discover_all\<close> of \<open>supervisor/discover.rs\<close>: the models of a reachable Ollama, whether there is an
  OpenRouter key, and the programs found.
\<close>

record probes =
  pb_ollama :: "string list option"
  pb_key :: bool
  pb_path :: "Backend \<Rightarrow> string option"

definition probe_cli :: "Backend \<Rightarrow> string option \<Rightarrow> discovered" where
  "probe_cli b path = \<lparr>di_id = backend_id b, di_available = (path \<noteq> None), di_models = [], di_path = path\<rparr>"

definition discover_all :: "probes \<Rightarrow> discovered list" where
  "discover_all pb =
     [\<lparr>di_id = backend_id BkOllama, di_available = (pb_ollama pb \<noteq> None),
       di_models = unwrap_or [] (pb_ollama pb), di_path = None\<rparr>,
      \<lparr>di_id = backend_id BkOpenRouter, di_available = pb_key pb, di_models = [], di_path = None\<rparr>] @
     map (\<lambda>b. probe_cli b (pb_path pb b)) [BkClaudeCli, BkCodexCli, BkGeminiCli, BkCursorCli, BkAntigravity]"

lemma backend_of_id: "backend_of (backend_id b) = Some b"
proof -
  have "\<forall>b \<in> set backend_all. backend_of (backend_id b) = Some b" by code_simp
  moreover have "b \<in> set backend_all" by (cases b) (simp_all add: backend_all_def)
  ultimately show ?thesis by blast
qed

lemma discovered_ids: "d \<in> set (discover_all pb) \<Longrightarrow> \<exists>b. di_id d = backend_id b"
  by (auto simp: discover_all_def probe_cli_def)

lemma found_provider_D:
  assumes "found_provider (discover_all pb) i = Some d"
  shows "d \<in> set (discover_all pb) \<and> (\<exists>b. i = backend_id b \<and> backend_of i = Some b)"
proof -
  have "(i, d) \<in> set (rev (map (\<lambda>d. (di_id d, d)) (discover_all pb)))"
    using assms unfolding found_provider_def by (rule map_of_SomeD)
  then have d: "d \<in> set (discover_all pb)" "i = di_id d" by auto
  with discovered_ids [OF d(1)] backend_of_id show ?thesis by auto
qed

lemma eligible_call_D:
  assumes "eligible_call cfg (discover_all pb) cool i = Some c"
  shows "i = call_id c" "i \<notin> cool"
proof -
  from assms obtain d b where d: "found_provider (discover_all pb) i = Some d" "backend_of i = Some b"
    "pc_backend c = b" "i \<notin> cool"
    by (auto simp: eligible_call_def Let_def split: if_splits option.splits)
  with found_provider_D [OF d(1)] show "i = call_id c" "i \<notin> cool" by auto
qed

lemma plan_subset: "set (plan_calls cfg ds cool k) \<subseteq> set (eligible_calls cfg ds cool)"
  by (auto simp: plan_calls_def Let_def dest: in_set_takeD split: Strategy.splits if_splits)

lemma plan_not_cooling:
  assumes "c \<in> set (plan_calls cfg (discover_all pb) cool k)"
  shows "call_id c \<notin> cool"
proof -
  from assms plan_subset have "c \<in> set (eligible_calls cfg (discover_all pb) cool)" by blast
  then obtain i where "eligible_call cfg (discover_all pb) cool i = Some c"
    by (auto simp: eligible_calls_def map_filter_def)
  with eligible_call_D [OF this] show ?thesis by simp
qed

section \<open>Runs\<close>

datatype pool_event =
    AskEvent pool_env providers probes i64
  | ImproveEvent pool_env providers probes i64

definition event_time :: "pool_event \<Rightarrow> i64" where
  "event_time e = (case e of AskEvent _ _ _ now \<Rightarrow> now | ImproveEvent _ _ _ now \<Rightarrow> now)"

definition pool_do :: "pool_event \<Rightarrow> pool \<Rightarrow> pool_effect list \<times> pool" where
  "pool_do e p =
     (case e of
        AskEvent E cfg pb now \<Rightarrow> snd (ask E cfg (discover_all pb) now p)
      | ImproveEvent E cfg pb now \<Rightarrow> snd (improve E cfg (discover_all pb) now p))"

fun pool_run :: "pool_event list \<Rightarrow> pool \<Rightarrow> pool_effect list" where
  "pool_run [] p = []"
| "pool_run (e # es) p = fst (pool_do e p) @ pool_run es (snd (pool_do e p))"

definition fails :: "pool_event \<Rightarrow> planned_call \<Rightarrow> bool" where
  "fails e c =
     (case e of
        AskEvent E _ _ _ \<Rightarrow> pl_reply E c = None
      | ImproveEvent E _ _ _ \<Rightarrow> opt_filter (\<lambda>t. trim t \<noteq> []) (pl_text E c) = None)"

definition rests :: "i64 \<Rightarrow> string \<Rightarrow> pool \<Rightarrow> bool" where
  "rests t i p \<longleftrightarrow> (\<exists>u. map_of (pl_cooldown p) i = Some u \<and> t + COOLDOWN_SECS \<le> u)"

lemma rests_penalize: "t \<le> now \<Longrightarrow> rests t i p \<Longrightarrow> rests t i (penalize j now p)"
  "rests now i (penalize i now p)"
  by (auto simp: rests_def penalize_def update_conv')

lemma rests_advance [simp]: "rests t i (advance p) = rests t i p"
  by (simp add: rests_def advance_def)

lemma rests_cooling: "rests t i p \<Longrightarrow> now < t + COOLDOWN_SECS \<Longrightarrow> i \<in> cooling now p"
  by (force simp: rests_def cooling_def dest: map_of_SomeD)

lemma try_ask_rests:
  assumes "try_ask E cfg now cs k p = (r, k', fx, p')"
  shows "(\<forall>c \<in> set (asked fx). pl_reply E c = None \<longrightarrow> rests now (call_id c) p') \<and>
    (\<forall>t i. t \<le> now \<longrightarrow> rests t i p \<longrightarrow> rests t i p')"
  using assms
proof (induction cs arbitrary: k r k' fx p p')
  case (Cons c cs)
  consider (skip) "\<not> affordable E cfg c" | (answer) d t where "affordable E cfg c" "pl_reply E c = Some (d, t)"
    | (failure) "affordable E cfg c" "pl_reply E c = None" by (cases "pl_reply E c") auto
  then show ?case
  proof cases
    case skip
    with Cons.prems have "try_ask E cfg now cs (k + 1) p = (r, k', fx, p')" by simp
    from Cons.IH [OF this] show ?thesis .
  next
    case answer
    with Cons.prems show ?thesis by auto
  next
    case failure
    obtain r1 k1 fx1 p1 where rec: "try_ask E cfg now cs k (penalize (call_id c) now p) = (r1, k1, fx1, p1)"
      by (metis prod_cases4)
    with Cons.prems failure have res: "p' = p1" "asked fx = c # asked fx1" by auto
    from Cons.IH [OF rec] res show ?thesis by (auto intro: rests_penalize)
  qed
qed simp

lemma try_text_rests:
  assumes "try_text E now cs p = (r, fx, p')"
  shows "(\<forall>c \<in> set (asked fx). opt_filter (\<lambda>t. trim t \<noteq> []) (pl_text E c) = None \<longrightarrow> rests now (call_id c) p') \<and>
    (\<forall>t i. t \<le> now \<longrightarrow> rests t i p \<longrightarrow> rests t i p')"
  using assms
proof (induction cs arbitrary: p r fx p')
  case (Cons c cs)
  show ?case
  proof (cases "opt_filter (\<lambda>t. trim t \<noteq> []) (pl_text E c)")
    case None
    obtain r1 fx1 p1 where rec: "try_text E now cs (penalize (call_id c) now p) = (r1, fx1, p1)"
      by (metis prod_cases3)
    with None Cons.prems have "p' = p1" "fx = AskedText c # fx1" by auto
    with Cons.IH [OF rec] show ?thesis by (auto intro: rests_penalize)
  next
    case (Some t)
    with Cons.prems show ?thesis by auto
  qed
qed simp

lemma do_rests:
  assumes "pool_do e p = (fx, p')"
  shows "(\<forall>c \<in> set (asked fx). fails e c \<longrightarrow> rests (event_time e) (call_id c) p') \<and>
    (\<forall>t i. t \<le> event_time e \<longrightarrow> rests t i p \<longrightarrow> rests t i p') \<and>
    (\<forall>c \<in> set (asked fx). call_id c \<notin> cooling (event_time e) p)"
proof (cases e)
  case (AskEvent E cfg pb now)
  let ?plan = "plan_calls cfg (discover_all pb) (cooling now p) (pl_cursor p)"
  show ?thesis
  proof (cases "?plan = []")
    case True
    with assms AskEvent show ?thesis by (auto simp: pool_do_def ask_def)
  next
    case False
    obtain r k fx1 p1 where t: "try_ask E cfg now ?plan 0 p = (r, k, fx1, p1)" by (metis prod_cases4)
    with False assms AskEvent have eq: "fx = fx1" "p' = p1" by (auto simp: pool_do_def ask_def Let_def split: option.splits)
    from try_ask_asked [OF t, folded eq] have cool: "\<forall>c \<in> set (asked fx). call_id c \<notin> cooling now p"
      by (intro ballI plan_not_cooling) (erule subsetD)
    note R = try_ask_rests [OF t, folded eq]
    show ?thesis
      unfolding fails_def event_time_def AskEvent pool_event.case by (intro conjI R [THEN conjunct1] R [THEN conjunct2] cool)
  qed
next
  case (ImproveEvent E cfg pb now)
  let ?plan = "plan_calls cfg (discover_all pb) (cooling now p) (pl_cursor p)"
  show ?thesis
  proof (cases "?plan = []")
    case True
    with assms ImproveEvent show ?thesis by (auto simp: pool_do_def improve_def)
  next
    case False
    obtain r fx1 p1 where t: "try_text E now ?plan p = (r, fx1, p1)" by (metis prod_cases3)
    with False assms ImproveEvent have eq: "fx = fx1" "p' = p1" by (auto simp: pool_do_def improve_def Let_def split: option.splits)
    from try_text_spec [OF t, folded eq] have "set (asked fx) \<subseteq> set ?plan" by auto
    then have cool: "\<forall>c \<in> set (asked fx). call_id c \<notin> cooling now p"
      by (intro ballI plan_not_cooling) (erule subsetD)
    note R = try_text_rests [OF t, folded eq]
    show ?thesis
      unfolding fails_def event_time_def ImproveEvent pool_event.case by (intro conjI R [THEN conjunct1] R [THEN conjunct2] cool)
  qed
qed

lemma resting_not_asked:
  assumes "rests t i p" "list_all (\<lambda>f. t \<le> event_time f \<and> event_time f < t + COOLDOWN_SECS) es"
  shows "i \<notin> call_id ` set (asked (pool_run es p))"
  using assms
proof (induction es arbitrary: p)
  case (Cons f es)
  obtain fx p' where f: "pool_do f p = (fx, p')" by fastforce
  note D = do_rests [OF f]
  have "i \<notin> call_id ` set (asked fx)"
    using D rests_cooling [OF Cons.prems(1), of "event_time f"] Cons.prems(2) by auto
  moreover have "i \<notin> call_id ` set (asked (pool_run es p'))"
    by (rule Cons.IH) (use D Cons.prems in auto)
  ultimately show ?case by (simp add: f asked_def image_Un)
qed simp

lemma ask_plan:
  assumes "ask E cfg ds now p = (res, fx, p')"
  shows "\<exists>rest. filter (affordable E cfg) (plan_calls cfg ds (cooling now p) (pl_cursor p)) = asked fx @ rest \<and>
    (case res of
       Inr x \<Rightarrow> ended_with E (Some x) (asked fx)
     | Inl _ \<Rightarrow> rest = [] \<and> ended_with E None (asked fx))"
proof -
  let ?plan = "plan_calls cfg ds (cooling now p) (pl_cursor p)"
  show ?thesis
  proof (cases "?plan = []")
    case True
    with assms show ?thesis by (auto simp: ask_def ended_with_def)
  next
    case False
    obtain r k fx1 p1 where t: "try_ask E cfg now ?plan 0 p = (r, k, fx1, p1)" by (metis prod_cases4)
    with False assms show ?thesis
      using try_ask_spec [OF t] by (cases r) (auto simp: ask_def Let_def)
  qed
qed

section \<open>Properties\<close>


text \<open>
  A question goes through its plan in order and stops at the first answer: the calls made are the
  first affordable ones of the plan, all but the last without a reply; the answer is the reply to the
  last call, and there is none exactly when every affordable call was made and none was answered.
  No call is made to a provider above its ceiling.
\<close>

theorem ask_tries_in_order:
  assumes "ask E cfg ds now p = (res, fx, p')"
  shows "\<exists>rest. filter (affordable E cfg) (plan_calls cfg ds (cooling now p) (pl_cursor p)) = asked fx @ rest \<and>
    (case res of
       Inr x \<Rightarrow> ended_with E (Some x) (asked fx)
     | Inl _ \<Rightarrow> rest = [] \<and> ended_with E None (asked fx))"
  by (rule ask_plan [OF assms])

text \<open>
  Turns go round: as long as the same \<open>n\<close> providers can be asked, under the round-robin strategy
  \<open>n\<close> answered questions in a row start with each of them once, in their order.
\<close>

theorem round_robin_takes_turns:
  assumes "pv_strategy cfg = RoundRobin" "eligible_calls cfg ds cool = calls" "calls \<noteq> []"
    and "unat k + length calls < 2 ^ 64"
  shows "map (\<lambda>i. hd (plan_calls cfg ds cool (k + of_nat i))) [0..<length calls] =
    rotate (unat k mod length calls) calls"
proof (rule nth_equalityI)
  fix i assume i: "i < length (map (\<lambda>i. hd (plan_calls cfg ds cool (k + of_nat i))) [0..<length calls])"
  then have i: "i < length calls" by simp
  have "unat (k + of_nat i) = unat k + i"
    using i assms(4) by (simp add: unat_word_ariths unsigned_of_nat take_bit_nat_eq_self)
  moreover have "rotate m calls = rotate (m mod length calls) calls" for m by (rule rotate_conv_mod)
  ultimately have "plan_calls cfg ds cool (k + of_nat i) = rotate (unat k + i) calls"
    using assms(1-3) by (simp add: plan_calls_def flip: rotate_conv_mod)
  then show "map (\<lambda>i. hd (plan_calls cfg ds cool (k + of_nat i))) [0..<length calls] ! i =
      rotate (unat k mod length calls) calls ! i"
    using i assms(3) by (simp add: hd_rotate_conv_nth nth_rotate mod_simps flip: rotate_conv_mod)
qed simp

text \<open>
  A spend ceiling holds: a question makes no call to a provider whose own spend reached its
  ceiling, nor, once the session's spend reached the budget, to any that has a price.
\<close>

theorem spend_ceiling_holds:
  assumes "ask E cfg ds now p = (res, fx, p')" "c \<in> set (asked fx)"
  shows "(\<forall>mx. Option.bind (map_of (pv_per_provider cfg) (call_id c)) po_max_usd = Some mx \<and> mn_positive (pl_money E) mx \<longrightarrow>
      \<not> mn_ge (pl_money E) (pl_spent E (call_id c)) mx) \<and>
    (\<forall>b. pv_budget_usd cfg = Some b \<and> mn_positive (pl_money E) b \<and> mn_ge (pl_money E) (pl_spent_total E) b \<longrightarrow>
      provider_price (pl_money E) (call_id c) cfg = None)"
proof -
  from ask_plan [OF assms(1)] obtain rest where
    "filter (affordable E cfg) (plan_calls cfg ds (cooling now p) (pl_cursor p)) = asked fx @ rest" by blast
  then have "c \<in> set (filter (affordable E cfg) (plan_calls cfg ds (cooling now p) (pl_cursor p)))"
    using assms(2) by simp
  then show ?thesis by (auto simp: within_budget_def split: option.splits)
qed

definition demo_money :: money where
  "demo_money = \<lparr>mn_positive = (\<lambda>m. 0 < m), mn_ge = (\<lambda>a b. b \<le> a), mn_cost = (\<lambda>n m. n * m)\<rparr>"

definition demo_pool_env :: pool_env where
  "demo_pool_env =
     \<lparr>pl_money = demo_money,
      pl_reply = (\<lambda>c. if pc_backend c = BkClaudeCli then None
        else Some (\<lparr>de_action = Stop, de_message = None, de_option_index = None, de_wait_seconds = None,
                    de_reason = [], de_confidence = None\<rparr>, None)),
      pl_text = (\<lambda>c. None), pl_spent_total = 0, pl_spent = (\<lambda>i. 0)\<rparr>"

definition demo_providers :: "Strategy \<Rightarrow> providers" where
  "demo_providers s = providers_default\<lparr>pv_enabled := [''claude-cli'', ''codex-cli''], pv_strategy := s\<rparr>"

definition demo_probes :: probes where
  "demo_probes = \<lparr>pb_ollama = None, pb_key = False, pb_path = (\<lambda>b. Some ''/bin/x'')\<rparr>"

abbreviation demo_plan :: "Strategy \<Rightarrow> planned_call list" where
  "demo_plan s \<equiv> eligible_calls (demo_providers s) (discover_all demo_probes) {}"

definition demo_calls :: "planned_call list" where
  "demo_calls = [\<lparr>pc_backend = BkClaudeCli, pc_model = [], pc_path = ''/bin/x''\<rparr>,
                 \<lparr>pc_backend = BkCodexCli, pc_model = [], pc_path = ''/bin/x''\<rparr>]"

lemma demo_eligible: "demo_plan s = demo_calls"
proof -
  have "backend_of ''claude-cli'' = Some BkClaudeCli" "backend_of ''codex-cli'' = Some BkCodexCli"
    using backend_of_id [of BkClaudeCli] backend_of_id [of BkCodexCli] by (simp_all add: backend_id_def)
  then show ?thesis
    by (simp add: eligible_calls_def eligible_call_def demo_providers_def providers_default_def found_provider_def
        discover_all_def demo_probes_def probe_cli_def backend_id_def model_for_def requires_model_def
        map_filter_simps demo_calls_def Let_def)
qed

lemma demo_ask:
  "\<exists>d p'. ask demo_pool_env (demo_providers Priority) (discover_all demo_probes) 0 pool_new =
     (Inr (BkCodexCli, d),
      [Asked (demo_calls ! 0), Recorded ''claude-cli'' [] None 0 False,
       Asked (demo_calls ! 1), Recorded ''codex-cli'' [] None 0 True], p')"
proof -
  have "plan_calls (demo_providers Priority) (discover_all demo_probes) (cooling 0 pool_new) 0 = demo_calls"
    by (simp add: plan_calls_def cooling_def pool_new_def demo_eligible demo_providers_def [of Priority, THEN arg_cong, of pv_strategy])
  then show ?thesis
    by (simp add: ask_def Let_def pool_new_def demo_calls_def within_budget_def demo_pool_env_def
        demo_providers_def providers_default_def backend_id_def est_usd_def split: option.split)
qed


theorem ask_tries_in_order_witness:
  "\<exists>d. ended_with demo_pool_env (Some (BkCodexCli, d)) [demo_calls ! 0, demo_calls ! 1]"
proof -
  from demo_ask obtain d p' where a:
    "ask demo_pool_env (demo_providers Priority) (discover_all demo_probes) 0 pool_new =
     (Inr (BkCodexCli, d),
      [Asked (demo_calls ! 0), Recorded ''claude-cli'' [] None 0 False,
       Asked (demo_calls ! 1), Recorded ''codex-cli'' [] None 0 True], p')" by blast
  from ask_tries_in_order [OF a] show ?thesis by auto
qed

theorem round_robin_takes_turns_witness:
  "map (\<lambda>i. hd (plan_calls (demo_providers RoundRobin) (discover_all demo_probes) {} (1 + of_nat i))) [0..<2] =
   rotate 1 demo_calls"
  using round_robin_takes_turns [of "demo_providers RoundRobin" "discover_all demo_probes" "{}" demo_calls 1]
  by (simp add: demo_eligible demo_providers_def [of RoundRobin, THEN arg_cong, of pv_strategy])
     (simp add: demo_calls_def upt_rec)

theorem spend_ceiling_holds_witness:
  "\<not> (Option.bind (map_of (pv_per_provider (demo_providers Priority)) ''codex-cli'') po_max_usd = Some 1)"
proof -
  from demo_ask obtain d p' where a:
    "ask demo_pool_env (demo_providers Priority) (discover_all demo_probes) 0 pool_new =
     (Inr (BkCodexCli, d),
      [Asked (demo_calls ! 0), Recorded ''claude-cli'' [] None 0 False,
       Asked (demo_calls ! 1), Recorded ''codex-cli'' [] None 0 True], p')" by blast
  have "demo_calls ! 1 \<in> set (asked [Asked (demo_calls ! 0), Recorded ''claude-cli'' [] None 0 False,
       Asked (demo_calls ! 1), Recorded ''codex-cli'' [] None 0 True])" by simp
  from spend_ceiling_holds [OF a this] show ?thesis
    by (simp add: demo_providers_def providers_default_def)
qed

end
