(* ===== verification/Review.thy ===== *)
theory Review
  imports Pool
begin

text \<open>
  Cross review (\<open>crates/relay-agent/src/supervisor/review.rs\<close>, with \<open>Family\<close> of
  \<open>crates/relay-adapters/src/family.rs\<close>): a model of another family is asked whether a session still
  serves the last instruction of its user. Who may be asked, what it is shown, how its answer is read
  and how often it is asked. Reading the transcript is a parameter; the file of past reviews is part of
  the state.
\<close>

section \<open>Families and reviewers\<close>

datatype Family = Claude | CodexFamily | Cursor | Antigravity

definition family_id :: "Family \<Rightarrow> string" where
  "family_id f =
     (case f of Claude \<Rightarrow> ''claude'' | CodexFamily \<Rightarrow> ''codex'' | Cursor \<Rightarrow> ''cursor''
      | Antigravity \<Rightarrow> ''antigravity'')"

definition family_label :: "Family \<Rightarrow> string" where
  "family_label f =
     (case f of Claude \<Rightarrow> ''Claude Code'' | CodexFamily \<Rightarrow> ''Codex'' | Cursor \<Rightarrow> ''Cursor''
      | Antigravity \<Rightarrow> ''Antigravity'')"

definition family_parse :: "string \<Rightarrow> Family option" where
  "family_parse raw =
     (let t = to_ascii_lowercase (trim raw)
      in if t \<in> set [''claude'', ''claude-code'', ''claudecode''] then Some Claude
         else if t = ''codex'' then Some CodexFamily
         else if t \<in> set [''cursor'', ''cursor-agent''] then Some Cursor
         else if t \<in> set [''antigravity'', ''agy''] then Some Antigravity
         else None)"

definition compact_backend :: "Family \<Rightarrow> string" where
  "compact_backend f =
     (case f of Claude \<Rightarrow> ''claude-cli'' | CodexFamily \<Rightarrow> ''codex-cli'' | Cursor \<Rightarrow> ''cursor-cli''
      | Antigravity \<Rightarrow> ''antigravity'')"

definition reviewer_ids :: "Family \<Rightarrow> review_rules \<Rightarrow> string list" where
  "reviewer_ids under_review rules =
     filter (\<lambda>i. (rv_cross_family_only rules \<longrightarrow> i \<noteq> compact_backend under_review) \<and> backend_of i \<noteq> None)
       (rv_reviewers rules)"

definition reviewer_providers :: "Family \<Rightarrow> review_rules \<Rightarrow> providers \<Rightarrow> providers" where
  "reviewer_providers under_review rules shared =
     \<lparr>pv_enabled = reviewer_ids under_review rules, pv_strategy = Priority,
      pv_per_provider = pv_per_provider shared, pv_budget_usd = pv_budget_usd shared\<rparr>"

definition MENU_REVIEWERS :: "string list" where
  "MENU_REVIEWERS = [''codex-cli'', ''claude-cli'', ''antigravity'', ''cursor-cli'', ''gemini-cli'']"

definition menu_reviewers :: "Family \<Rightarrow> string list" where
  "menu_reviewers under_review = filter (\<lambda>i. i \<noteq> compact_backend under_review) MENU_REVIEWERS"

definition reviewer_code :: "string \<Rightarrow> char option" where
  "reviewer_code i =
     (if i = ''codex-cli'' then Some CHR ''c''
      else if i = ''claude-cli'' then Some CHR ''l''
      else if i = ''antigravity'' then Some CHR ''a''
      else if i = ''cursor-cli'' then Some CHR ''u''
      else if i = ''gemini-cli'' then Some CHR ''g''
      else None)"

definition reviewer_from_code :: "char \<Rightarrow> string option" where
  "reviewer_from_code code = find (\<lambda>i. reviewer_code i = Some code) MENU_REVIEWERS"

definition depth_code :: "ReviewDepth \<Rightarrow> char" where
  "depth_code d = (case d of Shallow \<Rightarrow> CHR ''s'' | Normal \<Rightarrow> CHR ''n'' | Deep \<Rightarrow> CHR ''d'')"

definition depth_from_code :: "char \<Rightarrow> ReviewDepth option" where
  "depth_from_code c =
     (if c = CHR ''s'' then Some Shallow else if c = CHR ''n'' then Some Normal
      else if c = CHR ''d'' then Some Deep else None)"

definition chosen_reviewers :: "Family \<Rightarrow> review_rules \<Rightarrow> providers \<Rightarrow> string option \<Rightarrow> providers" where
  "chosen_reviewers under_review rules shared pick =
     (let p = reviewer_providers under_review rules shared
      in case pick of
           Some i \<Rightarrow>
             if backend_of i \<noteq> None \<and> i \<noteq> compact_backend under_review then p\<lparr>pv_enabled := [i]\<rparr> else p
         | None \<Rightarrow> p)"

section \<open>The verdict\<close>

datatype Verdict = OnTrack | Drifting | OffTrack | Blocked

definition verdict_label :: "Verdict \<Rightarrow> string" where
  "verdict_label v =
     (case v of OnTrack \<Rightarrow> ''on_track'' | Drifting \<Rightarrow> ''drifting'' | OffTrack \<Rightarrow> ''off_track''
      | Blocked \<Rightarrow> ''blocked'')"

definition verdict_parse :: "string \<Rightarrow> Verdict option" where
  "verdict_parse raw =
     (let t = to_ascii_lowercase (trim raw)
      in if t \<in> set [''on_track'', ''ontrack'', ''on-track''] then Some OnTrack
         else if t \<in> set [''drifting'', ''drift''] then Some Drifting
         else if t \<in> set [''off_track'', ''offtrack'', ''off-track''] then Some OffTrack
         else if t = ''blocked'' then Some Blocked
         else None)"

definition wants_correction :: "Verdict \<Rightarrow> bool" where
  "wants_correction v \<longleftrightarrow> v = Drifting \<or> v = OffTrack"

record review =
  rw_verdict :: Verdict
  rw_goal_restated :: string
  rw_gaps :: "string list"
  rw_correction :: "string option"
  rw_confidence :: "u64 option"

definition headline :: "review \<Rightarrow> string" where
  "headline r =
     verdict_label (rw_verdict r) @
     (if rw_gaps r = [] then [] else '' ('' @ join ''; '' (rw_gaps r) @ '')'')"

definition gaps_of :: "json \<Rightarrow> string list" where
  "gaps_of v =
     (case Option.bind (jget v ''gaps'') as_array of
        None \<Rightarrow> []
      | Some xs \<Rightarrow> filter (\<lambda>g. g \<noteq> []) (map trim (List.map_filter as_str xs)))"

definition parse_review ::
  "(string \<Rightarrow> json option) \<Rightarrow> (json \<Rightarrow> u64 option) \<Rightarrow> string \<Rightarrow> string + review" where
  "parse_review parse as_f64 text =
     (case extract_json text of
        None \<Rightarrow> Inl ''reviewer answered with no JSON object''
      | Some j \<Rightarrow>
          case parse j of
            None \<Rightarrow> Inl ''json''
          | Some v \<Rightarrow>
              case Option.bind (get_str v ''verdict'') verdict_parse of
                None \<Rightarrow> Inl ''reviewer answered without a usable verdict''
              | Some verdict \<Rightarrow>
                  Inr \<lparr>rw_verdict = verdict,
                       rw_goal_restated = trim (unwrap_or [] (get_str v ''goal_restated'')),
                       rw_gaps = gaps_of v,
                       rw_correction =
                         opt_filter (\<lambda>_. wants_correction verdict)
                           (opt_filter (\<lambda>t. t \<noteq> []) (map_option trim (get_str v ''correction''))),
                       rw_confidence = Option.bind (jget v ''confidence'') as_f64\<rparr>)"

section \<open>What the reviewer is shown\<close>

type_synonym turn = "char \<times> string"

definition is_instruction :: "string \<Rightarrow> bool" where
  "is_instruction s \<longleftrightarrow>
     (let words = length (split_whitespace s); question = ends_with ''?'' (trim_end s)
      in 4 \<le> words \<and> \<not> (question \<and> words < 8))"

definition speaker_of :: "char \<Rightarrow> string" where
  "speaker_of role =
     (let r = ascii_upper_char role
      in if r = CHR ''U'' then ''human'' else if r = CHR ''A'' then ''agent''
         else if r = CHR ''T'' then ''tool'' else ''other'')"

definition is_human :: "turn \<Rightarrow> bool" where
  "is_human t \<longleftrightarrow> speaker_of (fst t) = ''human'' \<and> trim (snd t) \<noteq> []"

definition human_turns :: "turn list \<Rightarrow> string list" where
  "human_turns tail = map snd (filter is_human tail)"

definition latest_human_ask :: "turn list \<Rightarrow> string option" where
  "latest_human_ask tail =
     (let humans = human_turns tail
      in or_else (find is_instruction (rev humans)) (if humans = [] then None else Some (last humans)))"

definition LINE :: char where "LINE = CHR 0x0A"

definition review_prompt :: "Family \<Rightarrow> string option \<Rightarrow> turn list \<Rightarrow> ReviewDepth \<Rightarrow> string" where
  "review_prompt under_review goal tail depth =
     (let humans = human_turns tail
      in ''Agent under review: '' @ family_label under_review @ LINE # ''Review depth: '' @ depth_label depth @
         [LINE, LINE] @
         ''Current task, the most recent instruction the human gave:'' @ [LINE] @
         (case latest_human_ask tail of
            Some a \<Rightarrow> trim a @ [LINE]
          | None \<Rightarrow> ''(no human instruction inside the readable window)'' @ [LINE]) @
         (if 1 < length humans
          then LINE # ''Latest messages from the human, oldest first (short follow-ups are context, not the task):'' @
               [LINE] @ concat (map (\<lambda>t. ''- '' @ trim t @ [LINE]) (drop (length humans - 5) humans))
          else []) @
         LINE # ''Background only, the goal this session opened with months ago:'' @ [LINE] @
         (case opt_filter (\<lambda>g. trim g \<noteq> []) goal of
            Some g \<Rightarrow> trim g @ [LINE]
          | None \<Rightarrow> ''(not recoverable from the readable part of the transcript)'' @ [LINE]) @
         LINE # ''Most recent work in that session, oldest first:'' @ [LINE] @
         concat (map (\<lambda>(role, t). ''['' @ speaker_of role @ ''] '' @ trim t @ [LINE]) tail))"

text \<open>
  The last \<open>want\<close> messages, with the latest human message and the latest instruction put in front when
  they are older.
\<close>

definition carried :: "turn list \<Rightarrow> nat \<Rightarrow> nat list" where
  "carried scanned body_from =
     (let humans = filter (\<lambda>i. is_human (scanned ! i)) [0..<length scanned];
          latest = (if humans = [] then None else Some (last humans));
          instruction = find (\<lambda>i. is_instruction (snd (scanned ! i))) (rev humans)
      in remdups_adj (sort (filter (\<lambda>i. i < body_from)
           ((case instruction of Some i \<Rightarrow> [i] | None \<Rightarrow> []) @ (case latest of Some i \<Rightarrow> [i] | None \<Rightarrow> [])))))"

definition body_with_latest_human :: "turn list \<Rightarrow> nat \<Rightarrow> turn list" where
  "body_with_latest_human scanned want =
     (let body_from = length scanned - want
      in map ((!) scanned) (carried scanned body_from) @ drop body_from scanned)"

section \<open>How often\<close>

record ReviewMark =
  rm_last_review_at :: i64
  rm_reviews_done :: u32

definition mark_default :: ReviewMark where
  "mark_default = \<lparr>rm_last_review_at = 0, rm_reviews_done = 0\<rparr>"

type_synonym review_store = "(string \<times> ReviewMark) list"

definition review_key :: "(string \<Rightarrow> string) \<Rightarrow> string \<Rightarrow> string" where
  "review_key hex sid = take 32 (hex sid)"

definition review_mark :: "(string \<Rightarrow> string) \<Rightarrow> review_store \<Rightarrow> string \<Rightarrow> ReviewMark" where
  "review_mark hex st sid = unwrap_or mark_default (map_of st (review_key hex sid))"

definition record_review :: "(string \<Rightarrow> string) \<Rightarrow> string \<Rightarrow> i64 \<Rightarrow> review_store \<Rightarrow> review_store" where
  "record_review hex sid at st =
     (let m = review_mark hex st sid; n = rm_reviews_done m
      in AList.update (review_key hex sid)
           \<lparr>rm_last_review_at = at, rm_reviews_done = (if n = - 1 then n else n + 1)\<rparr> st)"

datatype ReviewPlan = Disabled | NoReviewer | TooSoon | BudgetSpent | Run

definition plan_review ::
  "review_rules \<Rightarrow> Family \<Rightarrow> u32 \<Rightarrow> i64 option \<Rightarrow> i64 \<Rightarrow> ReviewPlan" where
  "plan_review rules under_review reviews_done last_review_at now =
     (if \<not> rv_enabled rules then Disabled
      else if reviewer_ids under_review rules = [] then NoReviewer
      else if rv_max_per_session rules \<le> reviews_done then BudgetSpent
      else case last_review_at of
             Some l \<Rightarrow> if now - l < rv_every_secs rules then TooSoon else Run
           | None \<Rightarrow> Run)"

text \<open>
  One attempt: the plan, and the note that is made before the review is started; when it cannot be
  written, no review is started.
\<close>

record review_try =
  rt_session :: string
  rt_family :: Family
  rt_rules :: review_rules
  rt_now :: i64
  rt_write_ok :: bool

definition review_due :: "(string \<Rightarrow> string) \<Rightarrow> review_try \<Rightarrow> review_store \<Rightarrow> ReviewPlan" where
  "review_due hex e st =
     (let m = review_mark hex st (rt_session e)
      in plan_review (rt_rules e) (rt_family e) (rm_reviews_done m)
           (if 0 < rm_last_review_at m then Some (rm_last_review_at m) else None) (rt_now e))"

definition take_review :: "(string \<Rightarrow> string) \<Rightarrow> review_try \<Rightarrow> review_store \<Rightarrow> bool \<times> review_store" where
  "take_review hex e st =
     (if review_due hex e st = Run \<and> rt_write_ok e then (True, record_review hex (rt_session e) (rt_now e) st)
      else (False, st))"

definition ask_reviewer ::
  "pool_env \<Rightarrow> (string \<Rightarrow> json option) \<Rightarrow> (json \<Rightarrow> u64 option) \<Rightarrow> providers \<Rightarrow> probes \<Rightarrow> i64 \<Rightarrow> pool \<Rightarrow>
   (string + Backend \<times> review) \<times> pool_effect list \<times> pool" where
  "ask_reviewer E parse as_f64 providers pb now p =
     (if pv_enabled providers = [] then (Inl ''no reviewer left after excluding the family under review'', [], p)
      else let (res, fx, p') = improve E providers (discover_all pb) now p
           in ((case res of
                  Inl m \<Rightarrow> Inl m
                | Inr (b, t) \<Rightarrow> (case parse_review parse as_f64 t of Inl m \<Rightarrow> Inl m | Inr r \<Rightarrow> Inr (b, r))),
               fx, p'))"

section \<open>The window keeps the task\<close>

lemma find_append [simp]: "find P (xs @ ys) = or_else (find P xs) (find P ys)"
  by (induction xs) simp_all

lemma find_map_option: "find P (map f xs) = map_option f (find (P \<circ> f) xs)"
  by (induction xs) simp_all

lemma find_rev_None: "find P (rev xs) = None \<Longrightarrow> x \<in> set xs \<Longrightarrow> \<not> P x"
  by (metis find_None_iff set_rev)

lemma find_rev_Some: "find P (rev xs) = Some x \<Longrightarrow> P x \<and> x \<in> set xs"
  by (metis find_Some_iff nth_mem set_rev)

definition ask_index :: "(nat \<Rightarrow> bool) \<Rightarrow> nat list \<Rightarrow> nat option" where
  "ask_index J hs = or_else (find J (rev hs)) (if hs = [] then None else Some (last hs))"

definition carry :: "(nat \<Rightarrow> bool) \<Rightarrow> nat \<Rightarrow> nat list \<Rightarrow> nat list" where
  "carry J bf hs =
     remdups_adj (sort (filter (\<lambda>i. i < bf)
       ((case find J (rev hs) of Some i \<Rightarrow> [i] | None \<Rightarrow> []) @
        (case if hs = [] then None else Some (last hs) of Some i \<Rightarrow> [i] | None \<Rightarrow> []))))"

lemma carry_subset: "set (carry J bf hs) \<subseteq> set hs"
  by (cases "find J (rev hs)"; cases "hs = []") (auto simp: carry_def dest: find_rev_Some)

lemma length_remdups_adj_le: "length (remdups_adj xs) \<le> length xs"
  by (induction xs rule: remdups_adj.induct) auto

lemma carry_length: "length (carry J bf hs) \<le> 2"
proof -
  let ?xs = "(case find J (rev hs) of Some i \<Rightarrow> [i] | None \<Rightarrow> []) @
    (case if hs = [] then None else Some (last hs) of Some i \<Rightarrow> [i] | None \<Rightarrow> [])"
  have "length (carry J bf hs) \<le> length (filter (\<lambda>i. i < bf) ?xs)"
    unfolding carry_def using length_remdups_adj_le [of "sort (filter (\<lambda>i. i < bf) ?xs)"] by simp
  also have "\<dots> \<le> length ?xs" by (rule length_filter_le)
  also have "\<dots> \<le> 2" by (simp split: option.split)
  finally show ?thesis .
qed

lemma sorted_le_last: "sorted xs \<Longrightarrow> x \<in> set xs \<Longrightarrow> x \<le> last xs"
  by (induction xs) auto

lemma carry_keeps_ask:
  assumes "\<forall>i \<in> set ls. i < bf" "\<forall>i \<in> set us. bf \<le> i" "sorted ls"
  shows "ask_index J (carry J bf (ls @ us) @ us) = ask_index J (ls @ us)"
proof (cases "find J (rev us)")
  case (Some x)
  then show ?thesis by (simp add: ask_index_def)
next
  case None
  show ?thesis
  proof (cases "us = []")
    case False
    then have "bf \<le> last us" using assms(2) by simp
    then have "\<not> last us < bf" by simp
    moreover have "i < bf" if "find J (rev ls) = Some i" for i using find_rev_Some [OF that] assms(1) by blast
    ultimately have "carry J bf (ls @ us) = (case find J (rev ls) of Some i \<Rightarrow> [i] | None \<Rightarrow> [])"
      using False None by (auto simp: carry_def split: option.split)
    then show ?thesis using None False find_rev_Some [of J ls]
      by (cases "find J (rev ls)") (auto simp: ask_index_def)
  next
    case us: True
    show ?thesis
    proof (cases "ls = []")
      case True
      with us show ?thesis by (simp add: carry_def)
    next
      case False
      then have lt: "last ls < bf" using assms(1) by simp
      show ?thesis
      proof (cases "find J (rev ls)")
        case None
        from find_rev_None [OF None last_in_set [OF False]] have "\<not> J (last ls)" .
        with None us False lt show ?thesis by (simp add: carry_def ask_index_def)
      next
        case (Some i)
        have i: "J i" "i \<in> set ls" using find_rev_Some [OF Some] by auto
        have "find J (rev ls) = (if J (last ls) then Some (last ls) else find J (rev (butlast ls)))"
          using False by (cases ls rule: rev_cases) simp_all
        then have "i = last ls \<or> \<not> J (last ls)" using Some by (auto split: if_splits)
        moreover have "i \<le> last ls" by (rule sorted_le_last [OF assms(3) i(2)])
        moreover have "i < bf" using i(2) assms(1) by blast
        ultimately show ?thesis using Some us False lt i(1)
          by (auto simp: carry_def ask_index_def)
      qed
    qed
  qed
qed

lemma human_indices:
  "human_turns xs = map (\<lambda>i. snd (xs ! i)) (filter (\<lambda>i. is_human (xs ! i)) [0..<length xs])"
proof -
  have "filter is_human xs = filter is_human (map ((!) xs) [0..<length xs])" by (simp add: map_nth)
  then show ?thesis by (simp add: human_turns_def filter_map comp_def)
qed

lemma latest_ask_map:
  assumes "human_turns xs = map T hs"
  shows "latest_human_ask xs = map_option T (ask_index (\<lambda>i. is_instruction (T i)) hs)"
  unfolding latest_human_ask_def assms Let_def
  by (cases "find (\<lambda>i. is_instruction (T i)) (rev hs)")
     (auto simp: ask_index_def rev_map find_map_option comp_def last_map)

section \<open>Properties\<close>

text \<open>
  Cutting the transcript never loses the task: what is shown to the reviewer ends with the last
  \<open>want\<close> messages, holds at most two more, and the instruction found in it, or the last human message
  where there is none, is the one found in the whole transcript.
\<close>

theorem task_survives_window:
  "latest_human_ask (body_with_latest_human scanned want) = latest_human_ask scanned \<and>
   length (body_with_latest_human scanned want) \<le> want + 2 \<and>
   (\<exists>front. body_with_latest_human scanned want = front @ drop (length scanned - want) scanned)"
proof -
  let ?bf = "length scanned - want"
  let ?P = "\<lambda>i. is_human (scanned ! i)" and ?T = "\<lambda>i. snd (scanned ! i)"
  let ?J = "\<lambda>i. is_instruction (snd (scanned ! i))"
  define ls where "ls = filter ?P [0..<?bf]"
  define us where "us = filter ?P [?bf..<length scanned]"
  have "[0..<length scanned] = [0..<?bf] @ [?bf..<length scanned]"
    using upt_add_eq_append [of 0 ?bf "length scanned - ?bf"] by simp
  then have hs: "filter ?P [0..<length scanned] = ls @ us" by (simp add: ls_def us_def)
  have carried: "carried scanned ?bf = carry ?J ?bf (ls @ us)"
    by (simp add: carried_def carry_def hs Let_def)
  have sub: "set (carry ?J ?bf (ls @ us)) \<subseteq> set (ls @ us)"
    by (rule carry_subset)
  have humans: "\<forall>i \<in> set (ls @ us). ?P i" by (auto simp: ls_def us_def)
  let ?body = "body_with_latest_human scanned want"
  have rest: "human_turns (drop ?bf scanned) = map ?T us"
  proof -
    have "drop ?bf scanned = map ((!) scanned) [?bf..<length scanned]"
      by (simp add: map_nth flip: drop_map [of ?bf _ "[0..<length scanned]", simplified])
    then show ?thesis by (simp add: human_turns_def filter_map comp_def us_def)
  qed
  have front: "human_turns (map ((!) scanned) (carry ?J ?bf (ls @ us))) = map ?T (carry ?J ?bf (ls @ us))"
  proof -
    have "filter is_human (map ((!) scanned) (carry ?J ?bf (ls @ us))) = map ((!) scanned) (carry ?J ?bf (ls @ us))"
      using sub humans by (intro filter_True) auto
    then show ?thesis by (simp add: human_turns_def)
  qed
  have all: "human_turns ?body = map ?T (carry ?J ?bf (ls @ us) @ us)"
    using rest front by (simp add: body_with_latest_human_def carried Let_def human_turns_def)
  have "latest_human_ask ?body = map_option ?T (ask_index ?J (carry ?J ?bf (ls @ us) @ us))"
    by (rule latest_ask_map [OF all])
  also have "\<dots> = map_option ?T (ask_index ?J (ls @ us))"
  proof -
    have "sorted ls" unfolding ls_def by (rule sorted_wrt_filter) simp
    then show ?thesis by (subst carry_keeps_ask) (auto simp: ls_def us_def)
  qed
  also have "\<dots> = latest_human_ask scanned"
    using latest_ask_map [OF human_indices, of scanned] by (simp add: hs)
  finally have same: "latest_human_ask ?body = latest_human_ask scanned" .
  have "length (carry ?J ?bf (ls @ us)) \<le> 2" by (rule carry_length)
  then have "length ?body \<le> want + 2" by (simp add: body_with_latest_human_def carried Let_def)
  with same show ?thesis by (auto simp: body_with_latest_human_def Let_def)
qed

text \<open>
  A review steers only what has left its task: an answer that is read as a review has a verdict, and
  carries a correction, never an empty one, only when the verdict is drifting or off track.
\<close>

theorem correction_only_when_off_task:
  assumes "parse_review parse as_f64 t = Inr r"
  shows "(\<exists>j v s. extract_json t = Some j \<and> parse j = Some v \<and> get_str v ''verdict'' = Some s \<and>
      verdict_parse s = Some (rw_verdict r)) \<and>
    (\<forall>c. rw_correction r = Some c \<longrightarrow> c \<noteq> [] \<and> (rw_verdict r = Drifting \<or> rw_verdict r = OffTrack)) \<and>
    [] \<notin> set (rw_gaps r)"
  using assms
  by (auto simp: parse_review_def gaps_of_def opt_filter_eq_Some wants_correction_def
      split: option.splits bind_splits)

text \<open>
  No family grades itself: with the cross-family rule on, whatever reviewer the operator picks, none
  of the providers asked for a review of a family is that family's own, and all are known.
\<close>

theorem own_family_never_reviews:
  assumes "rv_cross_family_only rules"
  shows "\<forall>i \<in> set (pv_enabled (chosen_reviewers f rules shared pick)). i \<noteq> compact_backend f \<and> backend_of i \<noteq> None"
  using assms
  by (auto simp: chosen_reviewers_def reviewer_providers_def reviewer_ids_def Let_def split: option.splits)

text \<open>The reviews of a session in a run of attempts, by their times.\<close>

fun review_times :: "(string \<Rightarrow> string) \<Rightarrow> string \<Rightarrow> review_try list \<Rightarrow> review_store \<Rightarrow> i64 list" where
  "review_times hex key [] st = []"
| "review_times hex key (e # es) st =
     (let (go, st') = take_review hex e st
      in (if go \<and> review_key hex (rt_session e) = key then [rt_now e] else []) @ review_times hex key es st')"

definition marked_at :: "string \<Rightarrow> review_store \<Rightarrow> ReviewMark" where
  "marked_at key st = unwrap_or mark_default (map_of st key)"

lemma review_times_spec:
  assumes "list_all (\<lambda>e. review_key hex (rt_session e) = key \<longrightarrow>
      0 < rt_now e \<and> d \<le> rv_every_secs (rt_rules e) \<and> unat (rv_max_per_session (rt_rules e)) \<le> mx) es"
    and "unat (rm_reviews_done (marked_at key st)) \<le> mx"
  shows "length (review_times hex key es st) \<le> mx - unat (rm_reviews_done (marked_at key st)) \<and>
    successively (\<lambda>a b. a + d \<le> b)
      ((if 0 < rm_last_review_at (marked_at key st) then [rm_last_review_at (marked_at key st)] else []) @
       review_times hex key es st)"
  using assms
proof (induction es arbitrary: st)
  case (Cons e es)
  let ?m = "marked_at key st"
  obtain go st' where t: "take_review hex e st = (go, st')" by fastforce
  show ?case
  proof (cases "go \<and> review_key hex (rt_session e) = key")
    case True
    then have run: "review_due hex e st = Run" and st': "st' = record_review hex (rt_session e) (rt_now e) st"
      using t by (auto simp: take_review_def split: if_splits)
    have less: "unat (rm_reviews_done ?m) < unat (rv_max_per_session (rt_rules e))"
      and gap: "0 < rm_last_review_at ?m \<Longrightarrow> rm_last_review_at ?m + d \<le> rt_now e"
      using run True Cons.prems(1)
      by (auto simp: review_due_def plan_review_def review_mark_def marked_at_def Let_def word_le_nat_alt split: if_splits)
    have "unat (rv_max_per_session (rt_rules e)) < 2 ^ 32"
      using unsigned_less [of "rv_max_per_session (rt_rules e)"] by simp
    then have "unat (rm_reviews_done ?m) + 1 < 2 ^ 32" using less by linarith
    then have n: "unat (rm_reviews_done ?m + 1) = unat (rm_reviews_done ?m) + 1" by (simp add: unat_word_ariths)
    then have "rm_reviews_done ?m \<noteq> - 1" by auto
    then have m': "marked_at key st' = \<lparr>rm_last_review_at = rt_now e, rm_reviews_done = rm_reviews_done ?m + 1\<rparr>"
      using True by (simp add: st' record_review_def marked_at_def review_mark_def Let_def update_conv')
    have le: "unat (rm_reviews_done (marked_at key st')) \<le> mx"
      using less Cons.prems(1) True n by (simp add: m')
    have "list_all (\<lambda>e. review_key hex (rt_session e) = key \<longrightarrow>
      0 < rt_now e \<and> d \<le> rv_every_secs (rt_rules e) \<and> unat (rv_max_per_session (rt_rules e)) \<le> mx) es"
      using Cons.prems(1) by simp
    from Cons.IH [OF this le] gap less n True Cons.prems show ?thesis
      by (auto simp: t m' successively_Cons)
  next
    case False
    have m: "marked_at key st' = ?m"
      using t False by (auto simp: take_review_def record_review_def marked_at_def Let_def update_conv' split: if_splits)
    have r: "review_times hex key (e # es) st = review_times hex key es st'" using False t by auto
    show ?thesis unfolding r m [symmetric]
      by (rule Cons.IH) (use Cons.prems m in simp_all)
  qed
qed simp


definition demo_try :: "i64 \<Rightarrow> review_try" where
  "demo_try now = \<lparr>rt_session = ''s'', rt_family = Claude, rt_rules = review_default\<lparr>rv_enabled := True\<rparr>,
     rt_now = now, rt_write_ok = True\<rparr>"


theorem own_family_never_reviews_witness:
  "''claude-cli'' \<notin> set (pv_enabled (chosen_reviewers Claude review_default providers_default (Some ''claude-cli'')))"
  using own_family_never_reviews [of review_default Claude providers_default "Some ''claude-cli''"]
  by (auto simp: review_default_def compact_backend_def)

theorem correction_only_when_off_task_witness:
  "\<exists>r. parse_review (\<lambda>j. Some (JObject [(''verdict'', JString ''drift''), (''correction'', JString ''go'')]))
     (\<lambda>v. None) ''{}'' = Inr r \<and> rw_verdict r = Drifting"
proof -
  let ?p = "\<lambda>j. Some (JObject [(''verdict'', JString ''drift''), (''correction'', JString ''go'')])"
  have e: "extract_json ''{}'' = Some ''{}''" by (simp add: extract_json_def)
  have d: "verdict_parse ''drift'' = Some Drifting" by code_simp
  obtain r where r: "parse_review ?p (\<lambda>v. None) ''{}'' = Inr r"
    by (simp add: parse_review_def e d jget_def get_str_def as_str_def)
  from correction_only_when_off_task [OF r] d have "rw_verdict r = Drifting"
    by (auto simp: get_str_def jget_def as_str_def)
  with r show ?thesis by blast
qed

end
