(* ===== verification/Rust_Float.thy ===== *)
theory Rust_Float
  imports Complex_Main Rust_Data
begin

text \<open>
  The type \<open>f32\<close> of Rust as far as the compass uses it on counts and shares: a finite value is the
  rational number it stands for, and an operation rounds the exact result to 24 significant bits, ties
  to even. The values here lie between \<open>2\<^sup>-\<^sup>6\<^sup>4\<close> and \<open>2\<^sup>6\<^sup>4\<close>, so underflow and overflow do not
  occur and are left out. A float that is read from outside is \<open>None\<close> when it is not finite.
\<close>

type_synonym f32 = "rat option"

text \<open>The exponent of a positive rational number: \<open>2\<^sup>e \<le> q < 2\<^sup>e\<^sup>+\<^sup>1\<close>.\<close>

definition bit_length :: "nat \<Rightarrow> nat" where
  "bit_length n = length (takeWhile (\<lambda>k. 2 ^ k \<le> n) [0..<Suc n])"

definition f32_exponent :: "rat \<Rightarrow> int" where
  "f32_exponent q =
     (let (n, d) = quotient_of q; e = int (bit_length (nat n)) - int (bit_length (nat d))
      in if q < 2 powi e then e - 1 else e)"

definition round_half_even :: "rat \<Rightarrow> int" where
  "round_half_even q =
     (let f = \<lfloor>q\<rfloor>; r = q - of_int f
      in if r < 1 / 2 \<or> r = 1 / 2 \<and> even f then f else f + 1)"

definition f32_round :: "rat \<Rightarrow> rat" where
  "f32_round q =
     (if q \<le> 0 then 0
      else let s = 2 powi (f32_exponent q - 23) in of_int (round_half_even (q / s)) * s)"

definition f32_of_nat :: "nat \<Rightarrow> rat" where
  "f32_of_nat n = f32_round (of_nat n)"

definition f32_div :: "rat \<Rightarrow> rat \<Rightarrow> rat" where
  "f32_div a b = f32_round (a / b)"

definition f32_sum :: "rat list \<Rightarrow> rat" where
  "f32_sum xs = foldl (\<lambda>a x. f32_round (a + x)) 0 xs"

text \<open>\<open>is_finite\<close> and at least a bound.\<close>

definition f32_reaches :: "f32 \<Rightarrow> rat \<Rightarrow> bool" where
  "f32_reaches p c = (case p of None \<Rightarrow> False | Some q \<Rightarrow> c \<le> q)"

definition f32_clamp :: "rat \<Rightarrow> rat \<Rightarrow> rat \<Rightarrow> rat" where
  "f32_clamp lo hi q = (if q < lo then lo else if hi < q then hi else q)"

section \<open>Rounding\<close>

lemma bit_length_bounds:
  assumes "0 < n"
  shows "2 ^ (bit_length n - 1) \<le> n \<and> n < 2 ^ bit_length n \<and> 0 < bit_length n"
proof -
  let ?P = "\<lambda>k. 2 ^ k \<le> n"
  let ?xs = "[0..<Suc n]"
  define m where "m = bit_length n"
  have lt: "m < Suc n"
  proof (rule ccontr)
    assume "\<not> m < Suc n"
    then have "length (takeWhile ?P ?xs) = length ?xs"
      using length_takeWhile_le [of ?P ?xs] by (simp add: m_def bit_length_def)
    then have "takeWhile ?P ?xs = ?xs" by (metis takeWhile_eq_take take_all order_refl)
    then have "\<forall>k \<in> set ?xs. ?P k" by (metis takeWhile_eq_all_conv)
    then have "2 ^ n \<le> n" by simp
    then show False using less_exp [of n] by simp
  qed
  have "\<not> ?P (?xs ! m)"
    unfolding m_def bit_length_def
    by (rule nth_length_takeWhile) (use lt in \<open>simp add: m_def bit_length_def\<close>)
  then have up: "n < 2 ^ m" using lt by (simp del: upt_Suc)
  have low: "2 ^ k \<le> n" if "k < m" for k
  proof -
    have "?P (?xs ! k)" using that nth_mem [of k "takeWhile ?P ?xs"]
      by (metis bit_length_def m_def set_takeWhileD takeWhile_nth)
    then show ?thesis using that lt by (simp del: upt_Suc)
  qed
  have "0 < m" using up assms by (cases m) auto
  with low [of "m - 1"] up show ?thesis by (simp add: m_def)
qed

lemma f32_exponent_bounds:
  assumes "0 < q"
  shows "2 powi f32_exponent q \<le> q \<and> q < 2 powi (f32_exponent q + 1)"
proof -
  obtain n d where nd: "quotient_of q = (n, d)" by fastforce
  have d: "0 < d" and q: "q = of_int n / of_int d"
    using quotient_of_denom_pos [OF nd] quotient_of_div [OF nd] by auto
  have n: "0 < n" using assms d by (simp add: q zero_less_divide_iff)
  let ?a = "bit_length (nat n)" and ?b = "bit_length (nat d)"
  have A: "2 ^ (?a - 1) \<le> nat n" "nat n < 2 ^ ?a" "0 < ?a" using bit_length_bounds [of "nat n"] n by auto
  have B: "2 ^ (?b - 1) \<le> nat d" "nat d < 2 ^ ?b" "0 < ?b" using bit_length_bounds [of "nat d"] d by auto
  have rn: "of_int n = (of_nat (nat n) :: rat)" and rd: "of_int d = (of_nat (nat d) :: rat)"
    using n d by simp_all
  have nU: "of_int n < (2 :: rat) powi int ?a" and nL: "(2 :: rat) powi (int ?a - 1) \<le> of_int n"
  proof -
    have "of_nat (nat n) < (of_nat (2 ^ ?a) :: rat)" using A(2) by (simp only: of_nat_less_iff)
    then show "of_int n < (2 :: rat) powi int ?a" unfolding rn by (simp add: power_int_of_nat)
    have "(of_nat (2 ^ (?a - 1)) :: rat) \<le> of_nat (nat n)" using A(1) by (simp only: of_nat_le_iff)
    moreover have "int ?a - 1 = int (?a - 1)" using A(3) by simp
    ultimately show "(2 :: rat) powi (int ?a - 1) \<le> of_int n" unfolding rn by (simp only: power_int_of_nat) simp
  qed
  have dU: "of_int d < (2 :: rat) powi int ?b" and dL: "(2 :: rat) powi (int ?b - 1) \<le> of_int d"
  proof -
    have "of_nat (nat d) < (of_nat (2 ^ ?b) :: rat)" using B(2) by (simp only: of_nat_less_iff)
    then show "of_int d < (2 :: rat) powi int ?b" unfolding rd by (simp add: power_int_of_nat)
    have "(of_nat (2 ^ (?b - 1)) :: rat) \<le> of_nat (nat d)" using B(1) by (simp only: of_nat_le_iff)
    moreover have "int ?b - 1 = int (?b - 1)" using B(3) by simp
    ultimately show "(2 :: rat) powi (int ?b - 1) \<le> of_int d" unfolding rd by (simp only: power_int_of_nat) simp
  qed
  define e where "e = int ?a - int ?b"
  have pos: "(0 :: rat) < 2 powi k" for k :: int by simp
  have dpos: "(0 :: rat) < of_int d" using d by simp
  have hi: "q < 2 powi (e + 1)"
  proof -
    have "of_int n < (2 :: rat) powi (e + 1) * 2 powi (int ?b - 1)"
      using nU by (simp add: e_def flip: power_int_add)
    also have "\<dots> \<le> 2 powi (e + 1) * of_int d" using dL pos [of "e + 1"] by simp
    finally show ?thesis using dpos by (simp add: q divide_less_eq)
  qed
  have lo: "2 powi (e - 1) \<le> q"
  proof -
    have "(2 :: rat) powi (e - 1) * of_int d \<le> 2 powi (e - 1) * 2 powi int ?b"
      using dU pos [of "e - 1"] by simp
    also have "\<dots> = 2 powi (e - 1 + int ?b)" by (rule power_int_add [symmetric]) simp
    also have "\<dots> = 2 powi (int ?a - 1)" by (simp only: e_def) (simp add: algebra_simps)
    also have "\<dots> \<le> of_int n" by (rule nL)
    finally show ?thesis using dpos by (simp add: q le_divide_eq)
  qed
  have "f32_exponent q = (if q < 2 powi e then e - 1 else e)"
    by (simp add: f32_exponent_def nd e_def Let_def)
  with hi lo show ?thesis by auto
qed

lemma round_half_even_int [simp]: "round_half_even (of_int i) = i"
  by (simp add: round_half_even_def Let_def)

lemma round_half_even_below:
  assumes "q \<le> of_int i - 1"
  shows "round_half_even q < i"
proof -
  have "\<lfloor>q\<rfloor> \<le> i - 1" using floor_mono [OF assms] by simp
  moreover have "q = of_int (i - 1)" if "\<lfloor>q\<rfloor> = i - 1"
    using assms of_int_floor_le [of q] that by simp
  ultimately show ?thesis by (cases "\<lfloor>q\<rfloor> = i - 1") (auto simp: round_half_even_def Let_def)
qed

lemma powi_mono: "a \<le> b \<Longrightarrow> (2 :: rat) powi a \<le> 2 powi b"
  by (rule power_int_increasing) simp_all

lemma powi_mono_iff: "(2 :: rat) powi a < 2 powi b \<longleftrightarrow> a < b"
  using powi_mono [of b a] power_int_strict_increasing [of a b "2 :: rat"] by (auto simp: not_le [symmetric])

lemma f32_of_nat_exact:
  assumes "n \<le> 2 ^ 24"
  shows "f32_of_nat n = of_nat n"
proof (cases "n = 0")
  case True
  then show ?thesis by (simp add: f32_of_nat_def f32_round_def)
next
  case False
  then have pos: "(0 :: rat) < of_nat n" by simp
  let ?e = "f32_exponent (of_nat n)"
  have lo: "2 powi ?e \<le> (of_nat n :: rat)" using f32_exponent_bounds [OF pos] by simp
  have up: "(of_nat n :: rat) \<le> 2 powi 24"
  proof -
    have "(of_nat n :: rat) \<le> of_nat (2 ^ 24)" using assms by (simp only: of_nat_le_iff)
    then show ?thesis by simp
  qed
  have ex: "\<exists>i. of_nat n / 2 powi (?e - 23) = (of_int i :: rat)"
  proof (cases "?e \<le> 23")
    case True
    have "of_nat n / 2 powi (?e - 23) = (of_nat n :: rat) * 2 powi (23 - ?e)"
      by (simp add: power_int_diff field_simps)
    also have "\<dots> = of_nat n * 2 ^ nat (23 - ?e)" using True power_int_of_nat [of "2 :: rat" "nat (23 - ?e)"] by simp
    also have "\<dots> = of_int (int n * 2 ^ nat (23 - ?e))" by simp
    finally show ?thesis by blast
  next
    case False
    then have "(2 :: rat) powi 24 \<le> 2 powi ?e" by (intro powi_mono) simp
    then have n: "(of_nat n :: rat) = 2 powi 24" and e: "2 powi ?e = (2 :: rat) powi 24" using lo up by linarith+
    then have "?e = 24" using powi_mono_iff [of ?e 24] powi_mono_iff [of 24 ?e] by linarith
    then have "of_nat n / 2 powi (?e - 23) = (of_int (2 ^ 23) :: rat)" by (simp add: n)
    then show ?thesis by blast
  qed
  then obtain i where i: "of_nat n / 2 powi (?e - 23) = (of_int i :: rat)" by blast
  have "f32_round (of_nat n) = of_int i * 2 powi (?e - 23)"
    using False i by (simp add: f32_round_def Let_def)
  also have "\<dots> = of_nat n" by (simp flip: i)
  finally show ?thesis by (simp add: f32_of_nat_def)
qed

text \<open>A share of counts below \<open>2\<^sup>2\<^sup>4\<close> rounds to one only when it is one.\<close>

lemma f32_div_one:
  assumes "c \<le> t" "0 < t" "t \<le> 2 ^ 24"
  shows "f32_div (of_nat c) (of_nat t) = 1 \<longleftrightarrow> c = t"
proof
  assume "c = t"
  then have "f32_div (of_nat c) (of_nat t) = f32_of_nat 1" using assms(2) by (simp add: f32_div_def f32_of_nat_def)
  then show "f32_div (of_nat c) (of_nat t) = 1" using f32_of_nat_exact [of 1] by simp
next
  assume one: "f32_div (of_nat c) (of_nat t) = 1"
  let ?q = "of_nat c / of_nat t :: rat" and ?e = "f32_exponent (of_nat c / of_nat t)"
  show "c = t"
  proof (rule ccontr)
    assume "c \<noteq> t"
    then have ct: "c + 1 \<le> t" using assms(1) by simp
    have pos: "0 < ?q" using one by (auto simp: f32_div_def f32_round_def split: if_splits)
    have q1: "?q < 1" using ct assms(2) by (simp add: divide_less_eq)
    have "2 powi ?e \<le> ?q" and qe: "?q < 2 powi (?e + 1)" using f32_exponent_bounds [OF pos] by auto
    then have "2 powi ?e < (2 :: rat) powi 0" using q1 by simp
    then have e: "?e \<le> - 1" using powi_mono_iff [of ?e 0] by linarith
    let ?s = "(2 :: rat) powi (?e - 23)" and ?r = "round_half_even (?q / 2 powi (?e - 23))"
    have r: "of_int ?r * ?s = 1" using one pos by (simp add: f32_div_def f32_round_def Let_def)
    have s: "?s * 2 powi (23 - ?e) = 1" by (simp flip: power_int_add)
    have "0 < ?s" by simp
    then have rv: "(of_int ?r :: rat) = 2 powi (23 - ?e)" using r s by (metis mult.commute mult_right_cancel less_irrefl)
    have "?q / ?s \<le> of_int (2 ^ 24) - 1"
    proof (cases "?e = - 1")
      case True
      have "?q \<le> (of_nat t - 1) / of_nat t"
      proof (rule divide_right_mono)
        have "of_nat (c + 1) \<le> (of_nat t :: rat)" using ct by (simp only: of_nat_le_iff)
        then show "of_nat c \<le> (of_nat t - 1 :: rat)" by simp
      qed simp
      also have "\<dots> = 1 - 1 / of_nat t" using assms(2) by (simp add: diff_divide_distrib)
      also have "\<dots> \<le> 1 - 1 / 2 ^ 24"
      proof -
        have "(of_nat t :: rat) \<le> of_nat (2 ^ 24)" using assms(3) by (simp only: of_nat_le_iff)
        then have "1 / 2 ^ 24 \<le> 1 / (of_nat t :: rat)" using assms(2) by (intro divide_left_mono) simp_all
        then show ?thesis by simp
      qed
      finally have "?q * 2 ^ 24 \<le> (1 - 1 / 2 ^ 24) * 2 ^ 24" by (rule mult_right_mono) simp
      moreover have "?q / ?s = ?q * 2 ^ 24" using True by (simp add: power_int_def field_simps)
      ultimately show ?thesis by simp
    next
      case False
      then have "?e \<le> - 2" using e by simp
      then have "(2 :: rat) powi (25 :: int) \<le> 2 powi (23 - ?e)" by (intro powi_mono) simp
      then have "(2 :: rat) powi 25 \<le> of_int ?r" by (simp only: rv)
      moreover have "(of_int ?r :: rat) \<le> 2 powi 24"
      proof -
        have "?q / ?s < 2 powi (?e + 1) / ?s" using qe by (intro divide_strict_right_mono) simp_all
        also have "\<dots> = 2 powi 24" by (simp flip: power_int_diff)
        finally have "?q / ?s < of_int (2 ^ 24)" by simp
        then have "\<lfloor>?q / ?s\<rfloor> < 2 ^ 24" using floor_less_iff by blast
        then have "?r \<le> 2 ^ 24" by (auto simp: round_half_even_def Let_def)
        then have "(of_int ?r :: rat) \<le> of_int (2 ^ 24)" by (simp only: of_int_le_iff)
        then show ?thesis by simp
      qed
      ultimately have "(2 :: rat) powi 25 \<le> 2 powi 24" by (rule order_trans)
      then show ?thesis by simp
    qed
    then have "?r < 2 ^ 24" by (rule round_half_even_below)
    then have "(of_int ?r :: rat) < of_int (2 ^ 24)" by (simp only: of_int_less_iff)
    then have "(of_int ?r :: rat) < 2 powi 24" by simp
    moreover have "(2 :: rat) powi 24 \<le> of_int ?r" unfolding rv using e by (intro powi_mono) simp
    ultimately show False by linarith
  qed
qed

text \<open>Scaling by a power of two commutes with rounding.\<close>

lemma f32_exponent_unique:
  assumes "2 powi e \<le> q" "q < 2 powi (e + 1)"
  shows "f32_exponent q = e"
proof -
  have "0 < q" using assms(1) by (rule less_le_trans [rotated]) simp
  then have b: "2 powi f32_exponent q \<le> q" "q < 2 powi (f32_exponent q + 1)"
    using f32_exponent_bounds by auto
  have "(2 :: rat) powi e < 2 powi (f32_exponent q + 1)" using assms(1) b(2) by linarith
  moreover have "(2 :: rat) powi f32_exponent q < 2 powi (e + 1)" using assms(2) b(1) by linarith
  ultimately show ?thesis unfolding powi_mono_iff by linarith
qed

lemma f32_round_scale: "f32_round (q * 2 powi j) = f32_round q * 2 powi j"
proof (cases "q \<le> 0")
  case True
  then show ?thesis by (simp add: f32_round_def mult_nonpos_nonneg)
next
  case False
  then have q: "0 < q" by simp
  let ?e = "f32_exponent q"
  have "f32_exponent (q * 2 powi j) = ?e + j"
  proof (rule f32_exponent_unique)
    show "2 powi (?e + j) \<le> q * 2 powi j"
      using f32_exponent_bounds [OF q] by (simp add: power_int_add)
    have "q * 2 powi j < 2 powi (?e + 1) * 2 powi j" using f32_exponent_bounds [OF q] by simp
    also have "\<dots> = 2 powi (?e + j + 1)" by (simp add: power_int_add)
    finally show "q * 2 powi j < 2 powi (?e + j + 1)" .
  qed
  moreover have "\<not> q * 2 powi j \<le> 0" using q by (simp add: not_le)
  moreover have "(2 :: rat) powi (?e + j - 23) = 2 powi (?e - 23) * 2 powi j"
    by (simp add: power_int_diff power_int_add)
  ultimately show ?thesis using False by (simp add: f32_round_def Let_def)
qed

lemma f32_quarter_exact:
  assumes "n \<le> 2 ^ 24"
  shows "f32_round (of_nat n / 4) = of_nat n / 4"
proof -
  have q: "of_nat n / 4 = (of_nat n :: rat) * 2 powi (- 2)" by (simp add: power_int_minus)
  show ?thesis unfolding q f32_round_scale using f32_of_nat_exact [OF assms] by (simp add: f32_of_nat_def)
qed

lemma f32_round_le_one:
  assumes "q \<le> 1"
  shows "f32_round q \<le> 1"
proof (cases "0 < q \<and> q < 1")
  case True
  let ?e = "f32_exponent q" and ?s = "(2 :: rat) powi (f32_exponent q - 23)"
  have b: "2 powi ?e \<le> q" "q < 2 powi (?e + 1)" using f32_exponent_bounds True by auto
  then have "(2 :: rat) powi ?e < 2 powi 0" using True by simp
  then have e: "?e + 1 \<le> 0" unfolding powi_mono_iff by simp
  have "q / ?s < 2 powi (?e + 1) / ?s" using b(2) by (intro divide_strict_right_mono) simp_all
  also have "\<dots> = of_int (2 ^ 24)" by (simp flip: power_int_diff)
  finally have "\<lfloor>q / ?s\<rfloor> < 2 ^ 24" using floor_less_iff by blast
  then have "round_half_even (q / ?s) \<le> 2 ^ 24" by (auto simp: round_half_even_def Let_def)
  then have "(of_int (round_half_even (q / ?s)) :: rat) \<le> of_int (2 ^ 24)" by (simp only: of_int_le_iff)
  then have "f32_round q \<le> of_int (2 ^ 24) * ?s" using True by (simp add: f32_round_def Let_def)
  also have "\<dots> = 2 powi 24 * ?s" by simp
  also have "\<dots> = 2 powi (24 + (?e - 23))" by (rule power_int_add [symmetric]) simp
  also have "\<dots> \<le> 2 powi 0" by (rule powi_mono) (use e in simp)
  finally show ?thesis by simp
next
  case False
  then have "q \<le> 0 \<or> q = 1" using assms by auto
  then show ?thesis using f32_of_nat_exact [of 1] by (auto simp: f32_round_def f32_of_nat_def)
qed

lemma f32_sum_snoc: "f32_sum (xs @ [x]) = f32_round (f32_sum xs + x)"
  by (simp add: f32_sum_def)

text \<open>Sums of quarters are exact while they fit into 24 bits.\<close>

lemma f32_sum_quarters:
  assumes "sum_list ks \<le> 2 ^ 24"
  shows "f32_sum (map (\<lambda>k. of_nat k / 4) ks) = of_nat (sum_list ks) / 4"
  using assms
proof (induction ks rule: rev_induct)
  case Nil
  then show ?case by (simp add: f32_sum_def)
next
  case (snoc k ks)
  have ih: "f32_sum (map (\<lambda>k. of_nat k / 4) ks) = of_nat (sum_list ks) / 4" using snoc by simp
  have "f32_sum (map (\<lambda>k. of_nat k / 4) (ks @ [k])) = f32_round (of_nat (sum_list ks) / 4 + of_nat k / 4)"
    unfolding map_append list.map f32_sum_snoc ih ..
  also have "of_nat (sum_list ks) / 4 + of_nat k / 4 = (of_nat (sum_list (ks @ [k])) / 4 :: rat)" by (simp add: add_divide_distrib)
  also have "f32_round \<dots> = of_nat (sum_list (ks @ [k])) / 4" by (rule f32_quarter_exact) (rule snoc.prems)
  finally show ?case .
qed

end
