(* ===== verification/Compass_Text.thy ===== *)
theory Compass_Text
  imports Rust_Float
begin

text \<open>
  Texts as the compass sees them (\<open>crates/relay-compass/src/lib.rs\<close>): the words of a text, what is
  noise of the transcript, the literals a rewriting has to keep, the features of a text and the distance
  of two fingerprints. Unicode case mapping, the Unicode class of letters and digits, and the sum of the
  feature hashes (BLAKE3, weights with a logarithm) are parameters. Only the bit vectors of \<open>Vector\<close>
  are modelled: the dense ones are never built outside the tests.
\<close>

unbundle bit_operations_syntax

type_synonym sim = "1024 word"

record text_env =
  te_lower :: "string \<Rightarrow> string"
  te_alnum :: "string \<Rightarrow> bool"
  te_simhash :: "(string \<times> nat) list \<Rightarrow> sim"

section \<open>Features and distance\<close>

definition SIM_BITS :: nat where "SIM_BITS = 1024"

definition windows :: "nat \<Rightarrow> 'a list \<Rightarrow> 'a list list" where
  "windows n xs = (if length xs < n then [] else map (\<lambda>i. take n (drop i xs)) [0..<length xs + 1 - n])"

definition alnum_words :: "text_env \<Rightarrow> string \<Rightarrow> string list" where
  "alnum_words T s = map concat (filter (\<lambda>w. w \<noteq> []) (split_on (\<lambda>c. \<not> te_alnum T c) (chars_of s)))"

definition feature_names :: "text_env \<Rightarrow> string \<Rightarrow> string list" where
  "feature_names T s =
     (let low = te_lower T s; cs = chars_of low; ws = alnum_words T low
      in concat (map (\<lambda>n. map (\<lambda>w. ''c'' @ dec n @ [CHR 0x1F] @ concat w)
           (filter (\<lambda>w. \<not> list_all is_ws w) (windows n cs))) [3, 4, 5]) @
         concat (map (\<lambda>n. map (\<lambda>w. ''w'' @ dec n @ [CHR 0x1F] @ join '' '' w) (windows n ws)) [1, 2]))"

definition features :: "text_env \<Rightarrow> string \<Rightarrow> (string \<times> nat) list" where
  "features T s =
     (let names = feature_names T s in map (\<lambda>f. (f, count_list names f)) (sort (remdups names)))"

definition embed :: "text_env \<Rightarrow> string \<Rightarrow> sim option" where
  "embed T s = (let fs = features T s in if fs = [] then None else Some (te_simhash T fs))"

definition feature_count :: "text_env \<Rightarrow> string \<Rightarrow> nat" where
  "feature_count T s = length (features T s)"

text \<open>The share of differing bits; a quotient by \<open>2\<^sup>1\<^sup>0\<close> is exact.\<close>

definition hamming :: "sim \<Rightarrow> sim \<Rightarrow> nat" where
  "hamming x y = length (filter (bit (x XOR y)) [0..<SIM_BITS])"

definition distance :: "sim \<Rightarrow> sim \<Rightarrow> rat" where
  "distance x y = of_nat (hamming x y) / of_nat SIM_BITS"

lemma distance_self [simp]: "distance x x = 0"
  by (simp add: distance_def hamming_def)

lemma distance_sym: "distance x y = distance y x"
  by (simp add: distance_def hamming_def xor.commute)

lemma distance_range: "0 \<le> distance x y \<and> distance x y \<le> 1"
proof -
  have "hamming x y \<le> SIM_BITS" unfolding hamming_def by (rule order_trans [OF length_filter_le]) simp
  then have "(of_nat (hamming x y) :: rat) \<le> of_nat SIM_BITS" by (simp only: of_nat_le_iff)
  then show ?thesis by (simp add: distance_def SIM_BITS_def)
qed

lemma distance_zero: "distance x y = 0 \<longleftrightarrow> x = y"
proof
  assume "distance x y = 0"
  then have "filter (bit (x XOR y)) [0..<SIM_BITS] = []" by (simp add: distance_def hamming_def SIM_BITS_def)
  then have "\<not> bit (x XOR y) n" if "n < 1024" for n
    using that by (auto simp: filter_empty_conv SIM_BITS_def)
  then show "x = y" by (intro bit_word_eqI) (auto simp: bit_simps)
qed simp

text \<open>Two texts within half a bit of each other have the same fingerprint.\<close>

lemma distance_exact: "distance x y \<le> 1 / 2048 \<longleftrightarrow> x = y"
proof
  assume "distance x y \<le> 1 / 2048"
  then have "hamming x y = 0" by (simp add: distance_def SIM_BITS_def divide_le_eq)
  then have "distance x y = 0" by (simp add: distance_def)
  then show "x = y" by (simp add: distance_zero)
qed simp

section \<open>Noise\<close>

definition noise_prefixes :: "string list" where
  "noise_prefixes =
     [''this session is being continued'', ''caveat:'', ''[system notification'', ''[system reminder'',
      ''[vsc_relay_health_steer'', ''your questions have been answered:'',
      ''todos have been modified successfully'', ''async agent launched successfully'',
      ''tool_use_error'', ''stdout'']"

definition is_context_noise :: "text_env \<Rightarrow> string \<Rightarrow> bool" where
  "is_context_noise T s =
     (let t = trim s
      in t = [] \<or> list_ex (\<lambda>p. starts_with p (te_lower T t)) noise_prefixes)"

definition is_transcript_noise :: "text_env \<Rightarrow> string \<Rightarrow> bool" where
  "is_transcript_noise T s \<longleftrightarrow> starts_with ''<'' (trim s) \<or> is_context_noise T s"

definition goal_words :: "text_env \<Rightarrow> string \<Rightarrow> string list" where
  "goal_words T s =
     map concat (filter (\<lambda>w. w \<noteq> [])
       (split_on (\<lambda>c. \<not> te_alnum T c \<and> c \<noteq> ''_'' \<and> c \<noteq> ''-'') (chars_of (te_lower T s))))"

definition is_substantive_goal :: "text_env \<Rightarrow> string \<Rightarrow> bool" where
  "is_substantive_goal T s \<longleftrightarrow> \<not> is_transcript_noise T s \<and> goal_words T s \<noteq> []"

text \<open>The goal of a session: the first substantive turn after the last continuation, or at all.\<close>

definition continued :: "text_env \<Rightarrow> string \<Rightarrow> bool" where
  "continued T s \<longleftrightarrow> starts_with ''this session is being continued'' (te_lower T (trim s))"

definition last_index :: "('a \<Rightarrow> bool) \<Rightarrow> 'a list \<Rightarrow> nat option" where
  "last_index p xs = find (\<lambda>i. p (xs ! i)) (rev [0..<length xs])"

definition select_goal_index_authoritative :: "text_env \<Rightarrow> string list \<Rightarrow> nat option" where
  "select_goal_index_authoritative T turns =
     (let start = (case last_index (continued T) turns of Some i \<Rightarrow> i + 1 | None \<Rightarrow> 0)
      in or_else (find (\<lambda>i. is_substantive_goal T (turns ! i)) [start..<length turns])
           (find (\<lambda>i. is_substantive_goal T (turns ! i)) [0..<length turns]))"

section \<open>Literals\<close>

definition is_flag :: "string \<Rightarrow> bool" where
  "is_flag t \<longleftrightarrow>
     starts_with ''--'' t \<and> 2 < length t \<and> is_ascii_alphabetic (t ! 2) \<or>
     starts_with ''-'' t \<and> 2 \<le> length t \<and> is_ascii_alphabetic (t ! 1)"

definition is_number :: "string \<Rightarrow> bool" where
  "is_number t \<longleftrightarrow>
     t \<noteq> [] \<and> list_ex is_ascii_digit t \<and> list_all (\<lambda>c. is_ascii_digit c \<or> c \<in> set ''.-'') t"

definition is_pathish :: "string \<Rightarrow> bool" where
  "is_pathish t \<longleftrightarrow>
     CHR ''/'' \<in> set t \<or>
     2 \<le> length (filter (\<lambda>p. p \<noteq> []) (split_on (\<lambda>c. c = CHR ''.'') t)) \<and>
     list_all (\<lambda>c. is_ascii_alphanumeric c \<or> c \<in> set ''._-'') t \<and> list_ex is_ascii_alphabetic t"

text \<open>\<open>extract_quoted\<close>: the texts between a quotation mark and the next, taken in pairs.\<close>

fun quoted_pieces :: "string list \<Rightarrow> string list" where
  "quoted_pieces (outside # inner # rest) =
     (if rest = [] then [] else (if trim inner = [] then [] else [inner]) @ quoted_pieces rest)"
| "quoted_pieces _ = []"

definition extract_quoted :: "char \<Rightarrow> string \<Rightarrow> string list" where
  "extract_quoted q s = quoted_pieces (split_on (\<lambda>c. c = q) s)"

definition quotes :: string where
  "quotes = [CHR 0x22, CHR 0x27, CHR 0x60]"

definition trim_marks :: "string \<Rightarrow> string" where
  "trim_marks t =
     (let p = (\<lambda>c. c \<in> set ('',;:!?()[]{}'' @ quotes))
      in rev (dropWhile p (rev (dropWhile p t))))"

text \<open>A \<open>BTreeSet\<close> is kept as the ascending list of its elements.\<close>

definition literals :: "string \<Rightarrow> string list" where
  "literals s =
     sort (remdups (concat (map (\<lambda>q. extract_quoted q s) quotes) @
       filter (\<lambda>t. t \<noteq> [] \<and> (is_flag t \<or> is_number t \<or> is_pathish t))
         (map trim_marks (split_whitespace s))))"

definition preserves_literals :: "string \<Rightarrow> string \<Rightarrow> bool" where
  "preserves_literals orig rewrite \<longleftrightarrow> list_all (\<lambda>l. l \<in> set (literals rewrite)) (literals orig)"

lemma quoted_pieces_nonempty: "x \<in> set (quoted_pieces ps) \<Longrightarrow> x \<noteq> []"
  by (induction ps rule: quoted_pieces.induct) (auto split: if_splits)

lemma literal_nonempty: "l \<in> set (literals s) \<Longrightarrow> l \<noteq> []"
  by (auto simp: literals_def extract_quoted_def quotes_def dest: quoted_pieces_nonempty)

end
