(* ===== verification/Steps.thy ===== *)
theory Steps
  imports Compass_Text Gate_Proof
begin

text \<open>
  What the compass reads of a session (\<open>crates/relay-compass/src/steps.rs\<close>, \<open>semantic.rs\<close>, the
  source classes of \<open>health.rs\<close>): the steps of a transcript and what a semantic model says of its
  episodes.
\<close>

section \<open>Steps\<close>

definition HEALTH_WINDOW :: nat where "HEALTH_WINDOW = 4"

definition SOURCE_CONTRACT :: u8 where "SOURCE_CONTRACT = 1"
definition SOURCE_AGENT :: u8 where "SOURCE_AGENT = 2"
definition SOURCE_USER :: u8 where "SOURCE_USER = 4"
definition SOURCE_TOOL :: u8 where "SOURCE_TOOL = 8"
definition SOURCE_RUNTIME :: u8 where "SOURCE_RUNTIME = 16"
definition SOURCE_DELEGATE :: u8 where "SOURCE_DELEGATE = 32"

datatype StepRole = RUser | RAssistant | RToolUse | RToolResult | RDelegateResult

datatype ToolKind = KInspect | KSearch | KExecute | KModify | KDelegate | KOther

datatype UserOrigin = Human | Controller | ToolAnswer | DelegateNotification | SystemContext

definition source_class :: "StepRole \<Rightarrow> u8" where
  "source_class r =
     (case r of RUser \<Rightarrow> SOURCE_USER | RAssistant \<Rightarrow> SOURCE_AGENT | RToolUse \<Rightarrow> SOURCE_TOOL
      | RToolResult \<Rightarrow> SOURCE_RUNTIME | RDelegateResult \<Rightarrow> SOURCE_DELEGATE)"

type_synonym context_flags = u16

definition flags_contain :: "context_flags \<Rightarrow> context_flags \<Rightarrow> bool" where
  "flags_contain s other \<longleftrightarrow> other \<noteq> 0 \<and> s AND other = other"

record semantic_step =
  ss_index :: u32
  ss_role :: StepRole
  ss_text :: string
  ss_source_class :: u8
  ss_tool_name :: "string option"
  ss_correlation_id :: "string option"
  ss_tool_kind :: ToolKind
  ss_tool_target :: "string option"
  ss_is_error :: bool
  ss_source_turn_id :: u32
  ss_block_index :: u16
  ss_user_origin :: UserOrigin
  ss_context_flags :: context_flags

definition step_new :: "u32 \<Rightarrow> StepRole \<Rightarrow> string \<Rightarrow> semantic_step" where
  "step_new i role t =
     \<lparr>ss_index = i, ss_role = role, ss_text = t, ss_source_class = source_class role,
      ss_tool_name = None, ss_correlation_id = None, ss_tool_kind = KOther, ss_tool_target = None,
      ss_is_error = False, ss_source_turn_id = i, ss_block_index = 0, ss_user_origin = Human,
      ss_context_flags = 0\<rparr>"

section \<open>Semantic facts\<close>

datatype ContractSource = Goal | UserContract

datatype ContractAtomKind = Deliverable | Constraint | AcceptanceAtom | EvidenceAtom | OtherAtom

record atom_hint =
  ah_source :: ContractSource
  ah_quote :: string
  ah_kind :: ContractAtomKind
  ah_required_evidence_layer :: ProofLayer
  ah_probability :: f32

record link_hint =
  lh_tool_call_id :: string
  lh_obligation_quote :: string
  lh_observed_evidence_layer :: ProofLayer
  lh_probability :: f32

datatype Truth = Yes | No | UnknownTruth

record class_score =
  cs_state :: Truth
  cs_probability :: f32

definition is_yes :: "class_score \<Rightarrow> bool" where
  "is_yes s \<longleftrightarrow> cs_state s = Yes"

definition class_score_default :: class_score where
  "class_score_default = \<lparr>cs_state = UnknownTruth, cs_probability = Some 0\<rparr>"

datatype Relation = RelSupports | RelContradicts | RelPartial | RelUnrelated | RelUnknown

record relation_score =
  rs_relation :: Relation
  rs_probability :: f32

definition relation_score_default :: relation_score where
  "relation_score_default = \<lparr>rs_relation = RelUnknown, rs_probability = Some 0\<rparr>"

record semantic_facts =
  sf_episode :: u32
  sf_completion_claim :: class_score
  sf_blocker_claim :: class_score
  sf_verification_claim :: class_score
  sf_correction :: class_score
  sf_pivot :: class_score
  sf_continuation_intent :: class_score
  sf_stale_evidence_claim :: class_score
  sf_proxy_focus :: class_score
  sf_goal_relation :: relation_score
  sf_evidence_relation :: relation_score
  sf_required_evidence_layer :: ProofLayer
  sf_observed_evidence_layer :: ProofLayer
  sf_contract_atoms :: "atom_hint list"
  sf_obligation_links :: "link_hint list"
  sf_calibrated :: bool
  sf_backend :: string
  sf_model :: string

definition facts_default :: semantic_facts where
  "facts_default =
     \<lparr>sf_episode = 0, sf_completion_claim = class_score_default, sf_blocker_claim = class_score_default,
      sf_verification_claim = class_score_default, sf_correction = class_score_default,
      sf_pivot = class_score_default, sf_continuation_intent = class_score_default,
      sf_stale_evidence_claim = class_score_default, sf_proxy_focus = class_score_default,
      sf_goal_relation = relation_score_default, sf_evidence_relation = relation_score_default,
      sf_required_evidence_layer = UnknownLayer, sf_observed_evidence_layer = UnknownLayer,
      sf_contract_atoms = [], sf_obligation_links = [], sf_calibrated = False, sf_backend = [],
      sf_model = []\<rparr>"

section \<open>Episodes\<close>

text \<open>
  An episode is a run of steps between two user steps, given by its first position and the position
  after its last; the contract turn is the user step before it.
\<close>

record episode =
  ep_ordinal :: u32
  ep_from :: nat
  ep_to :: nat
  ep_contract_turn :: "nat option"

text \<open>The loop over the positions, with the open episode, if any, by its first position.\<close>

fun episodes_loop ::
  "StepRole list \<Rightarrow> nat \<Rightarrow> nat option \<Rightarrow> nat option \<Rightarrow> episode list \<Rightarrow> episode list"
where
  "episodes_loop [] i last_user start acc =
     (case start of
        None \<Rightarrow> acc
      | Some s \<Rightarrow> acc @ [\<lparr>ep_ordinal = of_nat (length acc), ep_from = s, ep_to = i, ep_contract_turn = last_user\<rparr>])"
| "episodes_loop (r # rs) i last_user start acc =
     (if r = RUser
      then episodes_loop rs (i + 1) (Some i) None
             (case start of
                None \<Rightarrow> acc
              | Some s \<Rightarrow> acc @ [\<lparr>ep_ordinal = of_nat (length acc), ep_from = s, ep_to = i,
                                 ep_contract_turn = last_user\<rparr>])
      else episodes_loop rs (i + 1) last_user (Some (unwrap_or i start)) acc)"

definition episodes :: "semantic_step list \<Rightarrow> episode list" where
  "episodes steps = episodes_loop (map ss_role steps) 0 None None []"

definition episode_steps :: "semantic_step list \<Rightarrow> episode \<Rightarrow> semantic_step list" where
  "episode_steps steps e = take (ep_to e - ep_from e) (drop (ep_from e) steps)"

text \<open>The last assistant step of an episode.\<close>

definition episode_assistant :: "semantic_step list \<Rightarrow> episode \<Rightarrow> semantic_step option" where
  "episode_assistant steps e = find (\<lambda>s. ss_role s = RAssistant) (rev (episode_steps steps e))"

definition facts_of :: "semantic_facts list \<Rightarrow> episode \<Rightarrow> semantic_facts option" where
  "facts_of semantic e = find (\<lambda>f. sf_episode f = ep_ordinal e) semantic"

section \<open>Episodes partition the transcript\<close>

definition episode_ok :: "StepRole list \<Rightarrow> episode \<Rightarrow> bool" where
  "episode_ok rs e \<longleftrightarrow>
     ep_from e < ep_to e \<and> ep_to e \<le> length rs \<and>
     (\<forall>i. ep_from e \<le> i \<and> i < ep_to e \<longrightarrow> rs ! i \<noteq> RUser) \<and>
     (case ep_contract_turn e of
        None \<Rightarrow> ep_from e = 0
      | Some u \<Rightarrow> u + 1 = ep_from e \<and> rs ! u = RUser)"

definition positions :: "episode list \<Rightarrow> nat list" where
  "positions es = concat (map (\<lambda>e. [ep_from e..<ep_to e]) es)"

lemma positions_snoc [simp]: "positions (es @ [e]) = positions es @ [ep_from e..<ep_to e]"
  by (simp add: positions_def)

lemma episodes_loop_spec:
  assumes "rs = drop i all" "i \<le> length all"
    and "list_all (episode_ok all) acc"
    and "positions acc @ (case start of None \<Rightarrow> [] | Some s \<Rightarrow> [s..<i]) = filter (\<lambda>j. all ! j \<noteq> RUser) [0..<i]"
    and "\<And>s. start = Some s \<Longrightarrow> s < i \<and> (\<forall>j. s \<le> j \<and> j < i \<longrightarrow> all ! j \<noteq> RUser)"
    and "case lu of
           None \<Rightarrow> acc = [] \<and> (case start of None \<Rightarrow> i = 0 | Some s \<Rightarrow> s = 0)
         | Some u \<Rightarrow> all ! u = RUser \<and> u < i \<and> (case start of None \<Rightarrow> u + 1 = i | Some s \<Rightarrow> u + 1 = s)"
    and "map ep_ordinal acc = map of_nat [0..<length acc]"
  shows "list_all (episode_ok all) (episodes_loop rs i lu start acc) \<and>
    positions (episodes_loop rs i lu start acc) = filter (\<lambda>j. all ! j \<noteq> RUser) [0..<length all] \<and>
    map ep_ordinal (episodes_loop rs i lu start acc) = map of_nat [0..<length (episodes_loop rs i lu start acc)]"
  using assms
proof (induction rs arbitrary: i lu start acc)
  case Nil
  then have i: "i = length all" by simp
  show ?case
  proof (cases start)
    case None
    with Nil i show ?thesis by simp
  next
    case (Some s)
    have "episode_ok all \<lparr>ep_ordinal = of_nat (length acc), ep_from = s, ep_to = i, ep_contract_turn = lu\<rparr>"
      using Nil.prems(5) [OF Some] Nil.prems(6) i Some by (auto simp: episode_ok_def split: option.splits)
    with Nil.prems Some i show ?thesis by simp
  qed
next
  case (Cons r rs)
  have i: "i < length all" using Cons.prems(1) by (cases "i < length all") simp_all
  then have "r # rs = all ! i # drop (i + 1) all" using Cons.prems(1) by (simp add: Cons_nth_drop_Suc)
  then have r: "r = all ! i" and rs: "rs = drop (i + 1) all" by auto
  show ?case
  proof (cases "r = RUser")
    case True
    show ?thesis
    proof (cases start)
      case None
      have "positions acc @ [] = filter (\<lambda>j. all ! j \<noteq> RUser) [0..<i + 1]"
        using Cons.prems(4) None True r by simp
      with Cons.IH [OF rs, of acc None "Some i"] Cons.prems(3,7) True None i r show ?thesis by simp
    next
      case (Some s)
      let ?e = "\<lparr>ep_ordinal = of_nat (length acc), ep_from = s, ep_to = i, ep_contract_turn = lu\<rparr> :: episode"
      have "episode_ok all ?e"
        using Cons.prems(5) [OF Some] Cons.prems(6) i Some by (auto simp: episode_ok_def split: option.splits)
      moreover have "positions (acc @ [?e]) = filter (\<lambda>j. all ! j \<noteq> RUser) [0..<i + 1]"
        using Cons.prems(4) Some True r by simp
      ultimately show ?thesis
        using Cons.IH [OF rs, of "acc @ [?e]" None "Some i"] Cons.prems(3,7) True Some i r by simp
    qed
  next
    case False
    let ?s = "unwrap_or i start"
    have pos: "positions acc @ [?s..<i + 1] = filter (\<lambda>j. all ! j \<noteq> RUser) [0..<i + 1]"
      using Cons.prems(4) Cons.prems(5) False r by (cases start) auto
    have open_: "?s < i + 1 \<and> (\<forall>j. ?s \<le> j \<and> j < i + 1 \<longrightarrow> all ! j \<noteq> RUser)"
      using Cons.prems(5) False r by (cases start) (auto simp: less_Suc_eq)
    have turn: "case lu of None \<Rightarrow> acc = [] \<and> ?s = 0 | Some u \<Rightarrow> all ! u = RUser \<and> u < i + 1 \<and> u + 1 = ?s"
      using Cons.prems(6) by (cases start) (auto split: option.splits)
    have "list_all (episode_ok all) (episodes_loop rs (i + 1) lu (Some ?s) acc) \<and>
      positions (episodes_loop rs (i + 1) lu (Some ?s) acc) = filter (\<lambda>j. all ! j \<noteq> RUser) [0..<length all] \<and>
      map ep_ordinal (episodes_loop rs (i + 1) lu (Some ?s) acc) =
        map of_nat [0..<length (episodes_loop rs (i + 1) lu (Some ?s) acc)]"
      by (rule Cons.IH [OF rs _ Cons.prems(3) _ _ _ Cons.prems(7)])
        (use i pos open_ turn in \<open>simp_all split: option.splits\<close>)
    then show ?thesis using False by simp
  qed
qed

text \<open>
  The episodes cover the steps that are not the user's, each once and in order; every one is a
  nonempty run of them that starts at the transcript's begin or right after its contract turn, a user
  step, and they are numbered from zero.
\<close>

theorem episodes_partition:
  "list_all (episode_ok (map ss_role steps)) (episodes steps) \<and>
   positions (episodes steps) = filter (\<lambda>i. ss_role (steps ! i) \<noteq> RUser) [0..<length steps] \<and>
   map ep_ordinal (episodes steps) = map of_nat [0..<length (episodes steps)]"
proof -
  have "filter (\<lambda>j. map ss_role steps ! j \<noteq> RUser) [0..<length steps] =
      filter (\<lambda>i. ss_role (steps ! i) \<noteq> RUser) [0..<length steps]"
    by (rule filter_cong) auto
  then show ?thesis
    using episodes_loop_spec [of "map ss_role steps" 0 "map ss_role steps" "[]" None None]
    by (simp add: episodes_def positions_def)
qed

end
