(* ===== verification/Feedback.thy ===== *)
theory Feedback
  imports Steps
begin

text \<open>
  The machine-readable result an agent appends to its answer
  (\<open>crates/relay-compass/src/feedback.rs\<close>): which envelopes are accepted, and the identifier a
  steering message carries. Reading the JSON text into the derived record is a parameter.
\<close>

definition HEALTH_RESULT_OPEN :: string where
  "HEALTH_RESULT_OPEN = ''[VSC_RELAY_HEALTH_RESULT v1]''"

definition HEALTH_RESULT_CLOSE :: string where
  "HEALTH_RESULT_CLOSE = ''[/VSC_RELAY_HEALTH_RESULT]''"

definition SESSION_HEALTH_STEER_ID :: string where
  "SESSION_HEALTH_STEER_ID = ''current-contract''"

definition HEALTH_PROTOCOL :: "nat \<Rightarrow> string" where
  "HEALTH_PROTOCOL n = ''vsc-relay.health-result.v'' @ dec n"

definition MAX_ENVELOPE_BYTES :: nat where "MAX_ENVELOPE_BYTES = 12288"
definition MAX_EVIDENCE_REFS :: nat where "MAX_EVIDENCE_REFS = 16"
definition MAX_ID_BYTES :: nat where "MAX_ID_BYTES = 160"
definition MAX_CONFLICT_CERTIFICATES :: nat where "MAX_CONFLICT_CERTIFICATES = 4"
definition MAX_OBLIGATION_QUOTES :: nat where "MAX_OBLIGATION_QUOTES = 4"
definition MIN_QUOTE_CHARS :: nat where "MIN_QUOTE_CHARS = 8"
definition MAX_QUOTE_CHARS :: nat where "MAX_QUOTE_CHARS = 512"

datatype HealthResultStatus = StWorking | StBlocked | StClaimedComplete

datatype ContractRelation = SameContract | Expands | Replaces | UncertainContract

datatype StateConflict = NoConflict | Unresolved

datatype ConflictSource = ByAssistant | ByDelegate | ByUser | ByRuntime

datatype ConflictStance = StanceSupports | StanceContradicts

datatype TopicRelation = SameTopic | SameArtifact | Dependency

datatype ConflictVersion = CurrentVersion | UnknownVersion

record conflict_anchor =
  ca_source :: ConflictSource
  ca_quote :: string
  ca_tool_call_id :: "string option"
  ca_stance :: ConflictStance

record state_conflict_claim =
  cc_obligation_quotes :: "string list"
  cc_relation :: TopicRelation
  cc_version :: ConflictVersion
  cc_left :: conflict_anchor
  cc_right :: conflict_anchor

record health_result =
  hr_steer_id :: string
  hr_status :: HealthResultStatus
  hr_contract_relation :: ContractRelation
  hr_state_conflict :: StateConflict
  hr_state_conflicts :: "state_conflict_claim list"
  hr_conflict_tool_call_ids :: "string list"
  hr_evidence_tool_call_ids :: "string list"
  hr_remaining_risk :: bool

datatype HealthResultError =
  MissingEnvelope | MalformedEnvelope | Oversized | InvalidJson | InvalidProtocol | StaleChallenge
| InvalidReference

text \<open>The derived record has the protocol besides the fields of the result.\<close>

record wire_health_result = health_result +
  wh_protocol :: string

definition valid_id :: "string \<Rightarrow> bool" where
  "valid_id v \<longleftrightarrow>
     v \<noteq> [] \<and> length v \<le> MAX_ID_BYTES \<and> list_all (\<lambda>b. is_ascii_alphanumeric b \<or> b \<in> set ''-_.:'') v"

definition valid_quote :: "string \<Rightarrow> bool" where
  "valid_quote v \<longleftrightarrow>
     (let t = trim v; n = length (chars_of t)
      in MIN_QUOTE_CHARS \<le> n \<and> n \<le> MAX_QUOTE_CHARS \<and> t = v \<and>
         \<not> contains HEALTH_RESULT_OPEN v \<and> \<not> contains HEALTH_RESULT_CLOSE v)"

definition health_steer_id :: "string \<Rightarrow> string option" where
  "health_steer_id t =
     (case rust_lines (trim_start t) of
        [] \<Rightarrow> None
      | l # _ \<Rightarrow>
          opt_filter valid_id
            (Option.bind (strip_prefix ''[VSC_RELAY_HEALTH_STEER v2 id='' (trim_end l)) (strip_suffix '']'')))"

definition protocol_valid :: "wire_health_result \<Rightarrow> bool" where
  "protocol_valid w \<longleftrightarrow>
     (if wh_protocol w = HEALTH_PROTOCOL 1
      then hr_contract_relation w = UncertainContract \<and> hr_state_conflict w = NoConflict \<and>
           hr_state_conflicts w = [] \<and> hr_conflict_tool_call_ids w = []
      else if wh_protocol w = HEALTH_PROTOCOL 2
      then hr_state_conflict w = NoConflict \<and> hr_state_conflicts w = [] \<and> hr_conflict_tool_call_ids w = []
      else if wh_protocol w = HEALTH_PROTOCOL 3 then hr_state_conflicts w = []
      else wh_protocol w = HEALTH_PROTOCOL 4)"

text \<open>A set of references that is filled as they are read: none is in it twice.\<close>

fun insert_all :: "string list \<Rightarrow> string set \<Rightarrow> string set option" where
  "insert_all [] u = Some u"
| "insert_all (r # rs) u = (if \<not> valid_id r \<or> r \<in> u then None else insert_all rs (insert r u))"

definition claim_ids :: "state_conflict_claim \<Rightarrow> string list" where
  "claim_ids c =
     (case ca_tool_call_id (cc_left c) of None \<Rightarrow> [] | Some i \<Rightarrow> [i]) @
     (case ca_tool_call_id (cc_right c) of None \<Rightarrow> [] | Some i \<Rightarrow> [i])"

definition claim_shape_ok :: "state_conflict_claim \<Rightarrow> bool" where
  "claim_shape_ok c \<longleftrightarrow>
     cc_obligation_quotes c \<noteq> [] \<and> length (cc_obligation_quotes c) \<le> MAX_OBLIGATION_QUOTES \<and>
     ca_stance (cc_left c) \<noteq> ca_stance (cc_right c) \<and>
     valid_quote (ca_quote (cc_left c)) \<and> valid_quote (ca_quote (cc_right c)) \<and>
     ca_quote (cc_left c) \<noteq> ca_quote (cc_right c) \<and>
     list_all valid_quote (cc_obligation_quotes c) \<and> distinct (cc_obligation_quotes c)"

fun claims_ok :: "state_conflict_claim list \<Rightarrow> string set \<Rightarrow> bool" where
  "claims_ok [] u = True"
| "claims_ok (c # cs) u =
     (claim_shape_ok c \<and> (case insert_all (claim_ids c) u of None \<Rightarrow> False | Some u' \<Rightarrow> claims_ok cs u'))"

definition conflict_shape_valid :: "wire_health_result \<Rightarrow> bool" where
  "conflict_shape_valid w \<longleftrightarrow>
     (case hr_state_conflict w of
        NoConflict \<Rightarrow> hr_conflict_tool_call_ids w = [] \<and> hr_state_conflicts w = []
      | Unresolved \<Rightarrow>
          hr_status w = StWorking \<and> hr_remaining_risk w \<and>
          (hr_conflict_tool_call_ids w \<noteq> [] \<or> hr_state_conflicts w \<noteq> []))"

definition check_wire :: "string \<Rightarrow> wire_health_result \<Rightarrow> HealthResultError + health_result" where
  "check_wire expected w =
     (if \<not> protocol_valid w then Inl InvalidProtocol
      else if hr_steer_id w \<noteq> expected then Inl StaleChallenge
      else if \<not> valid_id (hr_steer_id w) \<or> MAX_EVIDENCE_REFS < length (hr_evidence_tool_call_ids w) \<or>
              MAX_EVIDENCE_REFS < length (hr_conflict_tool_call_ids w) \<or>
              MAX_CONFLICT_CERTIFICATES < length (hr_state_conflicts w)
      then Inl InvalidReference
      else case insert_all (hr_evidence_tool_call_ids w @ hr_conflict_tool_call_ids w) {} of
             None \<Rightarrow> Inl InvalidReference
           | Some u \<Rightarrow>
               if \<not> claims_ok (hr_state_conflicts w) u then Inl InvalidReference
               else if \<not> conflict_shape_valid w then Inl InvalidReference
               else Inr (health_result.truncate w))"

definition parse_health_result ::
  "(string \<Rightarrow> wire_health_result option) \<Rightarrow> string \<Rightarrow> string \<Rightarrow> HealthResultError + health_result"
where
  "parse_health_result from_str t expected =
     (if \<not> valid_id expected then Inl StaleChallenge
      else case strip_suffix HEALTH_RESULT_CLOSE (trim_end t) of
             None \<Rightarrow> Inl MissingEnvelope
           | Some without_close \<Rightarrow>
               (case rsplit_once HEALTH_RESULT_OPEN without_close of
                  None \<Rightarrow> Inl MalformedEnvelope
                | Some (pre, rest) \<Rightarrow>
                    if contains HEALTH_RESULT_OPEN pre \<or> contains HEALTH_RESULT_CLOSE pre
                    then Inl MalformedEnvelope
                    else let payload = trim rest
                         in if payload = [] then Inl MalformedEnvelope
                            else if MAX_ENVELOPE_BYTES < length payload then Inl Oversized
                            else case from_str payload of
                                   None \<Rightarrow> Inl InvalidJson
                                 | Some w \<Rightarrow> check_wire expected w))"

section \<open>What is accepted\<close>

lemma insert_all_spec:
  "insert_all rs u = (if list_all valid_id rs \<and> distinct rs \<and> set rs \<inter> u = {} then Some (set rs \<union> u) else None)"
  by (induction rs arbitrary: u) auto

definition all_ids :: "('a health_result_scheme) \<Rightarrow> string list" where
  "all_ids r = hr_evidence_tool_call_ids r @ hr_conflict_tool_call_ids r @ concat (map claim_ids (hr_state_conflicts r))"

lemma claims_ok_spec:
  "claims_ok cs u \<longleftrightarrow> list_all claim_shape_ok cs \<and> list_all valid_id (concat (map claim_ids cs)) \<and>
     distinct (concat (map claim_ids cs)) \<and> set (concat (map claim_ids cs)) \<inter> u = {}"
proof (induction cs arbitrary: u)
  case (Cons c cs)
  show ?case unfolding claims_ok.simps insert_all_spec
    by (simp add: Cons.IH split: option.split) blast
qed simp

text \<open>The rules an accepted result obeys, whatever its protocol.\<close>

definition result_ok :: "string \<Rightarrow> health_result \<Rightarrow> bool" where
  "result_ok expected r \<longleftrightarrow>
     hr_steer_id r = expected \<and> valid_id expected \<and>
     length (hr_evidence_tool_call_ids r) \<le> 16 \<and> length (hr_conflict_tool_call_ids r) \<le> 16 \<and>
     length (hr_state_conflicts r) \<le> 4 \<and>
     list_all valid_id (all_ids r) \<and> distinct (all_ids r) \<and>
     list_all claim_shape_ok (hr_state_conflicts r) \<and>
     (hr_state_conflict r = NoConflict \<and> hr_conflict_tool_call_ids r = [] \<and> hr_state_conflicts r = [] \<or>
      hr_state_conflict r = Unresolved \<and> hr_status r = StWorking \<and> hr_remaining_risk r \<and>
      (hr_conflict_tool_call_ids r \<noteq> [] \<or> hr_state_conflicts r \<noteq> []))"

lemma check_wire_iff:
  "check_wire expected w = Inr r \<longleftrightarrow>
     protocol_valid w \<and> r = health_result.truncate w \<and> result_ok expected r"
proof -
  let ?refs = "hr_evidence_tool_call_ids w @ hr_conflict_tool_call_ids w"
  let ?claims = "concat (map claim_ids (hr_state_conflicts w))"
  let ?t = "health_result.truncate w"
  have fields: "hr_steer_id ?t = hr_steer_id w" "hr_status ?t = hr_status w"
    "hr_state_conflict ?t = hr_state_conflict w" "hr_state_conflicts ?t = hr_state_conflicts w"
    "hr_conflict_tool_call_ids ?t = hr_conflict_tool_call_ids w"
    "hr_evidence_tool_call_ids ?t = hr_evidence_tool_call_ids w" "hr_remaining_risk ?t = hr_remaining_risk w"
    by (simp_all add: health_result.truncate_def)
  have shape: "conflict_shape_valid w \<longleftrightarrow>
    (hr_state_conflict ?t = NoConflict \<and> hr_conflict_tool_call_ids ?t = [] \<and> hr_state_conflicts ?t = [] \<or>
     hr_state_conflict ?t = Unresolved \<and> hr_status ?t = StWorking \<and> hr_remaining_risk ?t \<and>
      (hr_conflict_tool_call_ids ?t \<noteq> [] \<or> hr_state_conflicts ?t \<noteq> []))"
    by (cases "hr_state_conflict w") (auto simp: conflict_shape_valid_def fields)
  have refs: "list_all valid_id ?refs \<and> distinct ?refs \<and> claims_ok (hr_state_conflicts w) (set ?refs) \<longleftrightarrow>
      list_all valid_id (all_ids ?t) \<and> distinct (all_ids ?t) \<and> list_all claim_shape_ok (hr_state_conflicts ?t)"
  proof -
    have ids: "all_ids ?t = ?refs @ ?claims" by (simp add: all_ids_def fields)
    have d: "distinct (xs @ ys) = (distinct xs \<and> distinct ys \<and> set ys \<inter> set xs = {})" for xs ys :: "string list"
      by auto
    show ?thesis unfolding claims_ok_spec fields ids d [of ?refs ?claims] list_all_append [of _ ?refs ?claims]
      by (simp only: conj_ac)
  qed
  have "check_wire expected w = Inr r \<longleftrightarrow>
      protocol_valid w \<and> hr_steer_id w = expected \<and> valid_id (hr_steer_id w) \<and>
      length (hr_evidence_tool_call_ids w) \<le> 16 \<and> length (hr_conflict_tool_call_ids w) \<le> 16 \<and>
      length (hr_state_conflicts w) \<le> 4 \<and>
      (list_all valid_id ?refs \<and> distinct ?refs \<and> claims_ok (hr_state_conflicts w) (set ?refs)) \<and>
      conflict_shape_valid w \<and> r = ?t"
    unfolding check_wire_def insert_all_spec MAX_EVIDENCE_REFS_def MAX_CONFLICT_CERTIFICATES_def
    by (simp only: not_less [symmetric] split: if_split option.split) auto
  note main = this
  show ?thesis
  proof (cases "r = ?t")
    case True
    show ?thesis unfolding main refs shape unfolding True result_ok_def fields by blast
  qed (simp add: main)
qed

text \<open>
  A result is read exactly from a text that ends with one envelope: a prefix without a marker, the
  opening marker, a payload of at most 12288 bytes that decodes, and the closing marker; its references
  are then valid, all different and few, and an unresolved conflict leaves the work unfinished.
\<close>

theorem accepted_exactly_the_last_envelope:
  "parse_health_result from_str t expected = Inr r \<longleftrightarrow>
   (\<exists>pre rest w.
      trim_end t = pre @ HEALTH_RESULT_OPEN @ rest @ HEALTH_RESULT_CLOSE \<and>
      \<not> contains HEALTH_RESULT_OPEN pre \<and> \<not> contains HEALTH_RESULT_CLOSE pre \<and>
      rsplit_once HEALTH_RESULT_OPEN (pre @ HEALTH_RESULT_OPEN @ rest) = Some (pre, rest) \<and>
      trim rest \<noteq> [] \<and> length (trim rest) \<le> 12288 \<and> from_str (trim rest) = Some w \<and>
      protocol_valid w \<and> r = health_result.truncate w \<and> result_ok expected r)"
  (is "?l \<longleftrightarrow> ?r")
proof
  assume ?l
  then obtain wc pre rest w where
    wc: "strip_suffix HEALTH_RESULT_CLOSE (trim_end t) = Some wc"
    and s: "rsplit_once HEALTH_RESULT_OPEN wc = Some (pre, rest)"
    and rest: "\<not> contains HEALTH_RESULT_OPEN pre" "\<not> contains HEALTH_RESULT_CLOSE pre"
      "trim rest \<noteq> []" "length (trim rest) \<le> 12288" "from_str (trim rest) = Some w" "check_wire expected w = Inr r"
    by (auto simp: parse_health_result_def Let_def MAX_ENVELOPE_BYTES_def not_less split: if_splits option.splits)
  have "wc = pre @ HEALTH_RESULT_OPEN @ rest" by (rule rsplit_once_Some [OF s])
  with wc s rest show ?r unfolding strip_suffix_Some check_wire_iff by (metis append.assoc)
next
  assume ?r
  then obtain pre rest w where
    t: "trim_end t = (pre @ HEALTH_RESULT_OPEN @ rest) @ HEALTH_RESULT_CLOSE"
    and s: "rsplit_once HEALTH_RESULT_OPEN (pre @ HEALTH_RESULT_OPEN @ rest) = Some (pre, rest)"
    and rest: "\<not> contains HEALTH_RESULT_OPEN pre" "\<not> contains HEALTH_RESULT_CLOSE pre"
      "trim rest \<noteq> []" "length (trim rest) \<le> 12288" "from_str (trim rest) = Some w" "check_wire expected w = Inr r"
    unfolding check_wire_iff by (metis append.assoc)
  have "strip_suffix HEALTH_RESULT_CLOSE (trim_end t) = Some (pre @ HEALTH_RESULT_OPEN @ rest)"
    unfolding strip_suffix_Some by (rule t)
  moreover have "valid_id expected" using rest(6) unfolding check_wire_iff result_ok_def by blast
  ultimately show ?l using s rest
    by (simp add: parse_health_result_def Let_def MAX_ENVELOPE_BYTES_def)
qed

end
