(* ===== verification/Ledger_Base.thy ===== *)
theory Ledger_Base
  imports Feedback
begin

text \<open>
  The contract ledger (\<open>crates/relay-compass/src/ledger.rs\<close>), first part: its data, how the text of a
  contract is cut into obligations, to which obligations a tool use is bound, certificates of conflict,
  and the states and signals that follow from the evidence. The distances are multiples of
  \<open>1/1024\<close>, so the decimal thresholds of the code decide as their roundings to \<open>f32\<close> do.
\<close>

section \<open>Data\<close>

definition MAX_OBLIGATIONS :: nat where "MAX_OBLIGATIONS = 32"
definition MAX_EVIDENCE :: nat where "MAX_EVIDENCE = 96"

text \<open>\<open>0.78\<close> as an \<open>f32\<close>; the probabilities it is compared with are arbitrary floats.\<close>

definition MIN_ATOM_CONFIDENCE :: rat where "MIN_ATOM_CONFIDENCE = 13086228 / 16777216"
definition MIN_LINK_CONFIDENCE :: rat where "MIN_LINK_CONFIDENCE = 13086228 / 16777216"
definition CONTINUATION_MATCH_RADIUS :: rat where "CONTINUATION_MATCH_RADIUS = 12 / 100"
definition CONTINUATION_MATCH_MARGIN :: rat where "CONTINUATION_MATCH_MARGIN = 4 / 100"
definition TOPIC_CANDIDATE_RADIUS :: rat where "TOPIC_CANDIDATE_RADIUS = 22 / 100"
definition EXACT_DISTANCE_EPSILON :: rat where "EXACT_DISTANCE_EPSILON = 1 / 2048"

datatype ObligationOrigin = WholeContract | Structural | Extractive

datatype AtomizationMode = WholeMode | StructuralMode | ExtractiveMode

record atomization_metrics =
  am_mode :: AtomizationMode
  am_proposed :: nat
  am_accepted :: nat
  am_signal_coverage :: rat
  am_literals_preserved :: bool
  am_clause_boundaries_preserved :: bool
  am_source_conserved :: bool

record ledger_ob = obligation +
  ob_text :: string
  ob_source_step :: u32
  ob_epoch :: u32
  ob_priority :: rat
  ob_kind :: ContractAtomKind
  ob_origin :: ObligationOrigin
  ob_required_layer :: ProofLayer
  ob_observed_layer :: ProofLayer
  ob_last_claim_step :: "u32 option"
  ob_last_change_step :: "u32 option"
  ob_last_evidence_step :: "u32 option"
  ob_evidence_ids :: "string list"
  ob_fingerprint :: "sim option"

datatype EvidencePolarity = Supports | Contradicts

record ledger_evidence =
  ev_id :: string
  ev_obligation_id :: string
  ev_step :: u32
  ev_source_kind :: ToolKind
  ev_layer :: ProofLayer
  ev_polarity :: EvidencePolarity
  ev_strength :: rat
  ev_fresh :: bool
  ev_inherited_from :: "string option"

record delegated_report =
  dr_id :: string
  dr_obligation_id :: string
  dr_step :: u32
  dr_correlation_id :: string
  dr_fresh :: bool
  dr_failed :: bool

record ledger_signals =
  sg_active :: nat
  sg_open :: nat
  sg_claimed_unverified :: nat
  sg_verified :: nat
  sg_contradicted :: nat
  sg_disputed :: nat
  sg_stale :: nat
  sg_layer_mismatches :: nat
  sg_coverage :: rat
  sg_completion_scope_gap :: bool
  sg_proof_deficit :: bool

record provenance_metrics =
  pm_tool_uses :: nat
  pm_native_ids :: nat
  pm_weak_anchors :: nat
  pm_unknown_capabilities :: nat
  pm_unmatched_results :: nat
  pm_weakly_paired_results :: nat
  pm_delegate_reports :: nat

record topic_metrics =
  tm_certificates :: nat
  tm_grounded :: nat
  tm_rejected_unknown_version :: nat
  tm_same_obligation :: nat
  tm_multi_obligation :: nat
  tm_literal_intersections :: nat
  tm_vector_candidates :: nat
  tm_declared_cross_topic :: nat
  tm_source_mask :: u8

record topic_intersection =
  ti_id :: string
  ti_obligation_ids :: "string list"
  ti_relation :: TopicRelation
  ti_source_mask :: u8
  ti_left_step :: u32
  ti_right_step :: u32
  ti_version_floor :: u32
  ti_literal_intersection :: bool
  ti_vector_candidate :: bool
  ti_declared_only :: bool

record ledger_seed =
  sd_fingerprint :: sim
  sd_state :: ObligationState
  sd_required_layer :: ProofLayer
  sd_observed_layer :: ProofLayer
  sd_source_ref :: string

record continuation_metrics =
  cm_seeds :: nat
  cm_exact_inherited :: nat
  cm_approximate_advisory :: nat
  cm_ambiguous_rejected :: nat

record feedback_metrics =
  fm_challenged :: nat
  fm_accepted :: nat
  fm_rejected :: nat
  fm_evidence_refs :: nat
  fm_matched_evidence_refs :: nat
  fm_controller_evidence_receipts :: nat
  fm_matched_blocker_probe_refs :: nat
  fm_conflict_refs :: nat
  fm_matched_conflict_refs :: nat
  fm_reported_expansions :: nat
  fm_reported_replacements :: nat
  fm_current_accepted :: bool
  fm_current_working :: bool
  fm_current_blocked :: bool
  fm_current_blocker_grounded :: bool
  fm_current_state_disputed :: bool
  fm_current_conflict_source_mask :: u8
  fm_current_expands_contract :: bool
  fm_current_replaces_contract :: bool
  fm_current_claimed_complete :: bool

datatype AdmissionReason = InitialHumanTurn | ExplicitPromotion | AmbiguousDocument

record contract_anchor =
  an_source_turn_id :: u32
  an_source_step :: u32
  an_reason :: AdmissionReason

record contract_candidate =
  cd_source_turn_id :: u32
  cd_source_step :: u32
  cd_text :: string
  cd_reason :: AdmissionReason

record contract_input =
  ci_anchor :: "contract_anchor option"
  ci_anchor_text :: "string option"
  ci_candidates :: "contract_candidate list"
  ci_promoted :: "contract_candidate list"

record ledger =
  lg_epoch :: u32
  lg_obligations :: "ledger_ob list"
  lg_evidence :: "ledger_evidence list"
  lg_delegated_reports :: "delegated_report list"
  lg_signals :: ledger_signals
  lg_atomization :: atomization_metrics
  lg_continuation :: continuation_metrics
  lg_feedback :: feedback_metrics
  lg_provenance :: provenance_metrics
  lg_topic_intersections :: topic_metrics
  lg_topic_edges :: "topic_intersection list"
  lg_artifact_edges :: "artifact_edge list"
  lg_focus :: "nat option"
  lg_candidates :: "contract_candidate list"

text \<open>The defaults, and the fields the gate reads (\<open>Gate_Proof\<close>).\<close>

definition topic_metrics_default :: topic_metrics where
  "topic_metrics_default = \<lparr>tm_certificates = 0, tm_grounded = 0, tm_rejected_unknown_version = 0,
     tm_same_obligation = 0, tm_multi_obligation = 0, tm_literal_intersections = 0,
     tm_vector_candidates = 0, tm_declared_cross_topic = 0, tm_source_mask = 0\<rparr>"

definition feedback_metrics_default :: feedback_metrics where
  "feedback_metrics_default = \<lparr>fm_challenged = 0, fm_accepted = 0, fm_rejected = 0, fm_evidence_refs = 0,
     fm_matched_evidence_refs = 0, fm_controller_evidence_receipts = 0, fm_matched_blocker_probe_refs = 0,
     fm_conflict_refs = 0, fm_matched_conflict_refs = 0, fm_reported_expansions = 0,
     fm_reported_replacements = 0, fm_current_accepted = False, fm_current_working = False,
     fm_current_blocked = False, fm_current_blocker_grounded = False, fm_current_state_disputed = False,
     fm_current_conflict_source_mask = 0, fm_current_expands_contract = False,
     fm_current_replaces_contract = False, fm_current_claimed_complete = False\<rparr>"

definition ledger_default :: ledger where
  "ledger_default = \<lparr>lg_epoch = 0, lg_obligations = [], lg_evidence = [], lg_delegated_reports = [],
     lg_signals = \<lparr>sg_active = 0, sg_open = 0, sg_claimed_unverified = 0, sg_verified = 0,
       sg_contradicted = 0, sg_disputed = 0, sg_stale = 0, sg_layer_mismatches = 0, sg_coverage = 0,
       sg_completion_scope_gap = False, sg_proof_deficit = False\<rparr>,
     lg_atomization = \<lparr>am_mode = WholeMode, am_proposed = 0, am_accepted = 0, am_signal_coverage = 0,
       am_literals_preserved = False, am_clause_boundaries_preserved = False, am_source_conserved = False\<rparr>,
     lg_continuation = \<lparr>cm_seeds = 0, cm_exact_inherited = 0, cm_approximate_advisory = 0,
       cm_ambiguous_rejected = 0\<rparr>,
     lg_feedback = feedback_metrics_default,
     lg_provenance = \<lparr>pm_tool_uses = 0, pm_native_ids = 0, pm_weak_anchors = 0, pm_unknown_capabilities = 0,
       pm_unmatched_results = 0, pm_weakly_paired_results = 0, pm_delegate_reports = 0\<rparr>,
     lg_topic_intersections = topic_metrics_default, lg_topic_edges = [], lg_artifact_edges = [],
     lg_focus = None, lg_candidates = []\<rparr>"

definition gate_view :: "ledger \<Rightarrow> contract_ledger" where
  "gate_view l = \<lparr>cl_epoch = lg_epoch l, cl_obligations = map obligation.truncate (lg_obligations l),
     cl_artifact_edges = lg_artifact_edges l\<rparr>"

definition focus_obligation :: "ledger \<Rightarrow> ledger_ob option" where
  "focus_obligation l = Option.bind (lg_focus l) (nth_opt (lg_obligations l))"

section \<open>Lines with markers\<close>

definition line_markers :: "string list" where
  "line_markers = [''- '', ''* '', ''+ '', ''[ ] '', ''[x] '', ''[X] '']"

definition NEWLINE :: char where "NEWLINE = CHR 0x0A"

definition strip_marker :: "string \<Rightarrow> string \<times> bool" where
  "strip_marker line =
     (let t = trim line
      in case List.map_filter (\<lambda>m. strip_prefix m t) line_markers of
           rest # _ \<Rightarrow> (trim rest, True)
         | [] \<Rightarrow>
             (let digits = takeWhile is_ascii_digit t; suffix = drop (length digits) t
              in if digits \<noteq> [] \<and> suffix \<noteq> [] \<and> hd suffix \<in> set ''.):''
                 then let rest = tl suffix
                      in if rest = [] \<or> is_ws (hd (chars_of rest)) then (trim rest, True) else (t, False)
                 else (t, False)))"

fun collect_atoms :: "(string \<times> bool) list \<Rightarrow> string list \<Rightarrow> string list \<Rightarrow> string list" where
  "collect_atoms [] pre atoms = atoms"
| "collect_atoms ((line, marked) # rest) pre atoms =
     (if marked
      then if atoms = [] \<and> pre \<noteq> []
           then collect_atoms rest [] (atoms @ [join [NEWLINE] pre @ NEWLINE # line])
           else collect_atoms rest pre (atoms @ [line])
      else if atoms \<noteq> [] then collect_atoms rest pre (butlast atoms @ [last atoms @ NEWLINE # line])
      else collect_atoms rest (pre @ [line]) atoms)"

definition structural_atoms :: "string \<Rightarrow> string list option" where
  "structural_atoms t =
     (let lines = filter (\<lambda>(l, _). l \<noteq> []) (map strip_marker (rust_lines t));
          marked = length (filter snd lines)
      in if marked < 2 \<or> MAX_OBLIGATIONS < marked then None
         else let atoms = collect_atoms lines [] []
              in if list_ex (\<lambda>a. 1200 < length (chars_of a)) atoms then None else Some atoms)"

section \<open>Validated atoms\<close>

record validated_atom =
  va_text :: string
  va_kind :: ContractAtomKind
  va_required_layer :: ProofLayer
  va_from :: nat
  va_to :: nat

text \<open>The starts of the matches of a nonempty pattern that do not overlap, from the left.\<close>

function match_indices :: "string \<Rightarrow> string \<Rightarrow> nat \<Rightarrow> nat list" where
  "match_indices pat s i =
     (if s = [] \<or> pat = [] then []
      else if starts_with pat s then i # match_indices pat (drop (length pat) s) (i + length pat)
      else match_indices pat (tl s) (i + 1))"
  by pat_completeness auto
termination
  by (relation "measure (\<lambda>(pat, s, i). length s)") (auto simp: neq_Nil_conv)

declare match_indices.simps [simp del]

definition unique_span :: "string \<Rightarrow> string \<Rightarrow> (nat \<times> nat) option" where
  "unique_span source pat =
     (case match_indices pat source 0 of [start] \<Rightarrow> Some (start, start + length pat) | _ \<Rightarrow> None)"

fun char_indices :: "nat \<Rightarrow> string list \<Rightarrow> (nat \<times> string) list" where
  "char_indices i [] = []"
| "char_indices i (c # cs) = (i, c) # char_indices (i + length c) cs"

definition is_signal :: "text_env \<Rightarrow> string \<Rightarrow> bool" where
  "is_signal T c \<longleftrightarrow> te_alnum T c \<or> c \<in> set [''_'', ''-'', ''.'', ''/'']"

definition signal_positions :: "text_env \<Rightarrow> string \<Rightarrow> nat list" where
  "signal_positions T source = map fst (filter (\<lambda>(_, c). is_signal T c) (char_indices 0 (chars_of source)))"

definition in_spans :: "(nat \<times> nat) list \<Rightarrow> nat \<Rightarrow> bool" where
  "in_spans spans i = list_ex (\<lambda>(a, b). a \<le> i \<and> i < b) spans"

definition signal_coverage :: "text_env \<Rightarrow> string \<Rightarrow> (nat \<times> nat) list \<Rightarrow> rat" where
  "signal_coverage T source spans =
     (let ps = signal_positions T source
      in if ps = [] then 0
         else f32_div (f32_of_nat (length (filter (in_spans spans) ps))) (f32_of_nat (length ps)))"

definition literals_preserved :: "text_env \<Rightarrow> string \<Rightarrow> validated_atom list \<Rightarrow> bool" where
  "literals_preserved T source atoms =
     (let observed = map (te_lower T) (literals (join [NEWLINE] (map va_text atoms)))
      in list_all (\<lambda>l. te_lower T l \<in> set observed) (literals source))"

definition is_clause_boundary :: "string \<Rightarrow> bool" where
  "is_clause_boundary c \<longleftrightarrow>
     c \<in> set [[CHR 0x0A], [CHR 0x0D], ''.'', ''!'', ''?'', [CHR 0xE3, CHR 0x80, CHR 0x82],
       [CHR 0xEF, CHR 0xBC, CHR 0x81], [CHR 0xEF, CHR 0xBC, CHR 0x9F], [CHR 0xE2, CHR 0x80, CHR 0xA6]]"

definition is_boundary_wrapper :: "string \<Rightarrow> bool" where
  "is_boundary_wrapper c \<longleftrightarrow>
     c \<in> set [[CHR 0x22], [CHR 0x27], [CHR 0x60], ''('', '')'', ''['', '']'', ''{'', ''}'', ''<'', ''>'',
       [CHR 0xC2, CHR 0xAB], [CHR 0xC2, CHR 0xBB], [CHR 0xE2, CHR 0x80, CHR 0x9C],
       [CHR 0xE2, CHR 0x80, CHR 0x9D], [CHR 0xE2, CHR 0x80, CHR 0x98], [CHR 0xE2, CHR 0x80, CHR 0x99]]"

definition outer_char :: "string list \<Rightarrow> string option" where
  "outer_char cs = find (\<lambda>c. \<not> is_ws c \<and> \<not> is_boundary_wrapper c) cs"

definition boundary_before :: "string \<Rightarrow> nat \<Rightarrow> bool" where
  "boundary_before source start =
     (case outer_char (rev (chars_of (take start source))) of None \<Rightarrow> True | Some c \<Rightarrow> is_clause_boundary c)"

definition boundary_after :: "string \<Rightarrow> nat \<Rightarrow> bool" where
  "boundary_after source stop \<longleftrightarrow>
     (case outer_char (rev (chars_of (take stop source))) of None \<Rightarrow> False | Some c \<Rightarrow> is_clause_boundary c) \<or>
     (case outer_char (chars_of (drop stop source)) of None \<Rightarrow> True | Some c \<Rightarrow> is_clause_boundary c)"

definition clause_boundaries_preserved :: "string \<Rightarrow> (nat \<times> nat) list \<Rightarrow> bool" where
  "clause_boundaries_preserved source spans =
     list_all (\<lambda>(a, b). boundary_before source a \<and> boundary_after source b) spans"

definition span_of :: "validated_atom \<Rightarrow> nat \<times> nat" where
  "span_of a = (va_from a, va_to a)"

text \<open>One hint: it is refused, raises the layer of an atom with the same sp, or becomes an atom.\<close>

definition raise_first :: "nat \<times> nat \<Rightarrow> ProofLayer \<Rightarrow> validated_atom list \<Rightarrow> validated_atom list" where
  "raise_first sp layer atoms =
     (case find (\<lambda>i. span_of (atoms ! i) = sp) [0..<length atoms] of
        None \<Rightarrow> atoms
      | Some i \<Rightarrow>
          if layer_rank (va_required_layer (atoms ! i)) < layer_rank layer
          then atoms[i := (atoms ! i)\<lparr>va_required_layer := layer\<rparr>] else atoms)"

definition add_hint :: "text_env \<Rightarrow> string \<Rightarrow> atom_hint \<Rightarrow> validated_atom list \<Rightarrow> validated_atom list" where
  "add_hint T source h atoms =
     (let q = trim (ah_quote h)
      in if q = [] \<or> 1200 < length (chars_of q) then atoms
         else if \<not> (is_substantive_goal T q \<or> 12 \<le> feature_count T q \<or> literals q \<noteq> []) then atoms
         else case unique_span source q of
                None \<Rightarrow> atoms
              | Some sp \<Rightarrow>
                  if list_ex (\<lambda>a. span_of a = sp) atoms
                  then raise_first sp (ah_required_evidence_layer h) atoms
                  else atoms @ [\<lparr>va_text = q, va_kind = ah_kind h,
                         va_required_layer = ah_required_evidence_layer h,
                         va_from = fst sp, va_to = snd sp\<rparr>])"

definition validate_atom_proposal ::
  "text_env \<Rightarrow> string \<Rightarrow> atom_hint list \<Rightarrow> ContractSource \<Rightarrow> (validated_atom list \<times> atomization_metrics) option"
where
  "validate_atom_proposal T source hints src =
     (let proposed = length (filter (\<lambda>h. ah_source h = src) hints);
          taken = filter (\<lambda>h. ah_source h = src \<and> f32_reaches (ah_probability h) MIN_ATOM_CONFIDENCE) hints;
          atoms = sort_key va_from (foldl (\<lambda>as h. add_hint T source h as) [] taken)
      in if length atoms < 2 \<or> MAX_OBLIGATIONS < length atoms then None
         else if list_ex (\<lambda>(a, b). va_from b < va_to a) (zip atoms (tl atoms)) then None
         else let spans = map span_of atoms;
                  coverage = signal_coverage T source spans;
                  preserves = literals_preserved T source atoms;
                  boundaries = clause_boundaries_preserved source spans;
                  conserved = (coverage = 1)
              in if \<not> conserved \<or> \<not> preserves \<or> \<not> boundaries then None
                 else Some (atoms, \<lparr>am_mode = ExtractiveMode, am_proposed = proposed,
                        am_accepted = length atoms, am_signal_coverage = coverage,
                        am_literals_preserved = preserves,
                        am_clause_boundaries_preserved = boundaries, am_source_conserved = conserved\<rparr>))"

text \<open>\<open>max_by\<close>: the last of the greatest elements.\<close>

definition max_by :: "('a \<Rightarrow> 'a \<Rightarrow> bool) \<Rightarrow> 'a list \<Rightarrow> 'a option" where
  "max_by le xs =
     foldl (\<lambda>best x. case best of None \<Rightarrow> Some x | Some b \<Rightarrow> if le b x then Some x else Some b) None xs"

definition atomization_text :: "validated_atom list \<Rightarrow> string" where
  "atomization_text atoms = join [CHR 0x1F] (map va_text atoms)"

definition atomization_le ::
  "validated_atom list \<times> atomization_metrics \<Rightarrow> validated_atom list \<times> atomization_metrics \<Rightarrow> bool"
where
  "atomization_le l r \<longleftrightarrow>
     (let cl = am_signal_coverage (snd l); cr = am_signal_coverage (snd r);
          nl = length (fst l); nr = length (fst r)
      in cl < cr \<or> cl = cr \<and> (nr < nl \<or> nr = nl \<and> atomization_text (fst r) \<le> atomization_text (fst l)))"

definition best_semantic_atomization ::
  "text_env \<Rightarrow> string \<Rightarrow> semantic_facts list \<Rightarrow> ContractSource \<Rightarrow>
   (validated_atom list \<times> atomization_metrics) option"
where
  "best_semantic_atomization T source semantic src =
     max_by atomization_le
       (List.map_filter (\<lambda>f. validate_atom_proposal T source (sf_contract_atoms f) src) semantic)"

section \<open>Obligations\<close>

definition normalized :: "text_env \<Rightarrow> string \<Rightarrow> string" where
  "normalized T t = te_lower T (join '' '' (split_whitespace t))"

definition same_obligation :: "text_env \<Rightarrow> ledger_ob \<Rightarrow> string \<Rightarrow> bool" where
  "same_obligation T o' t \<longleftrightarrow>
     normalized T (ob_text o') = normalized T t \<or>
     (case (ob_fingerprint o', embed T t) of
        (Some x, Some y) \<Rightarrow> distance x y \<le> 12 / 100
      | _ \<Rightarrow> False)"

definition on_obligation :: "nat \<Rightarrow> (ledger_ob \<Rightarrow> ledger_ob) \<Rightarrow> ledger \<Rightarrow> ledger" where
  "on_obligation i f l = l\<lparr>lg_obligations := (lg_obligations l)[i := f (lg_obligations l ! i)]\<rparr>"

definition raise_layer :: "ProofLayer \<Rightarrow> ledger_ob \<Rightarrow> ledger_ob" where
  "raise_layer layer o' =
     (if layer_rank (ob_required_layer o') < layer_rank layer then o'\<lparr>ob_required_layer := layer\<rparr> else o')"

definition obligation_id :: "u32 \<Rightarrow> nat \<Rightarrow> string" where
  "obligation_id epoch i = ''obl-'' @ dec (unat epoch) @ ''-'' @ dec (i + 1)"

definition position :: "('a \<Rightarrow> bool) \<Rightarrow> 'a list \<Rightarrow> nat option" where
  "position p xs = find (\<lambda>i. p (xs ! i)) [0..<length xs]"

definition add_obligation ::
  "text_env \<Rightarrow> ledger \<Rightarrow> string \<Rightarrow> u32 \<Rightarrow> rat \<Rightarrow> ContractAtomKind \<Rightarrow> ObligationOrigin \<Rightarrow> ProofLayer \<Rightarrow> ledger"
where
  "add_obligation T l t source_step priority kind origin required_layer =
     (case position (\<lambda>o'. ob_epoch o' = lg_epoch l \<and> same_obligation T o' t) (lg_obligations l) of
        Some i \<Rightarrow> on_obligation i (raise_layer required_layer) l
      | None \<Rightarrow>
          l\<lparr>lg_obligations := lg_obligations l @
              [\<lparr>ob_id = obligation_id (lg_epoch l) (length (lg_obligations l)), ob_state = ObOpen,
                ob_literal_set = remdups (map (te_lower T) (literals t)), ob_text = t,
                ob_source_step = source_step, ob_epoch = lg_epoch l,
                ob_priority = f32_clamp (1 / 10) 1 priority, ob_kind = kind, ob_origin = origin,
                ob_required_layer = required_layer, ob_observed_layer = UnknownLayer,
                ob_last_claim_step = None, ob_last_change_step = None, ob_last_evidence_step = None,
                ob_evidence_ids = [], ob_fingerprint = embed T t\<rparr>]\<rparr>)"

definition layer_for :: "ToolKind \<Rightarrow> ProofLayer" where
  "layer_for k =
     (case k of KInspect \<Rightarrow> Inspection | KSearch \<Rightarrow> Inspection | KExecute \<Rightarrow> UnitLayer | _ \<Rightarrow> UnknownLayer)"

definition strength_for :: "ToolKind \<Rightarrow> bool \<Rightarrow> rat" where
  "strength_for k error =
     (if error then 95 / 100
      else case k of KInspect \<Rightarrow> 20 / 100 | KSearch \<Rightarrow> 25 / 100 | KExecute \<Rightarrow> 65 / 100 | _ \<Rightarrow> 10 / 100)"

definition active :: "ledger \<Rightarrow> nat list" where
  "active l = filter (\<lambda>i. ob_state (lg_obligations l ! i) \<noteq> Superseded) [0..<length (lg_obligations l)]"

definition link_ok :: "string \<Rightarrow> link_hint \<Rightarrow> bool" where
  "link_ok cid k \<longleftrightarrow>
     lh_tool_call_id k = cid \<and> trim (lh_obligation_quote k) \<noteq> [] \<and>
     f32_reaches (lh_probability k) MIN_LINK_CONFIDENCE"

definition linked ::
  "text_env \<Rightarrow> ledger \<Rightarrow> string \<Rightarrow> semantic_facts \<Rightarrow> nat list"
where
  "linked T l cid facts =
     filter (\<lambda>i. list_ex (\<lambda>k. link_ok cid k \<and>
         (let q = normalized T (lh_obligation_quote k); o' = normalized T (ob_text (lg_obligations l ! i))
          in o' = q \<or> contains q o')) (sf_obligation_links facts)) (active l)"

definition bind_obligations ::
  "text_env \<Rightarrow> ledger \<Rightarrow> string option \<Rightarrow> string option \<Rightarrow> semantic_facts option \<Rightarrow> nat list"
where
  "bind_obligations T l target cid facts =
     (let t = te_lower T (unwrap_or [] target);
          by_literal = filter (\<lambda>i. list_ex (\<lambda>w. contains w t) (ob_literal_set (lg_obligations l ! i))) (active l)
      in if by_literal \<noteq> [] then by_literal
         else case (cid, facts) of
                (Some c, Some f) \<Rightarrow> (let is = linked T l c f in if length is = 1 then is else [])
              | _ \<Rightarrow> [])"

section \<open>Certificates of conflict\<close>

definition anchor_role_matches :: "semantic_step \<Rightarrow> ConflictSource \<Rightarrow> bool" where
  "anchor_role_matches s src =
     (case src of
        ByAssistant \<Rightarrow> ss_role s = RAssistant
      | ByDelegate \<Rightarrow> ss_role s = RDelegateResult \<or> ss_role s = RToolResult \<and> ss_tool_kind s = KDelegate
      | ByUser \<Rightarrow> ss_role s = RUser
      | ByRuntime \<Rightarrow> ss_role s = RToolResult \<and> ss_tool_kind s \<noteq> KDelegate)"

definition conflict_source_bit :: "ConflictSource \<Rightarrow> u8" where
  "conflict_source_bit src =
     (case src of ByAssistant \<Rightarrow> SOURCE_AGENT | ByDelegate \<Rightarrow> SOURCE_DELEGATE | ByUser \<Rightarrow> SOURCE_USER
      | ByRuntime \<Rightarrow> SOURCE_RUNTIME)"

definition anchor_matches :: "u32 \<Rightarrow> conflict_anchor \<Rightarrow> semantic_step \<Rightarrow> bool" where
  "anchor_matches envelope_step a s \<longleftrightarrow>
     ss_index s \<noteq> envelope_step \<and> anchor_role_matches s (ca_source a) \<and>
     (ca_tool_call_id a = None \<or> ss_correlation_id s = ca_tool_call_id a) \<and>
     length (match_indices (ca_quote a) (ss_text s) 0) = 1"

definition resolve_conflict_anchor ::
  "semantic_step list \<Rightarrow> nat list \<Rightarrow> u32 \<Rightarrow> conflict_anchor \<Rightarrow> nat option"
where
  "resolve_conflict_anchor steps allowed envelope_step a =
     (case filter (\<lambda>i. anchor_matches envelope_step a (steps ! i)) allowed of [i] \<Rightarrow> Some i | _ \<Rightarrow> None)"

definition conflict_obligations :: "ledger \<Rightarrow> nat list \<Rightarrow> state_conflict_claim \<Rightarrow> nat list option" where
  "conflict_obligations l eligible c =
     (let hits = (\<lambda>q. filter (\<lambda>i. contains q (ob_text (lg_obligations l ! i))) eligible);
          bound = filter (\<lambda>i. list_ex (\<lambda>q. contains q (ob_text (lg_obligations l ! i))) (cc_obligation_quotes c)) eligible
      in if list_ex (\<lambda>q. hits q = []) (cc_obligation_quotes c) \<or> bound = [] then None else Some bound)"

fun pairs :: "'a list \<Rightarrow> ('a \<times> 'a) list" where
  "pairs [] = []"
| "pairs (x # xs) = map (Pair x) xs @ pairs xs"

definition topic_geometry :: "ledger \<Rightarrow> nat list \<Rightarrow> bool \<times> bool" where
  "topic_geometry l bound =
     (let ps = map (\<lambda>(i, j). (lg_obligations l ! i, lg_obligations l ! j)) (pairs bound)
      in (list_ex (\<lambda>(a, b). list_ex (\<lambda>w. w \<in> set (ob_literal_set b)) (ob_literal_set a)) ps,
          list_ex (\<lambda>(a, b). case (ob_fingerprint a, ob_fingerprint b) of
             (Some x, Some y) \<Rightarrow> distance x y \<le> TOPIC_CANDIDATE_RADIUS | _ \<Rightarrow> False) ps))"

definition allowed_steps :: "semantic_step list \<Rightarrow> episode list \<Rightarrow> u32 \<Rightarrow> nat list" where
  "allowed_steps steps es current =
     (let w = of_nat (HEALTH_WINDOW - 1); first = (if current < w then 0 else current - w)
      in filter (\<lambda>i. list_ex (\<lambda>e. first \<le> ep_ordinal e \<and> ep_ordinal e \<le> current \<and>
             (ep_from e \<le> i \<and> i < ep_to e \<or> ep_contract_turn e = Some i)) es) [0..<length steps])"

definition ob_version :: "ledger_ob \<Rightarrow> u32" where
  "ob_version o' = max (unwrap_or (ob_source_step o') (ob_last_change_step o')) (ob_source_step o')"

fun max_opt :: "'a::linorder list \<Rightarrow> 'a option" where
  "max_opt [] = None"
| "max_opt (x # xs) = Some (foldl max x xs)"

definition of_bool_nat :: "bool \<Rightarrow> nat" where
  "of_bool_nat b = (if b then 1 else 0)"

definition certificate ::
  "semantic_step list \<Rightarrow> nat list \<Rightarrow> u32 \<Rightarrow> nat list \<Rightarrow> ledger \<Rightarrow> nat \<times> state_conflict_claim \<Rightarrow>
   topic_metrics \<times> topic_intersection list \<Rightarrow> topic_metrics \<times> topic_intersection list"
where
  "certificate steps allowed envelope_step eligible l = (\<lambda>(k, c) (m, edges).
     if cc_version c \<noteq> CurrentVersion
     then (m\<lparr>tm_rejected_unknown_version := tm_rejected_unknown_version m + 1\<rparr>, edges)
     else case (conflict_obligations l eligible c,
                resolve_conflict_anchor steps allowed envelope_step (cc_left c),
                resolve_conflict_anchor steps allowed envelope_step (cc_right c)) of
       (Some bound, Some left, Some right) \<Rightarrow>
         (let floor = unwrap_or 0 (max_opt (map (\<lambda>i. ob_version (lg_obligations l ! i)) bound));
              mask = conflict_source_bit (ca_source (cc_left c)) OR conflict_source_bit (ca_source (cc_right c))
          in if left = right \<or> ss_index (steps ! left) < floor \<or> ss_index (steps ! right) < floor
             then (m, edges)
             else let (lit, vec) = (if length bound = 1 then (False, False) else topic_geometry l bound);
                      m1 = m\<lparr>tm_grounded := tm_grounded m + 1, tm_source_mask := tm_source_mask m OR mask\<rparr>;
                      m2 = (if length bound = 1
                            then m1\<lparr>tm_same_obligation := tm_same_obligation m1 + 1\<rparr>
                            else m1\<lparr>tm_multi_obligation := tm_multi_obligation m1 + 1,
                                   tm_literal_intersections := tm_literal_intersections m1 + of_bool_nat lit,
                                   tm_vector_candidates := tm_vector_candidates m1 + of_bool_nat vec,
                                   tm_declared_cross_topic :=
                                     tm_declared_cross_topic m1 + of_bool_nat (\<not> lit \<and> \<not> vec)\<rparr>)
                  in (m2, edges @
                       [\<lparr>ti_id = ''topic-'' @ dec (unat envelope_step) @ ''-'' @ dec k,
                         ti_obligation_ids = map (\<lambda>i. ob_id (lg_obligations l ! i)) bound,
                         ti_relation = cc_relation c, ti_source_mask = mask,
                         ti_left_step = ss_index (steps ! left), ti_right_step = ss_index (steps ! right),
                         ti_version_floor = floor, ti_literal_intersection = lit,
                         ti_vector_candidate = vec,
                         ti_declared_only = (1 < length bound \<and> \<not> lit \<and> \<not> vec)\<rparr>]))
     | _ \<Rightarrow> (m, edges))"

definition evaluate_conflict_certificates ::
  "semantic_step list \<Rightarrow> episode list \<Rightarrow> u32 \<Rightarrow> u32 \<Rightarrow> nat list \<Rightarrow> ledger \<Rightarrow> state_conflict_claim list \<Rightarrow>
   topic_metrics \<times> topic_intersection list"
where
  "evaluate_conflict_certificates steps es current envelope_step eligible l claims =
     fold (certificate steps (allowed_steps steps es current) envelope_step eligible l)
       (enumerate 0 claims) (topic_metrics_default\<lparr>tm_certificates := length claims\<rparr>, [])"

section \<open>Layers of evidence\<close>

definition evidence_layer_hint ::
  "semantic_facts option \<Rightarrow> string option \<Rightarrow> nat \<Rightarrow> ProofLayer \<Rightarrow> ProofLayer"
where
  "evidence_layer_hint facts cid proof_tool_count fallback =
     (case facts of
        None \<Rightarrow> fallback
      | Some f \<Rightarrow>
          let layers = (case cid of
                None \<Rightarrow> []
              | Some c \<Rightarrow> map lh_observed_evidence_layer
                  (filter (\<lambda>k. lh_tool_call_id k = c \<and> f32_reaches (lh_probability k) MIN_LINK_CONFIDENCE \<and>
                     lh_observed_evidence_layer k \<noteq> UnknownLayer) (sf_obligation_links f)))
          in if layers \<noteq> [] \<and> list_all (\<lambda>y. y = hd layers) (tl layers) then hd layers
             else if proof_tool_count = 1 \<and> sf_observed_evidence_layer f \<noteq> UnknownLayer
             then sf_observed_evidence_layer f else fallback)"

section \<open>States and signals\<close>

definition since_change :: "ledger_ob \<Rightarrow> u32 \<Rightarrow> bool" where
  "since_change o' step \<longleftrightarrow> unwrap_or 0 (ob_last_change_step o') \<le> step"

definition refresh_evidence :: "ledger_ob \<Rightarrow> ledger_evidence \<Rightarrow> ledger_evidence" where
  "refresh_evidence o' e =
     (if ev_obligation_id e = ob_id o' then e\<lparr>ev_fresh := since_change o' (ev_step e)\<rparr> else e)"

definition stronger :: "ProofLayer \<Rightarrow> ProofLayer \<Rightarrow> ProofLayer" where
  "stronger a b = (if layer_rank a < layer_rank b then b else a)"

text \<open>What the evidence of an obligation, with its freshness renewed, says.\<close>

definition known_support :: "ledger_ob \<Rightarrow> ledger_evidence \<Rightarrow> bool" where
  "known_support o' e \<longleftrightarrow>
     ev_obligation_id e = ob_id o' \<and> ev_polarity e = Supports \<and> ev_layer e \<noteq> UnknownLayer"

definition live_contradiction :: "ledger_ob \<Rightarrow> ledger_evidence \<Rightarrow> bool" where
  "live_contradiction o' e \<longleftrightarrow>
     ev_obligation_id e = ob_id o' \<and> ev_polarity e = Contradicts \<and> ev_fresh e \<and> covers (ev_layer e) UnitLayer"

definition refresh_obligation :: "ledger_evidence list \<Rightarrow> ledger_ob \<Rightarrow> ledger_ob" where
  "refresh_obligation evs o' =
     (let change = unwrap_or 0 (ob_last_change_step o');
          support = max_opt (map ev_step (filter (known_support o') evs));
          layer = foldl stronger UnknownLayer (map ev_layer (filter (\<lambda>e. known_support o' e \<and> ev_fresh e) evs));
          o1 = o'\<lparr>ob_observed_layer := layer, ob_last_evidence_step := support\<rparr>
      in if list_ex (live_contradiction o') evs then o1\<lparr>ob_state := Contradicted\<rparr>
         else if ob_state o' = ObVerified \<and> (case support of None \<Rightarrow> True | Some p \<Rightarrow> p < change)
         then o1\<lparr>ob_state := (if ob_last_claim_step o' \<noteq> None then Claimed else ObOpen)\<rparr>
         else o1)"

fun refresh_loop :: "ledger_ob list \<Rightarrow> ledger_evidence list \<Rightarrow> ledger_ob list \<times> ledger_evidence list" where
  "refresh_loop [] evs = ([], evs)"
| "refresh_loop (o' # os) evs =
     (if ob_state o' = Superseded
      then (let (os', evs') = refresh_loop os evs in (o' # os', evs'))
      else let evs1 = map (refresh_evidence o') evs;
               o1 = refresh_obligation evs1 o';
               (os', evs') = refresh_loop os evs1
           in (o1 # os', evs'))"

definition refresh_report :: "ledger_ob list \<Rightarrow> delegated_report \<Rightarrow> delegated_report" where
  "refresh_report os r =
     r\<lparr>dr_fresh := (case find (\<lambda>o'. ob_id o' = dr_obligation_id r) os of
        None \<Rightarrow> False | Some o' \<Rightarrow> since_change o' (dr_step r))\<rparr>"

definition refresh_states :: "ledger \<Rightarrow> ledger" where
  "refresh_states l =
     (let (os, evs) = refresh_loop (lg_obligations l) (lg_evidence l)
      in l\<lparr>lg_obligations := os, lg_evidence := evs,
           lg_delegated_reports := map (refresh_report os) (lg_delegated_reports l)\<rparr>)"

definition state_score :: "ObligationState \<Rightarrow> rat" where
  "state_score s = (case s of ObVerified \<Rightarrow> 1 | Claimed \<Rightarrow> 25 / 100 | _ \<Rightarrow> 0)"

definition severity :: "ObligationState \<Rightarrow> nat" where
  "severity s = (case s of Contradicted \<Rightarrow> 3 | Claimed \<Rightarrow> 2 | ObOpen \<Rightarrow> 1 | _ \<Rightarrow> 0)"

definition focus_le :: "ledger_ob \<Rightarrow> ledger_ob \<Rightarrow> bool" where
  "focus_le a b \<longleftrightarrow>
     (let sa = severity (ob_state a); sb = severity (ob_state b)
      in sa < sb \<or> sa = sb \<and>
         (ob_priority a < ob_priority b \<or>
          ob_priority a = ob_priority b \<and> ob_source_step b \<le> ob_source_step a))"

definition coverage_of :: "ledger_ob list \<Rightarrow> rat" where
  "coverage_of os =
     (let total = f32_sum (map ob_priority os);
          covered = f32_sum (map (\<lambda>o'. f32_round (ob_priority o' * state_score (ob_state o'))) os)
      in if total \<le> 1 / 8388608 then 0 else f32_clamp 0 1 (f32_div covered total))"

definition summarize_ledger :: "bool \<Rightarrow> ledger \<Rightarrow> ledger" where
  "summarize_ledger current_completion l0 =
     (let l = refresh_states l0;
          ob = (\<lambda>i. lg_obligations l ! i);
          act = active l; os = map ob act;
          count = (\<lambda>p. length (filter p os))
      in l\<lparr>lg_signals :=
             \<lparr>sg_active = length os, sg_open = count (\<lambda>o'. ob_state o' = ObOpen),
              sg_claimed_unverified = count (\<lambda>o'. ob_state o' = Claimed),
              sg_verified = count (\<lambda>o'. ob_state o' = ObVerified),
              sg_contradicted = count (\<lambda>o'. ob_state o' = Contradicted),
              sg_disputed = of_bool_nat (fm_current_state_disputed (lg_feedback l)),
              sg_stale = count (\<lambda>o'. ob_last_claim_step o' \<noteq> None \<and>
                (case (ob_last_change_step o', ob_last_evidence_step o') of
                   (Some c, Some p) \<Rightarrow> p < c | _ \<Rightarrow> False)),
              sg_layer_mismatches = count (\<lambda>o'. ob_last_claim_step o' \<noteq> None \<and>
                ob_required_layer o' \<noteq> UnknownLayer \<and>
                \<not> covers (ob_observed_layer o') (ob_required_layer o')),
              sg_coverage = coverage_of os,
              sg_completion_scope_gap = (current_completion \<and> list_ex (\<lambda>o'. ob_state o' \<noteq> ObVerified) os),
              sg_proof_deficit = (current_completion \<and>
                list_ex (\<lambda>o'. ob_state o' = ObOpen \<or> ob_state o' = Claimed) os)\<rparr>,
           lg_focus := max_by (\<lambda>i j. focus_le (ob i) (ob j)) (filter (\<lambda>i. ob_state (ob i) \<noteq> ObVerified) act)\<rparr>)"

end
