(* ===== verification/Ledger.thy ===== *)
theory Ledger
  imports Ledger_Base
begin

text \<open>
  The contract ledger, second part: which user turns found a contract, how a ledger is built from the
  steps of a session, its semantic facts and the results its agent reported, and what that ledger is
  worth. Positions in the list of obligations stay valid since obligations are only appended.
\<close>

section \<open>Contracts\<close>

definition document_shaped :: "string \<Rightarrow> bool" where
  "document_shaped t \<longleftrightarrow>
     structural_atoms t \<noteq> None \<or>
     (let lead = trim_start t;
          url = starts_with ''http://'' lead \<or> starts_with ''https://'' lead;
          sect = list_ex (\<lambda>l. starts_with ''#'' (trim_start l) \<or> snd (strip_marker (trim_start l))) (rust_lines t)
      in sect \<and> (url \<or> contains [CHR 0x60, CHR 0x60, CHR 0x60] t))"

definition input_default :: contract_input where
  "input_default = \<lparr>ci_anchor = None, ci_anchor_text = None, ci_candidates = [], ci_promoted = []\<rparr>"

definition admit_step :: "text_env \<Rightarrow> semantic_step \<Rightarrow> contract_input \<Rightarrow> contract_input" where
  "admit_step T s inp =
     (if ss_role s \<noteq> RUser \<or> ss_user_origin s \<noteq> Human \<or> \<not> is_substantive_goal T (ss_text s) then inp
      else if ci_anchor inp = None
      then inp\<lparr>ci_anchor := Some \<lparr>an_source_turn_id = ss_source_turn_id s, an_source_step = ss_index s,
                 an_reason = InitialHumanTurn\<rparr>, ci_anchor_text := Some (ss_text s)\<rparr>
      else if document_shaped (ss_text s)
      then inp\<lparr>ci_candidates := ci_candidates inp @
                 [\<lparr>cd_source_turn_id = ss_source_turn_id s, cd_source_step = ss_index s,
                   cd_text = ss_text s, cd_reason = AmbiguousDocument\<rparr>]\<rparr>
      else inp)"

definition contract_input_from_steps :: "text_env \<Rightarrow> semantic_step list \<Rightarrow> contract_input" where
  "contract_input_from_steps T steps = fold (admit_step T) steps input_default"

definition is_contract_candidate :: "contract_input \<Rightarrow> u32 \<Rightarrow> bool" where
  "is_contract_candidate inp step = list_ex (\<lambda>c. cd_source_step c = step) (ci_candidates inp)"

definition contract_input_from_steps_promoted ::
  "text_env \<Rightarrow> semantic_step list \<Rightarrow> u32 list \<Rightarrow> contract_input"
where
  "contract_input_from_steps_promoted T steps promoted =
     (let inp = contract_input_from_steps T steps; moved = (\<lambda>c. cd_source_turn_id c \<in> set promoted)
      in if promoted = [] then inp
         else inp\<lparr>ci_candidates := filter (\<lambda>c. \<not> moved c) (ci_candidates inp),
                  ci_promoted := map (\<lambda>c. c\<lparr>cd_reason := ExplicitPromotion\<rparr>) (filter moved (ci_candidates inp))\<rparr>)"

definition initial_human_input :: "text_env \<Rightarrow> string \<Rightarrow> semantic_step list \<Rightarrow> contract_input" where
  "initial_human_input T contract steps =
     (let matched = or_else
            (find (\<lambda>s. ss_role s = RUser \<and> normalized T (ss_text s) = normalized T contract) steps)
            (find (\<lambda>s. ss_role s = RUser \<and> is_substantive_goal T (ss_text s)) steps);
          (step, turn) = (case matched of None \<Rightarrow> (0, 0) | Some s \<Rightarrow> (ss_index s, ss_source_turn_id s))
      in \<lparr>ci_anchor = Some \<lparr>an_source_turn_id = turn, an_source_step = step, an_reason = InitialHumanTurn\<rparr>,
          ci_anchor_text = Some contract, ci_candidates = [], ci_promoted = []\<rparr>)"

definition add_atom :: "text_env \<Rightarrow> u32 \<Rightarrow> validated_atom \<Rightarrow> ledger \<Rightarrow> ledger" where
  "add_atom T step a l =
     add_obligation T l (va_text a) step 1 (va_kind a) Extractive (va_required_layer a)"

definition add_structural :: "text_env \<Rightarrow> u32 \<Rightarrow> string \<Rightarrow> ledger \<Rightarrow> ledger" where
  "add_structural T step a l = add_obligation T l a step 1 OtherAtom Structural UnknownLayer"

definition add_whole :: "text_env \<Rightarrow> u32 \<Rightarrow> string \<Rightarrow> ledger \<Rightarrow> ledger" where
  "add_whole T step t l = add_obligation T l t step 1 OtherAtom WholeContract UnknownLayer"

definition add_contract_delta ::
  "text_env \<Rightarrow> string \<Rightarrow> u32 \<Rightarrow> semantic_facts option \<Rightarrow> ledger \<Rightarrow> ledger"
where
  "add_contract_delta T t step facts l =
     (case structural_atoms t of
        Some atoms \<Rightarrow> fold (add_structural T step) atoms l
      | None \<Rightarrow>
          case Option.bind facts (\<lambda>f. validate_atom_proposal T t (sf_contract_atoms f) UserContract) of
            Some (atoms, _) \<Rightarrow> fold (add_atom T step) atoms l
          | None \<Rightarrow> if trim t \<noteq> [] then add_whole T step (trim t) l else l)"

section \<open>Continuation\<close>

definition seed_distances :: "sim \<Rightarrow> ledger_seed list \<Rightarrow> (nat \<times> rat) list" where
  "seed_distances fp seeds =
     sort_key snd (filter (\<lambda>(_, d). d \<le> CONTINUATION_MATCH_RADIUS)
       (map (\<lambda>(i, s). (i, distance fp (sd_fingerprint s))) (enumerate 0 seeds)))"

definition inherited_id :: "ledger_seed \<Rightarrow> string \<Rightarrow> string" where
  "inherited_id s oid = ''inherited-'' @ sd_source_ref s @ ''-'' @ oid"

definition inherited_evidence :: "ledger_seed \<Rightarrow> string \<Rightarrow> EvidencePolarity \<Rightarrow> ledger_evidence" where
  "inherited_evidence s oid pol =
     \<lparr>ev_id = inherited_id s oid, ev_obligation_id = oid, ev_step = 0, ev_source_kind = KOther,
      ev_layer = sd_observed_layer s, ev_polarity = pol, ev_strength = 1 / 2, ev_fresh = True,
      ev_inherited_from = Some (sd_source_ref s)\<rparr>"

definition inherit :: "ledger_seed \<Rightarrow> nat \<Rightarrow> ledger \<Rightarrow> ledger" where
  "inherit s i l =
     (let o0 = (raise_layer (sd_required_layer s) (lg_obligations l ! i))\<lparr>ob_observed_layer := sd_observed_layer s\<rparr>;
          oid = ob_id o0;
          o1 = (if sd_state s = ObVerified \<and> sd_observed_layer s \<noteq> UnknownLayer
                then o0\<lparr>ob_state := ObVerified, ob_last_claim_step := Some 0, ob_last_evidence_step := Some 0,
                         ob_evidence_ids := ob_evidence_ids o0 @ [inherited_id s oid]\<rparr>
                else if sd_state s = Contradicted
                then o0\<lparr>ob_state := Contradicted, ob_last_claim_step := Some 0,
                         ob_evidence_ids := ob_evidence_ids o0 @ [inherited_id s oid]\<rparr>
                else if sd_state s = Claimed \<or> sd_state s = ObVerified
                then o0\<lparr>ob_state := Claimed, ob_last_claim_step := Some 0\<rparr>
                else o0);
          evs = (if sd_state s = ObVerified \<and> sd_observed_layer s \<noteq> UnknownLayer
                 then [inherited_evidence s oid Supports]
                 else if sd_state s = Contradicted then [inherited_evidence s oid Contradicts] else [])
      in l\<lparr>lg_obligations := (lg_obligations l)[i := o1], lg_evidence := lg_evidence l @ evs,
           lg_continuation := (lg_continuation l)\<lparr>cm_exact_inherited := cm_exact_inherited (lg_continuation l) + 1\<rparr>\<rparr>)"

definition apply_seed :: "ledger_seed list \<Rightarrow> nat \<Rightarrow> ledger \<Rightarrow> ledger" where
  "apply_seed seeds i l =
     (case ob_fingerprint (lg_obligations l ! i) of
        None \<Rightarrow> l
      | Some fp \<Rightarrow>
          (case seed_distances fp seeds of
             [] \<Rightarrow> l
           | (k, best) # rest \<Rightarrow>
               let c = lg_continuation l
               in if rest \<noteq> [] \<and> snd (hd rest) - best < CONTINUATION_MATCH_MARGIN
                  then l\<lparr>lg_continuation := c\<lparr>cm_ambiguous_rejected := cm_ambiguous_rejected c + 1\<rparr>\<rparr>
                  else if EXACT_DISTANCE_EPSILON < best
                  then l\<lparr>lg_continuation := c\<lparr>cm_approximate_advisory := cm_approximate_advisory c + 1\<rparr>\<rparr>
                  else inherit (seeds ! k) i l))"

definition apply_continuation_seeds :: "ledger_seed list \<Rightarrow> ledger \<Rightarrow> ledger" where
  "apply_continuation_seeds seeds l =
     fold (apply_seed seeds) [0..<length (lg_obligations l)]
       (l\<lparr>lg_continuation := (lg_continuation l)\<lparr>cm_seeds := length seeds\<rparr>\<rparr>)"

section \<open>Tool uses and results of an episode\<close>

record pending_tool =
  pt_correlation_id :: "string option"
  pt_kind :: ToolKind
  pt_bound :: "nat list"
  pt_target :: "string option"
  pt_controller_bound :: bool

record resolved_probe =
  rp_correlation_id :: string
  rp_bound :: "nat list"
  rp_step :: u32
  rp_kind :: ToolKind
  rp_layer :: ProofLayer
  rp_failed :: bool
  rp_controller_bound :: bool

record resolved_delegate =
  rd_correlation_id :: string
  rd_bound :: "nat list"
  rd_step :: u32
  rd_failed :: bool

record episode_state =
  es_ledger :: ledger
  es_pending :: "pending_tool list"
  es_probes :: "resolved_probe list"
  es_delegates :: "resolved_delegate list"

text \<open>What is fixed during an episode.\<close>

record episode_ctx =
  ec_facts :: "semantic_facts option"
  ec_proof_tools :: nat
  ec_challenge_id :: "string option"
  ec_challenge_targets :: "nat list"

definition is_probe_kind :: "ToolKind \<Rightarrow> bool" where
  "is_probe_kind k \<longleftrightarrow> k = KInspect \<or> k = KSearch \<or> k = KExecute"

definition on_provenance :: "(provenance_metrics \<Rightarrow> provenance_metrics) \<Rightarrow> ledger \<Rightarrow> ledger" where
  "on_provenance f l = l\<lparr>lg_provenance := f (lg_provenance l)\<rparr>"

definition mark_changed :: "u32 \<Rightarrow> nat \<Rightarrow> ledger \<Rightarrow> ledger" where
  "mark_changed step i =
     on_obligation i (\<lambda>o'. o'\<lparr>ob_last_change_step := Some step,
       ob_state := (if ob_state o' = ObVerified then ObOpen else ob_state o')\<rparr>)"

definition on_tool_use :: "text_env \<Rightarrow> episode_ctx \<Rightarrow> semantic_step \<Rightarrow> episode_state \<Rightarrow> episode_state" where
  "on_tool_use T X s es =
     (let l1 = on_provenance (\<lambda>p. p\<lparr>pm_tool_uses := pm_tool_uses p + 1,
             pm_native_ids := pm_native_ids p + of_bool_nat (ss_correlation_id s \<noteq> None),
             pm_weak_anchors := pm_weak_anchors p + of_bool_nat (ss_correlation_id s = None),
             pm_unknown_capabilities := pm_unknown_capabilities p + of_bool_nat (ss_tool_kind s = KOther)\<rparr>)
             (es_ledger es);
          bound0 = bind_obligations T l1 (ss_tool_target s) (ss_correlation_id s) (ec_facts X);
          controlled = (ec_challenge_targets X \<noteq> [] \<and> is_probe_kind (ss_tool_kind s));
          bound = (if bound0 = [] \<and> controlled then ec_challenge_targets X else bound0);
          l2 = (if ss_tool_kind s = KModify then fold (mark_changed (ss_index s)) bound l1 else l1)
      in es\<lparr>es_ledger := l2,
            es_pending := es_pending es @
              [\<lparr>pt_correlation_id = ss_correlation_id s, pt_kind = ss_tool_kind s, pt_bound = bound,
                pt_target = ss_tool_target s, pt_controller_bound = controlled\<rparr>]\<rparr>)"

definition remove_at :: "nat \<Rightarrow> 'a list \<Rightarrow> 'a list" where
  "remove_at i xs = take i xs @ drop (Suc i) xs"

text \<open>The tool use a result belongs to: by its identifier, the only one without, or a late delegate.\<close>

definition find_tool ::
  "text_env \<Rightarrow> episode_ctx \<Rightarrow> ledger \<Rightarrow> semantic_step \<Rightarrow> pending_tool list \<Rightarrow> pending_tool option \<times> pending_tool list"
where
  "find_tool T X l s ps =
     (case Option.bind (ss_correlation_id s) (\<lambda>c. position (\<lambda>t. pt_correlation_id t = Some c) ps) of
        Some i \<Rightarrow> (Some (ps ! i), remove_at i ps)
      | None \<Rightarrow>
          if ss_correlation_id s = None \<and> length ps = 1 then (Some (hd ps), tl ps)
          else if ss_tool_kind s = KDelegate
          then (Some \<lparr>pt_correlation_id = ss_correlation_id s, pt_kind = KDelegate,
                  pt_bound = bind_obligations T l (ss_tool_target s) (ss_correlation_id s) (ec_facts X),
                  pt_target = ss_tool_target s, pt_controller_bound = False\<rparr>, ps)
          else (None, ps))"

definition push_report :: "semantic_step \<Rightarrow> string \<Rightarrow> nat \<Rightarrow> ledger \<Rightarrow> ledger" where
  "push_report s cid i l =
     (let rs = (if MAX_EVIDENCE \<le> length (lg_delegated_reports l) then tl (lg_delegated_reports l)
                else lg_delegated_reports l);
          o' = lg_obligations l ! i
      in l\<lparr>lg_delegated_reports := rs @
             [\<lparr>dr_id = ''delegate-'' @ dec (unat (ss_index s)) @ ''-'' @ ob_id o',
               dr_obligation_id = ob_id o', dr_step = ss_index s, dr_correlation_id = cid,
               dr_fresh = since_change o' (ss_index s), dr_failed = ss_is_error s\<rparr>]\<rparr>)"

text \<open>The oldest evidence makes room, and its obligation forgets it.\<close>

definition evict_evidence :: "ledger \<Rightarrow> ledger" where
  "evict_evidence l =
     (case lg_evidence l of
        [] \<Rightarrow> l
      | removed # rest \<Rightarrow>
          if length (lg_evidence l) < MAX_EVIDENCE then l
          else let l1 = l\<lparr>lg_evidence := rest\<rparr>
               in case position (\<lambda>o'. ob_id o' = ev_obligation_id removed) (lg_obligations l) of
                    None \<Rightarrow> l1
                  | Some i \<Rightarrow> on_obligation i (\<lambda>o'. o'\<lparr>ob_evidence_ids :=
                      filter (\<lambda>x. x \<noteq> ev_id removed) (ob_evidence_ids o')\<rparr>) l1)"

definition evidence_id :: "u32 \<Rightarrow> string \<Rightarrow> string" where
  "evidence_id step oid = ''ev-'' @ dec (unat step) @ ''-'' @ oid"

definition push_evidence ::
  "episode_ctx \<Rightarrow> semantic_step \<Rightarrow> pending_tool \<Rightarrow> string option \<Rightarrow> nat \<Rightarrow> ledger \<Rightarrow> ledger"
where
  "push_evidence X s t target i l =
     (let l1 = evict_evidence l;
          oid = ob_id (lg_obligations l1 ! i);
          eid = evidence_id (ss_index s) oid;
          l2 = on_obligation i (\<lambda>o'. o'\<lparr>ob_evidence_ids := ob_evidence_ids o' @ [eid]\<rparr>) l1;
          e = \<lparr>ev_id = eid, ev_obligation_id = oid, ev_step = ss_index s, ev_source_kind = pt_kind t,
               ev_layer = evidence_layer_hint (ec_facts X) (ss_correlation_id s) (ec_proof_tools X)
                 (layer_for (pt_kind t)),
               ev_polarity = (if ss_is_error s then Contradicts else Supports),
               ev_strength = strength_for (pt_kind t) (ss_is_error s), ev_fresh = True,
               ev_inherited_from = None\<rparr>;
          l3 = l2\<lparr>lg_evidence := lg_evidence l2 @ [e]\<rparr>
      in case target of
           None \<Rightarrow> l3
         | Some g \<Rightarrow>
             let edge = \<lparr>ed_obligation_id = oid, ed_target = g, ed_source_step = ss_index s\<rparr>
             in if edge \<in> set (lg_artifact_edges l3) then l3
                else l3\<lparr>lg_artifact_edges := lg_artifact_edges l3 @ [edge]\<rparr>)"

definition push_probe ::
  "episode_ctx \<Rightarrow> semantic_step \<Rightarrow> pending_tool \<Rightarrow> string \<Rightarrow> resolved_probe list \<Rightarrow> resolved_probe list"
where
  "push_probe X s t c ps =
     (if MAX_EVIDENCE \<le> length ps then tl ps else ps) @
       [\<lparr>rp_correlation_id = c, rp_bound = pt_bound t, rp_step = ss_index s, rp_kind = pt_kind t,
         rp_layer = evidence_layer_hint (ec_facts X) (Some c) (ec_proof_tools X) (layer_for (pt_kind t)),
         rp_failed = ss_is_error s, rp_controller_bound = pt_controller_bound t\<rparr>]"

definition on_result :: "text_env \<Rightarrow> episode_ctx \<Rightarrow> semantic_step \<Rightarrow> episode_state \<Rightarrow> episode_state" where
  "on_result T X s es =
     (let l1 = on_provenance (\<lambda>p. p\<lparr>
             pm_weak_anchors := pm_weak_anchors p + of_bool_nat (ss_correlation_id s = None),
             pm_delegate_reports := pm_delegate_reports p + of_bool_nat (ss_role s = RDelegateResult)\<rparr>)
             (es_ledger es)
      in case find_tool T X l1 s (es_pending es) of
           (None, ps) \<Rightarrow>
             es\<lparr>es_ledger := on_provenance (\<lambda>p. p\<lparr>pm_unmatched_results := pm_unmatched_results p + 1\<rparr>) l1,
                es_pending := ps\<rparr>
         | (Some t, ps) \<Rightarrow>
             let l2 = on_provenance (\<lambda>p. p\<lparr>pm_weakly_paired_results := pm_weakly_paired_results p +
                    of_bool_nat (ss_correlation_id s = None \<and> pt_correlation_id t = None)\<rparr>) l1;
                 probes = (case ss_correlation_id s of
                    Some c \<Rightarrow> if is_probe_kind (pt_kind t) then push_probe X s t c (es_probes es) else es_probes es
                  | None \<Rightarrow> es_probes es);
                 es1 = es\<lparr>es_ledger := l2, es_pending := ps, es_probes := probes\<rparr>
             in if pt_kind t = KDelegate
                then (case ss_correlation_id s of
                        None \<Rightarrow> es1
                      | Some c \<Rightarrow>
                          es1\<lparr>es_ledger := fold (push_report s c) (pt_bound t) l2,
                              es_delegates := es_delegates es @
                                [\<lparr>rd_correlation_id = c, rd_bound = pt_bound t, rd_step = ss_index s,
                                  rd_failed = ss_is_error s\<rparr>]\<rparr>)
                else if pt_kind t = KModify \<or> pt_kind t = KOther then es1
                else let target = (if ss_is_error s then None
                           else opt_filter (\<lambda>g. trim g \<noteq> []) (pt_target t))
                     in es1\<lparr>es_ledger := fold (push_evidence X s t target) (pt_bound t) l2\<rparr>)"

definition episode_step :: "text_env \<Rightarrow> episode_ctx \<Rightarrow> semantic_step \<Rightarrow> episode_state \<Rightarrow> episode_state" where
  "episode_step T X s es =
     (case ss_role s of
        RToolUse \<Rightarrow> on_tool_use T X s es
      | RToolResult \<Rightarrow> on_result T X s es
      | RDelegateResult \<Rightarrow> on_result T X s es
      | RUser \<Rightarrow> es
      | RAssistant \<Rightarrow> es)"

section \<open>The result an agent reported\<close>

definition on_feedback :: "(feedback_metrics \<Rightarrow> feedback_metrics) \<Rightarrow> ledger \<Rightarrow> ledger" where
  "on_feedback f l = l\<lparr>lg_feedback := f (lg_feedback l)\<rparr>"

text \<open>Support that was admitted on the way, and is at least as recent as any contradiction.\<close>

definition admitted_completion_support :: "ledger \<Rightarrow> nat \<Rightarrow> bool" where
  "admitted_completion_support l i =
     (let o' = lg_obligations l ! i;
          mine = filter (\<lambda>e. ev_obligation_id e = ob_id o' \<and> since_change o' (ev_step e)) (lg_evidence l);
          support = max_opt (map ev_step (filter (\<lambda>e. ev_polarity e = Supports \<and> ev_layer e \<noteq> UnknownLayer \<and>
            covers (ev_layer e) (ob_required_layer o')) mine));
          contra = max_opt (map ev_step (filter (\<lambda>e. ev_polarity e = Contradicts) mine))
      in case (support, contra) of
           (Some s, Some c) \<Rightarrow> c \<le> s
         | (Some s, None) \<Rightarrow> True
         | _ \<Rightarrow> False)"

definition grounded_blocker :: "ledger \<Rightarrow> health_result \<Rightarrow> nat list \<Rightarrow> resolved_probe list \<Rightarrow> nat \<times> bool" where
  "grounded_blocker l r targets probes =
     (if hr_status r \<noteq> StBlocked then (0, False)
      else let tset = filter (\<lambda>i. ob_state (lg_obligations l ! i) \<noteq> ObVerified) targets;
               refs = hr_evidence_tool_call_ids r;
               hits = (\<lambda>c. filter (\<lambda>i. i \<in> set tset)
                 (concat (map rp_bound (filter (\<lambda>p. rp_correlation_id p = c) probes))));
               matched = length (filter (\<lambda>c. hits c \<noteq> []) refs);
               covered = concat (map hits refs)
           in (matched, refs \<noteq> [] \<and> tset \<noteq> [] \<and> matched = length refs \<and>
                 list_all (\<lambda>i. i \<in> set covered) tset))"

definition reference_targets :: "ledger \<Rightarrow> nat list \<Rightarrow> resolved_delegate list \<Rightarrow> string \<Rightarrow> nat list" where
  "reference_targets l targets delegates c =
     filter (\<lambda>i. list_ex (\<lambda>d. rd_correlation_id d = c \<and> \<not> rd_failed d \<and> i \<in> set (rd_bound d) \<and>
         since_change (lg_obligations l ! i) (rd_step d)) delegates) targets"

definition legacy_conflict :: "ledger \<Rightarrow> health_result \<Rightarrow> nat list \<Rightarrow> resolved_delegate list \<Rightarrow> nat \<times> bool" where
  "legacy_conflict l r targets delegates =
     (if hr_state_conflict r \<noteq> Unresolved then (0, False)
      else let refs = hr_conflict_tool_call_ids r;
               sets = filter (\<lambda>ts. ts \<noteq> []) (map (reference_targets l targets delegates) refs);
               common = filter (\<lambda>i. list_all (\<lambda>ts. i \<in> set ts) sets) targets
           in (length sets, refs \<noteq> [] \<and> length sets = length refs \<and> common \<noteq> []))"

definition add_topic_metrics :: "topic_metrics \<Rightarrow> topic_metrics \<Rightarrow> topic_metrics" where
  "add_topic_metrics a b =
     \<lparr>tm_certificates = tm_certificates a + tm_certificates b, tm_grounded = tm_grounded a + tm_grounded b,
      tm_rejected_unknown_version = tm_rejected_unknown_version a + tm_rejected_unknown_version b,
      tm_same_obligation = tm_same_obligation a + tm_same_obligation b,
      tm_multi_obligation = tm_multi_obligation a + tm_multi_obligation b,
      tm_literal_intersections = tm_literal_intersections a + tm_literal_intersections b,
      tm_vector_candidates = tm_vector_candidates a + tm_vector_candidates b,
      tm_declared_cross_topic = tm_declared_cross_topic a + tm_declared_cross_topic b,
      tm_source_mask = tm_source_mask a OR tm_source_mask b\<rparr>"

definition append_edges :: "topic_intersection list \<Rightarrow> topic_intersection list \<Rightarrow> topic_intersection list" where
  "append_edges old new = drop (length old + length new - MAX_EVIDENCE) old @ new"

record latest_feedback =
  lf_episode :: u32
  lf_status :: HealthResultStatus
  lf_grounded_blocker :: bool
  lf_relation :: ContractRelation
  lf_grounded_conflict :: bool
  lf_source_mask :: u8

definition feedback_targets :: "ledger \<Rightarrow> string option \<Rightarrow> health_result \<Rightarrow> nat list" where
  "feedback_targets l challenge_id r =
     (if challenge_id \<noteq> None
      then (case position (\<lambda>o'. ob_id o' = hr_steer_id r) (lg_obligations l) of None \<Rightarrow> [] | Some i \<Rightarrow> [i])
      else active l)"

definition touches :: "nat list \<Rightarrow> resolved_probe \<Rightarrow> bool" where
  "touches targets p = list_ex (\<lambda>i. i \<in> set targets) (rp_bound p)"

text \<open>A failed execution after the last change of everything it is bound to.\<close>

definition fresh_failure :: "ledger \<Rightarrow> nat list \<Rightarrow> resolved_probe \<Rightarrow> bool" where
  "fresh_failure l targets p \<longleftrightarrow>
     rp_failed p \<and> rp_kind p = KExecute \<and>
     unwrap_or 0 (max_opt (List.map_filter (\<lambda>i. ob_last_change_step (lg_obligations l ! i)) (rp_bound p))) \<le> rp_step p \<and>
     touches targets p"

text \<open>A successful execution bound to an obligation, after its last change and of its layer.\<close>

definition covers_target :: "ledger \<Rightarrow> nat \<Rightarrow> resolved_probe \<Rightarrow> bool" where
  "covers_target l i p \<longleftrightarrow>
     \<not> rp_failed p \<and> rp_kind p = KExecute \<and> i \<in> set (rp_bound p) \<and>
     since_change (lg_obligations l ! i) (rp_step p) \<and> rp_layer p \<noteq> UnknownLayer \<and>
     covers (rp_layer p) (ob_required_layer (lg_obligations l ! i))"

definition receipt :: "nat list \<Rightarrow> resolved_probe \<Rightarrow> bool" where
  "receipt targets p \<longleftrightarrow> \<not> rp_failed p \<and> rp_kind p = KExecute \<and> touches targets p"

definition set_state :: "ObligationState \<Rightarrow> nat \<Rightarrow> ledger \<Rightarrow> ledger" where
  "set_state st i = on_obligation i (\<lambda>o'. o'\<lparr>ob_state := st\<rparr>)"

definition mark_claimed :: "u32 \<Rightarrow> nat \<Rightarrow> ledger \<Rightarrow> ledger" where
  "mark_claimed step i =
     on_obligation i (\<lambda>o'. o'\<lparr>ob_last_claim_step := Some step,
       ob_state := (if ob_state o' = Contradicted \<or> ob_state o' = ObVerified then ob_state o' else Claimed)\<rparr>)"

definition add_receipts :: "nat \<Rightarrow> ledger \<Rightarrow> ledger" where
  "add_receipts n = on_feedback (\<lambda>f. f\<lparr>fm_controller_evidence_receipts := fm_controller_evidence_receipts f + n\<rparr>)"

text \<open>A completed claim: every target is claimed, and those with admitted or fresh proof are verified.\<close>

definition claimed_complete ::
  "u32 \<Rightarrow> bool \<Rightarrow> nat list \<Rightarrow> resolved_probe list \<Rightarrow> ledger \<Rightarrow> ledger"
where
  "claimed_complete claim_step remaining_risk targets probes l0 =
     (let l = fold (mark_claimed claim_step) targets l0;
          admitted = filter (admitted_completion_support l) targets;
          l1 = on_feedback (\<lambda>f. f\<lparr>fm_matched_evidence_refs := fm_matched_evidence_refs f + length admitted\<rparr>) l;
          failure = list_ex (fresh_failure l1 targets) probes;
          covered = (targets \<noteq> [] \<and> \<not> failure \<and> list_all (\<lambda>i. list_ex (covers_target l1 i) probes) targets);
          newly = list_ex (\<lambda>i. ob_state (lg_obligations l1 ! i) \<noteq> ObVerified) targets;
          l2 = (if covered \<and> newly then add_receipts (length (filter (receipt targets) probes)) l1 else l1);
          proved = (if covered then targets else admitted)
      in if \<not> remaining_risk \<and> \<not> failure \<and> (admitted \<noteq> [] \<or> covered)
         then fold (set_state ObVerified) proved l2 else l2)"

datatype flow = Skip | Proceed "HealthResultStatus option"

definition record_feedback ::
  "health_result \<Rightarrow> nat \<Rightarrow> nat \<Rightarrow> topic_metrics \<Rightarrow> topic_intersection list \<Rightarrow> ledger \<Rightarrow> ledger"
where
  "record_feedback r blockers conflicts tm edges l =
     (on_feedback (\<lambda>f. f\<lparr>fm_accepted := fm_accepted f + 1,
         fm_evidence_refs := fm_evidence_refs f + length (hr_evidence_tool_call_ids r),
         fm_conflict_refs := fm_conflict_refs f + length (hr_conflict_tool_call_ids r),
         fm_reported_expansions := fm_reported_expansions f + of_bool_nat (hr_contract_relation r = Expands),
         fm_reported_replacements := fm_reported_replacements f + of_bool_nat (hr_contract_relation r = Replaces),
         fm_matched_blocker_probe_refs := fm_matched_blocker_probe_refs f + blockers,
         fm_matched_conflict_refs := fm_matched_conflict_refs f + conflicts\<rparr>) l)
       \<lparr>lg_topic_edges := append_edges (lg_topic_edges l) edges,
        lg_topic_intersections := add_topic_metrics (lg_topic_intersections l) tm\<rparr>"

definition accept_feedback ::
  "semantic_step list \<Rightarrow> episode list \<Rightarrow> episode \<Rightarrow> semantic_step \<Rightarrow> string option \<Rightarrow> resolved_probe list \<Rightarrow>
   episode_state \<Rightarrow> health_result \<Rightarrow> latest_feedback option \<Rightarrow> flow \<times> ledger \<times> latest_feedback option"
where
  "accept_feedback steps all e assistant challenge_id prior es r latest =
     (let l = es_ledger es; targets = feedback_targets l challenge_id r
      in if targets = []
         then (Skip, on_feedback (\<lambda>f. f\<lparr>fm_rejected := fm_rejected f + 1\<rparr>) l, latest)
         else let (blockers, blocked) = grounded_blocker l r targets (es_probes es);
                  (conflicts, legacy) = legacy_conflict l r targets (es_delegates es);
                  (tm, edges) = evaluate_conflict_certificates steps all (ep_ordinal e) (ss_index assistant)
                    targets l (hr_state_conflicts r);
                  l1 = record_feedback r blockers conflicts tm edges l;
                  latest' = Some \<lparr>lf_episode = ep_ordinal e, lf_status = hr_status r, lf_grounded_blocker = blocked,
                    lf_relation = hr_contract_relation r, lf_grounded_conflict = (legacy \<or> 0 < tm_grounded tm),
                    lf_source_mask = tm_source_mask tm OR (if legacy then SOURCE_DELEGATE else 0)\<rparr>
              in if hr_status r \<noteq> StClaimedComplete then (Skip, l1, latest')
                 else (Proceed (Some (hr_status r)),
                       claimed_complete (ss_index assistant) (hr_remaining_risk r) targets
                         (es_probes es @ (if challenge_id \<noteq> None then prior else [])) l1, latest'))"

definition episode_feedback ::
  "(string \<Rightarrow> wire_health_result option) \<Rightarrow> semantic_step list \<Rightarrow> episode list \<Rightarrow> episode \<Rightarrow> string option \<Rightarrow>
   resolved_probe list \<Rightarrow> episode_state \<Rightarrow> latest_feedback option \<Rightarrow> flow \<times> ledger \<times> latest_feedback option"
where
  "episode_feedback from_str steps all e challenge_id prior es latest =
     (let assistant = episode_assistant steps e;
          envelope = (challenge_id = None \<and>
            (case assistant of
               None \<Rightarrow> False
             | Some s \<Rightarrow> contains HEALTH_RESULT_OPEN (ss_text s) \<or>
                         ends_with HEALTH_RESULT_CLOSE (trim_end (ss_text s))));
          expected = or_else challenge_id (if envelope then Some SESSION_HEALTH_STEER_ID else None);
          l0 = (if challenge_id \<noteq> None
                then on_feedback (\<lambda>f. f\<lparr>fm_challenged := fm_challenged f + 1\<rparr>) (es_ledger es) else es_ledger es);
          rejected = (Proceed None, on_feedback (\<lambda>f. f\<lparr>fm_rejected := fm_rejected f + 1\<rparr>) l0, latest)
      in case expected of
           None \<Rightarrow> (Proceed None, es_ledger es, latest)
         | Some i \<Rightarrow>
             (case assistant of
                None \<Rightarrow> rejected
              | Some s \<Rightarrow>
                  (case parse_health_result from_str (ss_text s) i of
                     Inl _ \<Rightarrow> rejected
                   | Inr r \<Rightarrow> accept_feedback steps all e s challenge_id prior (es\<lparr>es_ledger := l0\<rparr>) r latest)))"

section \<open>What the controller saw, and semantic facts\<close>

definition controller_verifies ::
  "nat list \<Rightarrow> resolved_probe list \<Rightarrow> u32 option \<Rightarrow> ledger \<Rightarrow> ledger"
where
  "controller_verifies targets probes terminal l =
     (let mine = filter rp_controller_bound probes;
          latest = max_opt (map rp_step (filter (\<lambda>p. rp_kind p = KExecute \<and> touches targets p) mine));
          failure = list_ex (fresh_failure l targets) mine;
          covered = (targets \<noteq> [] \<and> list_all (\<lambda>i. list_ex (covers_target l i) mine) targets);
          after = (case (terminal, latest) of (Some t, Some p) \<Rightarrow> p < t | _ \<Rightarrow> False);
          newly = length (filter (\<lambda>i. ob_state (lg_obligations l ! i) \<noteq> ObVerified) targets);
          l1 = (if 0 < newly then add_receipts (length (filter (receipt targets) mine)) l else l)
      in if covered \<and> \<not> failure \<and> after
         then fold (\<lambda>i. on_obligation i (\<lambda>o'. o'\<lparr>ob_last_claim_step := terminal, ob_state := ObVerified\<rparr>)) targets l1
         else l)"

definition fresh_support :: "ledger_evidence list \<Rightarrow> ledger_ob \<Rightarrow> bool" where
  "fresh_support evs o' =
     list_ex (\<lambda>e. known_support o' e \<and> since_change o' (ev_step e) \<and> covers (ev_layer e) (ob_required_layer o')) evs"

definition apply_facts :: "semantic_facts \<Rightarrow> u32 \<Rightarrow> nat \<Rightarrow> ledger \<Rightarrow> ledger" where
  "apply_facts f claim_step i l =
     on_obligation i (\<lambda>o0.
       let o1 = (if ob_origin o0 \<noteq> Extractive \<and> sf_required_evidence_layer f \<noteq> UnknownLayer
                 then o0\<lparr>ob_required_layer := sf_required_evidence_layer f\<rparr> else o0);
           o2 = (if is_yes (sf_completion_claim f)
                 then o1\<lparr>ob_last_claim_step := Some claim_step, ob_state := Claimed\<rparr> else o1)
       in if is_yes (sf_verification_claim f) \<and> rs_relation (sf_evidence_relation f) = RelSupports \<and>
             fresh_support (lg_evidence l) o2
          then o2\<lparr>ob_state := ObVerified\<rparr> else o2) l"

definition facts_targets :: "semantic_step list \<Rightarrow> episode \<Rightarrow> ledger \<Rightarrow> nat list" where
  "facts_targets steps e l =
     (let own = (case ep_contract_turn e of
            None \<Rightarrow> []
          | Some u \<Rightarrow> filter (\<lambda>i. ob_source_step (lg_obligations l ! i) = ss_index (steps ! u))
                        [0..<length (lg_obligations l)])
      in if own = [] then active l else own)"

definition facts_claim_step :: "semantic_step list \<Rightarrow> episode \<Rightarrow> u32" where
  "facts_claim_step steps e =
     (case episode_assistant steps e of
        Some s \<Rightarrow> ss_index s
      | None \<Rightarrow> (case episode_steps steps e of [] \<Rightarrow> 0 | ss \<Rightarrow> ss_index (last ss)))"

section \<open>An episode\<close>

record build_state =
  bs_ledger :: ledger
  bs_latest :: "latest_feedback option"
  bs_recent :: "(u32 \<times> resolved_probe) list"

definition expire_probes :: "u32 \<Rightarrow> (u32 \<times> resolved_probe) list \<Rightarrow> (u32 \<times> resolved_probe) list" where
  "expire_probes ordinal =
     dropWhile (\<lambda>(o', _). of_nat HEALTH_WINDOW \<le> (if ordinal < o' then 0 else ordinal - o'))"

definition challenge_of :: "semantic_step list \<Rightarrow> episode \<Rightarrow> string option" where
  "challenge_of steps e = Option.bind (ep_contract_turn e) (\<lambda>u. health_steer_id (ss_text (steps ! u)))"

definition episode_context ::
  "semantic_step list \<Rightarrow> semantic_facts list \<Rightarrow> episode \<Rightarrow> ledger \<Rightarrow> episode_ctx"
where
  "episode_context steps semantic e l =
     (let cid = challenge_of steps e
      in \<lparr>ec_facts = facts_of semantic e,
          ec_proof_tools = length (filter (\<lambda>s. ss_role s = RToolUse \<and> is_probe_kind (ss_tool_kind s))
            (episode_steps steps e)),
          ec_challenge_id = cid,
          ec_challenge_targets = (case Option.bind cid (\<lambda>c. position (\<lambda>o'. ob_id o' = c) (lg_obligations l)) of
            None \<Rightarrow> [] | Some i \<Rightarrow> [i])\<rparr>)"

definition run_episode ::
  "text_env \<Rightarrow> (string \<Rightarrow> wire_health_result option) \<Rightarrow> semantic_step list \<Rightarrow> semantic_facts list \<Rightarrow>
   episode list \<Rightarrow> episode \<Rightarrow> build_state \<Rightarrow> build_state"
where
  "run_episode T from_str steps semantic all e bs =
     (let recent = expire_probes (ep_ordinal e) (bs_recent bs);
          X = episode_context steps semantic e (bs_ledger bs);
          prior = map snd recent;
          es = fold (episode_step T X) (episode_steps steps e)
                 \<lparr>es_ledger = bs_ledger bs, es_pending = [], es_probes = [], es_delegates = []\<rparr>
      in case episode_feedback from_str steps all e (ec_challenge_id X) prior es (bs_latest bs) of
           (Skip, l, latest) \<Rightarrow> bs\<lparr>bs_ledger := l, bs_latest := latest, bs_recent := recent\<rparr>
         | (Proceed status, l, latest) \<Rightarrow>
             let l1 = (if ec_challenge_id X \<noteq> None \<and> status = None
                  then controller_verifies (ec_challenge_targets X) (es_probes es @ prior)
                         (map_option ss_index (episode_assistant steps e)) l
                  else l);
                 recent1 = recent @ map (Pair (ep_ordinal e)) (filter rp_controller_bound (es_probes es));
                 l2 = (case ec_facts X of
                    None \<Rightarrow> l1
                  | Some f \<Rightarrow> fold (apply_facts f (facts_claim_step steps e)) (facts_targets steps e l1) l1)
             in \<lparr>bs_ledger = l2, bs_latest = latest, bs_recent = recent1\<rparr>)"

section \<open>Building a ledger\<close>

definition atomize_anchor ::
  "text_env \<Rightarrow> semantic_facts list \<Rightarrow> string \<Rightarrow> u32 \<Rightarrow> ledger \<Rightarrow> ledger"
where
  "atomize_anchor T semantic t base l =
     (case structural_atoms t of
        Some atoms \<Rightarrow>
          fold (add_structural T base) atoms
            (l\<lparr>lg_atomization := \<lparr>am_mode = StructuralMode, am_proposed = length atoms,
                 am_accepted = length atoms, am_signal_coverage = 1, am_literals_preserved = True,
                 am_clause_boundaries_preserved = True, am_source_conserved = True\<rparr>\<rparr>)
      | None \<Rightarrow>
          case best_semantic_atomization T t semantic Goal of
            Some (atoms, m) \<Rightarrow> fold (add_atom T base) atoms (l\<lparr>lg_atomization := m\<rparr>)
          | None \<Rightarrow>
              let w = trim t;
                  l1 = l\<lparr>lg_atomization := \<lparr>am_mode = WholeMode,
                     am_proposed = length (filter (\<lambda>h. ah_source h = Goal) (concat (map sf_contract_atoms semantic))),
                     am_accepted = of_bool_nat (w \<noteq> []), am_signal_coverage = (if w = [] then 0 else 1),
                     am_literals_preserved = True, am_clause_boundaries_preserved = True,
                     am_source_conserved = True\<rparr>\<rparr>
              in if w \<noteq> [] then add_whole T base w l1 else l1)"

text \<open>The user turn of an episode that may change the contract.\<close>

definition delta_turn :: "contract_input \<Rightarrow> semantic_step list \<Rightarrow> episode \<Rightarrow> semantic_step option" where
  "delta_turn inp steps e =
     opt_filter (\<lambda>s. unwrap_or [] (ci_anchor_text inp) \<noteq> [] \<and> \<not> is_contract_candidate inp (ss_index s))
       (map_option ((!) steps) (ep_contract_turn e))"

definition apply_correction ::
  "text_env \<Rightarrow> semantic_step list \<Rightarrow> semantic_facts list \<Rightarrow> contract_input \<Rightarrow> episode \<Rightarrow> ledger \<Rightarrow> ledger"
where
  "apply_correction T steps semantic inp e l =
     (case (facts_of semantic e, delta_turn inp steps e) of
        (Some f, Some s) \<Rightarrow>
          if is_yes (sf_correction f) then add_contract_delta T (ss_text s) (ss_index s) (Some f) l else l
      | _ \<Rightarrow> l)"

definition apply_expansion ::
  "text_env \<Rightarrow> (string \<Rightarrow> wire_health_result option) \<Rightarrow> semantic_step list \<Rightarrow> semantic_facts list \<Rightarrow>
   contract_input \<Rightarrow> episode \<Rightarrow> ledger \<Rightarrow> ledger"
where
  "apply_expansion T from_str steps semantic inp e l =
     (case (delta_turn inp steps e, episode_assistant steps e) of
        (Some s, Some a) \<Rightarrow>
          if health_steer_id (ss_text s) \<noteq> None then l
          else (case parse_health_result from_str (ss_text a) SESSION_HEALTH_STEER_ID of
                  Inr r \<Rightarrow>
                    if hr_contract_relation r = Expands
                    then add_contract_delta T (ss_text s) (ss_index s) (facts_of semantic e) l else l
                | Inl _ \<Rightarrow> l)
      | _ \<Rightarrow> l)"

definition add_promoted :: "text_env \<Rightarrow> contract_candidate \<Rightarrow> ledger \<Rightarrow> ledger" where
  "add_promoted T c = add_contract_delta T (cd_text c) (cd_source_step c) None"

definition contract_of ::
  "text_env \<Rightarrow> (string \<Rightarrow> wire_health_result option) \<Rightarrow> semantic_step list \<Rightarrow> semantic_facts list \<Rightarrow>
   contract_input \<Rightarrow> ledger"
where
  "contract_of T from_str steps semantic inp =
     (let all = episodes steps;
          l0 = ledger_default\<lparr>
            lg_epoch := of_nat (length (filter (\<lambda>f. is_yes (sf_pivot f)) semantic)),
            lg_candidates := ci_candidates inp\<rparr>;
          base = (case ci_anchor inp of None \<Rightarrow> 0 | Some a \<Rightarrow> an_source_step a);
          l1 = atomize_anchor T semantic (unwrap_or [] (ci_anchor_text inp)) base l0;
          l2 = fold (apply_correction T steps semantic inp) all l1;
          l3 = fold (apply_expansion T from_str steps semantic inp) all l2
      in fold (add_promoted T) (ci_promoted inp) l3)"

definition current_feedback :: "u32 option \<Rightarrow> latest_feedback option \<Rightarrow> feedback_metrics \<Rightarrow> feedback_metrics" where
  "current_feedback final latest f =
     (let now = opt_filter (\<lambda>x. Some (lf_episode x) = final) latest;
          says = (\<lambda>p. case now of None \<Rightarrow> False | Some x \<Rightarrow> p x)
      in f\<lparr>fm_current_accepted := says (\<lambda>_. True),
           fm_current_working := says (\<lambda>x. lf_status x = StWorking),
           fm_current_blocked := says (\<lambda>x. lf_status x = StBlocked),
           fm_current_blocker_grounded := says (\<lambda>x. lf_status x = StBlocked \<and> lf_grounded_blocker x),
           fm_current_expands_contract := says (\<lambda>x. lf_relation x = Expands),
           fm_current_replaces_contract := says (\<lambda>x. lf_relation x = Replaces),
           fm_current_state_disputed := says lf_grounded_conflict,
           fm_current_conflict_source_mask :=
             (case now of None \<Rightarrow> 0 | Some x \<Rightarrow> if lf_grounded_conflict x then lf_source_mask x else 0),
           fm_current_claimed_complete := says (\<lambda>x. lf_status x = StClaimedComplete)\<rparr>)"

definition build_ledger_core ::
  "text_env \<Rightarrow> (string \<Rightarrow> wire_health_result option) \<Rightarrow> semantic_step list \<Rightarrow> semantic_facts list \<Rightarrow>
   contract_input \<Rightarrow> ledger_seed list \<Rightarrow> ledger"
where
  "build_ledger_core T from_str steps semantic inp seeds =
     (let all = episodes steps;
          l0 = apply_continuation_seeds seeds (contract_of T from_str steps semantic inp);
          bs = fold (run_episode T from_str steps semantic all) all
                 \<lparr>bs_ledger = l0, bs_latest = None, bs_recent = []\<rparr>;
          final = (if all = [] then None else Some (ep_ordinal (last all)));
          l1 = refresh_states (bs_ledger bs);
          l2 = on_feedback (current_feedback final (bs_latest bs)) l1;
          said = (case max_by (\<lambda>a b. sf_episode a \<le> sf_episode b) semantic of
            None \<Rightarrow> False | Some f \<Rightarrow> is_yes (sf_completion_claim f))
      in summarize_ledger (said \<or> fm_current_claimed_complete (lg_feedback l2)) l2)"

definition build_contract_ledger_with_seeds ::
  "text_env \<Rightarrow> (string \<Rightarrow> wire_health_result option) \<Rightarrow> semantic_step list \<Rightarrow> semantic_facts list \<Rightarrow> string \<Rightarrow>
   ledger_seed list \<Rightarrow> ledger"
where
  "build_contract_ledger_with_seeds T from_str steps semantic contract seeds =
     build_ledger_core T from_str steps semantic (initial_human_input T contract steps) seeds"

end
