(* ===== verification/Ledger_Props.thy ===== *)
theory Ledger_Props
  imports Ledger
begin

text \<open>
  What a built contract ledger is worth: how states follow from evidence, where evidence comes from,
  what enters the contract, and what the signals count.
\<close>

section \<open>Renewing states\<close>

definition refresh_one :: "ledger_evidence list \<Rightarrow> ledger_ob \<Rightarrow> ledger_ob" where
  "refresh_one evs o' =
     (if ob_state o' = Superseded then o' else refresh_obligation (map (refresh_evidence o') evs) o')"

lemma refresh_evidence_simps [simp]:
  "ev_obligation_id (refresh_evidence o' e) = ev_obligation_id e"
  "ev_step (refresh_evidence o' e) = ev_step e" "ev_polarity (refresh_evidence o' e) = ev_polarity e"
  "ev_layer (refresh_evidence o' e) = ev_layer e" "ev_id (refresh_evidence o' e) = ev_id e"
  "ev_source_kind (refresh_evidence o' e) = ev_source_kind e"
  "ev_inherited_from (refresh_evidence o' e) = ev_inherited_from e"
  by (simp_all add: refresh_evidence_def)

lemma refresh_other: "ev_obligation_id e \<noteq> ob_id o' \<Longrightarrow> refresh_evidence o' e = e"
  by (simp add: refresh_evidence_def)

lemma refresh_twice: "ob_id o1 = ob_id o2 \<Longrightarrow> ob_last_change_step o1 = ob_last_change_step o2 \<Longrightarrow>
  refresh_evidence o1 (refresh_evidence o2 e) = refresh_evidence o1 e"
  by (simp add: refresh_evidence_def since_change_def)

lemma refresh_obligation_fields [simp]:
  "ob_id (refresh_obligation evs o') = ob_id o'"
  "ob_last_change_step (refresh_obligation evs o') = ob_last_change_step o'"
  "ob_last_claim_step (refresh_obligation evs o') = ob_last_claim_step o'"
  "ob_priority (refresh_obligation evs o') = ob_priority o'"
  "ob_source_step (refresh_obligation evs o') = ob_source_step o'"
  "ob_text (refresh_obligation evs o') = ob_text o'"
  "ob_required_layer (refresh_obligation evs o') = ob_required_layer o'"
  by (simp_all add: refresh_obligation_def Let_def)

lemma refresh_one_fields [simp]:
  "ob_id (refresh_one evs o') = ob_id o'"
  "ob_last_change_step (refresh_one evs o') = ob_last_change_step o'"
  "ob_last_claim_step (refresh_one evs o') = ob_last_claim_step o'"
  "ob_priority (refresh_one evs o') = ob_priority o'"
  "ob_source_step (refresh_one evs o') = ob_source_step o'"
  "ob_text (refresh_one evs o') = ob_text o'"
  by (simp_all add: refresh_one_def)

text \<open>Only the evidence of an obligation decides its state, so the order of the obligations does not.\<close>

lemma refresh_obligation_cong:
  assumes "filter (\<lambda>e. ev_obligation_id e = ob_id o') evs = filter (\<lambda>e. ev_obligation_id e = ob_id o') evs'"
  shows "refresh_obligation evs o' = refresh_obligation evs' o'"
proof -
  have f: "filter P xs = filter P (filter (\<lambda>e. ev_obligation_id e = ob_id o') xs)"
    if "\<And>e. P e \<Longrightarrow> ev_obligation_id e = ob_id o'" for P and xs :: "ledger_evidence list"
    using that by (induction xs) auto
  have 1: "filter (known_support o') evs = filter (known_support o') evs'"
    by (subst (1 2) f) (auto simp: known_support_def assms)
  have 2: "filter (\<lambda>e. known_support o' e \<and> ev_fresh e) evs = filter (\<lambda>e. known_support o' e \<and> ev_fresh e) evs'"
    by (subst (1 2) f) (auto simp: known_support_def assms)
  have 3: "list_ex (live_contradiction o') evs = list_ex (live_contradiction o') evs'"
  proof -
    have "list_ex (live_contradiction o') xs \<longleftrightarrow>
        list_ex (live_contradiction o') (filter (\<lambda>e. ev_obligation_id e = ob_id o') xs)" for xs
      by (induction xs) (auto simp: live_contradiction_def)
    then show ?thesis using assms by metis
  qed
  show ?thesis unfolding refresh_obligation_def 1 2 3 ..
qed

lemma filter_refresh_other:
  "ob_id o' \<noteq> i \<Longrightarrow> filter (\<lambda>e. ev_obligation_id e = i) (map (refresh_evidence o') evs) =
     filter (\<lambda>e. ev_obligation_id e = i) evs"
  by (induction evs) (auto simp: refresh_other)

definition renew :: "ledger_ob list \<Rightarrow> ledger_evidence \<Rightarrow> ledger_evidence" where
  "renew os e = fold (\<lambda>o' x. if ob_state o' = Superseded then x else refresh_evidence o' x) os e"

lemma refresh_loop_spec:
  assumes "distinct (map ob_id os)"
  shows "refresh_loop os evs = (map (refresh_one evs) os, map (renew os) evs)"
  using assms
proof (induction os arbitrary: evs)
  case Nil
  then show ?case by (simp add: renew_def)
next
  case (Cons o' os)
  show ?case
  proof (cases "ob_state o' = Superseded")
    case True
    with Cons show ?thesis by (simp add: refresh_one_def renew_def)
  next
    case False
    let ?evs1 = "map (refresh_evidence o') evs"
    have "refresh_one ?evs1 x = refresh_one evs x" if "x \<in> set os" for x
    proof -
      have ne: "ob_id o' \<noteq> ob_id x" using Cons.prems that by auto
      have "refresh_obligation (map (refresh_evidence x) ?evs1) x = refresh_obligation (map (refresh_evidence x) evs) x"
      proof (rule refresh_obligation_cong)
        have "filter (\<lambda>e. ev_obligation_id e = ob_id x) (map (refresh_evidence x) es) =
            map (refresh_evidence x) (filter (\<lambda>e. ev_obligation_id e = ob_id x) es)" for es
          by (simp add: filter_map comp_def)
        then show "filter (\<lambda>e. ev_obligation_id e = ob_id x) (map (refresh_evidence x) ?evs1) =
            filter (\<lambda>e. ev_obligation_id e = ob_id x) (map (refresh_evidence x) evs)"
          by (simp only: filter_refresh_other [OF ne])
      qed
      then show ?thesis by (simp add: refresh_one_def)
    qed
    then have same: "map (refresh_one ?evs1) os = map (refresh_one evs) os" by simp
    have "refresh_loop os ?evs1 = (map (refresh_one ?evs1) os, map (renew os) ?evs1)"
      using Cons by simp
    moreover have "map (renew (o' # os)) evs = map (renew os) ?evs1" using False by (simp add: renew_def)
    moreover have "refresh_one evs o' = refresh_obligation ?evs1 o'" using False by (simp add: refresh_one_def)
    ultimately show ?thesis unfolding same using False by (simp add: Let_def)
  qed
qed

lemma renew_fields [simp]:
  "ev_obligation_id (renew os e) = ev_obligation_id e" "ev_step (renew os e) = ev_step e"
  "ev_polarity (renew os e) = ev_polarity e" "ev_layer (renew os e) = ev_layer e" "ev_id (renew os e) = ev_id e"
  "ev_source_kind (renew os e) = ev_source_kind e" "ev_inherited_from (renew os e) = ev_inherited_from e"
  unfolding renew_def by (induction os arbitrary: e) simp_all

lemma renew_fresh:
  assumes "distinct (map ob_id os)" "o' \<in> set os" "ob_state o' \<noteq> Superseded" "ev_obligation_id e = ob_id o'"
  shows "ev_fresh (renew os e) = since_change o' (ev_step e)"
  using assms
proof (induction os arbitrary: e)
  case (Cons x os)
  have keep: "ev_fresh (renew os y) = ev_fresh y" if "ev_obligation_id y \<notin> ob_id ` set os" for y
    using that unfolding renew_def by (induction os arbitrary: y) (auto simp: refresh_other)
  show ?case
  proof (cases "x = o'")
    case True
    then have "ev_obligation_id e \<notin> ob_id ` set os" using Cons.prems(1,4) by auto
    then show ?thesis using keep [of "refresh_evidence x e"] True Cons.prems
      by (simp add: renew_def) (simp add: refresh_evidence_def)
  next
    case False
    then have "o' \<in> set os" "ob_id x \<noteq> ob_id o'" using Cons.prems(1,2) by auto
    with Cons show ?thesis by (simp add: renew_def refresh_other)
  qed
qed simp

lemma max_opt_None [simp]: "max_opt xs = None \<longleftrightarrow> xs = []"
  by (cases xs) simp_all

lemma foldl_max: "foldl max a xs = Max (set (a # xs))" for a :: "'a::linorder"
proof -
  have "(\<lambda>x y. max y x) = (max :: 'a \<Rightarrow> 'a \<Rightarrow> 'a)" by (intro ext) (rule max.commute)
  then show ?thesis unfolding Max.set_eq_fold foldl_conv_fold by simp
qed

lemma max_opt_Some:
  assumes "max_opt xs = Some m"
  shows "m \<in> set xs \<and> (\<forall>x \<in> set xs. x \<le> m)"
proof -
  have ne: "xs \<noteq> []" using assms by auto
  then have "m = Max (set xs)" using assms by (cases xs) (simp_all add: foldl_max del: Max_insert)
  with ne show ?thesis by simp
qed

text \<open>The states after a renewal.\<close>

lemma refresh_states_obligations:
  assumes "distinct (map ob_id (lg_obligations l))"
  shows "lg_obligations (refresh_states l) = map (refresh_one (lg_evidence l)) (lg_obligations l)"
    and "lg_evidence (refresh_states l) = map (renew (lg_obligations l)) (lg_evidence l)"
  using refresh_loop_spec [OF assms] by (simp_all add: refresh_states_def)

definition proven_by :: "ledger_ob \<Rightarrow> ledger_evidence \<Rightarrow> bool" where
  "proven_by o' e \<longleftrightarrow>
     ev_obligation_id e = ob_id o' \<and> ev_polarity e = Supports \<and> ev_layer e \<noteq> UnknownLayer \<and>
     since_change o' (ev_step e)"

definition refuted_by :: "ledger_ob \<Rightarrow> ledger_evidence \<Rightarrow> bool" where
  "refuted_by o' e \<longleftrightarrow> ev_obligation_id e = ob_id o' \<and> ev_polarity e = Contradicts \<and>
     covers (ev_layer e) UnitLayer \<and> since_change o' (ev_step e)"

lemma proven_by_iff: "proven_by o' e \<longleftrightarrow> known_support o' e \<and> since_change o' (ev_step e)"
  by (simp add: proven_by_def known_support_def)

lemma refresh_one_state:
  assumes "ob_state o' \<noteq> Superseded"
  shows "ob_state (refresh_one evs o') =
    (if list_ex (refuted_by o') evs then Contradicted
     else if ob_state o' = ObVerified \<and> \<not> list_ex (proven_by o') evs
     then if ob_last_claim_step o' \<noteq> None then Claimed else ObOpen
     else ob_state o')"
proof -
  let ?evs = "map (refresh_evidence o') evs"
  have lc: "live_contradiction o' (refresh_evidence o' e) \<longleftrightarrow> refuted_by o' e" for e
    by (auto simp: live_contradiction_def refuted_by_def) (simp_all add: refresh_evidence_def)
  have con: "list_ex (live_contradiction o') ?evs \<longleftrightarrow> list_ex (refuted_by o') evs"
    by (simp add: list_ex_iff lc)
  have ks: "known_support o' (refresh_evidence o' e) \<longleftrightarrow> known_support o' e" for e
    by (simp add: known_support_def)
  have steps: "map ev_step (filter (known_support o') ?evs) = map ev_step (filter (known_support o') evs)"
    by (simp add: filter_map comp_def ks)
  let ?s = "max_opt (map ev_step (filter (known_support o') evs))"
  have "(case ?s of None \<Rightarrow> True | Some p \<Rightarrow> p < unwrap_or 0 (ob_last_change_step o')) \<longleftrightarrow> \<not> list_ex (proven_by o') evs"
  proof (cases ?s)
    case None
    then show ?thesis by (auto simp: list_ex_iff proven_by_iff filter_empty_conv)
  next
    case (Some m)
    from max_opt_Some [OF Some] obtain e where e: "e \<in> set evs" "known_support o' e" "ev_step e = m"
      and max: "\<And>x. x \<in> set evs \<Longrightarrow> known_support o' x \<Longrightarrow> ev_step x \<le> m" by auto
    show ?thesis
    proof (cases "m < unwrap_or 0 (ob_last_change_step o')")
      case True
      then have "\<not> proven_by o' x" if "x \<in> set evs" for x
        using max [OF that] by (auto simp: proven_by_iff since_change_def)
      with Some True show ?thesis by (auto simp: list_ex_iff)
    next
      case False
      then have "proven_by o' e" using e by (simp add: proven_by_iff since_change_def)
      with Some False e(1) show ?thesis by (auto simp: list_ex_iff)
    qed
  qed
  then show ?thesis using assms
    unfolding refresh_one_def refresh_obligation_def Let_def con steps by simp
qed

lemma proven_refresh [simp]: "proven_by (refresh_one evs o') = proven_by o'"
  "refuted_by (refresh_one evs o') = refuted_by o'"
  by (auto simp: fun_eq_iff proven_by_def refuted_by_def known_support_def since_change_def)

lemma proven_renew [simp]: "proven_by o' (renew os e) = proven_by o' e" "refuted_by o' (renew os e) = refuted_by o' e"
  by (auto simp: proven_by_def refuted_by_def known_support_def)

lemma refresh_one_never_superseded: "ob_state (refresh_one evs o') = Superseded \<longleftrightarrow> ob_state o' = Superseded"
  by (cases "ob_state o' = Superseded") (auto simp: refresh_one_state, simp add: refresh_one_def)

section \<open>What every step keeps\<close>

type_synonym core = "string \<times> u32 \<times> string"

definition core_of :: "ledger_ob \<Rightarrow> core" where
  "core_of o' = (ob_id o', ob_source_step o', ob_text o')"

definition result_step :: "semantic_step \<Rightarrow> bool" where
  "result_step s \<longleftrightarrow> ss_role s = RToolResult \<or> ss_role s = RDelegateResult"

text \<open>Evidence is inherited from a seed, or it is the result of an inspection, search or execution.\<close>

definition evidence_ok :: "semantic_step list \<Rightarrow> string list \<Rightarrow> string list \<Rightarrow> ledger_evidence \<Rightarrow> bool" where
  "evidence_ok steps refs ids e \<longleftrightarrow>
     ev_obligation_id e \<in> set ids \<and>
     (case ev_inherited_from e of
        Some r \<Rightarrow> r \<in> set refs \<and> ev_step e = 0
      | None \<Rightarrow> is_probe_kind (ev_source_kind e) \<and>
          (\<exists>s \<in> set steps. result_step s \<and> ss_index s = ev_step e \<and> (ev_polarity e = Contradicts \<longleftrightarrow> ss_is_error s)))"

definition edge_ok :: "semantic_step list \<Rightarrow> string list \<Rightarrow> artifact_edge \<Rightarrow> bool" where
  "edge_ok steps ids d \<longleftrightarrow>
     ed_obligation_id d \<in> set ids \<and> trim (ed_target d) \<noteq> [] \<and>
     (\<exists>s \<in> set steps. result_step s \<and> \<not> ss_is_error s \<and> ss_index s = ed_source_step d)"

definition ob_ok :: "ledger_ob \<Rightarrow> bool" where
  "ob_ok o' \<longleftrightarrow> ob_state o' \<noteq> Superseded \<and> ob_priority o' = 1"

definition ledger_inv :: "semantic_step list \<Rightarrow> string list \<Rightarrow> core list \<Rightarrow> ledger \<Rightarrow> bool" where
  "ledger_inv steps refs cs l \<longleftrightarrow>
     map core_of (lg_obligations l) = cs \<and> list_all ob_ok (lg_obligations l) \<and>
     list_all (evidence_ok steps refs (map fst cs)) (lg_evidence l) \<and>
     length (lg_evidence l) \<le> max MAX_EVIDENCE (length cs) \<and>
     length (lg_delegated_reports l) \<le> MAX_EVIDENCE \<and> length (lg_topic_edges l) \<le> MAX_EVIDENCE \<and>
     list_all (edge_ok steps (map fst cs)) (lg_artifact_edges l)"

definition keeps_core :: "(ledger_ob \<Rightarrow> ledger_ob) \<Rightarrow> bool" where
  "keeps_core f \<longleftrightarrow> (\<forall>o'. core_of (f o') = core_of o' \<and> (ob_ok o' \<longrightarrow> ob_ok (f o')))"

lemma inv_ids: "ledger_inv steps refs cs l \<Longrightarrow> map ob_id (lg_obligations l) = map fst cs"
  by (auto simp: ledger_inv_def core_of_def)

lemma inv_length: "ledger_inv steps refs cs l \<Longrightarrow> length (lg_obligations l) = length cs"
  by (auto simp: ledger_inv_def)

lemma inv_id_in:
  assumes "ledger_inv steps refs cs l" "i < length cs"
  shows "ob_id (lg_obligations l ! i) \<in> set (map fst cs)"
proof -
  have "ob_id (lg_obligations l ! i) \<in> set (map ob_id (lg_obligations l))"
    using assms inv_length [OF assms(1)] by simp
  then show ?thesis by (simp only: inv_ids [OF assms(1)])
qed

lemma map_update_same: "f y = f (xs ! i) \<Longrightarrow> map f (xs[i := y]) = map f xs"
proof (cases "i < length xs")
  case True
  assume "f y = f (xs ! i)"
  then have "map f (xs[i := y]) = (map f xs)[i := map f xs ! i]" using True by (simp add: map_update)
  then show ?thesis by (simp only: list_update_id)
qed (simp add: not_less list_update_beyond)

lemma on_obligation_inv [intro]:
  assumes "ledger_inv steps refs cs l" "keeps_core f"
  shows "ledger_inv steps refs cs (on_obligation i f l)"
proof -
  have "map core_of ((lg_obligations l)[i := f (lg_obligations l ! i)]) = map core_of (lg_obligations l)"
    by (rule map_update_same) (use assms(2) in \<open>simp add: keeps_core_def\<close>)
  moreover have "list_all ob_ok ((lg_obligations l)[i := f (lg_obligations l ! i)])"
  proof (cases "i < length (lg_obligations l)")
    case True
    then show ?thesis using assms
      by (auto simp: list_all_iff ledger_inv_def keeps_core_def dest!: set_update_subset_insert [THEN subsetD])
  next
    case False
    then show ?thesis using assms by (simp add: ledger_inv_def not_less list_update_beyond)
  qed
  ultimately show ?thesis using assms(1) by (simp add: ledger_inv_def on_obligation_def)
qed

lemma fold_inv: "(\<And>x l. x \<in> set xs \<Longrightarrow> P l \<Longrightarrow> P (f x l)) \<Longrightarrow> P l \<Longrightarrow> P (fold f xs l)"
  by (induction xs arbitrary: l) simp_all

text \<open>Updates of the metrics change nothing the invariant speaks of.\<close>

lemma on_metrics_inv [simp]:
  "ledger_inv steps refs cs (on_provenance f l) = ledger_inv steps refs cs l"
  "ledger_inv steps refs cs (on_feedback g l) = ledger_inv steps refs cs l"
  "ledger_inv steps refs cs (add_receipts n l) = ledger_inv steps refs cs l"
  by (simp_all add: ledger_inv_def on_provenance_def on_feedback_def add_receipts_def)

lemma keeps_core_simps [simp]:
  "keeps_core (\<lambda>o'. o'\<lparr>ob_last_change_step := Some k, ob_state := (if ob_state o' = ObVerified then ObOpen else ob_state o')\<rparr>)"
  "keeps_core (\<lambda>o'. o'\<lparr>ob_evidence_ids := g o'\<rparr>)"
  "st \<noteq> Superseded \<Longrightarrow> keeps_core (\<lambda>o'. o'\<lparr>ob_state := st\<rparr>)"
  "st \<noteq> Superseded \<Longrightarrow> keeps_core (\<lambda>o'. o'\<lparr>ob_last_claim_step := c, ob_state := st\<rparr>)"
  "keeps_core (\<lambda>o'. o'\<lparr>ob_last_claim_step := Some k,
     ob_state := (if ob_state o' = Contradicted \<or> ob_state o' = ObVerified then ob_state o' else Claimed)\<rparr>)"
  by (auto simp: keeps_core_def core_of_def ob_ok_def)

lemma mark_changed_inv: "ledger_inv steps refs cs l \<Longrightarrow> ledger_inv steps refs cs (mark_changed k i l)"
  unfolding mark_changed_def by (rule on_obligation_inv) simp_all

lemma mark_claimed_inv: "ledger_inv steps refs cs l \<Longrightarrow> ledger_inv steps refs cs (mark_claimed k i l)"
  unfolding mark_claimed_def by (rule on_obligation_inv) simp_all

lemma set_verified_inv: "ledger_inv steps refs cs l \<Longrightarrow> ledger_inv steps refs cs (set_state ObVerified i l)"
  unfolding set_state_def by (rule on_obligation_inv) simp_all

lemma apply_facts_inv: "ledger_inv steps refs cs l \<Longrightarrow> ledger_inv steps refs cs (apply_facts f k i l)"
  unfolding apply_facts_def by (rule on_obligation_inv) (auto simp: keeps_core_def core_of_def ob_ok_def Let_def)

lemma evict_evidence_inv:
  assumes "ledger_inv steps refs cs l"
  shows "ledger_inv steps refs cs (evict_evidence l) \<and>
    length (lg_evidence (evict_evidence l)) < max MAX_EVIDENCE (length cs)"
proof (cases "lg_evidence l")
  case Nil
  with assms show ?thesis by (simp add: evict_evidence_def ledger_inv_def MAX_EVIDENCE_def)
next
  case (Cons e rest)
  show ?thesis
  proof (cases "length (lg_evidence l) < MAX_EVIDENCE")
    case True
    with assms Cons show ?thesis by (simp add: evict_evidence_def)
  next
    case False
    let ?l = "l\<lparr>lg_evidence := rest\<rparr>"
    have inv: "ledger_inv steps refs cs ?l" and len: "length rest < max MAX_EVIDENCE (length cs)"
      using assms Cons by (auto simp: ledger_inv_def)
    have ev: "lg_evidence (on_obligation i f ?l) = rest" for i f by (simp add: on_obligation_def)
    show ?thesis
    proof (cases "position (\<lambda>o'. ob_id o' = ev_obligation_id e) (lg_obligations l)")
      case None
      with Cons False inv len show ?thesis by (simp add: evict_evidence_def)
    next
      case (Some i)
      have "ledger_inv steps refs cs (on_obligation i (\<lambda>o'. o'\<lparr>ob_evidence_ids :=
          filter (\<lambda>x. x \<noteq> ev_id e) (ob_evidence_ids o')\<rparr>) ?l)"
        by (rule on_obligation_inv [OF inv]) simp
      with Cons False Some ev len show ?thesis by (simp add: evict_evidence_def)
    qed
  qed
qed

lemma push_evidence_inv:
  assumes inv: "ledger_inv steps refs cs l" and i: "i < length cs"
    and s: "s \<in> set steps" "result_step s" and k: "is_probe_kind (pt_kind t)"
    and g: "\<And>g. target = Some g \<Longrightarrow> \<not> ss_is_error s \<and> trim g \<noteq> []"
  shows "ledger_inv steps refs cs (push_evidence X s t target i l)"
proof -
  define l1 where "l1 = evict_evidence l"
  define oid where "oid = ob_id (lg_obligations l1 ! i)"
  define l2 where "l2 = on_obligation i (\<lambda>o'. o'\<lparr>ob_evidence_ids := ob_evidence_ids o' @ [evidence_id (ss_index s) oid]\<rparr>) l1"
  have inv1: "ledger_inv steps refs cs l1" and len: "length (lg_evidence l1) < max MAX_EVIDENCE (length cs)"
    using evict_evidence_inv [OF inv] by (auto simp: l1_def)
  have inv2: "ledger_inv steps refs cs l2" unfolding l2_def by (rule on_obligation_inv [OF inv1]) simp
  have len2: "length (lg_evidence l2) < max MAX_EVIDENCE (length cs)" using len by (simp add: l2_def on_obligation_def)
  have oid: "oid \<in> set (map fst cs)" unfolding oid_def by (rule inv_id_in [OF inv1 i])
  let ?e = "\<lparr>ev_id = evidence_id (ss_index s) oid, ev_obligation_id = oid, ev_step = ss_index s,
    ev_source_kind = pt_kind t,
    ev_layer = evidence_layer_hint (ec_facts X) (ss_correlation_id s) (ec_proof_tools X) (layer_for (pt_kind t)),
    ev_polarity = (if ss_is_error s then Contradicts else Supports),
    ev_strength = strength_for (pt_kind t) (ss_is_error s), ev_fresh = True, ev_inherited_from = None\<rparr>"
  have e: "evidence_ok steps refs (map fst cs) ?e" using s k oid by (auto simp: evidence_ok_def)
  define l3 where "l3 = l2\<lparr>lg_evidence := lg_evidence l2 @ [?e]\<rparr>"
  have inv3: "ledger_inv steps refs cs l3" using inv2 len2 e by (simp add: l3_def ledger_inv_def)
  have edge: "ledger_inv steps refs cs (l3\<lparr>lg_artifact_edges := lg_artifact_edges l3 @
      [\<lparr>ed_obligation_id = oid, ed_target = g, ed_source_step = ss_index s\<rparr>]\<rparr>)" if "target = Some g" for g
    using inv3 assms(6) [OF that] oid s by (auto simp: ledger_inv_def edge_ok_def)
  have "push_evidence X s t target i l =
    (case target of
       None \<Rightarrow> l3
     | Some g \<Rightarrow>
         let edge = \<lparr>ed_obligation_id = oid, ed_target = g, ed_source_step = ss_index s\<rparr>
         in if edge \<in> set (lg_artifact_edges l3) then l3
            else l3\<lparr>lg_artifact_edges := lg_artifact_edges l3 @ [edge]\<rparr>)"
    unfolding push_evidence_def Let_def l3_def l2_def oid_def l1_def ..
  then show ?thesis using inv3 edge by (simp add: Let_def split: option.split)
qed

lemma push_report_inv:
  assumes "ledger_inv steps refs cs l"
  shows "ledger_inv steps refs cs (push_report s c i l)"
  using assms by (cases "lg_delegated_reports l") (auto simp: push_report_def ledger_inv_def Let_def MAX_EVIDENCE_def)

text \<open>Positions stay inside the list of obligations.\<close>

definition below :: "nat \<Rightarrow> nat list \<Rightarrow> bool" where
  "below n is \<longleftrightarrow> list_all (\<lambda>i. i < n) is"

lemma active_below: "length (lg_obligations l) = n \<Longrightarrow> below n (active l)"
  by (simp add: active_def below_def list_all_iff)

lemma below_filter: "below n is \<Longrightarrow> below n (filter P is)"
  by (simp add: below_def list_all_iff)

lemma bind_below: "length (lg_obligations l) = n \<Longrightarrow> below n (bind_obligations T l target cid facts)"
  using active_below [of l n]
  by (auto simp: bind_obligations_def linked_def Let_def below_filter below_def [of n "[]"] split: option.split)

lemma position_less: "position P xs = Some i \<Longrightarrow> i < length xs \<and> P (xs ! i)"
  by (auto simp: position_def find_Some_iff)

definition probe_below :: "nat \<Rightarrow> resolved_probe \<Rightarrow> bool" where
  "probe_below n p = below n (rp_bound p)"

definition episode_inv :: "semantic_step list \<Rightarrow> string list \<Rightarrow> core list \<Rightarrow> episode_state \<Rightarrow> bool" where
  "episode_inv steps refs cs es \<longleftrightarrow>
     ledger_inv steps refs cs (es_ledger es) \<and>
     list_all (\<lambda>t. below (length cs) (pt_bound t)) (es_pending es) \<and>
     list_all (probe_below (length cs)) (es_probes es) \<and>
     list_all (\<lambda>d. below (length cs) (rd_bound d)) (es_delegates es)"

lemma find_tool_inv:
  assumes "list_all (\<lambda>t. below n (pt_bound t)) ps" "length (lg_obligations l) = n" "find_tool T X l s ps = (r, ps')"
  shows "list_all (\<lambda>t. below n (pt_bound t)) ps' \<and> (\<forall>t. r = Some t \<longrightarrow> below n (pt_bound t))"
proof (cases "Option.bind (ss_correlation_id s) (\<lambda>c. position (\<lambda>t. pt_correlation_id t = Some c) ps)")
  case (Some i)
  then obtain c where "position (\<lambda>t. pt_correlation_id t = Some c) ps = Some i"
    by (cases "ss_correlation_id s") auto
  then have "i < length ps" using position_less by blast
  then show ?thesis using assms Some
    by (auto simp: find_tool_def remove_at_def list_all_iff dest!: in_set_takeD in_set_dropD)
next
  case None
  then show ?thesis using assms bind_below [OF assms(2)]
    by (cases ps) (auto simp: find_tool_def split: if_splits)
qed

lemma on_tool_use_inv:
  assumes "episode_inv steps refs cs es" "below (length cs) (ec_challenge_targets X)"
  shows "episode_inv steps refs cs (on_tool_use T X s es)"
proof -
  define l1 where "l1 = on_provenance (\<lambda>p. p\<lparr>pm_tool_uses := pm_tool_uses p + 1,
             pm_native_ids := pm_native_ids p + of_bool_nat (ss_correlation_id s \<noteq> None),
             pm_weak_anchors := pm_weak_anchors p + of_bool_nat (ss_correlation_id s = None),
             pm_unknown_capabilities := pm_unknown_capabilities p + of_bool_nat (ss_tool_kind s = KOther)\<rparr>)
             (es_ledger es)"
  have inv: "ledger_inv steps refs cs l1" using assms(1) by (simp add: l1_def episode_inv_def)
  have len: "length (lg_obligations l1) = length cs" by (rule inv_length [OF inv])
  define b where "b = (if bind_obligations T l1 (ss_tool_target s) (ss_correlation_id s) (ec_facts X) = [] \<and>
      ec_challenge_targets X \<noteq> [] \<and> is_probe_kind (ss_tool_kind s) then ec_challenge_targets X
    else bind_obligations T l1 (ss_tool_target s) (ss_correlation_id s) (ec_facts X))"
  have b: "below (length cs) b" using bind_below [OF len] assms(2) by (simp add: b_def)
  define l2 where "l2 = (if ss_tool_kind s = KModify then fold (mark_changed (ss_index s)) b l1 else l1)"
  have "ledger_inv steps refs cs (fold (mark_changed (ss_index s)) b l1)"
    by (rule fold_inv [where P = "ledger_inv steps refs cs"]) (use mark_changed_inv inv in blast)+
  then have "ledger_inv steps refs cs l2" using inv by (simp add: l2_def)
  moreover have "on_tool_use T X s es = es\<lparr>es_ledger := l2,
            es_pending := es_pending es @
              [\<lparr>pt_correlation_id = ss_correlation_id s, pt_kind = ss_tool_kind s, pt_bound = b,
                pt_target = ss_tool_target s,
                pt_controller_bound = (ec_challenge_targets X \<noteq> [] \<and> is_probe_kind (ss_tool_kind s))\<rparr>]\<rparr>"
    unfolding on_tool_use_def Let_def l2_def b_def l1_def ..
  ultimately show ?thesis using assms(1) b by (simp add: episode_inv_def)
qed

lemma push_probe_below:
  "list_all (probe_below n) ps \<Longrightarrow> below n (pt_bound t) \<Longrightarrow> list_all (probe_below n) (push_probe X s t c ps)"
  by (cases ps) (auto simp: push_probe_def probe_below_def)

lemma on_result_inv:
  assumes inv: "episode_inv steps refs cs es" and s: "s \<in> set steps" "result_step s"
  shows "episode_inv steps refs cs (on_result T X s es)"
proof -
  define l1 where "l1 = on_provenance (\<lambda>p. p\<lparr>
             pm_weak_anchors := pm_weak_anchors p + of_bool_nat (ss_correlation_id s = None),
             pm_delegate_reports := pm_delegate_reports p + of_bool_nat (ss_role s = RDelegateResult)\<rparr>)
             (es_ledger es)"
  have inv1: "ledger_inv steps refs cs l1" using inv by (simp add: l1_def episode_inv_def)
  obtain r ps where f: "find_tool T X l1 s (es_pending es) = (r, ps)" by fastforce
  have ps: "list_all (\<lambda>t. below (length cs) (pt_bound t)) ps" and r: "\<And>t. r = Some t \<Longrightarrow> below (length cs) (pt_bound t)"
    using find_tool_inv [OF _ inv_length [OF inv1] f] inv by (auto simp: episode_inv_def)
  show ?thesis
  proof (cases r)
    case None
    with f inv inv1 ps show ?thesis unfolding on_result_def l1_def [symmetric] Let_def
      by (simp add: episode_inv_def)
  next
    case (Some t)
    have b: "below (length cs) (pt_bound t)" by (rule r [OF Some])
    define l2 where "l2 = on_provenance (\<lambda>p. p\<lparr>pm_weakly_paired_results := pm_weakly_paired_results p +
                    of_bool_nat (ss_correlation_id s = None \<and> pt_correlation_id t = None)\<rparr>) l1"
    have inv2: "ledger_inv steps refs cs l2" using inv1 by (simp add: l2_def)
    have reports: "ledger_inv steps refs cs (fold (push_report s c) (pt_bound t) l2)" for c
      by (rule fold_inv [where P = "ledger_inv steps refs cs"]) (use push_report_inv inv2 in blast)+
    have evs: "ledger_inv steps refs cs (fold (push_evidence X s t (if ss_is_error s then None
        else opt_filter (\<lambda>g. trim g \<noteq> []) (pt_target t))) (pt_bound t) l2)"
      if k: "is_probe_kind (pt_kind t)"
    proof (rule fold_inv [where P = "ledger_inv steps refs cs"])
      fix i l
      assume "i \<in> set (pt_bound t)" "ledger_inv steps refs cs l"
      then show "ledger_inv steps refs cs (push_evidence X s t (if ss_is_error s then None
        else opt_filter (\<lambda>g. trim g \<noteq> []) (pt_target t)) i l)"
        using b s k by (intro push_evidence_inv) (auto simp: below_def list_all_iff split: if_splits)
    qed (rule inv2)
    have kinds: "is_probe_kind (pt_kind t)" if "pt_kind t \<noteq> KDelegate" "pt_kind t \<noteq> KModify" "pt_kind t \<noteq> KOther"
      using that by (cases "pt_kind t") (simp_all add: is_probe_kind_def)
    define probes where "probes = (case ss_correlation_id s of
                    Some c \<Rightarrow> if is_probe_kind (pt_kind t) then push_probe X s t c (es_probes es) else es_probes es
                  | None \<Rightarrow> es_probes es)"
    have probes: "list_all (probe_below (length cs)) probes"
      using inv push_probe_below [OF _ b] by (auto simp: probes_def episode_inv_def split: option.split)
    have "on_result T X s es =
      (let es1 = es\<lparr>es_ledger := l2, es_pending := ps, es_probes := probes\<rparr>
       in if pt_kind t = KDelegate
                then (case ss_correlation_id s of
                        None \<Rightarrow> es1
                      | Some c \<Rightarrow>
                          es1\<lparr>es_ledger := fold (push_report s c) (pt_bound t) l2,
                              es_delegates := es_delegates es @
                                [\<lparr>rd_correlation_id = c, rd_bound = pt_bound t, rd_step = ss_index s,
                                  rd_failed = ss_is_error s\<rparr>]\<rparr>)
                else if pt_kind t = KModify \<or> pt_kind t = KOther then es1
                else let target = (if ss_is_error s then None
                           else opt_filter (\<lambda>g. trim g \<noteq> []) (pt_target t))
                     in es1\<lparr>es_ledger := fold (push_evidence X s t target) (pt_bound t) l2\<rparr>)"
      unfolding on_result_def Let_def l2_def probes_def
      unfolding l1_def [symmetric] f Some prod.case option.case ..
    then show ?thesis using inv inv2 reports evs kinds ps probes b
      by (auto simp: episode_inv_def Let_def split: option.split)
  qed
qed

lemma episode_step_inv:
  assumes "episode_inv steps refs cs es" "below (length cs) (ec_challenge_targets X)" "s \<in> set steps"
  shows "episode_inv steps refs cs (episode_step T X s es)"
  using on_tool_use_inv [OF assms(1,2)] on_result_inv [OF assms(1,3)] assms(1)
  by (auto simp: episode_step_def result_step_def split: StepRole.split)

text \<open>Feedback changes states and metrics only.\<close>

lemma certificate_edges:
  "length (snd (certificate steps a k el l c (m, es))) \<le> length es + 1"
  by (cases c) (simp add: certificate_def Let_def split: option.split prod.split)

lemma certificates_edges:
  "length (snd (fold (certificate steps a k el l) cs (m, es))) \<le> length es + length cs"
proof (induction cs arbitrary: m es)
  case (Cons c cs)
  obtain m' es' where c: "certificate steps a k el l c (m, es) = (m', es')" by fastforce
  have "length es' \<le> length es + 1" using certificate_edges [of steps a k el l c m es] by (simp add: c)
  with Cons.IH [of m' es'] c show ?case by simp
qed simp

lemma conflict_edges:
  "length (snd (evaluate_conflict_certificates steps es cur k el l claims)) \<le> length claims"
  using certificates_edges [of steps "allowed_steps steps es cur" k el l "enumerate 0 claims"
      "topic_metrics_default\<lparr>tm_certificates := length claims\<rparr>" "[]"]
  by (simp add: evaluate_conflict_certificates_def)

lemma append_edges_length: "length new \<le> MAX_EVIDENCE \<Longrightarrow> length old \<le> MAX_EVIDENCE \<Longrightarrow>
  length (append_edges old new) \<le> MAX_EVIDENCE"
  by (simp add: append_edges_def)

lemma parsed_result_ok: "parse_health_result from_str t i = Inr r \<Longrightarrow> result_ok i r"
  by (auto simp: parse_health_result_def Let_def check_wire_iff split: if_splits option.splits)

lemma claimed_complete_inv:
  assumes "ledger_inv steps refs cs l"
  shows "ledger_inv steps refs cs (claimed_complete k risk targets probes l)"
proof -
  have c: "ledger_inv steps refs cs (fold (mark_claimed k) targets l)"
    by (rule fold_inv [where P = "ledger_inv steps refs cs"]) (use mark_claimed_inv assms in blast)+
  have v: "ledger_inv steps refs cs l' \<Longrightarrow> ledger_inv steps refs cs (fold (set_state ObVerified) ts l')" for ts l'
    by (rule fold_inv [where P = "ledger_inv steps refs cs"]) (use set_verified_inv in blast)+
  show ?thesis using c by (auto simp: claimed_complete_def Let_def intro!: v)
qed

lemma accept_feedback_inv:
  assumes "ledger_inv steps refs cs (es_ledger es)" "result_ok i r"
    and "accept_feedback ss all e a cid prior es r latest = (fl, l, latest')"
  shows "ledger_inv steps refs cs l"
proof -
  let ?l = "es_ledger es" and ?ts = "feedback_targets (es_ledger es) cid r"
  obtain b blocked where b: "grounded_blocker ?l r ?ts (es_probes es) = (b, blocked)" by fastforce
  obtain c legacy where c: "legacy_conflict ?l r ?ts (es_delegates es) = (c, legacy)" by fastforce
  obtain tm edges where t: "evaluate_conflict_certificates ss all (ep_ordinal e) (ss_index a) ?ts ?l
      (hr_state_conflicts r) = (tm, edges)" by fastforce
  have "length edges \<le> length (hr_state_conflicts r)"
    using conflict_edges [of ss all "ep_ordinal e" "ss_index a" ?ts ?l "hr_state_conflicts r"] by (simp add: t)
  also have "\<dots> \<le> MAX_EVIDENCE" using assms(2) by (simp add: result_ok_def MAX_EVIDENCE_def)
  finally have "length edges \<le> MAX_EVIDENCE" .
  then have "ledger_inv steps refs cs (record_feedback r b c tm edges ?l)"
    using assms(1) append_edges_length by (auto simp: ledger_inv_def record_feedback_def on_feedback_def)
  with assms(1,3) claimed_complete_inv show ?thesis
    by (auto simp: accept_feedback_def Let_def b c t split: if_splits)
qed

lemma episode_feedback_inv:
  assumes "ledger_inv steps refs cs (es_ledger es)"
    and "episode_feedback from_str ss all e cid prior es latest = (fl, l, latest')"
  shows "ledger_inv steps refs cs l"
proof -
  let ?l0 = "if cid \<noteq> None then on_feedback (\<lambda>f. f\<lparr>fm_challenged := fm_challenged f + 1\<rparr>) (es_ledger es) else es_ledger es"
  have l0: "ledger_inv steps refs cs (es_ledger (es\<lparr>es_ledger := ?l0\<rparr>))" using assms(1) by simp
  then show ?thesis using assms accept_feedback_inv [OF l0 parsed_result_ok]
    by (auto simp: episode_feedback_def Let_def split: option.splits sum.splits if_splits)
qed

lemma controller_verifies_inv:
  assumes "ledger_inv steps refs cs l"
  shows "ledger_inv steps refs cs (controller_verifies targets probes terminal l)"
proof -
  have v: "ledger_inv steps refs cs l' \<Longrightarrow> ledger_inv steps refs cs
      (fold (\<lambda>i. on_obligation i (\<lambda>o'. o'\<lparr>ob_last_claim_step := terminal, ob_state := ObVerified\<rparr>)) ts l')" for ts l'
  proof (rule fold_inv [where P = "ledger_inv steps refs cs"])
    fix i l
    assume "ledger_inv steps refs cs l"
    then show "ledger_inv steps refs cs
        (on_obligation i (\<lambda>o'. o'\<lparr>ob_last_claim_step := terminal, ob_state := ObVerified\<rparr>) l)"
      by (rule on_obligation_inv) simp
  qed
  show ?thesis using assms by (auto simp: controller_verifies_def Let_def intro!: v)
qed

definition build_inv :: "semantic_step list \<Rightarrow> string list \<Rightarrow> core list \<Rightarrow> build_state \<Rightarrow> bool" where
  "build_inv steps refs cs bs \<longleftrightarrow>
     ledger_inv steps refs cs (bs_ledger bs) \<and> list_all (probe_below (length cs) \<circ> snd) (bs_recent bs)"

lemma episode_steps_subset: "set (episode_steps steps e) \<subseteq> set steps"
  by (auto simp: episode_steps_def dest: in_set_takeD in_set_dropD)

lemma context_below:
  "length (lg_obligations l) = n \<Longrightarrow> below n (ec_challenge_targets (episode_context steps semantic e l))"
  by (auto simp: episode_context_def Let_def below_def Option.bind_eq_Some_conv split: option.split dest: position_less)

lemma episode_fold_inv:
  assumes "build_inv steps refs cs bs"
  shows "episode_inv steps refs cs (fold (episode_step T (episode_context steps semantic e (bs_ledger bs)))
    (episode_steps steps e) \<lparr>es_ledger = bs_ledger bs, es_pending = [], es_probes = [], es_delegates = []\<rparr>)"
proof (rule fold_inv [where P = "episode_inv steps refs cs"])
  fix s es
  assume s: "s \<in> set (episode_steps steps e)" and es: "episode_inv steps refs cs es"
  have "length (lg_obligations (bs_ledger bs)) = length cs" using assms inv_length by (auto simp: build_inv_def)
  from episode_step_inv [OF es context_below [OF this]] s episode_steps_subset
  show "episode_inv steps refs cs (episode_step T (episode_context steps semantic e (bs_ledger bs)) s es)" by blast
qed (use assms in \<open>simp add: build_inv_def episode_inv_def\<close>)

lemma run_episode_inv:
  assumes "build_inv steps refs cs bs"
  shows "build_inv steps refs cs (run_episode T from_str steps semantic all e bs)"
proof -
  let ?X = "episode_context steps semantic e (bs_ledger bs)"
  let ?recent = "expire_probes (ep_ordinal e) (bs_recent bs)"
  define es where "es = fold (episode_step T ?X) (episode_steps steps e)
    \<lparr>es_ledger = bs_ledger bs, es_pending = [], es_probes = [], es_delegates = []\<rparr>"
  have es: "episode_inv steps refs cs es" unfolding es_def by (rule episode_fold_inv [OF assms])
  obtain fl l latest where f: "episode_feedback from_str steps all e (ec_challenge_id ?X) (map snd ?recent) es
      (bs_latest bs) = (fl, l, latest)" by (metis prod_cases3)
  have l: "ledger_inv steps refs cs l"
    by (rule episode_feedback_inv [OF _ f]) (use es in \<open>simp add: episode_inv_def\<close>)
  have recent: "list_all (probe_below (length cs) \<circ> snd) ?recent"
    using assms by (auto simp: build_inv_def expire_probes_def list_all_iff dest!: set_dropWhileD)
  have probes: "list_all (probe_below (length cs)) (es_probes es)" using es by (simp add: episode_inv_def)
  have facts: "ledger_inv steps refs cs l' \<Longrightarrow> ledger_inv steps refs cs (fold (apply_facts g k) is l')" for g k "is" l'
    by (rule fold_inv [where P = "ledger_inv steps refs cs"]) (use apply_facts_inv in blast)+
  define l1 where "l1 = (\<lambda>status. if ec_challenge_id ?X \<noteq> None \<and> status = (None :: HealthResultStatus option)
    then controller_verifies (ec_challenge_targets ?X) (es_probes es @ map snd ?recent)
           (map_option ss_index (episode_assistant steps e)) l else l)"
  have l1: "ledger_inv steps refs cs (l1 status)" for status
    using l controller_verifies_inv by (simp add: l1_def)
  have "run_episode T from_str steps semantic all e bs =
    (case fl of
       Skip \<Rightarrow> bs\<lparr>bs_ledger := l, bs_latest := latest, bs_recent := ?recent\<rparr>
     | Proceed status \<Rightarrow>
         \<lparr>bs_ledger = (case ec_facts ?X of
            None \<Rightarrow> l1 status
          | Some g \<Rightarrow> fold (apply_facts g (facts_claim_step steps e)) (facts_targets steps e (l1 status)) (l1 status)),
          bs_latest = latest,
          bs_recent = ?recent @ map (Pair (ep_ordinal e)) (filter rp_controller_bound (es_probes es))\<rparr>)"
    unfolding run_episode_def Let_def es_def [symmetric] f l1_def by (simp split: flow.split)
  then show ?thesis using l l1 facts recent probes
    by (auto simp: build_inv_def list_all_iff split: flow.split option.split)
qed

section \<open>The contract\<close>

definition contract_inv :: "(u32 \<Rightarrow> bool) \<Rightarrow> ledger \<Rightarrow> bool" where
  "contract_inv P l \<longleftrightarrow>
     map ob_id (lg_obligations l) = map (obligation_id (lg_epoch l)) [0..<length (lg_obligations l)] \<and>
     list_all (\<lambda>o'. ob_ok o' \<and> P (ob_source_step o')) (lg_obligations l) \<and>
     lg_evidence l = [] \<and> lg_delegated_reports l = [] \<and> lg_topic_edges l = [] \<and> lg_artifact_edges l = []"

lemma add_obligation_inv:
  assumes "contract_inv P l" "P step"
  shows "contract_inv P (add_obligation T l t step 1 kind origin layer)"
proof (cases "position (\<lambda>o'. ob_epoch o' = lg_epoch l \<and> same_obligation T o' t) (lg_obligations l)")
  case None
  with assms show ?thesis
    by (simp add: add_obligation_def contract_inv_def ob_ok_def f32_clamp_def)
next
  case (Some i)
  let ?o = "raise_layer layer (lg_obligations l ! i)"
  have i: "i < length (lg_obligations l)" using position_less [OF Some] by simp
  have f: "ob_id ?o = ob_id (lg_obligations l ! i)" "ob_ok ?o = ob_ok (lg_obligations l ! i)"
    "ob_source_step ?o = ob_source_step (lg_obligations l ! i)"
    by (simp_all add: raise_layer_def ob_ok_def)
  have "map ob_id ((lg_obligations l)[i := ?o]) = map ob_id (lg_obligations l)"
    by (rule map_update_same) (rule f)
  moreover have "list_all (\<lambda>o'. ob_ok o' \<and> P (ob_source_step o')) ((lg_obligations l)[i := ?o])"
    using assms(1) i f by (auto simp: contract_inv_def list_all_iff dest!: set_update_subset_insert [THEN subsetD])
  ultimately show ?thesis using assms(1) Some
    by (simp add: add_obligation_def contract_inv_def on_obligation_def)
qed

lemma add_all_inv:
  "contract_inv P l \<Longrightarrow> P step \<Longrightarrow> contract_inv P (fold (add_structural T step) xs l)"
  "contract_inv P l \<Longrightarrow> P step \<Longrightarrow> contract_inv P (fold (add_atom T step) as l)"
  "contract_inv P l \<Longrightarrow> P step \<Longrightarrow> contract_inv P (add_whole T step t l)"
proof -
  assume a: "contract_inv P l" "P step"
  show "contract_inv P (fold (add_structural T step) xs l)"
    by (rule fold_inv [where P = "contract_inv P"]) (use a add_obligation_inv in \<open>auto simp: add_structural_def\<close>)
  show "contract_inv P (fold (add_atom T step) as l)"
    by (rule fold_inv [where P = "contract_inv P"]) (use a add_obligation_inv in \<open>auto simp: add_atom_def\<close>)
  show "contract_inv P (add_whole T step t l)" using a add_obligation_inv by (simp add: add_whole_def)
qed

lemma add_delta_inv:
  "contract_inv P l \<Longrightarrow> P step \<Longrightarrow> contract_inv P (add_contract_delta T t step facts l)"
  by (auto simp: add_contract_delta_def add_all_inv split: option.split)

text \<open>The steps a contract may come from.\<close>

definition contract_base :: "contract_input \<Rightarrow> u32" where
  "contract_base inp = (case ci_anchor inp of None \<Rightarrow> 0 | Some a \<Rightarrow> an_source_step a)"

definition corrected_at ::
  "semantic_step list \<Rightarrow> semantic_facts list \<Rightarrow> contract_input \<Rightarrow> u32 \<Rightarrow> bool"
where
  "corrected_at steps semantic inp k \<longleftrightarrow>
     (\<exists>e \<in> set (episodes steps). \<exists>s f. delta_turn inp steps e = Some s \<and> ss_index s = k \<and>
        facts_of semantic e = Some f \<and> is_yes (sf_correction f))"

definition expanded_at ::
  "(string \<Rightarrow> wire_health_result option) \<Rightarrow> semantic_step list \<Rightarrow> contract_input \<Rightarrow> u32 \<Rightarrow> bool"
where
  "expanded_at from_str steps inp k \<longleftrightarrow>
     (\<exists>e \<in> set (episodes steps). \<exists>s a r. delta_turn inp steps e = Some s \<and> ss_index s = k \<and>
        episode_assistant steps e = Some a \<and>
        parse_health_result from_str (ss_text a) SESSION_HEALTH_STEER_ID = Inr r \<and>
        hr_contract_relation r = Expands)"

definition admitted_step ::
  "(string \<Rightarrow> wire_health_result option) \<Rightarrow> semantic_step list \<Rightarrow> semantic_facts list \<Rightarrow> contract_input \<Rightarrow> u32 \<Rightarrow> bool"
where
  "admitted_step from_str steps semantic inp k \<longleftrightarrow>
     k = contract_base inp \<or> corrected_at steps semantic inp k \<or> expanded_at from_str steps inp k \<or>
     k \<in> cd_source_step ` set (ci_promoted inp)"

lemma contract_of_inv:
  "contract_inv (admitted_step from_str steps semantic inp) (contract_of T from_str steps semantic inp)"
proof -
  let ?P = "admitted_step from_str steps semantic inp"
  let ?l0 = "ledger_default\<lparr>lg_epoch := of_nat (length (filter (\<lambda>f. is_yes (sf_pivot f)) semantic)),
    lg_candidates := ci_candidates inp\<rparr>"
  have l0: "contract_inv ?P ?l0" by (simp add: contract_inv_def ledger_default_def)
  have base: "?P (contract_base inp)" by (simp add: admitted_step_def)
  have mode: "contract_inv ?P (l\<lparr>lg_atomization := m\<rparr>) = contract_inv ?P l" for l m by (simp add: contract_inv_def)
  have l1: "contract_inv ?P (atomize_anchor T semantic (unwrap_or [] (ci_anchor_text inp)) (contract_base inp) ?l0)"
    using l0 base by (auto simp: atomize_anchor_def Let_def mode intro!: add_all_inv split: option.split prod.split)
  have l2: "contract_inv ?P (apply_correction T steps semantic inp e l)" if "e \<in> set (episodes steps)" "contract_inv ?P l" for e l
    using that by (auto simp: apply_correction_def admitted_step_def corrected_at_def split: option.splits intro!: add_delta_inv)
  have l3: "contract_inv ?P (apply_expansion T from_str steps semantic inp e l)"
    if "e \<in> set (episodes steps)" "contract_inv ?P l" for e l
    using that by (auto simp: apply_expansion_def admitted_step_def expanded_at_def
        split: option.splits sum.splits intro!: add_delta_inv) blast
  have l4: "contract_inv ?P (add_promoted T c l)" if "c \<in> set (ci_promoted inp)" "contract_inv ?P l" for c l
    using that by (auto simp: add_promoted_def admitted_step_def intro!: add_delta_inv)
  show ?thesis
    unfolding contract_of_def Let_def contract_base_def [symmetric]
    by (intro fold_inv [where P = "contract_inv ?P"] l4 l3 l2 l1)
qed

section \<open>Seeds, and the whole\<close>

lemma inherit_inv:
  assumes inv: "ledger_inv steps refs cs l" and i: "i < length cs" and r: "sd_source_ref s \<in> set refs"
    and len: "length (lg_evidence l) < max MAX_EVIDENCE (length cs)"
  shows "ledger_inv steps refs cs (inherit s i l) \<and> length (lg_evidence (inherit s i l)) \<le> length (lg_evidence l) + 1"
proof -
  define o0 where "o0 = (raise_layer (sd_required_layer s) (lg_obligations l ! i))\<lparr>ob_observed_layer := sd_observed_layer s\<rparr>"
  define verified where "verified \<longleftrightarrow> sd_state s = ObVerified \<and> sd_observed_layer s \<noteq> UnknownLayer"
  define o1 where "o1 = (if verified
      then o0\<lparr>ob_state := ObVerified, ob_last_claim_step := Some 0, ob_last_evidence_step := Some 0,
               ob_evidence_ids := ob_evidence_ids o0 @ [inherited_id s (ob_id o0)]\<rparr>
      else if sd_state s = Contradicted
      then o0\<lparr>ob_state := Contradicted, ob_last_claim_step := Some 0,
               ob_evidence_ids := ob_evidence_ids o0 @ [inherited_id s (ob_id o0)]\<rparr>
      else if sd_state s = Claimed \<or> sd_state s = ObVerified
      then o0\<lparr>ob_state := Claimed, ob_last_claim_step := Some 0\<rparr> else o0)"
  define evs where "evs = (if verified then [inherited_evidence s (ob_id o0) Supports]
      else if sd_state s = Contradicted then [inherited_evidence s (ob_id o0) Contradicts] else [])"
  have il: "i < length (lg_obligations l)" using i inv_length [OF inv] by simp
  have id0: "ob_id o0 = ob_id (lg_obligations l ! i)" by (simp add: o0_def raise_layer_def)
  have core: "core_of o1 = core_of (lg_obligations l ! i)"
    by (simp add: o1_def o0_def core_of_def raise_layer_def)
  have ok: "ob_ok (lg_obligations l ! i) \<Longrightarrow> ob_ok o1"
    by (simp add: o1_def o0_def ob_ok_def raise_layer_def)
  have "map core_of ((lg_obligations l)[i := o1]) = map core_of (lg_obligations l)"
    by (rule map_update_same) (rule core)
  moreover have "list_all ob_ok ((lg_obligations l)[i := o1])"
    using inv il ok by (auto simp: list_all_iff ledger_inv_def dest!: set_update_subset_insert [THEN subsetD])
  moreover have "list_all (evidence_ok steps refs (map fst cs)) evs"
    using r inv_id_in [OF inv i] by (simp add: evs_def evidence_ok_def inherited_evidence_def id0)
  moreover have "length evs \<le> 1" by (simp add: evs_def)
  ultimately have "ledger_inv steps refs cs (l\<lparr>lg_obligations := (lg_obligations l)[i := o1],
      lg_evidence := lg_evidence l @ evs, lg_continuation := c\<rparr>) \<and> length (lg_evidence l @ evs) \<le> length (lg_evidence l) + 1" for c
    using inv len by (simp add: ledger_inv_def)
  then show ?thesis
    unfolding inherit_def Let_def verified_def [symmetric] o0_def [symmetric] o1_def [symmetric] evs_def [symmetric]
    by simp
qed

lemma seed_distances_less: "(k, d) \<in> set (seed_distances fp seeds) \<Longrightarrow> k < length seeds"
  by (auto simp: seed_distances_def in_set_enumerate_eq)

lemma apply_seed_inv:
  assumes inv: "ledger_inv steps (map sd_source_ref seeds) cs l" and i: "i < length cs"
    and len: "length (lg_evidence l) < max MAX_EVIDENCE (length cs)"
  shows "ledger_inv steps (map sd_source_ref seeds) cs (apply_seed seeds i l) \<and>
    length (lg_evidence (apply_seed seeds i l)) \<le> length (lg_evidence l) + 1"
proof -
  have cont: "ledger_inv steps (map sd_source_ref seeds) cs (l\<lparr>lg_continuation := c\<rparr>)" for c
    using inv by (simp add: ledger_inv_def)
  have inh: "ledger_inv steps (map sd_source_ref seeds) cs (inherit (seeds ! k) i l) \<and>
      length (lg_evidence (inherit (seeds ! k) i l)) \<le> length (lg_evidence l) + 1" if "k < length seeds" for k
    by (rule inherit_inv [OF inv i _ len]) (use that in simp)
  show ?thesis
  proof (cases "ob_fingerprint (lg_obligations l ! i)")
    case None
    with inv show ?thesis by (simp add: apply_seed_def)
  next
    case (Some fp)
    show ?thesis
    proof (cases "seed_distances fp seeds")
      case Nil
      with Some inv show ?thesis by (simp add: apply_seed_def)
    next
      case (Cons kd rest)
      obtain k d where kd: "kd = (k, d)" by fastforce
      then have "k < length seeds" using seed_distances_less [of k d fp seeds] Cons by simp
      with Some Cons kd inh cont show ?thesis by (simp add: apply_seed_def Let_def)
    qed
  qed
qed

lemma contract_ledger_inv:
  assumes "contract_inv P l"
  shows "ledger_inv steps refs (map core_of (lg_obligations l)) l"
  using assms by (auto simp: contract_inv_def ledger_inv_def list_all_iff)

lemma apply_seeds_inv:
  assumes "contract_inv P l"
  shows "ledger_inv steps (map sd_source_ref seeds) (map core_of (lg_obligations l)) (apply_continuation_seeds seeds l)"
proof -
  let ?l = "l\<lparr>lg_continuation := (lg_continuation l)\<lparr>cm_seeds := length seeds\<rparr>\<rparr>"
  let ?cs = "map core_of (lg_obligations l)"
  have "ledger_inv steps (map sd_source_ref seeds) ?cs (fold (apply_seed seeds) [0..<n] ?l) \<and>
      length (lg_evidence (fold (apply_seed seeds) [0..<n] ?l)) \<le> n" if "n \<le> length (lg_obligations l)" for n
    using that
  proof (induction n)
    case 0
    have "ledger_inv steps (map sd_source_ref seeds) ?cs l" by (rule contract_ledger_inv [OF assms])
    moreover have "lg_evidence l = []" using assms by (simp add: contract_inv_def)
    ultimately show ?case by (simp add: ledger_inv_def)
  next
    case (Suc n)
    let ?m = "fold (apply_seed seeds) [0..<n] ?l"
    have inv: "ledger_inv steps (map sd_source_ref seeds) ?cs ?m" and len: "length (lg_evidence ?m) \<le> n"
      using Suc by auto
    have "length (lg_evidence ?m) < max MAX_EVIDENCE (length ?cs)" using len Suc.prems by simp
    from apply_seed_inv [OF inv _ this, of n] Suc.prems len show ?case by simp
  qed
  then show ?thesis by (simp add: apply_continuation_seeds_def)
qed

lemma refresh_states_inv:
  assumes inv: "ledger_inv steps refs cs l" and d: "distinct (map fst cs)"
  shows "ledger_inv steps refs cs (refresh_states l)"
proof -
  have "distinct (map ob_id (lg_obligations l))" using d inv_ids [OF inv] by simp
  note r = refresh_states_obligations [OF this]
  let ?os = "map (refresh_one (lg_evidence l)) (lg_obligations l)"
  have core: "map core_of ?os = map core_of (lg_obligations l)" by (simp add: core_of_def)
  have ok: "list_all ob_ok ?os"
    using inv by (auto simp: ledger_inv_def list_all_iff ob_ok_def refresh_one_never_superseded)
  have ev: "evidence_ok steps refs ids (renew os e) = evidence_ok steps refs ids e" for ids os e
    by (simp add: evidence_ok_def split: option.split)
  have rest: "lg_delegated_reports (refresh_states l) = map (refresh_report (lg_obligations (refresh_states l))) (lg_delegated_reports l)"
    "lg_topic_edges (refresh_states l) = lg_topic_edges l" "lg_artifact_edges (refresh_states l) = lg_artifact_edges l"
    by (simp_all add: refresh_states_def split: prod.split)
  have "list_all (evidence_ok steps refs (map fst cs)) (lg_evidence (refresh_states l))"
    using inv by (simp add: r ledger_inv_def list_all_iff ev)
  then show ?thesis using inv core ok unfolding ledger_inv_def rest unfolding r by simp
qed

lemma summarize_inv: "ledger_inv steps refs cs (refresh_states l) \<Longrightarrow> ledger_inv steps refs cs (summarize_ledger c l)"
  by (simp add: summarize_ledger_def Let_def ledger_inv_def)

definition contract_core ::
  "text_env \<Rightarrow> (string \<Rightarrow> wire_health_result option) \<Rightarrow> semantic_step list \<Rightarrow> semantic_facts list \<Rightarrow>
   contract_input \<Rightarrow> core list"
where
  "contract_core T from_str steps semantic inp = map core_of (lg_obligations (contract_of T from_str steps semantic inp))"

lemma obligation_id_inj: "obligation_id e i = obligation_id e j \<longleftrightarrow> i = j"
  by (auto simp: obligation_id_def dest: dec_inj)

lemma contract_core_ids:
  "map fst (contract_core T from_str steps semantic inp) =
   map (obligation_id (lg_epoch (contract_of T from_str steps semantic inp)))
     [0..<length (contract_core T from_str steps semantic inp)]"
  using contract_of_inv [of from_str steps semantic inp T]
  by (simp add: contract_core_def contract_inv_def core_of_def comp_def)

lemma contract_core_distinct: "distinct (map fst (contract_core T from_str steps semantic inp))"
  unfolding contract_core_ids by (simp add: distinct_map inj_on_def obligation_id_inj)

text \<open>The ledger before the last renewal, and the one that is returned.\<close>

definition episodes_ledger ::
  "text_env \<Rightarrow> (string \<Rightarrow> wire_health_result option) \<Rightarrow> semantic_step list \<Rightarrow> semantic_facts list \<Rightarrow>
   contract_input \<Rightarrow> ledger_seed list \<Rightarrow> build_state"
where
  "episodes_ledger T from_str steps semantic inp seeds =
     fold (run_episode T from_str steps semantic (episodes steps)) (episodes steps)
       \<lparr>bs_ledger = apply_continuation_seeds seeds (contract_of T from_str steps semantic inp),
        bs_latest = None, bs_recent = []\<rparr>"

lemma episodes_ledger_inv:
  "build_inv steps (map sd_source_ref seeds) (contract_core T from_str steps semantic inp)
     (episodes_ledger T from_str steps semantic inp seeds)"
  unfolding episodes_ledger_def
proof (rule fold_inv [where P = "build_inv steps (map sd_source_ref seeds) (contract_core T from_str steps semantic inp)"])
  show "build_inv steps (map sd_source_ref seeds) (contract_core T from_str steps semantic inp)
      \<lparr>bs_ledger = apply_continuation_seeds seeds (contract_of T from_str steps semantic inp),
        bs_latest = None, bs_recent = []\<rparr>"
    using apply_seeds_inv [OF contract_of_inv] by (simp add: build_inv_def contract_core_def)
qed (rule run_episode_inv)

lemma built_from:
  "\<exists>c l. build_ledger_core T from_str steps semantic inp seeds = summarize_ledger c l \<and>
     ledger_inv steps (map sd_source_ref seeds) (contract_core T from_str steps semantic inp) l"
proof -
  let ?cs = "contract_core T from_str steps semantic inp" and ?refs = "map sd_source_ref seeds"
  let ?l = "refresh_states (bs_ledger (episodes_ledger T from_str steps semantic inp seeds))"
  have "ledger_inv steps ?refs ?cs ?l"
    by (rule refresh_states_inv [OF _ contract_core_distinct])
       (use episodes_ledger_inv in \<open>auto simp: build_inv_def\<close>)
  then have "ledger_inv steps ?refs ?cs (on_feedback f ?l)" for f by simp
  then show ?thesis
    unfolding build_ledger_core_def Let_def episodes_ledger_def [symmetric] by blast
qed

lemma built_inv:
  "ledger_inv steps (map sd_source_ref seeds) (contract_core T from_str steps semantic inp)
     (build_ledger_core T from_str steps semantic inp seeds)"
proof -
  from built_from [of T from_str steps semantic inp seeds] obtain c l where
    "build_ledger_core T from_str steps semantic inp seeds = summarize_ledger c l"
    "ledger_inv steps (map sd_source_ref seeds) (contract_core T from_str steps semantic inp) l" by blast
  then show ?thesis using summarize_inv refresh_states_inv contract_core_distinct by metis
qed

section \<open>Properties of a built ledger\<close>

lemma summarize_fields:
  "lg_obligations (summarize_ledger c l) = lg_obligations (refresh_states l)"
  "lg_evidence (summarize_ledger c l) = lg_evidence (refresh_states l)"
  by (simp_all add: summarize_ledger_def Let_def)

lemma built_obligation:
  assumes "o' \<in> set (lg_obligations (build_ledger_core T from_str steps semantic inp seeds))"
  obtains l o0 where "o0 \<in> set (lg_obligations l)" "o' = refresh_one (lg_evidence l) o0" "ob_state o0 \<noteq> Superseded"
    "lg_evidence (build_ledger_core T from_str steps semantic inp seeds) = map (renew (lg_obligations l)) (lg_evidence l)"
    "distinct (map ob_id (lg_obligations l))"
    "ledger_inv steps (map sd_source_ref seeds) (contract_core T from_str steps semantic inp) l"
proof -
  from built_from [of T from_str steps semantic inp seeds] obtain c l where
    b: "build_ledger_core T from_str steps semantic inp seeds = summarize_ledger c l"
    and inv: "ledger_inv steps (map sd_source_ref seeds) (contract_core T from_str steps semantic inp) l" by blast
  have d: "distinct (map ob_id (lg_obligations l))" unfolding inv_ids [OF inv] by (rule contract_core_distinct)
  note r = refresh_states_obligations [OF d]
  from assms obtain o0 where o0: "o0 \<in> set (lg_obligations l)" "o' = refresh_one (lg_evidence l) o0"
    by (auto simp: b summarize_fields r)
  have "ob_state o0 \<noteq> Superseded" using inv o0(1) by (auto simp: ledger_inv_def list_all_iff ob_ok_def)
  from that [OF o0 this _ d inv] show thesis by (simp add: b summarize_fields r)
qed

text \<open>What supports a verified obligation: a seed, or the successful result of a tool in the transcript.\<close>

definition grounded :: "semantic_step list \<Rightarrow> ledger_seed list \<Rightarrow> ledger_evidence \<Rightarrow> bool" where
  "grounded steps seeds e \<longleftrightarrow>
     (case ev_inherited_from e of
        Some r \<Rightarrow> r \<in> sd_source_ref ` set seeds
      | None \<Rightarrow> is_probe_kind (ev_source_kind e) \<and>
          (\<exists>s \<in> set steps. result_step s \<and> \<not> ss_is_error s \<and> ss_index s = ev_step e))"

lemma verified_evidence:
  assumes "o' \<in> set (lg_obligations (build_ledger_core T from_str steps semantic inp seeds))"
    and "ob_state o' = ObVerified"
  shows "(\<exists>e. e \<in> set (lg_evidence (build_ledger_core T from_str steps semantic inp seeds)) \<and>
      ev_fresh e \<and> proven_by o' e \<and> grounded steps seeds e) \<and>
    \<not> list_ex (refuted_by o') (lg_evidence (build_ledger_core T from_str steps semantic inp seeds))"
proof -
  from assms(1) obtain l o0 where o0: "o0 \<in> set (lg_obligations l)" "o' = refresh_one (lg_evidence l) o0"
    "ob_state o0 \<noteq> Superseded"
    and ev: "lg_evidence (build_ledger_core T from_str steps semantic inp seeds) = map (renew (lg_obligations l)) (lg_evidence l)"
    and d: "distinct (map ob_id (lg_obligations l))"
    and inv: "ledger_inv steps (map sd_source_ref seeds) (contract_core T from_str steps semantic inp) l"
    by (rule built_obligation)
  have st: "\<not> list_ex (refuted_by o0) (lg_evidence l)" "list_ex (proven_by o0) (lg_evidence l)"
    using assms(2) refresh_one_state [OF o0(3), of "lg_evidence l"] o0(2) by (auto split: if_splits)
  then obtain e where e: "e \<in> set (lg_evidence l)" "proven_by o0 e" by (auto simp: list_ex_iff)
  have ok: "evidence_ok steps (map sd_source_ref seeds) (map fst (contract_core T from_str steps semantic inp)) e"
    using inv e(1) by (simp add: ledger_inv_def list_all_iff)
  let ?e = "renew (lg_obligations l) e"
  have "ev_fresh ?e"
    using renew_fresh [OF d o0(1,3)] e(2) by (auto simp: proven_by_def known_support_def)
  moreover have "grounded steps seeds ?e"
    using ok e(2) by (auto simp: grounded_def evidence_ok_def proven_by_def known_support_def split: option.splits)
  moreover have "proven_by o' ?e" using e(2) o0(2) by simp
  moreover have "\<not> list_ex (refuted_by o') (map (renew (lg_obligations l)) (lg_evidence l))"
    using st(1) o0(2) by (auto simp: list_ex_iff)
  ultimately show ?thesis unfolding ev using e(1) by auto
qed


text \<open>
  C37. A failure outlives later success: while an obligation is not known to have changed since a failed
  run of a unit test or more, it is reported contradicted, whatever support came after.
\<close>

theorem failure_outlives_success:
  assumes "o' \<in> set (lg_obligations (build_ledger_core T from_str steps semantic inp seeds))"
    and "list_ex (refuted_by o') (lg_evidence (build_ledger_core T from_str steps semantic inp seeds))"
  shows "ob_state o' = Contradicted"
proof -
  from assms(1) obtain l o0 where o0: "o0 \<in> set (lg_obligations l)" "o' = refresh_one (lg_evidence l) o0"
    "ob_state o0 \<noteq> Superseded"
    and ev: "lg_evidence (build_ledger_core T from_str steps semantic inp seeds) = map (renew (lg_obligations l)) (lg_evidence l)"
    and "distinct (map ob_id (lg_obligations l))"
    and "ledger_inv steps (map sd_source_ref seeds) (contract_core T from_str steps semantic inp) l"
    by (rule built_obligation)
  have "list_ex (refuted_by o0) (lg_evidence l)" using assms(2) unfolding ev o0(2) by (auto simp: list_ex_iff)
  then show ?thesis using refresh_one_state [OF o0(3), of "lg_evidence l"] o0(2) by simp
qed

text \<open>
  C38. Only what the user gave enters the contract: the source of every obligation is the step of the
  contract's anchor, a user step a correction was recognised in, one whose episode reported an
  expansion of the contract, or a promoted document; a pasted document that was not promoted is none of
  these. The obligations are numbered from one, none is ever superseded, and neither seeds nor episodes
  change their texts.
\<close>

theorem contract_grows_only_by_consent:
  "list_all (\<lambda>o'. admitted_step from_str steps semantic inp (ob_source_step o') \<and> ob_state o' \<noteq> Superseded)
     (lg_obligations (build_ledger_core T from_str steps semantic inp seeds)) \<and>
   map core_of (lg_obligations (build_ledger_core T from_str steps semantic inp seeds)) =
     map core_of (lg_obligations (contract_of T from_str steps semantic inp)) \<and>
   map ob_id (lg_obligations (build_ledger_core T from_str steps semantic inp seeds)) =
     map (obligation_id (lg_epoch (contract_of T from_str steps semantic inp)))
       [0..<length (lg_obligations (build_ledger_core T from_str steps semantic inp seeds))]"
proof -
  let ?b = "lg_obligations (build_ledger_core T from_str steps semantic inp seeds)"
  let ?c = "lg_obligations (contract_of T from_str steps semantic inp)"
  note inv = built_inv [of steps seeds T from_str semantic inp]
  have core: "map core_of ?b = map core_of ?c" using inv by (simp add: ledger_inv_def contract_core_def)
  have "list_all (\<lambda>o'. admitted_step from_str steps semantic inp (ob_source_step o')) ?c"
    using contract_of_inv [of from_str steps semantic inp T] by (auto simp: contract_inv_def list_all_iff)
  then have "list_all (\<lambda>(i, k, t). admitted_step from_str steps semantic inp k) (map core_of ?c)"
    by (simp add: list_all_iff core_of_def)
  then have "list_all (\<lambda>(i, k, t). admitted_step from_str steps semantic inp k) (map core_of ?b)"
    by (simp only: core)
  then have "list_all (\<lambda>o'. admitted_step from_str steps semantic inp (ob_source_step o')) ?b"
    by (simp add: list_all_iff core_of_def)
  moreover have "list_all ob_ok ?b" using inv by (simp add: ledger_inv_def)
  moreover have "map ob_id ?b = map fst (contract_core T from_str steps semantic inp)" by (rule inv_ids [OF inv])
  moreover have "length ?b = length (contract_core T from_str steps semantic inp)" by (rule inv_length [OF inv])
  ultimately show ?thesis using core by (simp add: list_all_iff ob_ok_def contract_core_ids)
qed

text \<open>
  C40. The ledger stays bounded: at most 96 pieces of evidence or one per obligation, 96 reports of
  delegates and 96 certificates, whatever the transcript; every piece of evidence and every edge to a
  file belongs to an obligation of the ledger.
\<close>

theorem ledger_bounded:
  "length (lg_evidence (build_ledger_core T from_str steps semantic inp seeds)) \<le>
     max 96 (length (lg_obligations (build_ledger_core T from_str steps semantic inp seeds))) \<and>
   length (lg_delegated_reports (build_ledger_core T from_str steps semantic inp seeds)) \<le> 96 \<and>
   length (lg_topic_edges (build_ledger_core T from_str steps semantic inp seeds)) \<le> 96 \<and>
   ev_obligation_id ` set (lg_evidence (build_ledger_core T from_str steps semantic inp seeds)) \<union>
     ed_obligation_id ` set (lg_artifact_edges (build_ledger_core T from_str steps semantic inp seeds)) \<subseteq>
     ob_id ` set (lg_obligations (build_ledger_core T from_str steps semantic inp seeds))"
proof -
  let ?b = "build_ledger_core T from_str steps semantic inp seeds"
  note inv = built_inv [of steps seeds T from_str semantic inp]
  have "ob_id ` set (lg_obligations ?b) = set (map fst (contract_core T from_str steps semantic inp))"
    using inv_ids [OF inv] by (metis set_map)
  then show ?thesis using inv inv_length [OF inv]
    by (auto simp: ledger_inv_def list_all_iff evidence_ok_def edge_ok_def MAX_EVIDENCE_def)
qed

section \<open>Two short sessions\<close>

text \<open>A session whose only check passes, and one where a check fails before it passes.\<close>

definition demo_text :: text_env where
  "demo_text = \<lparr>te_lower = (\<lambda>s. s), te_alnum = (\<lambda>c. False), te_simhash = (\<lambda>fs. 0)\<rparr>"

definition demo_tool :: "u32 \<Rightarrow> semantic_step" where
  "demo_tool i = (step_new i RToolUse ''t'')\<lparr>ss_tool_kind := KExecute, ss_tool_target := Some ''a.b''\<rparr>"

definition demo_result :: "u32 \<Rightarrow> bool \<Rightarrow> semantic_step" where
  "demo_result i err = (step_new i RToolResult ''r'')\<lparr>ss_is_error := err\<rparr>"

definition demo_facts :: semantic_facts where
  "demo_facts = facts_default\<lparr>sf_completion_claim := \<lparr>cs_state = Yes, cs_probability = Some 1\<rparr>,
     sf_verification_claim := \<lparr>cs_state = Yes, cs_probability = Some 1\<rparr>,
     sf_evidence_relation := \<lparr>rs_relation = RelSupports, rs_probability = Some 1\<rparr>\<rparr>"

definition demo_input :: contract_input where
  "demo_input = input_default\<lparr>ci_anchor_text := Some ''a.b''\<rparr>"

definition demo_passed :: "semantic_step list" where
  "demo_passed = [step_new 0 RUser ''a.b'', demo_tool 1, demo_result 2 False]"

definition demo_failed :: "semantic_step list" where
  "demo_failed = [step_new 0 RUser ''a.b'', demo_tool 1, demo_result 2 True, demo_tool 3, demo_result 4 False]"

definition demo_ledger :: "semantic_step list \<Rightarrow> ledger" where
  "demo_ledger steps = build_ledger_core demo_text (\<lambda>_. None) steps [demo_facts] demo_input []"

lemma demo_passed_run: "map ob_state (lg_obligations (demo_ledger demo_passed)) = [ObVerified]"
  by code_simp

definition fails_then_passes :: "ledger \<Rightarrow> bool" where
  "fails_then_passes l =
     list_ex (\<lambda>o'. list_ex (refuted_by o') (lg_evidence l) \<and>
       list_ex (\<lambda>e. proven_by o' e \<and> ev_step e = 4) (lg_evidence l)) (lg_obligations l)"

lemma demo_failed_run: "fails_then_passes (demo_ledger demo_failed)"
  by code_simp


theorem failure_outlives_success_witness:
  "\<exists>o'. o' \<in> set (lg_obligations (demo_ledger demo_failed)) \<and> ob_state o' = Contradicted \<and>
     (\<exists>e. e \<in> set (lg_evidence (demo_ledger demo_failed)) \<and> proven_by o' e \<and> ev_step e = 4)"
proof -
  from demo_failed_run obtain o' where o': "o' \<in> set (lg_obligations (demo_ledger demo_failed))"
    "list_ex (refuted_by o') (lg_evidence (demo_ledger demo_failed))"
    "\<exists>e. e \<in> set (lg_evidence (demo_ledger demo_failed)) \<and> proven_by o' e \<and> ev_step e = 4"
    unfolding fails_then_passes_def list_ex_iff by blast
  with failure_outlives_success [OF o'(1,2) [unfolded demo_ledger_def]] show ?thesis by blast
qed

end
