(* ===== verification/Ledger_Signals.thy ===== *)
theory Ledger_Signals
  imports Ledger_Props
begin

text \<open>
  The signals of a built ledger are counts of its obligations, its coverage is full exactly when all
  are verified, and its focus is one of the most severe open ones.
\<close>

section \<open>Greatest elements\<close>

lemma max_by_from:
  assumes "\<And>a b. le a b \<or> le b a" "\<And>a b c. le a b \<Longrightarrow> le b c \<Longrightarrow> le a c"
  shows "\<exists>m \<in> set (a # xs). foldl (\<lambda>best x. case best of None \<Rightarrow> Some x | Some b \<Rightarrow> if le b x then Some x else Some b)
      (Some a) xs = Some m \<and> (\<forall>x \<in> set (a # xs). le x m)"
proof (induction xs arbitrary: a)
  case Nil
  then show ?case using assms(1) [of a a] by simp
next
  case (Cons y ys)
  show ?case
  proof (cases "le a y")
    case True
    from Cons.IH [of y] obtain m where m: "m \<in> set (y # ys)" "\<forall>x \<in> set (y # ys). le x m"
      "foldl (\<lambda>best x. case best of None \<Rightarrow> Some x | Some b \<Rightarrow> if le b x then Some x else Some b) (Some y) ys = Some m"
      by blast
    then have "le a m" using True assms(2) [of a y m] by simp
    with m True show ?thesis by auto
  next
    case False
    then have ya: "le y a" using assms(1) by blast
    from Cons.IH [of a] obtain m where m: "m \<in> set (a # ys)" "\<forall>x \<in> set (a # ys). le x m"
      "foldl (\<lambda>best x. case best of None \<Rightarrow> Some x | Some b \<Rightarrow> if le b x then Some x else Some b) (Some a) ys = Some m"
      by blast
    then have "le y m" using ya assms(2) [of y a m] by simp
    with m False show ?thesis by auto
  qed
qed

lemma max_by_None [simp]: "max_by le xs = None \<longleftrightarrow> xs = []"
proof (cases xs)
  case (Cons a as)
  have "foldl (\<lambda>best x. case best of None \<Rightarrow> Some x | Some b \<Rightarrow> if le b x then Some x else Some b) (Some b) ys \<noteq> None" for b ys
    by (induction ys arbitrary: b) auto
  with Cons show ?thesis by (simp add: max_by_def)
qed (simp add: max_by_def)

lemma max_by_Some:
  assumes "\<And>a b. le a b \<or> le b a" "\<And>a b c. le a b \<Longrightarrow> le b c \<Longrightarrow> le a c" "max_by le xs = Some m"
  shows "m \<in> set xs \<and> (\<forall>x \<in> set xs. le x m)"
proof -
  have "xs \<noteq> []" using assms(3) by (auto simp: max_by_def)
  then obtain a as where xs: "xs = a # as" by (cases xs) auto
  have "\<exists>m \<in> set (a # as). foldl (\<lambda>best x. case best of None \<Rightarrow> Some x | Some b \<Rightarrow> if le b x then Some x else Some b)
      (Some a) as = Some m \<and> (\<forall>x \<in> set (a # as). le x m)"
    by (rule max_by_from) (use assms(1,2) in blast)+
  with assms(3) show ?thesis by (auto simp: max_by_def xs)
qed

lemma focus_le_total: "focus_le a b \<or> focus_le b a"
  by (auto simp: focus_le_def Let_def)

lemma focus_le_trans: "focus_le a b \<Longrightarrow> focus_le b c \<Longrightarrow> focus_le a c"
  by (auto simp: focus_le_def Let_def)

section \<open>Counts\<close>

lemma active_all: "list_all ob_ok (lg_obligations l) \<Longrightarrow> active l = [0..<length (lg_obligations l)]"
  unfolding active_def by (rule filter_True) (auto simp: list_all_length ob_ok_def)

lemma built_summary:
  obtains c l where "build_ledger_core T from_str steps semantic inp seeds = summarize_ledger c l"
    "list_all ob_ok (lg_obligations (refresh_states l))"
proof -
  from built_from [of T from_str steps semantic inp seeds] obtain c l where
    b: "build_ledger_core T from_str steps semantic inp seeds = summarize_ledger c l"
    and inv: "ledger_inv steps (map sd_source_ref seeds) (contract_core T from_str steps semantic inp) l" by blast
  have "ledger_inv steps (map sd_source_ref seeds) (contract_core T from_str steps semantic inp) (refresh_states l)"
    by (rule refresh_states_inv [OF inv contract_core_distinct])
  with that [OF b] show thesis by (simp add: ledger_inv_def)
qed

definition state_count :: "ObligationState \<Rightarrow> ledger \<Rightarrow> nat" where
  "state_count st l = length (filter (\<lambda>o'. ob_state o' = st) (lg_obligations l))"

lemma four_states:
  "list_all ob_ok os \<Longrightarrow> length (filter (\<lambda>o'. ob_state o' = ObOpen) os) + length (filter (\<lambda>o'. ob_state o' = Claimed) os) +
    length (filter (\<lambda>o'. ob_state o' = ObVerified) os) + length (filter (\<lambda>o'. ob_state o' = Contradicted) os) = length os"
proof (induction os)
  case (Cons x xs)
  then show ?case by (cases "ob_state x") (auto simp: ob_ok_def)
qed simp

text \<open>What a built ledger reports is about the obligations it lists, all of them active.\<close>

lemma built_counts:
  fixes T from_str steps semantic inp seeds
  defines "b \<equiv> build_ledger_core T from_str steps semantic inp seeds"
  shows "sg_active (lg_signals b) = length (lg_obligations b)" "sg_open (lg_signals b) = state_count ObOpen b"
    "sg_claimed_unverified (lg_signals b) = state_count Claimed b"
    "sg_verified (lg_signals b) = state_count ObVerified b"
    "sg_contradicted (lg_signals b) = state_count Contradicted b"
proof -
  obtain c l where b: "b = summarize_ledger c l" and ok: "list_all ob_ok (lg_obligations (refresh_states l))"
    unfolding b_def by (rule built_summary)
  let ?os = "lg_obligations (refresh_states l)"
  have act: "active (refresh_states l) = [0..<length ?os]" by (rule active_all [OF ok])
  have os: "map (\<lambda>i. ?os ! i) [0..<length ?os] = ?os" by (rule map_nth)
  have obs: "lg_obligations b = ?os" by (simp add: b summarize_fields)
  show "sg_active (lg_signals b) = length (lg_obligations b)" "sg_open (lg_signals b) = state_count ObOpen b"
    "sg_claimed_unverified (lg_signals b) = state_count Claimed b"
    "sg_verified (lg_signals b) = state_count ObVerified b"
    "sg_contradicted (lg_signals b) = state_count Contradicted b"
    unfolding state_count_def obs unfolding b summarize_ledger_def Let_def act os by simp_all
qed

text \<open>
  The signals count: every obligation is active and in one of the four states, the four counters
  add up to the number of obligations, and there is a focus exactly when something is not verified; it
  is then such an obligation, and none is more severe.
\<close>

theorem signals_are_counts:
  "let b = build_ledger_core T from_str steps semantic inp seeds in
    sg_active (lg_signals b) = length (lg_obligations b) \<and>
    sg_open (lg_signals b) = state_count ObOpen b \<and>
    sg_claimed_unverified (lg_signals b) = state_count Claimed b \<and>
    sg_verified (lg_signals b) = state_count ObVerified b \<and>
    sg_contradicted (lg_signals b) = state_count Contradicted b \<and>
    sg_open (lg_signals b) + sg_claimed_unverified (lg_signals b) + sg_verified (lg_signals b) +
      sg_contradicted (lg_signals b) = length (lg_obligations b) \<and>
    (lg_focus b = None \<longleftrightarrow> list_all (\<lambda>o'. ob_state o' = ObVerified) (lg_obligations b)) \<and>
    (case lg_focus b of
       None \<Rightarrow> True
     | Some i \<Rightarrow> i < length (lg_obligations b) \<and> ob_state (lg_obligations b ! i) \<noteq> ObVerified \<and>
         list_all (\<lambda>o'. severity (ob_state o') \<le> severity (ob_state (lg_obligations b ! i))) (lg_obligations b))"
proof -
  define b where "b = build_ledger_core T from_str steps semantic inp seeds"
  obtain c l where b: "b = summarize_ledger c l" and ok: "list_all ob_ok (lg_obligations (refresh_states l))"
    unfolding b_def by (rule built_summary)
  let ?os = "lg_obligations (refresh_states l)"
  have act: "active (refresh_states l) = [0..<length ?os]" by (rule active_all [OF ok])
  have os: "map (\<lambda>i. ?os ! i) [0..<length ?os] = ?os" by (rule map_nth)
  have obs: "lg_obligations b = ?os" by (simp add: b summarize_fields)
  let ?rest = "filter (\<lambda>i. ob_state (?os ! i) \<noteq> ObVerified) [0..<length ?os]"
  have focus: "lg_focus b = max_by (\<lambda>i j. focus_le (?os ! i) (?os ! j)) ?rest"
    by (simp add: b summarize_ledger_def Let_def act)
  have none: "?rest = [] \<longleftrightarrow> list_all (\<lambda>o'. ob_state o' = ObVerified) ?os"
    by (auto simp: filter_empty_conv list_all_length)
  have some: "i < length ?os \<and> ob_state (?os ! i) \<noteq> ObVerified \<and>
      list_all (\<lambda>o'. severity (ob_state o') \<le> severity (ob_state (?os ! i))) ?os" if "lg_focus b = Some i" for i
  proof -
    from max_by_Some [OF _ _ that [unfolded focus]] focus_le_total focus_le_trans
    have i: "i \<in> set ?rest" and max: "\<And>j. j \<in> set ?rest \<Longrightarrow> focus_le (?os ! j) (?os ! i)" by blast+
    have "severity (ob_state (?os ! j)) \<le> severity (ob_state (?os ! i))" if "j < length ?os" for j
    proof (cases "ob_state (?os ! j) = ObVerified")
      case True
      then show ?thesis by (simp add: severity_def)
    next
      case False
      then have "focus_le (?os ! j) (?os ! i)" using max that by simp
      then show ?thesis by (auto simp: focus_le_def Let_def)
    qed
    with i show ?thesis by (simp add: list_all_length)
  qed
  note sig = built_counts [of T from_str steps semantic inp seeds, folded b_def, unfolded obs]
  have sum: "state_count ObOpen b + state_count Claimed b + state_count ObVerified b + state_count Contradicted b = length ?os"
    unfolding state_count_def obs by (rule four_states [OF ok])
  have foc: "lg_focus b = None \<longleftrightarrow> list_all (\<lambda>o'. ob_state o' = ObVerified) ?os"
    unfolding focus max_by_None by (rule none)
  show ?thesis unfolding Let_def b_def [symmetric] obs using sig sum some foc
    by (auto split: option.split)
qed

section \<open>Coverage\<close>

definition quarters :: "ObligationState \<Rightarrow> nat" where
  "quarters s = (case s of ObVerified \<Rightarrow> 4 | Claimed \<Rightarrow> 1 | _ \<Rightarrow> 0)"

lemma state_score_quarters: "f32_round (state_score s) = of_nat (quarters s) / 4"
  using f32_quarter_exact [of 4] f32_quarter_exact [of 1] f32_quarter_exact [of 0]
  by (cases s) (simp_all add: state_score_def quarters_def)

lemma quarters_bound: "sum_list (map (quarters \<circ> ob_state) os) \<le> 4 * length os \<and>
  (sum_list (map (quarters \<circ> ob_state) os) = 4 * length os \<longleftrightarrow> list_all (\<lambda>o'. ob_state o' = ObVerified) os)"
proof (induction os)
  case (Cons x xs)
  then show ?case by (cases "ob_state x") (auto simp: quarters_def)
qed simp

lemma coverage_of_full:
  assumes "list_all (\<lambda>o'. ob_priority o' = 1) os" "os \<noteq> []" "length os \<le> 2 ^ 22"
  shows "coverage_of os = 1 \<longleftrightarrow> list_all (\<lambda>o'. ob_state o' = ObVerified) os"
proof -
  let ?n = "length os" and ?K = "sum_list (map (quarters \<circ> ob_state) os)"
  have n: "0 < ?n" using assms(2) by simp
  have K: "?K \<le> 4 * ?n" using quarters_bound by blast
  have "map ob_priority os = map (\<lambda>k. of_nat k / 4) (replicate ?n 4)"
    using assms(1) by (auto simp: list_all_iff map_replicate_const [symmetric] intro!: map_cong)
  then have "f32_sum (map ob_priority os) = of_nat (sum_list (replicate ?n 4)) / 4"
    using f32_sum_quarters [of "replicate ?n 4"] assms(3) by (simp add: sum_list_replicate)
  then have total: "f32_sum (map ob_priority os) = of_nat ?n" by (simp add: sum_list_replicate)
  have "map (\<lambda>o'. f32_round (ob_priority o' * state_score (ob_state o'))) os =
      map (\<lambda>k. of_nat k / 4) (map (quarters \<circ> ob_state) os)"
    using assms(1) by (auto simp: list_all_iff state_score_quarters)
  moreover have "?K \<le> 2 ^ 24" using K assms(3) by simp
  ultimately have covered: "f32_sum (map (\<lambda>o'. f32_round (ob_priority o' * state_score (ob_state o'))) os) = of_nat ?K / 4"
    by (simp only: f32_sum_quarters)
  have "f32_div (of_nat ?K / 4) (of_nat ?n) = f32_div (of_nat ?K) (of_nat (4 * ?n))"
    by (simp add: f32_div_def divide_divide_eq_left)
  moreover have "f32_div (of_nat ?K) (of_nat (4 * ?n)) = 1 \<longleftrightarrow> ?K = 4 * ?n"
    by (rule f32_div_one) (use K n assms(3) in simp_all)
  moreover have "f32_div (of_nat ?K) (of_nat (4 * ?n)) \<le> 1"
  proof -
    have "(of_nat ?K :: rat) \<le> of_nat (4 * ?n)" using K by (simp only: of_nat_le_iff)
    then have "(of_nat ?K :: rat) / of_nat (4 * ?n) \<le> 1" using n by (simp add: divide_le_eq)
    then show ?thesis unfolding f32_div_def by (rule f32_round_le_one)
  qed
  moreover have "\<not> (of_nat ?n :: rat) \<le> 1 / 8388608"
  proof -
    have "(of_nat 1 :: rat) \<le> of_nat ?n" using n by (simp only: of_nat_le_iff)
    then have "(1 :: rat) \<le> of_nat ?n" by simp
    moreover have "(1 / 8388608 :: rat) < 1" by simp
    ultimately show ?thesis by linarith
  qed
  moreover have "f32_clamp 0 1 x = 1 \<longleftrightarrow> x = 1" if "x \<le> 1" for x using that by (auto simp: f32_clamp_def)
  ultimately have "coverage_of os = 1 \<longleftrightarrow> ?K = 4 * ?n"
    unfolding coverage_of_def Let_def total covered by (simp only: if_False)
  then show ?thesis using quarters_bound by blast
qed

text \<open>
  Full coverage means full proof: for a contract of at most four million obligations the coverage,
  a quotient of sums of single-precision floats, is 1 exactly when every obligation is verified, and a
  completion claim leaves a gap exactly when it is not.
\<close>

theorem full_coverage_iff_verified:
  assumes "lg_obligations (build_ledger_core T from_str steps semantic inp seeds) \<noteq> []"
    and "length (lg_obligations (build_ledger_core T from_str steps semantic inp seeds)) \<le> 2 ^ 22"
  shows "sg_coverage (lg_signals (build_ledger_core T from_str steps semantic inp seeds)) = 1 \<longleftrightarrow>
    list_all (\<lambda>o'. ob_state o' = ObVerified) (lg_obligations (build_ledger_core T from_str steps semantic inp seeds))"
proof -
  obtain c l where b: "build_ledger_core T from_str steps semantic inp seeds = summarize_ledger c l"
    and ok: "list_all ob_ok (lg_obligations (refresh_states l))" by (rule built_summary)
  let ?os = "lg_obligations (refresh_states l)"
  have "sg_coverage (lg_signals (summarize_ledger c l)) = coverage_of ?os"
    unfolding summarize_ledger_def Let_def active_all [OF ok] by (simp add: map_nth)
  moreover have "list_all (\<lambda>o'. ob_priority o' = 1) ?os" using ok by (simp add: list_all_iff ob_ok_def)
  ultimately show ?thesis using assms coverage_of_full unfolding b summarize_fields by metis
qed

section \<open>Nothing of a contract is lost\<close>

lemma join_append: "join s (xs @ [x]) = (if xs = [] then x else join s xs @ s @ x)"
  by (induction s xs rule: join.induct) auto

lemma join_last: "xs \<noteq> [] \<Longrightarrow> join s (butlast xs @ [last xs @ s @ y]) = join s xs @ s @ y"
  by (cases xs rule: rev_cases) (simp_all add: join_append)

lemma join_append2: "xs \<noteq> [] \<Longrightarrow> ys \<noteq> [] \<Longrightarrow> join s (xs @ ys) = join s xs @ s @ join s ys"
proof (induction ys rule: rev_induct)
  case (snoc y ys)
  then show ?case by (cases "ys = []") (simp_all add: join_append flip: append_assoc)
qed simp

text \<open>The lines seen so far are the lines of the atoms, or those of the part before the first atom.\<close>

lemma collect_atoms_spec:
  assumes "pre = [] \<or> atoms = []" "list_ex snd lines \<or> atoms \<noteq> []"
  shows "collect_atoms lines pre atoms \<noteq> [] \<and>
    join [NEWLINE] (collect_atoms lines pre atoms) = join [NEWLINE] (pre @ atoms @ map fst lines)"
  using assms
proof (induction lines pre atoms rule: collect_atoms.induct)
  case (1 pre atoms)
  then show ?case by auto
next
  case (2 line marked rest pre atoms)
  let ?nl = "[NEWLINE]"
  show ?case
  proof (cases marked)
    case True
    show ?thesis
    proof (cases "atoms = [] \<and> pre \<noteq> []")
      case True
      have "join ?nl ((join ?nl pre @ NEWLINE # line) # ls) = join ?nl (pre @ line # ls)" for ls
      proof (cases "ls = []")
        case False
        have "join ?nl (pre @ line # ls) = join ?nl pre @ ?nl @ join ?nl (line # ls)"
          by (rule join_append2) (use True in simp_all)
        then show ?thesis using False by (cases ls) simp_all
      qed (use True in \<open>simp add: join_append\<close>)
      with 2(1) True \<open>marked\<close> show ?thesis by simp
    next
      case False
      with 2(2) 2(5) \<open>marked\<close> show ?thesis by auto
    qed
  next
    case False
    show ?thesis
    proof (cases "atoms = []")
      case True
      with 2(4) False 2(6) show ?thesis by simp
    next
      case ne: False
      let ?as = "butlast atoms @ [last atoms @ NEWLINE # line]"
      have "join ?nl (?as @ ls) = join ?nl (atoms @ line # ls)" for ls
      proof (cases "ls = []")
        case True
        then show ?thesis using join_last [OF ne, of ?nl line] ne by (simp add: join_append)
      next
        case False
        have "join ?nl (?as @ ls) = join ?nl ?as @ ?nl @ join ?nl ls" by (rule join_append2) (use False in simp_all)
        also have "join ?nl ?as = join ?nl (atoms @ [line])"
          using join_last [OF ne, of ?nl line] ne by (simp add: join_append)
        also have "\<dots> @ ?nl @ join ?nl ls = join ?nl ((atoms @ [line]) @ ls)"
          by (rule join_append2 [symmetric]) (use False in simp_all)
        finally show ?thesis by simp
      qed
      with 2(3) False ne 2(5) show ?thesis by simp
    qed
  qed
qed

text \<open>
  A list in a contract is cut without loss: there are then 2 to 32 marked lines, every atom has at
  most 1200 characters, and the atoms in order hold exactly the nonempty lines of the text, each without
  its marker.
\<close>

theorem structural_atoms_conserve:
  assumes "structural_atoms t = Some atoms"
  shows "join [NEWLINE] atoms = join [NEWLINE] (filter (\<lambda>l. l \<noteq> []) (map (fst \<circ> strip_marker) (rust_lines t))) \<and>
    list_all (\<lambda>a. length (chars_of a) \<le> 1200) atoms \<and>
    2 \<le> length (filter (\<lambda>(l, m). l \<noteq> [] \<and> m) (map strip_marker (rust_lines t))) \<and>
    length (filter (\<lambda>(l, m). l \<noteq> [] \<and> m) (map strip_marker (rust_lines t))) \<le> 32"
proof -
  let ?lines = "filter (\<lambda>(l, _). l \<noteq> []) (map strip_marker (rust_lines t))"
  have a: "atoms = collect_atoms ?lines [] []" "\<not> list_ex (\<lambda>a. 1200 < length (chars_of a)) atoms"
    and m: "2 \<le> length (filter snd ?lines)" "length (filter snd ?lines) \<le> 32"
    using assms by (auto simp: structural_atoms_def Let_def MAX_OBLIGATIONS_def not_less split: if_splits)
  have "filter snd ?lines \<noteq> []" using m(1) by (metis list.size(3) not_numeral_le_zero)
  then have "list_ex snd ?lines" unfolding filter_empty_conv list_ex_iff by blast
  then have "join [NEWLINE] atoms = join [NEWLINE] (map fst ?lines)"
    using collect_atoms_spec [of "[]" "[]" ?lines] a(1) by simp
  moreover have "map fst ?lines = filter (\<lambda>l. l \<noteq> []) (map (fst \<circ> strip_marker) (rust_lines t))"
    by (simp add: filter_map comp_def case_prod_beta)
  moreover have "filter snd ?lines = filter (\<lambda>(l, m). l \<noteq> [] \<and> m) (map strip_marker (rust_lines t))"
    by (auto intro: filter_cong)
  moreover have "list_all (\<lambda>a. length (chars_of a) \<le> 1200) atoms"
    using a(2) by (auto simp: list_all_iff list_ex_iff not_less)
  ultimately show ?thesis using m by simp
qed

lemma match_indices_sound:
  "i \<in> set (match_indices pat s k) \<Longrightarrow> k \<le> i \<and> pat \<noteq> [] \<and> take (length pat) (drop (i - k) s) = pat"
proof (induction pat s k arbitrary: i rule: match_indices.induct)
  case (1 pat s k)
  have step: "i - k = Suc (i - (k + 1))" if "k + 1 \<le> i" using that by simp
  show ?case
  proof (cases "s = [] \<or> pat = []")
    case True
    with 1(3) show ?thesis by (subst (asm) match_indices.simps) simp
  next
    case False
    show ?thesis
    proof (cases "starts_with pat s")
      case True
      have "i = k \<or> i \<in> set (match_indices pat (drop (length pat) s) (k + length pat))"
        using 1(3) False True by (subst (asm) match_indices.simps) simp
      then show ?thesis
      proof
        assume "i = k"
        with True False show ?thesis by (auto simp: starts_with_iff)
      next
        assume "i \<in> set (match_indices pat (drop (length pat) s) (k + length pat))"
        from 1(1) [OF False True this]
        have h: "k + length pat \<le> i" "take (length pat) (drop (i - (k + length pat)) (drop (length pat) s)) = pat"
          by blast+
        have "drop (i - (k + length pat)) (drop (length pat) s) = drop (i - (k + length pat) + length pat) s"
          by (rule drop_drop)
        also have "i - (k + length pat) + length pat = i - k" using h(1) by simp
        finally have "take (length pat) (drop (i - k) s) = pat" using h(2) by simp
        moreover have "k \<le> i" using h(1) by simp
        ultimately show ?thesis using False by simp
      qed
    next
      case nm: False
      have "i \<in> set (match_indices pat (tl s) (k + 1))"
        using 1(3) False nm by (subst (asm) match_indices.simps) simp
      from 1(2) [OF False nm this] step False show ?thesis by (cases s) simp_all
    qed
  qed
qed

definition atom_ok :: "string \<Rightarrow> validated_atom \<Rightarrow> bool" where
  "atom_ok source a \<longleftrightarrow>
     va_text a \<noteq> [] \<and> va_to a = va_from a + length (va_text a) \<and>
     take (length (va_text a)) (drop (va_from a) source) = va_text a"

lemma unique_span_ok:
  assumes "unique_span source q = Some (a, b)"
  shows "b = a + length q \<and> q \<noteq> [] \<and> take (length q) (drop a source) = q"
proof -
  have "match_indices q source 0 = [a]" and b: "b = a + length q"
    using assms by (auto simp: unique_span_def split: list.splits)
  then have "a \<in> set (match_indices q source 0)" by simp
  from match_indices_sound [OF this] b show ?thesis by simp
qed

lemma raise_first_ok: "list_all (atom_ok source) as \<Longrightarrow> list_all (atom_ok source) (raise_first sp layer as)"
  by (auto simp: raise_first_def list_all_iff atom_ok_def find_Some_iff split: option.split
      dest!: set_update_subset_insert [THEN subsetD])

lemma add_hint_ok:
  assumes "list_all (atom_ok source) as"
  shows "list_all (atom_ok source) (add_hint T source h as)"
  using assms raise_first_ok unique_span_ok
  by (auto simp: add_hint_def Let_def atom_ok_def split: option.split)

lemma pairs_disjoint:
  "\<not> list_ex (\<lambda>(a, b). va_from b < va_to a) (zip as (tl as)) \<longleftrightarrow> successively (\<lambda>a b. va_to a \<le> va_from b) as"
proof (induction as)
  case (Cons a as)
  then show ?case by (cases as) (auto simp: not_less)
qed simp

text \<open>
  C39. A contract that a model cut is conserved: accepted are 2 to 32 atoms that stand verbatim in the
  source, one after the other without overlap, between boundaries of clauses; together they cover every
  letter, digit and path character of the source and keep its literals.
\<close>

theorem extracted_atoms_conserve:
  assumes "validate_atom_proposal T source hints src = Some (atoms, m)"
    and "length (signal_positions T source) \<le> 2 ^ 24"
  shows "2 \<le> length atoms \<and> length atoms \<le> 32 \<and> list_all (atom_ok source) atoms \<and>
    successively (\<lambda>a b. va_to a \<le> va_from b) atoms \<and>
    list_all (in_spans (map span_of atoms)) (signal_positions T source) \<and>
    literals_preserved T source atoms \<and> clause_boundaries_preserved source (map span_of atoms)"
proof -
  let ?taken = "filter (\<lambda>h. ah_source h = src \<and> f32_reaches (ah_probability h) MIN_ATOM_CONFIDENCE) hints"
  let ?raw = "foldl (\<lambda>as h. add_hint T source h as) [] ?taken"
  have a: "atoms = sort_key va_from ?raw" and n: "2 \<le> length atoms" "length atoms \<le> 32"
    and d: "\<not> list_ex (\<lambda>(a, b). va_from b < va_to a) (zip atoms (tl atoms))"
    and c: "signal_coverage T source (map span_of atoms) = 1"
    and r: "literals_preserved T source atoms" "clause_boundaries_preserved source (map span_of atoms)"
    using assms(1) by (auto simp: validate_atom_proposal_def Let_def MAX_OBLIGATIONS_def split: if_splits)
  have "list_all (atom_ok source) (foldl (\<lambda>as h. add_hint T source h as) as hs)"
    if "list_all (atom_ok source) as" for as hs
    using that by (induction hs arbitrary: as) (simp_all add: add_hint_ok)
  from this [of "[]" ?taken] have "list_all (atom_ok source) ?raw" by simp
  then have ok: "list_all (atom_ok source) atoms" unfolding a by (simp add: list_all_iff)
  let ?ps = "signal_positions T source" and ?in = "in_spans (map span_of atoms)"
  have ne: "?ps \<noteq> []" using c by (auto simp: signal_coverage_def Let_def)
  let ?c = "length (filter ?in ?ps)"
  have le: "?c \<le> length ?ps" by simp
  have "f32_of_nat ?c = of_nat ?c" "f32_of_nat (length ?ps) = of_nat (length ?ps)"
    by (rule f32_of_nat_exact, rule order_trans [OF le assms(2)]) (rule f32_of_nat_exact [OF assms(2)])
  then have "f32_div (of_nat ?c) (of_nat (length ?ps)) = 1"
    using c ne by (simp add: signal_coverage_def Let_def)
  then have "?c = length ?ps" using f32_div_one [OF le _ assms(2)] ne by simp
  then have "list_all ?in ?ps" by (metis (no_types) length_filter_less less_irrefl list_all_iff)
  with n ok d r show ?thesis unfolding pairs_disjoint by simp
qed

theorem full_coverage_iff_verified_witness:
  "sg_coverage (lg_signals (demo_ledger demo_passed)) = 1"
proof -
  have one: "length (lg_obligations (demo_ledger demo_passed)) = 1"
    using demo_passed_run by (metis length_map list.size(3) list.size(4) One_nat_def add_0)
  then have "lg_obligations (demo_ledger demo_passed) \<noteq> []" "length (lg_obligations (demo_ledger demo_passed)) \<le> 2 ^ 22"
    by auto
  moreover have "list_all (\<lambda>o'. ob_state o' = ObVerified) (lg_obligations (demo_ledger demo_passed))"
    using demo_passed_run by (auto simp: map_eq_Cons_conv)
  ultimately show ?thesis unfolding demo_ledger_def using full_coverage_iff_verified by blast
qed

theorem structural_atoms_conserve_witness:
  "join [NEWLINE] [''a'', ''b''] =
   join [NEWLINE] (filter (\<lambda>l. l \<noteq> []) (map (fst \<circ> strip_marker) (rust_lines (''- a'' @ NEWLINE # ''- b''))))"
  by (rule conjunct1 [OF structural_atoms_conserve]) code_simp

definition demo_hint :: "string \<Rightarrow> atom_hint" where
  "demo_hint q = \<lparr>ah_source = Goal, ah_quote = q, ah_kind = OtherAtom,
     ah_required_evidence_layer = UnitLayer, ah_probability = Some 1\<rparr>"

theorem extracted_atoms_conserve_witness:
  "\<exists>atoms m. validate_atom_proposal demo_text (''a.b.'' @ NEWLINE # ''c.d.'') [demo_hint ''a.b.'', demo_hint ''c.d.''] Goal =
      Some (atoms, m) \<and> successively (\<lambda>a b. va_to a \<le> va_from b) atoms"
proof -
  let ?s = "''a.b.'' @ NEWLINE # ''c.d.''" and ?h = "[demo_hint ''a.b.'', demo_hint ''c.d.'']"
  have "validate_atom_proposal demo_text ?s ?h Goal \<noteq> None" by code_simp
  then obtain atoms m where v: "validate_atom_proposal demo_text ?s ?h Goal = Some (atoms, m)" by fastforce
  have "length (signal_positions demo_text ?s) = 4" by code_simp
  then have "length (signal_positions demo_text ?s) \<le> 2 ^ 24" by simp
  from extracted_atoms_conserve [OF v this] v show ?thesis by blast
qed

end
