(* ===== verification/Effect_Monad.thy ===== *)
theory Effect_Monad
  imports Rust_Data
begin

text \<open>
  Handlers that read and change a world and leave effects in their order, and rules on what a
  handler says, leaves alone and keeps. The Robot and the operator's commands are written in it.
\<close>

section \<open>Operations\<close>

type_synonym ('w, 'e, 'a) op = "'w \<Rightarrow> 'a \<times> 'e list \<times> 'w"

definition rret :: "'a \<Rightarrow> ('w, 'e, 'a) op" where
  "rret x w = (x, [], w)"

definition rbind :: "('w, 'e, 'a) op \<Rightarrow> ('a \<Rightarrow> ('w, 'e, 'b) op) \<Rightarrow> ('w, 'e, 'b) op" where
  "rbind m f w = (case m w of (x, fx, w1) \<Rightarrow> (case f x w1 of (y, gx, w2) \<Rightarrow> (y, fx @ gx, w2)))"

definition rthen :: "('w, 'e, 'a) op \<Rightarrow> ('w, 'e, 'b) op \<Rightarrow> ('w, 'e, 'b) op" where
  "rthen m k = rbind m (\<lambda>_. k)"

definition remit :: "'e \<Rightarrow> ('w, 'e, unit) op" where
  "remit x w = ((), [x], w)"

definition rget :: "('w \<Rightarrow> 'a) \<Rightarrow> ('w, 'e, 'a) op" where
  "rget f w = (f w, [], w)"

definition rmodify :: "('w \<Rightarrow> 'w) \<Rightarrow> ('w, 'e, unit) op" where
  "rmodify f w = ((), [], f w)"

lemma rbind_parts:
  "fst (rbind m f w) = fst (f (fst (m w)) (snd (snd (m w))))"
  "fst (snd (rbind m f w)) = fst (snd (m w)) @ fst (snd (f (fst (m w)) (snd (snd (m w)))))"
  "snd (snd (rbind m f w)) = snd (snd (f (fst (m w)) (snd (snd (m w)))))"
  by (simp_all add: rbind_def split: prod.splits)

section \<open>What an operation leaves alone\<close>

text \<open>
  \<open>stays f m\<close>: the operation leaves \<open>f\<close> of the world as it was. \<open>says P m\<close>: all its effects
  satisfy \<open>P\<close>.
\<close>

definition stays :: "('w \<Rightarrow> 'b) \<Rightarrow> ('w, 'e, 'a) op \<Rightarrow> bool" where
  "stays f m \<longleftrightarrow> (\<forall>w. f (snd (snd (m w))) = f w)"

definition says :: "('e \<Rightarrow> bool) \<Rightarrow> ('w, 'e, 'a) op \<Rightarrow> bool" where
  "says P m \<longleftrightarrow> (\<forall>w. list_all P (fst (snd (m w))))"

named_theorems stays_rules "what operations leave alone"
named_theorems says_rules "what operations say"

lemma staysI: "(\<And>w. f (snd (snd (m w))) = f w) \<Longrightarrow> stays f m"
  by (simp add: stays_def)

lemma saysI: "(\<And>w. list_all P (fst (snd (m w)))) \<Longrightarrow> says P m"
  by (simp add: says_def)

lemma stays_bind [stays_rules]: "stays f m \<Longrightarrow> (\<And>x. stays f (k x)) \<Longrightarrow> stays f (rbind m k)"
  by (simp add: stays_def rbind_parts)

lemma stays_then [stays_rules]: "stays f m \<Longrightarrow> stays f k \<Longrightarrow> stays f (rthen m k)"
  by (simp add: rthen_def stays_bind)

lemma stays_basic [stays_rules]: "stays f (rret x)" "stays f (remit e)" "stays f (rget g)"
  by (simp_all add: stays_def rret_def remit_def rget_def)

lemma stays_if [stays_rules]: "(b \<Longrightarrow> stays f m) \<Longrightarrow> (\<not> b \<Longrightarrow> stays f k) \<Longrightarrow> stays f (if b then m else k)"
  by simp

lemma stays_option [stays_rules]:
  "(x = None \<Longrightarrow> stays f m) \<Longrightarrow> (\<And>y. x = Some y \<Longrightarrow> stays f (k y)) \<Longrightarrow>
   stays f (case x of None \<Rightarrow> m | Some y \<Rightarrow> k y)"
  by (cases x) simp_all

lemma stays_modify: "(\<And>w. f (g w) = f w) \<Longrightarrow> stays f (rmodify g)"
  by (simp add: stays_def rmodify_def)

lemma says_bind [says_rules]: "says P m \<Longrightarrow> (\<And>x. says P (k x)) \<Longrightarrow> says P (rbind m k)"
  by (simp add: says_def rbind_parts)

lemma says_then [says_rules]: "says P m \<Longrightarrow> says P k \<Longrightarrow> says P (rthen m k)"
  by (simp add: rthen_def says_bind)

lemma says_basic [says_rules]: "says P (rret x)" "says P (rget g)" "says P (rmodify h)"
  by (simp_all add: says_def rret_def rget_def rmodify_def)

lemma says_emit [says_rules]: "P x \<Longrightarrow> says P (remit x)"
  by (simp add: says_def remit_def)

lemma says_if [says_rules]: "(b \<Longrightarrow> says P m) \<Longrightarrow> (\<not> b \<Longrightarrow> says P k) \<Longrightarrow> says P (if b then m else k)"
  by simp

lemma says_option [says_rules]:
  "(x = None \<Longrightarrow> says P m) \<Longrightarrow> (\<And>y. x = Some y \<Longrightarrow> says P (k y)) \<Longrightarrow>
   says P (case x of None \<Rightarrow> m | Some y \<Rightarrow> k y)"
  by (cases x) simp_all

section \<open>What holds between the parts\<close>

text \<open>From a world with \<open>I\<close>: the effects satisfy \<open>P\<close>, and the world after has \<open>J\<close>.\<close>

definition flow :: "('w \<Rightarrow> bool) \<Rightarrow> ('w, 'e, 'a) op \<Rightarrow> ('e \<Rightarrow> bool) \<Rightarrow> ('w \<Rightarrow> bool) \<Rightarrow> bool" where
  "flow I m P J \<longleftrightarrow> (\<forall>w. I w \<longrightarrow> list_all P (fst (snd (m w))) \<and> J (snd (snd (m w))))"

lemma flow_bind: "flow I m P J \<Longrightarrow> (\<And>x. flow J (k x) P K) \<Longrightarrow> flow I (rbind m k) P K"
  by (simp add: flow_def rbind_parts)

lemma flow_then: "flow I m P J \<Longrightarrow> flow J k P K \<Longrightarrow> flow I (rthen m k) P K"
  unfolding rthen_def by (rule flow_bind)

lemma flow_ret: "flow I (rret x) P I"
  by (simp add: flow_def rret_def)

lemma flow_if: "(b \<Longrightarrow> flow I m P J) \<Longrightarrow> (\<not> b \<Longrightarrow> flow I k P J) \<Longrightarrow> flow I (if b then m else k) P J"
  by simp

lemma flow_stays: "says P m \<Longrightarrow> stays f m \<Longrightarrow> flow (\<lambda>w. Q (f w)) m P (\<lambda>w. Q (f w))"
  by (simp add: flow_def says_def stays_def)

definition preserves :: "('w \<Rightarrow> bool) \<Rightarrow> ('w, 'e, 'a) op \<Rightarrow> bool" where
  "preserves I m \<longleftrightarrow> (\<forall>w. I w \<longrightarrow> I (snd (snd (m w))))"

lemma preserves_bind: "preserves I m \<Longrightarrow> (\<And>x. preserves I (k x)) \<Longrightarrow> preserves I (rbind m k)"
  by (simp add: preserves_def rbind_parts)

lemma preserves_then: "preserves I m \<Longrightarrow> preserves I k \<Longrightarrow> preserves I (rthen m k)"
  unfolding rthen_def by (rule preserves_bind)

lemma preserves_stays: "stays f m \<Longrightarrow> preserves (\<lambda>w. Q (f w)) m"
  by (simp add: preserves_def stays_def)

lemma preserves_if: "(b \<Longrightarrow> preserves I m) \<Longrightarrow> (\<not> b \<Longrightarrow> preserves I k) \<Longrightarrow> preserves I (if b then m else k)"
  by simp

lemma preserves_option:
  "(x = None \<Longrightarrow> preserves I m) \<Longrightarrow> (\<And>y. x = Some y \<Longrightarrow> preserves I (k y)) \<Longrightarrow>
   preserves I (case x of None \<Rightarrow> m | Some y \<Rightarrow> k y)"
  by (cases x) simp_all

lemma preserves_basic: "preserves I (rret x)" "preserves I (remit e)" "preserves I (rget g)"
  by (simp_all add: preserves_def rret_def remit_def rget_def)

end
