(* ===== verification/Robot.thy ===== *)
theory Robot
  imports Effect_Monad Review Reactor Gate_Controller Ledger
begin

text \<open>
  The Robot: \<open>relay-agent/src/supervisor/robot.rs\<close> and \<open>context.rs\<close>, and the completion snapshot of
  \<open>compass.rs\<close>. Each observation of a session and each task it spawned is one step; the log of
  decisions is left out but for what the ladder reports in Auto mode.
\<close>

section \<open>The context for the supervisor\<close>

record session_snapshot =
  sn_alias :: string
  sn_agent :: string
  sn_state_label :: string
  sn_last_message :: string
  sn_tail :: "turn list"
  sn_question :: "ask_user_question option"
  sn_goal :: "string option"

definition NL :: string where "NL = [CHR 0x0A]"

definition option_row :: "q_option \<Rightarrow> nat \<Rightarrow> string" where
  "option_row opt idx = ''    ['' @ dec idx @ ''] '' @ truncate_chars (qo_label opt) 120 @ NL"

fun option_rows :: "q_option list \<Rightarrow> nat \<Rightarrow> string" where
  "option_rows [] idx = []"
| "option_rows (opt # opts) idx = option_row opt idx @ option_rows opts (idx + 1)"

fun sub_questions :: "question list \<Rightarrow> nat \<Rightarrow> string" where
  "sub_questions [] idx = []"
| "sub_questions (q # qs) idx =
     ''- '' @ truncate_chars (q_question q) 300 @ NL @ option_rows (q_options q) idx @
       sub_questions qs (idx + length (q_options q))"

definition render_sub_questions :: "ask_user_question \<Rightarrow> string" where
  "render_sub_questions q =
     ''QUESTION (answer with option_index, counting from 0 across all):'' @ NL @
       sub_questions (auq_questions q) 0"

definition build_context :: "session_snapshot \<Rightarrow> nat \<Rightarrow> string" where
  "build_context snap budget =
     (let head = ''Session: '' @ sn_alias snap @ '' ('' @ sn_agent snap @ '')'' @ NL @
            ''State: '' @ sn_state_label snap @ NL @
            (case opt_filter (\<lambda>g. trim g \<noteq> []) (sn_goal snap) of
               None \<Rightarrow> [] | Some g \<Rightarrow> ''Goal: '' @ truncate_chars g 400 @ NL) @
            (case sn_question snap of None \<Rightarrow> [] | Some q \<Rightarrow> NL @ render_sub_questions q);
          last_text = truncate_chars (trim (sn_last_message snap)) (min (budget - length head) 1200);
          out = head @ (if last_text = [] then [] else NL @ ''Last message:'' @ NL @ last_text @ NL);
          convo = NL @ ''Recent conversation:'' @ NL @
            concat (map (\<lambda>(who, msg). (if who = CHR ''U'' then ''USER'' else ''AGENT'') @ '': '' @
              truncate_chars (trim msg) 400 @ NL) (sn_tail snap));
          full = (if sn_tail snap = [] then out else out @ truncate_chars convo (budget - length out))
      in truncate_chars full budget)"

section \<open>Completion\<close>

record completion_snapshot =
  cs_active :: nat
  cs_open :: nat
  cs_claimed_unverified :: nat
  cs_verified :: nat
  cs_contradicted :: nat
  cs_disputed :: nat
  cs_stale :: nat
  cs_layer_mismatches :: nat
  cs_coverage :: rat
  cs_completion_scope_gap :: bool
  cs_proof_deficit :: bool
  cs_current_claimed_complete :: bool

definition snapshot_of :: "ledger \<Rightarrow> completion_snapshot" where
  "snapshot_of l =
     (let s = lg_signals l
      in \<lparr>cs_active = sg_active s, cs_open = sg_open s, cs_claimed_unverified = sg_claimed_unverified s,
          cs_verified = sg_verified s, cs_contradicted = sg_contradicted s, cs_disputed = sg_disputed s,
          cs_stale = sg_stale s, cs_layer_mismatches = sg_layer_mismatches s, cs_coverage = sg_coverage s,
          cs_completion_scope_gap = sg_completion_scope_gap s, cs_proof_deficit = sg_proof_deficit s,
          cs_current_claimed_complete = fm_current_claimed_complete (lg_feedback l)\<rparr>)"

definition unresolved :: "completion_snapshot \<Rightarrow> nat" where
  "unresolved s = cs_open s + cs_claimed_unverified s + cs_contradicted s + cs_disputed s + cs_stale s"

definition is_verified_final :: "completion_snapshot \<Rightarrow> bool" where
  "is_verified_final s \<longleftrightarrow>
     0 < cs_active s \<and> cs_verified s = cs_active s \<and> unresolved s = 0 \<and> cs_layer_mismatches s = 0 \<and>
     \<not> cs_completion_scope_gap s \<and> \<not> cs_proof_deficit s \<and> f32_round (999 / 1000) \<le> cs_coverage s"

definition status_label :: "completion_snapshot \<Rightarrow> string" where
  "status_label s =
     (if is_verified_final s then ''verified_final'' else if 0 < cs_active s then ''needs_proof'' else ''unproven'')"

datatype CompletionDisposition = DispVerified | NeedsProof | Unproven

definition completion_disposition :: "completion_snapshot \<Rightarrow> CompletionDisposition" where
  "completion_disposition s =
     (let fully_covered = (0 < cs_active s \<and> cs_verified s = cs_active s \<and> unresolved s = 0 \<and>
            cs_layer_mismatches s = 0 \<and> \<not> cs_completion_scope_gap s \<and> \<not> cs_proof_deficit s \<and>
            f32_round (999 / 1000) \<le> cs_coverage s)
      in if fully_covered then DispVerified else if 0 < cs_active s then NeedsProof else Unproven)"

text \<open>\<open>{:.3}\<close> of a number that is not negative.\<close>

definition fixed3 :: "rat \<Rightarrow> string" where
  "fixed3 q =
     (let n = nat (round_half_even (q * 1000)); f = dec (n mod 1000)
      in dec (n div 1000) @ ''.'' @ replicate (3 - length f) (CHR ''0'') @ f)"

section \<open>The assessment of the compass\<close>

datatype PredictiveAction = PObserve | AskProof | MicroSteer | FullSteer | Escalate

text \<open>The fields the Robot acts on; the others are only traced.\<close>

record staged_assessment =
  sa_action :: PredictiveAction
  sa_proof_request :: "string option"
  sa_directive :: "string option"
  sa_gap_signature :: string
  sa_explanation :: string
  sa_semantic_calibrated :: bool
  sa_deterministic_feedback :: bool
  sa_obligation_id :: "string option"
  sa_completion :: completion_snapshot

section \<open>What a message may say\<close>

definition STEER_ESCALATION :: "string list" where
  "STEER_ESCALATION =
     [''sudo '', ''--dangerously'', ''bypass'', ''disable the sandbox'', ''grant access'', ''rm -rf'',
      ''force push'', ''--no-verify'', ''skip permission'', ''chmod 777'']"

definition steer_is_safe :: "(string \<Rightarrow> string) \<Rightarrow> string \<Rightarrow> bool" where
  "steer_is_safe lower t = (\<not> list_ex (\<lambda>bad. contains bad (lower t)) STEER_ESCALATION)"

definition drive_text :: "decision \<Rightarrow> string option" where
  "drive_text d =
     (case de_action d of
        Decision.Continue \<Rightarrow> Some ''continue''
      | Retry \<Rightarrow> Some ''continue''
      | Feedback \<Rightarrow> Some (unwrap_or ''continue'' (opt_filter (\<lambda>m. trim m \<noteq> []) (de_message d)))
      | Stop \<Rightarrow> None | Wait \<Rightarrow> None | AcceptPlan \<Rightarrow> None)"

definition terminal_event_action :: "Action \<Rightarrow> string" where
  "terminal_event_action a = (if a = Stop then ''robot_claimed_complete'' else ''robot'')"

section \<open>Terminal receipts\<close>

definition MAX_TERMINAL_RECEIPTS :: nat where "MAX_TERMINAL_RECEIPTS = 512"

record terminal_receipt =
  tr_observation_signature :: string
  tr_action :: string
  tr_recorded_at :: i64

type_synonym receipts = "(string \<times> terminal_receipt) list"

definition terminal_receipt_key :: "(string \<Rightarrow> string) \<Rightarrow> string \<Rightarrow> string" where
  "terminal_receipt_key hex sid = take 32 (hex sid)"

definition terminal_receipt_seen :: "(string \<Rightarrow> string) \<Rightarrow> string \<Rightarrow> string \<Rightarrow> string \<Rightarrow> receipts \<Rightarrow> bool" where
  "terminal_receipt_seen hex sid sig action st =
     (case map_of st (terminal_receipt_key hex sid) of
        None \<Rightarrow> False
      | Some r \<Rightarrow> tr_observation_signature r = sig \<and> tr_action r = action)"

text \<open>The oldest go when there are too many; \<open>order\<close> is the order the map is read in.\<close>

definition record_terminal_receipt ::
  "(string \<Rightarrow> string) \<Rightarrow> (receipts \<Rightarrow> receipts) \<Rightarrow> i64 \<Rightarrow> string \<Rightarrow> string \<Rightarrow> string \<Rightarrow> receipts \<Rightarrow> receipts"
where
  "record_terminal_receipt hex order now sid sig action st =
     (let st1 = AList.update (terminal_receipt_key hex sid)
            \<lparr>tr_observation_signature = sig, tr_action = action, tr_recorded_at = now\<rparr> st;
          oldest = sort_key (\<lambda>(_, r). tr_recorded_at r) (order st1)
      in if MAX_TERMINAL_RECEIPTS < length st1
         then fold (\<lambda>(k, _). AList.delete k) (take (length st1 - MAX_TERMINAL_RECEIPTS) oldest) st1
         else st1)"

section \<open>The state of the Robot\<close>

record robot_st =
  rs_steps :: u32
  rs_gate_probe_steps_charged :: u8
  rs_completion_probe_steps :: u8
  rs_acted_sig :: "string option"
  rs_armed_gap :: "string option"
  rs_armed_tip :: "string option"

definition robot_st_default :: robot_st where
  "robot_st_default =
     \<lparr>rs_steps = 0, rs_gate_probe_steps_charged = 0, rs_completion_probe_steps = 0, rs_acted_sig = None,
      rs_armed_gap = None, rs_armed_tip = None\<rparr>"

text \<open>Tasks that were spawned and have not run yet.\<close>

record decision_task =
  dt_pid :: "u32 option"
  dt_session :: string
  dt_path :: string
  dt_context :: string
  dt_ctx :: notify_ctx

record review_task =
  vt_pid :: "u32 option"
  vt_session :: string
  vt_path :: string
  vt_family :: Family
  vt_mode :: Mode
  vt_rules :: review_rules
  vt_shared :: providers
  vt_ctx :: notify_ctx

text \<open>
  The world of the Robot: its map and pool, the tasks it spawned, and the files and stores it shares:
  the marks of reviews, the receipts, the gates.
\<close>

record robot_world =
  rw_state :: "(string \<times> robot_st) list"
  rw_pool :: pool
  rw_decisions :: "decision_task list"
  rw_reviewing :: "review_task list"
  rw_marks :: review_store
  rw_receipts :: receipts
  rw_gate :: gate_world

datatype delivery = Sent | Refused | Aborted

datatype robot_effect =
    Notify notify_ctx string string
  | Message u32 string delivery
  | Prompt string string delivery
  | RecordSteer string string
  | Provider pool_effect
  | Ladder CompletionDisposition completion_snapshot
  | Unanchored nat

type_synonym 'a robot_op = "(robot_world, robot_effect, 'a) op"

definition entry_of :: "string \<Rightarrow> robot_world \<Rightarrow> robot_st" where
  "entry_of sid w = unwrap_or robot_st_default (map_of (rw_state w) sid)"

text \<open>\<open>map.entry(sid).or_default()\<close> with a change of the entry and an answer.\<close>

definition on_entry :: "string \<Rightarrow> (robot_st \<Rightarrow> 'a \<times> robot_st) \<Rightarrow> 'a robot_op" where
  "on_entry sid f w =
     (case f (entry_of sid w) of (x, e) \<Rightarrow> (x, [], w\<lparr>rw_state := AList.update sid e (rw_state w)\<rparr>))"

text \<open>
  What an observation reads besides its arguments: the configuration and the clock, the file of the
  transcript (\<open>None\<close> when it is no file), the assessment (\<open>None\<close> when the provider failed), whom the
  session can be reached at when it is asked first and last, the transcript read again, and what
  becomes of a message.
\<close>

record robot_env =
  ro_config :: automation_config
  ro_now :: i64
  ro_ctx :: notify_ctx
  ro_lower :: "string \<Rightarrow> string"
  ro_hex :: "string \<Rightarrow> string"
  ro_pid :: "u32 option"
  ro_path :: string
  ro_file :: "(nat \<times> nat) option"
  ro_tail :: "turn list"
  ro_stage :: "staged_assessment option option"
  ro_home :: bool
  ro_written :: bool
  ro_order :: "receipts \<Rightarrow> receipts"
  ro_gate :: gate_env
  ro_gate_read :: bool
  ro_available :: "u32 option"
  ro_tapped :: "u32 option"
  ro_claude :: "u32 option \<Rightarrow> claude_state option"
  ro_codex :: "codex_state option"
  ro_delivery :: delivery
  ro_text :: text_env
  ro_wire :: "string \<Rightarrow> wire_health_result option"
  ro_steps :: "semantic_step list option"

definition robot_notice :: "robot_env \<Rightarrow> string \<Rightarrow> string \<Rightarrow> unit robot_op" where
  "robot_notice E action detail = remit (Notify (ro_ctx E) action detail)"

section \<open>Plans\<close>

datatype StepPlan = StepSkip | StepBudget | StepAct
datatype SmartPlan = SmartSkip | SmartBudget | Arm | SmartAct
datatype CompletionPlan = CompSkip | Probe | SafePartial

definition step_plan :: "u32 \<Rightarrow> u32 \<Rightarrow> string option \<Rightarrow> string \<Rightarrow> StepPlan" where
  "step_plan steps max_steps acted_sig sig =
     (if acted_sig = Some sig then StepSkip else if max_steps \<le> steps then StepBudget else StepAct)"

definition is_actionable :: "claude_state \<Rightarrow> bool" where
  "is_actionable st = (case st of ClIdle \<Rightarrow> True | ClError _ \<Rightarrow> True | _ \<Rightarrow> False)"

definition codex_actionable :: "codex_state \<Rightarrow> bool" where
  "codex_actionable st = (case st of CxIdle \<Rightarrow> True | CxNeedsReplyMaybe _ \<Rightarrow> True | CxError _ \<Rightarrow> True | _ \<Rightarrow> False)"

definition observation_signature :: "robot_env \<Rightarrow> claude_state \<Rightarrow> string option \<Rightarrow> string \<Rightarrow> string" where
  "observation_signature E st tip last_message =
     (let (modified, len) = unwrap_or (0, 0) (ro_file E)
      in take 16 (ro_hex E (dec modified @ '':'' @ dec len @ '':'' @ claude_label st @ '':'' @
           unwrap_or [] tip @ '':'' @ last_message)))"

definition already_seen :: "string \<Rightarrow> string \<Rightarrow> bool robot_op" where
  "already_seen sid sig = rget (\<lambda>w. Option.bind (map_of (rw_state w) sid) rs_acted_sig = Some sig)"

definition clear_arm :: "string \<Rightarrow> unit robot_op" where
  "clear_arm sid =
     rmodify (\<lambda>w. case map_of (rw_state w) sid of
        None \<Rightarrow> w
      | Some e \<Rightarrow> w\<lparr>rw_state := AList.update sid (e\<lparr>rs_armed_gap := None, rs_armed_tip := None\<rparr>) (rw_state w)\<rparr>)"

definition mark_seen :: "string \<Rightarrow> string \<Rightarrow> bool \<Rightarrow> unit robot_op" where
  "mark_seen sid sig count_step =
     on_entry sid (\<lambda>e. ((), e\<lparr>rs_acted_sig := Some sig, rs_armed_gap := None, rs_armed_tip := None,
       rs_steps := (if count_step then rs_steps e + 1 else rs_steps e)\<rparr>))"

definition sat_succ_u32 :: "u32 \<Rightarrow> u32" where
  "sat_succ_u32 n = (if n = - 1 then n else n + 1)"

definition reserve_completion_probe :: "string \<Rightarrow> string \<Rightarrow> u32 \<Rightarrow> CompletionPlan robot_op" where
  "reserve_completion_probe sid sig max_steps =
     on_entry sid (\<lambda>e.
       if rs_acted_sig e = Some sig then (CompSkip, e)
       else let e1 = e\<lparr>rs_acted_sig := Some sig\<rparr>
            in if 3 \<le> rs_completion_probe_steps e1 \<or> max_steps \<le> rs_steps e1 then (SafePartial, e1)
               else (Probe, e1\<lparr>rs_completion_probe_steps := sat_succ_u8 (rs_completion_probe_steps e1),
                               rs_steps := sat_succ_u32 (rs_steps e1)\<rparr>))"

definition semantic_plan :: "string \<Rightarrow> string \<Rightarrow> string \<Rightarrow> bool \<Rightarrow> u32 \<Rightarrow> SmartPlan robot_op" where
  "semantic_plan sid sig gap is_steer max_steps =
     on_entry sid (\<lambda>e.
       if rs_acted_sig e = Some sig then (SmartSkip, e)
       else if max_steps \<le> rs_steps e then (SmartBudget, e)
       else if is_steer then
         (case (rs_armed_gap e, rs_armed_tip e) of
            (Some g, Some t) \<Rightarrow>
              if g = gap \<and> t \<noteq> sig then (SmartAct, e)
              else if g = gap \<and> t = sig then (SmartSkip, e)
              else (Arm, e\<lparr>rs_armed_gap := Some gap, rs_armed_tip := Some sig\<rparr>)
          | _ \<Rightarrow> (Arm, e\<lparr>rs_armed_gap := Some gap, rs_armed_tip := Some sig\<rparr>))
       else (SmartAct, e\<lparr>rs_armed_gap := None, rs_armed_tip := None\<rparr>))"

definition reserve_gate_step :: "robot_env \<Rightarrow> string \<Rightarrow> string \<Rightarrow> u32 \<Rightarrow> bool robot_op" where
  "reserve_gate_step E sid t max_steps =
     (let signature = take 16 (ro_hex E t)
      in on_entry sid (\<lambda>e.
           if rs_acted_sig e = Some signature \<or> max_steps \<le> rs_steps e then (False, e)
           else (True, e\<lparr>rs_acted_sig := Some signature, rs_steps := rs_steps e + 1\<rparr>)))"

definition sat_add_u32 :: "u32 \<Rightarrow> u32 \<Rightarrow> u32" where
  "sat_add_u32 a b = (if unat a + unat b < 2 ^ 32 then a + b else - 1)"

definition charge_gate_probes :: "string \<Rightarrow> u8 \<Rightarrow> u32 \<Rightarrow> bool robot_op" where
  "charge_gate_probes sid probe_steps max_steps =
     on_entry sid (\<lambda>e.
       let charged = rs_gate_probe_steps_charged e;
           delta = (if probe_steps < charged then 0 else probe_steps - charged);
           steps = sat_add_u32 (rs_steps e) (ucast delta)
       in (steps \<le> max_steps, e\<lparr>rs_gate_probe_steps_charged := probe_steps, rs_steps := steps\<rparr>))"

section \<open>Reviews by another family\<close>

definition maybe_cross_review :: "robot_env \<Rightarrow> u32 option \<Rightarrow> string \<Rightarrow> Family \<Rightarrow> Mode \<Rightarrow> bool \<Rightarrow> unit robot_op" where
  "maybe_cross_review E pid sid family mode terminal_idle =
     (if \<not> terminal_idle \<or> ro_file E = None \<or> \<not> ro_home E then rret ()
      else rmodify (\<lambda>w.
        case take_review (ro_hex E)
               \<lparr>rt_session = sid, rt_family = family, rt_rules = ac_review (ro_config E), rt_now = ro_now E,
                rt_write_ok = ro_written E\<rparr> (rw_marks w) of
          (go, st) \<Rightarrow>
            if go
            then w\<lparr>rw_marks := st, rw_reviewing := rw_reviewing w @
                   [\<lparr>vt_pid = pid, vt_session = sid, vt_path = ro_path E, vt_family = family, vt_mode = mode,
                     vt_rules = ac_review (ro_config E), vt_shared = rb_providers (ac_robot (ro_config E)),
                     vt_ctx = ro_ctx E\<rparr>]\<rparr>
            else w))"

section \<open>The gate\<close>

definition on_gate :: "'a gate_op \<Rightarrow> 'a option robot_op" where
  "on_gate m w = (case m (rw_gate w) of (r, g) \<Rightarrow> (r, [], w\<lparr>rw_gate := g\<rparr>))"

definition read_control :: "robot_env \<Rightarrow> string \<Rightarrow> gate_directive robot_op" where
  "read_control E sid w =
     (case robot_gate_control (ge_digest (ro_gate E)) (ge_now (ro_gate E)) sid (gw_stores (rw_gate w)) of
        (c, st) \<Rightarrow> (c, [], w\<lparr>rw_gate := (rw_gate w)\<lparr>gw_stores := st\<rparr>\<rparr>))"

definition gate_delivered :: "robot_env \<Rightarrow> string \<Rightarrow> GateState option \<Rightarrow> unit robot_op" where
  "gate_delivered E sid state =
     (if state \<in> {Some AwaitingProof, Some TargetProbe, Some ControllerProbe}
      then rmodify (\<lambda>w. w\<lparr>rw_gate := mark_target_probe_delivered sid (rw_gate w)\<rparr>)
      else if state = Some RejectedPresent
      then rmodify (\<lambda>w. w\<lparr>rw_gate := (rw_gate w)\<lparr>gw_stores :=
             mark_replan_delivered (ge_digest (ro_gate E)) (ge_now (ro_gate E)) sid (gw_stores (rw_gate w))\<rparr>\<rparr>)
      else rret ())"

definition after_gate_message :: "robot_env \<Rightarrow> string \<Rightarrow> string \<Rightarrow> GateState option \<Rightarrow> unit robot_op" where
  "after_gate_message E sid directive state =
     (if ro_delivery E = Sent
      then rthen (gate_delivered E sid state) (robot_notice E ''robot_gate'' directive)
      else rret ())"

text \<open>What the two handlers share: up to the message that is to be delivered, if any.\<close>

definition gate_round ::
  "robot_env \<Rightarrow> string \<Rightarrow> u32 \<Rightarrow> (string \<Rightarrow> GateState option \<Rightarrow> unit robot_op) \<Rightarrow> bool robot_op"
where
  "gate_round E sid max_steps drive =
     rbind (on_gate (advance_robot_probe (ro_gate E) sid)) (\<lambda>r.
       if r = None \<or> \<not> ro_gate_read E then rret False
       else rbind (read_control E sid) (\<lambda>c.
         if \<not> rc_active c then rret False
         else rbind (charge_gate_probes sid (rc_probe_steps c) max_steps) (\<lambda>inside.
           if \<not> inside
           then rthen (robot_notice E ''robot_safe_partial''
                  ''SafeBlocked: Robot step budget exhausted during proof ladder'') (rret True)
           else case rc_directive c of
             None \<Rightarrow> rret True
           | Some directive \<Rightarrow>
               if rc_terminal c
               then rthen (robot_notice E ''robot_safe_partial'' directive) (rret True)
               else rbind (reserve_gate_step E sid directive max_steps) (\<lambda>go.
                 if go then rthen (drive directive (rc_state c)) (rret True) else rret True))))"

definition observe_gate_claude :: "robot_env \<Rightarrow> string \<Rightarrow> u32 \<Rightarrow> bool robot_op" where
  "observe_gate_claude E sid max_steps =
     gate_round E sid max_steps (\<lambda>directive state.
       case or_else (ro_available E) (ro_pid E) of
         None \<Rightarrow> robot_notice E ''robot_gate'' ''autonomous probe is active but the session is not tapped''
       | Some tapped \<Rightarrow>
           rthen (remit (Message tapped directive (ro_delivery E))) (after_gate_message E sid directive state))"

definition observe_gate_codex :: "robot_env \<Rightarrow> string \<Rightarrow> u32 \<Rightarrow> bool robot_op" where
  "observe_gate_codex E sid max_steps =
     gate_round E sid max_steps (\<lambda>directive state.
       rthen (remit (Prompt (nc_alias (ro_ctx E)) directive (ro_delivery E)))
         (after_gate_message E sid directive state))"

section \<open>The assessment of a finished turn\<close>

definition of_active :: "completion_snapshot \<Rightarrow> string" where
  "of_active s = dec (cs_verified s) @ ''/'' @ dec (cs_active s)"

definition verified_final :: "robot_env \<Rightarrow> string \<Rightarrow> string \<Rightarrow> staged_assessment \<Rightarrow> unit robot_op" where
  "verified_final E sid sig staged =
     (let action = ''robot_verified_final''; s = sa_completion staged
      in rthen (mark_seen sid sig False)
           (rbind (rget (\<lambda>w. ro_home E \<and> terminal_receipt_seen (ro_hex E) sid sig action (rw_receipts w))) (\<lambda>seen.
              if seen then rret ()
              else rthen (robot_notice E action
                     (''Verified '' @ of_active s @ '' active obligations with fresh ledger evidence (coverage '' @
                      fixed3 (cs_coverage s) @ '')''))
                   (rmodify (\<lambda>w. if ro_home E \<and> ro_written E
                      then w\<lparr>rw_receipts :=
                             record_terminal_receipt (ro_hex E) (ro_order E) (ro_now E) sid sig action (rw_receipts w)\<rparr>
                      else w)))))"

definition completion_notice :: "robot_env \<Rightarrow> string \<Rightarrow> unit robot_op" where
  "completion_notice E = robot_notice E ''robot_safe_partial''"

definition deliver_probe :: "robot_env \<Rightarrow> staged_assessment \<Rightarrow> u32 \<Rightarrow> string \<Rightarrow> unit robot_op" where
  "deliver_probe E staged tapped directive =
     rthen (remit (Message tapped directive (ro_delivery E)))
       (case ro_delivery E of
          Sent \<Rightarrow> robot_notice E ''robot_completion_probe''
            (''Ledger requires fresh proof for '' @ unwrap_or ''the active contract'' (sa_obligation_id staged) @
             ''; '' @ of_active (sa_completion staged) @ '' obligations verified'')
        | Refused \<Rightarrow> completion_notice E ''Ledger proof is missing and its bounded probe could not be delivered''
        | Aborted \<Rightarrow> completion_notice E ''Ledger proof is missing and its bounded probe could not be started'')"

definition resolve_completion_gap :: "robot_env \<Rightarrow> string \<Rightarrow> string \<Rightarrow> staged_assessment \<Rightarrow> u32 \<Rightarrow> unit robot_op" where
  "resolve_completion_gap E sid sig staged max_steps =
     rbind (reserve_completion_probe sid sig max_steps) (\<lambda>p.
       case p of
         CompSkip \<Rightarrow> rret ()
       | SafePartial \<Rightarrow>
           (let s = sa_completion staged
            in completion_notice E (''Verification budget exhausted: '' @ of_active s @ '' obligations verified; '' @
                 dec (unresolved s) @ '' unresolved; coverage '' @ fixed3 (cs_coverage s)))
       | Probe \<Rightarrow>
           (case sa_proof_request staged of
              None \<Rightarrow> completion_notice E ''Ledger is incomplete but did not produce an admissible proof request''
            | Some directive \<Rightarrow>
                if \<not> steer_is_safe (ro_lower E) directive
                then completion_notice E ''Ledger proof request failed the non-escalation safety guard''
                else (case or_else (ro_available E) (ro_pid E) of
                        None \<Rightarrow> completion_notice E
                          ''Ledger proof is missing and the session has no live injection channel''
                      | Some tapped \<Rightarrow> deliver_probe E staged tapped directive)))"

section \<open>Steering\<close>

definition is_steer :: "staged_assessment \<Rightarrow> bool" where
  "is_steer staged \<longleftrightarrow> sa_action staged = MicroSteer \<or> sa_action staged = FullSteer"

definition trusted :: "robot_env \<Rightarrow> staged_assessment \<Rightarrow> bool" where
  "trusted E staged \<longleftrightarrow>
     sa_semantic_calibrated staged \<or> sa_deterministic_feedback staged \<or>
     sc_allow_uncalibrated_steer (sm_semantic (ac_smart (ro_config E)))"

definition steer_claude :: "robot_env \<Rightarrow> string \<Rightarrow> string \<Rightarrow> staged_assessment \<Rightarrow> string \<Rightarrow> bool robot_op" where
  "steer_claude E sid sig staged directive =
     (if \<not> steer_is_safe (ro_lower E) directive \<or> \<not> sm_steer (ac_smart (ro_config E)) then rret False
      else if (case ro_claude E (or_else (ro_available E) (ro_pid E)) of Some st \<Rightarrow> \<not> is_actionable st | None \<Rightarrow> True)
      then rthen (mark_seen sid sig False) (rret True)
      else case ro_tapped E of
        None \<Rightarrow> rret False
      | Some tapped \<Rightarrow>
          rthen (remit (Message tapped directive (ro_delivery E)))
            (rthen (if ro_delivery E = Sent
                    then rthen (mark_seen sid sig True)
                           (rthen (remit (RecordSteer sid (sa_gap_signature staged)))
                             (robot_notice E ''compass'' (''steered: '' @ sa_explanation staged)))
                    else rret ())
              (already_seen sid sig)))"

definition plan_steer :: "robot_env \<Rightarrow> string \<Rightarrow> string \<Rightarrow> staged_assessment \<Rightarrow> bool robot_op" where
  "plan_steer E sid sig staged =
     (if sa_action staged = PObserve \<or> sa_action staged = Escalate then rthen (clear_arm sid) (rret False)
      else if \<not> trusted E staged then rret False
      else rbind (semantic_plan sid sig (sa_gap_signature staged) (is_steer staged)
                    (rb_max_steps (ac_robot (ro_config E)))) (\<lambda>p.
        if p = SmartAct
        then (case sa_directive staged of
                None \<Rightarrow> rret False
              | Some directive \<Rightarrow> steer_claude E sid sig staged directive)
        else rret False))"

definition observe_smart :: "robot_env \<Rightarrow> string \<Rightarrow> string \<Rightarrow> bool \<Rightarrow> bool robot_op" where
  "observe_smart E sid sig terminal_idle =
     (case ro_stage E of
        None \<Rightarrow> rthen (clear_arm sid) (rret False)
      | Some None \<Rightarrow> rthen (clear_arm sid) (rret False)
      | Some (Some staged) \<Rightarrow>
          if terminal_idle then
            (case completion_disposition (sa_completion staged) of
               DispVerified \<Rightarrow> rthen (verified_final E sid sig staged) (rret True)
             | NeedsProof \<Rightarrow>
                 rthen (resolve_completion_gap E sid sig staged (rb_max_steps (ac_robot (ro_config E)))) (rret True)
             | Unproven \<Rightarrow> plan_steer E sid sig staged)
          else plan_steer E sid sig staged)"

section \<open>Auto mode\<close>

definition build_contract_ledger_from_input ::
  "text_env \<Rightarrow> (string \<Rightarrow> wire_health_result option) \<Rightarrow> semantic_step list \<Rightarrow> semantic_facts list \<Rightarrow>
   contract_input \<Rightarrow> ledger"
where
  "build_contract_ledger_from_input T from_str steps semantic inp =
     build_ledger_core T from_str steps semantic inp []"

definition ladder_report :: "robot_env \<Rightarrow> unit robot_op" where
  "ladder_report E =
     (case ro_steps E of
        None \<Rightarrow> rret ()
      | Some steps \<Rightarrow>
          (let inp = contract_input_from_steps (ro_text E) steps
           in if ci_anchor inp = None then remit (Unanchored (length steps))
              else let s = snapshot_of (build_contract_ledger_from_input (ro_text E) (ro_wire E) steps [] inp)
                   in remit (Ladder (completion_disposition s) s)))"

definition observe_ladder_only :: "robot_env \<Rightarrow> string \<Rightarrow> claude_state \<Rightarrow> string option \<Rightarrow> string \<Rightarrow> unit robot_op" where
  "observe_ladder_only E sid st tip last_message =
     (if st \<noteq> ClIdle \<or> ro_file E = None then rret ()
      else let sig = observation_signature E st tip last_message; key = ''auto-ladder:'' @ sid
           in rbind (already_seen key sig) (\<lambda>seen.
                if seen then rret ()
                else rthen (on_entry key (\<lambda>e. ((), e\<lparr>rs_acted_sig := Some sig\<rparr>))) (ladder_report E)))"

section \<open>An observation of Claude\<close>

definition CONTEXT_BUDGET :: nat where "CONTEXT_BUDGET = 8000"

definition base_plan :: "string \<Rightarrow> string \<Rightarrow> u32 \<Rightarrow> StepPlan robot_op" where
  "base_plan sid sig max_steps =
     on_entry sid (\<lambda>e.
       case step_plan (rs_steps e) max_steps (rs_acted_sig e) sig of
         StepSkip \<Rightarrow> (StepSkip, e)
       | StepBudget \<Rightarrow> (StepBudget, e\<lparr>rs_acted_sig := Some sig\<rparr>)
       | StepAct \<Rightarrow> (StepAct, e\<lparr>rs_acted_sig := Some sig, rs_steps := rs_steps e + 1\<rparr>))"

definition spawn_decision :: "robot_env \<Rightarrow> string \<Rightarrow> string \<Rightarrow> unit robot_op" where
  "spawn_decision E sid context =
     rmodify (\<lambda>w. w\<lparr>rw_decisions := rw_decisions w @
       [\<lparr>dt_pid = ro_pid E, dt_session = sid, dt_path = ro_path E, dt_context = context, dt_ctx = ro_ctx E\<rparr>]\<rparr>)"

definition base_robot :: "robot_env \<Rightarrow> string \<Rightarrow> string \<Rightarrow> claude_state \<Rightarrow> string \<Rightarrow> unit robot_op" where
  "base_robot E sid sig st last_message =
     (let max_steps = rb_max_steps (ac_robot (ro_config E))
      in rbind (base_plan sid sig max_steps) (\<lambda>p.
           case p of
             StepSkip \<Rightarrow> rret ()
           | StepBudget \<Rightarrow> robot_notice E ''robot'' (''step budget reached ('' @ dec (unat max_steps) @ '')'')
           | StepAct \<Rightarrow>
               spawn_decision E sid (build_context
                 \<lparr>sn_alias = nc_alias (ro_ctx E), sn_agent = ''claude'', sn_state_label = claude_label st,
                  sn_last_message = last_message, sn_tail = ro_tail E, sn_question = None, sn_goal = None\<rparr>
                 CONTEXT_BUDGET)))"

definition robot_observe_claude :: "robot_env \<Rightarrow> string \<Rightarrow> claude_state \<Rightarrow> string option \<Rightarrow> string \<Rightarrow> unit robot_op" where
  "robot_observe_claude E sid st tip last_message =
     (let cfg = ro_config E; mode = resolve cfg (Some sid) (nc_alias (ro_ctx E)) (ro_now E); idle = (st = ClIdle)
      in if mode = Auto
         then rthen (observe_ladder_only E sid st tip last_message) (maybe_cross_review E (ro_pid E) sid Claude mode idle)
         else if mode \<noteq> Robot \<or> \<not> is_actionable st \<or> ro_file E = None then rret ()
         else rthen (maybe_cross_review E (ro_pid E) sid Claude mode idle)
           (rbind (if sm_enabled (ac_smart cfg) \<and> sm_gate (ac_smart cfg)
                   then observe_gate_claude E sid (rb_max_steps (ac_robot cfg)) else rret False) (\<lambda>held.
              if held then rret ()
              else let sig = observation_signature E st tip last_message
                   in rbind (already_seen sid sig) (\<lambda>seen.
                        if seen then rret ()
                        else rbind (if sm_enabled (ac_smart cfg) then observe_smart E sid sig idle else rret False) (\<lambda>steered.
                          if steered then rret () else base_robot E sid sig st last_message)))))"

section \<open>An observation of Codex\<close>

definition steer_codex :: "robot_env \<Rightarrow> string \<Rightarrow> string \<Rightarrow> staged_assessment \<Rightarrow> string \<Rightarrow> unit robot_op" where
  "steer_codex E sid sig staged directive =
     (if \<not> steer_is_safe (ro_lower E) directive \<or> \<not> sm_steer (ac_smart (ro_config E))
      then rthen (mark_seen sid sig False) (robot_notice E ''compass'' (''Codex would steer: '' @ directive))
      else if (case ro_codex E of Some st \<Rightarrow> \<not> codex_actionable st | None \<Rightarrow> True)
      then mark_seen sid sig False
      else rthen (remit (Prompt (nc_alias (ro_ctx E)) directive (ro_delivery E)))
        (if ro_delivery E = Sent
         then rthen (mark_seen sid sig True)
                (rthen (remit (RecordSteer sid (sa_gap_signature staged)))
                  (robot_notice E ''compass'' (''steered Codex: '' @ sa_explanation staged)))
         else mark_seen sid sig False))"

definition codex_assessed :: "robot_env \<Rightarrow> string \<Rightarrow> string \<Rightarrow> staged_assessment \<Rightarrow> unit robot_op" where
  "codex_assessed E sid sig staged =
     (if sa_action staged = PObserve then rthen (clear_arm sid) (mark_seen sid sig False)
      else if sa_action staged = Escalate
      then rthen (clear_arm sid) (robot_notice E ''compass'' (''Codex: escalate to you: '' @ sa_explanation staged))
      else if \<not> trusted E staged then mark_seen sid sig False
      else rbind (semantic_plan sid sig (sa_gap_signature staged) (is_steer staged)
                    (rb_max_steps (ac_robot (ro_config E)))) (\<lambda>p.
        case p of
          SmartSkip \<Rightarrow> rret ()
        | Arm \<Rightarrow> mark_seen sid sig False
        | SmartBudget \<Rightarrow> robot_notice E ''compass'' ''Codex steer budget reached''
        | SmartAct \<Rightarrow>
            (case sa_directive staged of
               None \<Rightarrow> mark_seen sid sig False
             | Some directive \<Rightarrow> steer_codex E sid sig staged directive)))"

definition robot_observe_codex :: "robot_env \<Rightarrow> string \<Rightarrow> codex_state \<Rightarrow> string \<Rightarrow> unit robot_op" where
  "robot_observe_codex E sid st last_message =
     (let cfg = ro_config E; mode = resolve cfg (Some sid) (nc_alias (ro_ctx E)) (ro_now E)
      in rthen (if mode = Auto \<or> mode = Robot then maybe_cross_review E None sid CodexFamily mode (st = CxIdle) else rret ())
         (if mode \<noteq> Robot \<or> \<not> codex_actionable st \<or> \<not> sm_enabled (ac_smart cfg) then rret ()
          else rbind (if sm_gate (ac_smart cfg) then observe_gate_codex E sid (rb_max_steps (ac_robot cfg))
                      else rret False) (\<lambda>held.
            if held then rret ()
            else let sig = observation_signature E ClIdle None last_message
                 in rbind (already_seen sid sig) (\<lambda>seen.
                      if seen then rret ()
                      else case ro_stage E of
                             Some (Some staged) \<Rightarrow> codex_assessed E sid sig staged
                           | _ \<Rightarrow> clear_arm sid))))"

section \<open>Tasks\<close>

text \<open>
  What a decision finds when it runs: the configuration loaded anew, the providers found, their answers
  to a context, the session and its transcript at that time.
\<close>

record decision_env =
  dv_config :: automation_config
  dv_now :: i64
  dv_probes :: probes
  dv_pool :: "string \<Rightarrow> pool_env"
  dv_available :: "u32 option"
  dv_tapped :: "u32 option"
  dv_claude :: "u32 option \<Rightarrow> claude_state option"
  dv_delivery :: delivery

definition execute :: "decision_env \<Rightarrow> decision_task \<Rightarrow> decision \<Rightarrow> unit robot_op" where
  "execute V t d =
     (let says = action_label (de_action d) @ '': '' @ de_reason d
      in case drive_text d of
           None \<Rightarrow> remit (Notify (dt_ctx t) (terminal_event_action (de_action d)) says)
         | Some txt \<Rightarrow>
             if (case dv_claude V (or_else (dv_available V) (dt_pid t)) of Some st \<Rightarrow> \<not> is_actionable st | None \<Rightarrow> True)
             then rret ()
             else case dv_tapped V of
                    None \<Rightarrow> remit (Notify (dt_ctx t) ''robot'' ''session not tapped; cannot drive in-band'')
                  | Some tapped \<Rightarrow>
                      rthen (remit (Message tapped txt (dv_delivery V)))
                        (if dv_delivery V = Sent then remit (Notify (dt_ctx t) ''robot'' says) else rret ()))"

definition on_pool :: "(pool \<Rightarrow> 'a \<times> pool_effect list \<times> pool) \<Rightarrow> 'a robot_op" where
  "on_pool f w = (case f (rw_pool w) of (x, fx, p) \<Rightarrow> (x, map Provider fx, w\<lparr>rw_pool := p\<rparr>))"

definition run_decision :: "decision_env \<Rightarrow> decision_task \<Rightarrow> unit robot_op" where
  "run_decision V t =
     rbind (on_pool (ask (dv_pool V (dt_context t)) (rb_providers (ac_robot (dv_config V)))
              (discover_all (dv_probes V)) (dv_now V))) (\<lambda>r.
       case r of
         Inl _ \<Rightarrow> remit (Notify (dt_ctx t) ''robot'' ''no reachable supervisor provider'')
       | Inr (_, d) \<Rightarrow> execute V t d)"

record review_env =
  ve_view :: "(string option \<times> turn list) option"
  ve_now :: i64
  ve_probes :: probes
  ve_pool :: "string \<Rightarrow> pool_env"
  ve_parse :: "string \<Rightarrow> json option"
  ve_as_f64 :: "json \<Rightarrow> u64 option"
  ve_lower :: "string \<Rightarrow> string"
  ve_available :: "u32 option"
  ve_delivery :: delivery

definition correct :: "review_env \<Rightarrow> review_task \<Rightarrow> Backend \<Rightarrow> string \<Rightarrow> unit robot_op" where
  "correct V t b correction =
     (let told = (if ve_delivery V = Sent
            then remit (Notify (vt_ctx t) ''cross_review_correction'' (backend_id b @ '': '' @ correction)) else rret ())
      in if vt_mode t \<noteq> Robot \<or> \<not> rv_steer (vt_rules t) \<or> \<not> steer_is_safe (ve_lower V) correction then rret ()
         else if vt_family t = CodexFamily
         then rthen (remit (Prompt (nc_alias (vt_ctx t)) correction (ve_delivery V))) told
         else case or_else (ve_available V) (vt_pid t) of
                None \<Rightarrow> rret ()
              | Some tapped \<Rightarrow> rthen (remit (Message tapped correction (ve_delivery V))) told)"

definition spawn_cross_review :: "review_env \<Rightarrow> review_task \<Rightarrow> unit robot_op" where
  "spawn_cross_review V t =
     (case ve_view V of
        None \<Rightarrow> rret ()
      | Some (goal, tail) \<Rightarrow>
          if tail = [] then rret ()
          else rbind (on_pool (ask_reviewer
                   (ve_pool V (review_prompt (vt_family t) goal tail (rv_depth (vt_rules t)))) (ve_parse V) (ve_as_f64 V)
                   (reviewer_providers (vt_family t) (vt_rules t) (vt_shared t)) (ve_probes V) (ve_now V))) (\<lambda>r.
            case r of
              Inl _ \<Rightarrow> rret ()
            | Inr (b, review) \<Rightarrow>
                rthen (remit (Notify (vt_ctx t) ''cross_review'' (backend_id b @ '' says: '' @ headline review)))
                  (case rw_correction review of
                     None \<Rightarrow> rret ()
                   | Some correction \<Rightarrow> correct V t b correction)))"

section \<open>Runs\<close>

text \<open>A restart of the agent keeps what is on disk.\<close>

datatype robot_event =
    SeeClaude robot_env string claude_state "string option" string
  | SeeCodex robot_env string codex_state string
  | Decide nat decision_env
  | ReviewNow nat review_env
  | Restart

definition without :: "nat \<Rightarrow> 'a list \<Rightarrow> 'a list" where
  "without i xs = take i xs @ drop (Suc i) xs"

definition restart :: "robot_world \<Rightarrow> robot_world" where
  "restart w =
     w\<lparr>rw_state := [], rw_pool := pool_new, rw_decisions := [], rw_reviewing := [],
       rw_gate := (rw_gate w)\<lparr>gw_leases := [], gw_terminal := []\<rparr>\<rparr>"

definition robot_op_of :: "robot_event \<Rightarrow> unit robot_op" where
  "robot_op_of ev w =
     (case ev of
        SeeClaude E sid st tip last_message \<Rightarrow> robot_observe_claude E sid st tip last_message w
      | SeeCodex E sid st last_message \<Rightarrow> robot_observe_codex E sid st last_message w
      | Decide i V \<Rightarrow>
          if i < length (rw_decisions w)
          then run_decision V (rw_decisions w ! i) (w\<lparr>rw_decisions := without i (rw_decisions w)\<rparr>) else ((), [], w)
      | ReviewNow i V \<Rightarrow>
          if i < length (rw_reviewing w)
          then spawn_cross_review V (rw_reviewing w ! i) (w\<lparr>rw_reviewing := without i (rw_reviewing w)\<rparr>) else ((), [], w)
      | Restart \<Rightarrow> ((), [], restart w))"

definition robot_step :: "robot_event \<Rightarrow> robot_world \<Rightarrow> robot_world" where
  "robot_step ev w = snd (snd (robot_op_of ev w))"

definition robot_effects :: "robot_event \<Rightarrow> robot_world \<Rightarrow> robot_effect list" where
  "robot_effects ev w = fst (snd (robot_op_of ev w))"

end
