(* ===== verification/Robot_Props.thy ===== *)
theory Robot_Props
  imports Robot Ledger_Signals
begin

text \<open>What the Robot may do: the guard on its messages, its budgets, and when it steers.\<close>

section \<open>Rules on operations\<close>

lemma stays_notice [stays_rules]: "stays f (robot_notice E a d)" "stays f (completion_notice E d)"
  by (simp_all add: robot_notice_def completion_notice_def stays_basic)

lemma says_world [says_rules]: "says P (on_entry sid t)" "says P (on_gate op)" "says P (read_control E sid)"
  by (simp_all add: says_def on_entry_def on_gate_def read_control_def split: prod.splits)

lemma says_entry_ops [says_rules]:
  "says P (already_seen sid sig)" "says P (clear_arm sid)" "says P (mark_seen sid sig b)"
  "says P (reserve_completion_probe sid sig mx)" "says P (semantic_plan sid sig g b mx)"
  "says P (reserve_gate_step E sid t mx)" "says P (charge_gate_probes sid n mx)"
  "says P (base_plan sid sig mx)" "says P (spawn_decision E sid c)" "says P (gate_delivered E sid st)"
  by (auto simp: already_seen_def clear_arm_def mark_seen_def reserve_completion_probe_def semantic_plan_def
      reserve_gate_step_def Let_def charge_gate_probes_def base_plan_def spawn_decision_def gate_delivered_def
      intro: says_rules)

lemma says_review [says_rules]: "says P (maybe_cross_review E pid sid f m idle)"
  by (auto simp: maybe_cross_review_def intro: says_rules)

section \<open>What the handlers say\<close>

text \<open>The texts of a gate that go to a session.\<close>

definition gate_text :: "string \<Rightarrow> bool" where
  "gate_text t \<longleftrightarrow> (\<exists>s. control_text s = Some (False, t))"

definition message_text :: "robot_effect \<Rightarrow> string option" where
  "message_text x = (case x of Message _ t _ \<Rightarrow> Some t | Prompt _ t _ \<Rightarrow> Some t | _ \<Rightarrow> None)"

lemma message_text_simps [simp]:
  "message_text (Message p t dl) = Some t" "message_text (Prompt a t dl) = Some t"
  "message_text (Notify c a b) = None" "message_text (RecordSteer s g) = None"
  "message_text (Provider e) = None" "message_text (Ladder cd sn) = None" "message_text (Unanchored n) = None"
  by (simp_all add: message_text_def)

lemma read_control_text:
  assumes "fst (read_control E sid w) = c" "rc_directive c = Some t" "\<not> rc_terminal c"
  shows "gate_text t"
proof -
  have c: "c = fst (robot_gate_control (ge_digest (ro_gate E)) (ge_now (ro_gate E)) sid (gw_stores (rw_gate w)))"
    using assms(1) by (simp add: read_control_def split: prod.splits)
  obtain g where "c = gate_control (exhausted_gate g)"
    using assms(2) unfolding c
    by (auto simp: robot_gate_control_def Let_def split: option.splits prod.splits if_splits)
  with assms(2,3) show ?thesis
    by (auto simp: gate_control_def gate_text_def split: if_splits option.splits)
qed

lemma says_bind_from:
  assumes "says P m" and "\<And>w. says P (k (fst (m w)))"
  shows "says P (rbind m k)"
  unfolding says_def rbind_parts using assms by (auto simp: says_def)

lemma says_gate_round:
  assumes "\<And>t st. gate_text t \<Longrightarrow> says P (drive t st)"
    and "\<And>c a d. P (Notify c a d)"
  shows "says P (gate_round E sid mx drive)"
proof -
  have "says P (rbind (read_control E sid) k)"
    if "\<And>c. (\<And>t. rc_directive c = Some t \<Longrightarrow> \<not> rc_terminal c \<Longrightarrow> gate_text t) \<Longrightarrow> says P (k c)" for k :: "gate_directive \<Rightarrow> bool robot_op"
    by (rule says_bind_from) (auto intro: says_rules that read_control_text)
  note control = this
  show ?thesis unfolding gate_round_def robot_notice_def
    by (intro control says_rules assms(2)) (auto intro: assms(1))
qed

lemma says_notice: "(\<And>c a d. P (Notify c a d)) \<Longrightarrow> says P (robot_notice E a d)"
  "(\<And>c a d. P (Notify c a d)) \<Longrightarrow> says P (completion_notice E d)"
  by (simp_all add: robot_notice_def completion_notice_def says_emit)

text \<open>
  Observations send no text but that of a gate and what passes the guard, and tell of a steer only
  when the assessment asks for one.
\<close>

definition guarded :: "(string \<Rightarrow> string) \<Rightarrow> robot_effect \<Rightarrow> bool" where
  "guarded lower x \<longleftrightarrow> (case message_text x of None \<Rightarrow> True | Some t \<Rightarrow> gate_text t \<or> steer_is_safe lower t)"

lemma guarded_simps [simp]:
  "guarded lower (Notify c a d)" "guarded lower (RecordSteer s g)" "guarded lower (Provider e)"
  "guarded lower (Ladder cd sn)" "guarded lower (Unanchored n)"
  "guarded lower (Message p t dl) \<longleftrightarrow> gate_text t \<or> steer_is_safe lower t"
  "guarded lower (Prompt a t dl) \<longleftrightarrow> gate_text t \<or> steer_is_safe lower t"
  by (simp_all add: guarded_def)

lemma guarded_gate: "says (guarded (ro_lower E)) (observe_gate_claude E sid mx)"
  "says (guarded (ro_lower E)) (observe_gate_codex E sid mx)"
  unfolding observe_gate_claude_def observe_gate_codex_def after_gate_message_def
  by (intro says_gate_round says_rules says_notice; simp)+

lemma says_cases [says_rules]:
  "says P a \<Longrightarrow> says P b \<Longrightarrow> says P c \<Longrightarrow> says P (case x of DispVerified \<Rightarrow> a | NeedsProof \<Rightarrow> b | Unproven \<Rightarrow> c)"
  "says P a \<Longrightarrow> says P b \<Longrightarrow> says P c \<Longrightarrow> says P (case y of CompSkip \<Rightarrow> a | Probe \<Rightarrow> b | SafePartial \<Rightarrow> c)"
  "says P a \<Longrightarrow> says P b \<Longrightarrow> says P c \<Longrightarrow> says P (case z of StepSkip \<Rightarrow> a | StepBudget \<Rightarrow> b | StepAct \<Rightarrow> c)"
  "says P a \<Longrightarrow> says P b \<Longrightarrow> says P c \<Longrightarrow> says P (case u of Sent \<Rightarrow> a | Refused \<Rightarrow> b | Aborted \<Rightarrow> c)"
  "says P a \<Longrightarrow> says P b \<Longrightarrow> says P c \<Longrightarrow> says P d \<Longrightarrow>
   says P (case v of SmartSkip \<Rightarrow> a | SmartBudget \<Rightarrow> b | Arm \<Rightarrow> c | SmartAct \<Rightarrow> d)"
  by (simp_all split: CompletionDisposition.split CompletionPlan.split StepPlan.split delivery.split SmartPlan.split)

lemma guarded_steer: "says (guarded (ro_lower E)) (steer_claude E sid sig staged t)"
  "says (guarded (ro_lower E)) (steer_codex E sid sig staged t)"
  unfolding steer_claude_def steer_codex_def by (intro says_rules says_notice; simp)+

lemma guarded_smart: "says (guarded (ro_lower E)) (observe_smart E sid sig idle)"
  unfolding observe_smart_def verified_final_def resolve_completion_gap_def plan_steer_def deliver_probe_def Let_def
  by (intro says_rules says_notice guarded_steer; simp)

lemma guarded_claude: "says (guarded (ro_lower E)) (robot_observe_claude E sid st tip lm)"
  unfolding robot_observe_claude_def observe_ladder_only_def ladder_report_def base_robot_def Let_def
  by (intro says_rules says_notice guarded_gate guarded_smart; simp)

lemma guarded_codex: "says (guarded (ro_lower E)) (robot_observe_codex E sid st lm)"
  unfolding robot_observe_codex_def codex_assessed_def Let_def
  by (intro says_rules says_notice guarded_gate guarded_steer; simp)

lemma says_pool [says_rules]: "(\<And>e. P (Provider e)) \<Longrightarrow> says P (on_pool f)"
  by (auto simp: says_def on_pool_def list_all_iff split: prod.splits)

lemma guarded_review: "says (guarded (ve_lower V)) (spawn_cross_review V t)"
  unfolding spawn_cross_review_def correct_def Let_def
  by (auto split: sum.split option.split intro!: says_rules)

definition ascii_lowers :: "(string \<Rightarrow> string) \<Rightarrow> bool" where
  "ascii_lowers lower \<longleftrightarrow> (\<forall>t. list_all (\<lambda>c. (of_char c :: nat) < 128) t \<longrightarrow> lower t = to_ascii_lowercase t)"

lemma gate_text_safe:
  assumes "ascii_lowers lower" "gate_text t"
  shows "steer_is_safe lower t"
proof -
  let ?safe = "\<lambda>t. list_all (\<lambda>c. (of_char c :: nat) < 128) t \<and>
    \<not> list_ex (\<lambda>bad. contains bad (to_ascii_lowercase t)) STEER_ESCALATION"
  have r: "case control_text RejectedPresent of Some (_, t) \<Rightarrow> ?safe t | None \<Rightarrow> False" by code_simp
  have p: "case control_text AwaitingProof of Some (_, t) \<Rightarrow> ?safe t | None \<Rightarrow> False" by code_simp
  obtain s where s: "control_text s = Some (False, t)" using assms(2) by (auto simp: gate_text_def)
  have "s = RejectedPresent \<or> control_text s = control_text AwaitingProof"
    using s by (cases s) (simp_all add: control_text_def)
  then have "case control_text s of Some (_, t) \<Rightarrow> ?safe t | None \<Rightarrow> False" using r p by (elim disjE) simp_all
  then have "?safe t" by (simp add: s)
  then show ?thesis using assms(1) by (simp add: ascii_lowers_def steer_is_safe_def)
qed

text \<open>Whose lower case the guard of an event uses; a decision has no guard.\<close>

fun event_lower :: "robot_event \<Rightarrow> (string \<Rightarrow> string) option" where
  "event_lower (SeeClaude E _ _ _ _) = Some (ro_lower E)"
| "event_lower (SeeCodex E _ _ _) = Some (ro_lower E)"
| "event_lower (ReviewNow _ V) = Some (ve_lower V)"
| "event_lower _ = None"

lemma event_guarded: "event_lower ev = Some lower \<Longrightarrow> list_all (guarded lower) (robot_effects ev w)"
  using guarded_claude guarded_codex guarded_review
  by (cases ev) (auto simp: robot_effects_def robot_op_of_def says_def)

lemma decision_is_not_guarded:
  assumes "de_action d = Feedback" "de_message d = Some m" "trim m \<noteq> []"
    and "dv_claude V (or_else (dv_available V) (dt_pid t)) = Some st" "is_actionable st" "dv_tapped V = Some p"
  shows "Message p m (dv_delivery V) \<in> set (fst (snd (execute V t d w)))"
  using assms by (simp add: execute_def drive_text_def opt_filter_def unwrap_or_def rthen_def rbind_parts remit_def Let_def)

text \<open>
  C7. What the Robot, the gate or a reviewer sends to a session never asks for more rights: no message
  of an observation or a review holds one of the ten phrases that widen scope or permissions. (The
  decision of a supervisor is not looked at; see \<open>decision_is_not_guarded\<close>.)
\<close>

theorem messages_are_guarded:
  assumes "event_lower ev = Some lower" and "ascii_lowers lower"
  shows "list_all (\<lambda>x. case message_text x of None \<Rightarrow> True | Some t \<Rightarrow> steer_is_safe lower t) (robot_effects ev w)"
  using event_guarded [OF assms(1), of w] gate_text_safe [OF assms(2)]
  by (auto simp: guarded_def list_all_iff split: option.splits)

section \<open>The budget of steps\<close>

definition owed :: "string \<Rightarrow> robot_world \<Rightarrow> nat" where
  "owed sid w = length (filter (\<lambda>t. dt_session t = sid) (rw_decisions w))"

definition cost :: "robot_effect \<Rightarrow> nat" where
  "cost x = (case x of Message _ _ Sent \<Rightarrow> 1 | Prompt _ _ Sent \<Rightarrow> 1 | _ \<Rightarrow> 0)"

definition delivered :: "robot_effect list \<Rightarrow> nat" where
  "delivered fx = sum_list (map cost fx)"

lemma delivered_simps [simp]: "delivered [] = 0" "delivered (x # xs) = cost x + delivered xs"
  "delivered (xs @ ys) = delivered xs + delivered ys"
  by (simp_all add: delivered_def)

text \<open>What was sent and what is owed is paid for by steps, and within the budget.\<close>

definition paid :: "nat \<Rightarrow> string \<Rightarrow> nat \<Rightarrow> robot_world \<Rightarrow> bool" where
  "paid M sid n w \<longleftrightarrow> n + owed sid w \<le> unat (rs_steps (entry_of sid w)) \<and> n + owed sid w \<le> M"

text \<open>With a credit of \<open>c\<close> messages before, the operation leaves a credit of \<open>d\<close>.\<close>

definition pays :: "nat \<Rightarrow> string \<Rightarrow> nat \<Rightarrow> 'a robot_op \<Rightarrow> ('a \<Rightarrow> nat) \<Rightarrow> bool" where
  "pays M sid c m d \<longleftrightarrow> (\<forall>w n. paid M sid (n + c) w \<longrightarrow>
     paid M sid (n + delivered (fst (snd (m w))) + d (fst (m w))) (snd (snd (m w))))"

named_theorems pays_rules

lemma paid_mono: "paid M sid n w \<Longrightarrow> m \<le> n \<Longrightarrow> paid M sid m w"
  by (simp add: paid_def)

lemma pays_ret [pays_rules]: "d x \<le> c \<Longrightarrow> pays M sid c (rret x) d"
  by (auto simp: pays_def rret_def paid_def)

lemma pays_bind: "pays M sid c m e \<Longrightarrow> (\<And>x. pays M sid (e x) (k x) d) \<Longrightarrow> pays M sid c (rbind m k) d"
  unfolding pays_def rbind_parts delivered_simps by (metis (no_types, lifting) add.assoc)

lemma pays_then: "pays M sid c m (\<lambda>_. e) \<Longrightarrow> pays M sid e k d \<Longrightarrow> pays M sid c (rthen m k) d"
  unfolding rthen_def by (rule pays_bind)

lemma pays_emit: "cost x + d () \<le> c \<Longrightarrow> pays M sid c (remit x) d"
  by (auto simp: pays_def remit_def paid_def)

lemma pays_weak: "pays M sid c m e \<Longrightarrow> c \<le> b \<Longrightarrow> (\<And>x. d x \<le> e x) \<Longrightarrow> pays M sid b m d"
  unfolding pays_def by (meson add_le_mono le_refl paid_mono)

lemma entry_of_update [simp]:
  "entry_of sid (w\<lparr>rw_state := AList.update sid' e (rw_state w)\<rparr>) = (if sid' = sid then e else entry_of sid w)"
  by (simp add: entry_of_def update_conv')

lemma entry_of_other [simp]:
  "entry_of sid (w\<lparr>rw_pool := pl\<rparr>) = entry_of sid w" "entry_of sid (w\<lparr>rw_decisions := ds\<rparr>) = entry_of sid w"
  "entry_of sid (w\<lparr>rw_marks := mk\<rparr>) = entry_of sid w" "entry_of sid (w\<lparr>rw_reviewing := rv\<rparr>) = entry_of sid w"
  "entry_of sid (w\<lparr>rw_receipts := rc\<rparr>) = entry_of sid w" "entry_of sid (w\<lparr>rw_gate := g\<rparr>) = entry_of sid w"
  by (simp_all add: entry_of_def)

lemma succ_below: "(a :: u32) < b \<Longrightarrow> unat (a + 1) = unat a + 1"
proof -
  assume "a < b"
  then have "unat a + 1 < 2 ^ 32" using unat_u32 [of b] by (simp add: word_less_nat_alt)
  then show ?thesis by (simp add: unat_word_ariths)
qed

lemma pays_modify:
  assumes "\<And>w. rw_state (g w) = rw_state w" "\<And>w. rw_decisions (g w) = rw_decisions w"
  shows "pays M sid c (rmodify g) (\<lambda>_. c)"
  by (auto simp: pays_def rmodify_def paid_def owed_def entry_of_def assms)

lemma pays_get [pays_rules]: "pays M sid c (rget g) (\<lambda>_. c)"
  by (auto simp: pays_def rget_def)

lemma pays_gate [pays_rules]: "pays M sid c (on_gate op) (\<lambda>_. c)" "pays M sid c (read_control E s) (\<lambda>_. c)"
  by (auto simp: pays_def on_gate_def read_control_def paid_def owed_def split: prod.splits)

lemma pays_pool: "pays M sid c (on_pool f) (\<lambda>_. c)"
proof -
  have "delivered (map Provider fx) = 0" for fx by (induction fx) (simp_all add: cost_def)
  then show ?thesis by (auto simp: pays_def on_pool_def paid_def owed_def split: prod.splits)
qed

text \<open>A step is taken only below the limit, and gives a credit.\<close>

lemma pays_entry:
  assumes "\<And>e x e'. f e = (x, e') \<Longrightarrow> rs_steps e \<le> rs_steps e' \<and> d x \<le> c \<or>
    rs_steps e < mx \<and> rs_steps e' = rs_steps e + 1 \<and> d x \<le> c + 1"
    and "unat mx \<le> M"
  shows "pays M sid c (on_entry sid f) d"
  unfolding pays_def
proof (intro allI impI)
  fix w n assume p: "paid M sid (n + c) w"
  obtain x e' where f: "f (entry_of sid w) = (x, e')" by fastforce
  from assms(1) [OF f] p assms(2)
  show "paid M sid (n + delivered (fst (snd (on_entry sid f w))) + d (fst (on_entry sid f w))) (snd (snd (on_entry sid f w)))"
    by (auto simp: on_entry_def f paid_def owed_def word_le_nat_alt word_less_nat_alt succ_below [simplified word_less_nat_alt])
qed

lemma sat_add_mono: "a \<le> sat_add_u32 a b"
proof -
  have "a \<le> - 1" by simp
  then show ?thesis by (auto simp: sat_add_u32_def word_le_nat_alt unat_word_ariths)
qed

lemma sat_succ_below: "\<not> b \<le> a \<Longrightarrow> sat_succ_u32 a = a + 1"
  by (auto simp: sat_succ_u32_def)

lemma pays_steps [pays_rules]:
  assumes "unat mx \<le> M"
  shows "pays M sid c (charge_gate_probes sid n mx) (\<lambda>_. c)"
    and "pays M sid c (reserve_gate_step E sid t mx) (\<lambda>go. if go then c + 1 else c)"
    and "pays M sid c (reserve_completion_probe sid sig mx) (\<lambda>p. if p = Probe then c + 1 else c)"
    and "pays M sid c (base_plan sid sig mx) (\<lambda>p. if p = StepAct then c + 1 else c)"
  unfolding charge_gate_probes_def reserve_gate_step_def reserve_completion_probe_def base_plan_def Let_def
  by (rule pays_entry [OF _ assms];
      auto simp: sat_add_mono step_plan_def intro: sat_succ_below split: if_splits)+

lemma pays_mark: "pays M sid c (mark_seen sid sig False) (\<lambda>_. c)"
  by (auto simp: pays_def mark_seen_def on_entry_def paid_def owed_def)

lemma pays_ladder: "pays M sid c (on_entry key (\<lambda>e. ((), e\<lparr>rs_acted_sig := s\<rparr>))) (\<lambda>_. c)"
  by (auto simp: pays_def on_entry_def paid_def owed_def)

lemma pays_clear [pays_rules]: "pays M sid c (clear_arm s) (\<lambda>_. c)"
  by (auto simp: pays_def clear_arm_def rmodify_def paid_def owed_def entry_of_def update_conv' split: option.splits)

lemma pays_spawn: "pays M sid (c + 1) (spawn_decision E sid ctx) (\<lambda>_. c)"
  by (auto simp: pays_def spawn_decision_def rmodify_def paid_def owed_def)

lemma pays_if [pays_rules]:
  "(b \<Longrightarrow> pays M sid c m d) \<Longrightarrow> (\<not> b \<Longrightarrow> pays M sid c k d) \<Longrightarrow> pays M sid c (if b then m else k) d"
  by simp

lemma pays_option [pays_rules]:
  "(x = None \<Longrightarrow> pays M sid c m d) \<Longrightarrow> (\<And>y. x = Some y \<Longrightarrow> pays M sid c (k y) d) \<Longrightarrow>
   pays M sid c (case x of None \<Rightarrow> m | Some y \<Rightarrow> k y) d"
  by (cases x) simp_all

lemma pays_notice [pays_rules]:
  "d () \<le> c \<Longrightarrow> pays M sid c (robot_notice E a t) d" "d () \<le> c \<Longrightarrow> pays M sid c (completion_notice E t) d"
  by (simp_all add: robot_notice_def completion_notice_def pays_emit cost_def)

lemma pays_gate_round:
  assumes "\<And>t st. pays M sid 1 (drive t st) (\<lambda>_. 0)" and mx: "unat mx \<le> M"
  shows "pays M sid 0 (gate_round E sid mx drive) (\<lambda>_. 0)"
proof -
  have step: "pays M sid 0 (rbind (reserve_gate_step E sid t mx)
      (\<lambda>go. if go then rthen (drive t st) (rret True) else rret True)) (\<lambda>_. 0)" for t st
    by (rule pays_bind [OF pays_steps(2) [OF mx]]) (auto intro!: pays_then [OF assms(1) [simplified]] pays_ret)
  show ?thesis unfolding gate_round_def
    by (intro pays_bind [OF pays_gate(1)] pays_bind [OF pays_gate(2)] pays_bind [OF pays_steps(1) [OF mx]]
        pays_if pays_option step pays_then [where e = 0] pays_ret pays_notice; simp)
qed

lemma cost_le: "cost x \<le> 1"
  by (simp add: cost_def split: robot_effect.split delivery.split)

lemma pays_message: "pays M sid 1 (remit x) (\<lambda>_. 0)"
  by (rule pays_emit) (use cost_le [of x] in simp)

lemma pays_after_gate: "pays M sid 0 (after_gate_message E s t st) (\<lambda>_. 0)"
  unfolding after_gate_message_def gate_delivered_def
  by (intro pays_if pays_ret pays_then [where e = 0] pays_notice pays_modify) simp_all

lemma pays_gates:
  assumes "unat mx \<le> M"
  shows "pays M sid 0 (observe_gate_claude E sid mx) (\<lambda>_. 0)" "pays M sid 0 (observe_gate_codex E sid mx) (\<lambda>_. 0)"
  unfolding observe_gate_claude_def observe_gate_codex_def
  by (intro pays_gate_round [OF _ assms] pays_option pays_notice pays_then [OF pays_message pays_after_gate]; simp)+

lemma pays_gap:
  assumes "unat mx \<le> M"
  shows "pays M sid 0 (resolve_completion_gap E sid sig staged mx) (\<lambda>_. 0)"
  unfolding resolve_completion_gap_def
proof (rule pays_bind [OF pays_steps(3) [OF assms]])
  fix p :: CompletionPlan
  have probe: "pays M sid 1 (deliver_probe E staged tapped t) (\<lambda>_. 0)" for tapped t
    unfolding deliver_probe_def
    by (rule pays_then [OF pays_message]) (cases "ro_delivery E"; simp add: pays_notice)
  show "pays M sid (if p = Probe then 0 + 1 else 0)
    (case p of CompSkip \<Rightarrow> rret ()
     | Probe \<Rightarrow> (case sa_proof_request staged of
          None \<Rightarrow> completion_notice E ''Ledger is incomplete but did not produce an admissible proof request''
        | Some directive \<Rightarrow>
            if \<not> steer_is_safe (ro_lower E) directive
            then completion_notice E ''Ledger proof request failed the non-escalation safety guard''
            else (case or_else (ro_available E) (ro_pid E) of
                    None \<Rightarrow> completion_notice E ''Ledger proof is missing and the session has no live injection channel''
                  | Some tapped \<Rightarrow> deliver_probe E staged tapped directive))
     | SafePartial \<Rightarrow> let s = sa_completion staged
         in completion_notice E (''Verification budget exhausted: '' @ of_active s @ '' obligations verified; '' @
              dec (unresolved s) @ '' unresolved; coverage '' @ fixed3 (cs_coverage s))) (\<lambda>_. 0)"
    by (cases p) (auto simp: Let_def probe [simplified] intro!: pays_ret pays_notice split: option.split)
qed

lemma pays_base:
  assumes "unat (rb_max_steps (ac_robot (ro_config E))) \<le> M"
  shows "pays M sid 0 (base_robot E sid sig st lm) (\<lambda>_. 0)"
  unfolding base_robot_def Let_def
proof (rule pays_bind [OF pays_steps(4) [OF assms]])
  fix p
  show "pays M sid (if p = StepAct then 0 + 1 else 0)
    (case p of StepSkip \<Rightarrow> rret ()
     | StepBudget \<Rightarrow> robot_notice E ''robot'' (''step budget reached ('' @ dec (unat (rb_max_steps (ac_robot (ro_config E)))) @ '')'')
     | StepAct \<Rightarrow> spawn_decision E sid (build_context
         \<lparr>sn_alias = nc_alias (ro_ctx E), sn_agent = ''claude'', sn_state_label = claude_label st,
          sn_last_message = lm, sn_tail = ro_tail E, sn_question = None, sn_goal = None\<rparr> CONTEXT_BUDGET)) (\<lambda>_. 0)"
    by (cases p) (auto intro!: pays_ret pays_notice pays_spawn [of _ _ 0, simplified])
qed

text \<open>A steer is paid for by the step that is counted when it went through.\<close>

lemma paid_steer:
  assumes p: "paid M sid n w" and below: "rs_steps (entry_of sid w) < mx" "unat mx \<le> M"
  shows "paid M sid (n + delivered (fst (snd (steer_claude E sid sig staged t w))))
    (snd (snd (steer_claude E sid sig staged t w)))"
    and "paid M sid (n + delivered (fst (snd (steer_codex E sid sig staged t w))))
    (snd (snd (steer_codex E sid sig staged t w)))"
proof -
  note s = succ_below [OF below(1)]
  have l: "unat (rs_steps (entry_of sid w)) < M" using below by (simp add: word_less_nat_alt)
  show "paid M sid (n + delivered (fst (snd (steer_claude E sid sig staged t w))))
    (snd (snd (steer_claude E sid sig staged t w)))"
    using p l by (cases "ro_delivery E") (auto simp: steer_claude_def rthen_def rbind_def remit_def rret_def mark_seen_def on_entry_def
        robot_notice_def already_seen_def rget_def cost_def paid_def owed_def s split: option.split)
  show "paid M sid (n + delivered (fst (snd (steer_codex E sid sig staged t w))))
    (snd (snd (steer_codex E sid sig staged t w)))"
    using p l by (cases "ro_delivery E") (auto simp: steer_codex_def rthen_def rbind_def remit_def rret_def mark_seen_def on_entry_def
        robot_notice_def already_seen_def rget_def cost_def paid_def owed_def s split: option.split delivery.split)
qed

lemma semantic_plan_effect:
  fixes w sid sig g b mx
  defines "r \<equiv> semantic_plan sid sig g b mx w"
  shows "fst (snd r) = []" "rs_steps (entry_of sid (snd (snd r))) = rs_steps (entry_of sid w)"
    "owed s (snd (snd r)) = owed s w" "fst r = SmartAct \<Longrightarrow> rs_steps (entry_of sid w) < mx"
  unfolding r_def semantic_plan_def on_entry_def
  by (auto simp: owed_def split: prod.splits if_splits option.splits)

lemma pays_semantic:
  assumes "\<And>w n. paid M sid n w \<Longrightarrow> rs_steps (entry_of sid w) < mx \<Longrightarrow>
      paid M sid (n + delivered (fst (snd (k SmartAct w)))) (snd (snd (k SmartAct w)))"
    and "\<And>p. p \<noteq> SmartAct \<Longrightarrow> pays M sid 0 (k p) (\<lambda>_. 0)"
  shows "pays M sid 0 (rbind (semantic_plan sid sig g b mx) k) (\<lambda>_. 0)"
  unfolding pays_def rbind_parts
proof (intro allI impI)
  fix w n assume p: "paid M sid (n + 0) w"
  let ?r = "semantic_plan sid sig g b mx w"
  note r = semantic_plan_effect [where w = w and sid = sid and sig = sig and g = g and b = b and mx = mx]
  have p1: "paid M sid n (snd (snd ?r))" using p r by (simp add: paid_def)
  have "paid M sid (n + delivered (fst (snd (k (fst ?r) (snd (snd ?r)))))) (snd (snd (k (fst ?r) (snd (snd ?r)))))"
  proof (cases "fst ?r = SmartAct")
    case True
    then show ?thesis using assms(1) [OF p1] r by simp
  next
    case False
    from assms(2) [OF this] p1 show ?thesis unfolding pays_def by (metis add.right_neutral)
  qed
  then show "paid M sid (n + delivered (fst (snd ?r) @ fst (snd (k (fst ?r) (snd (snd ?r))))) + 0)
      (snd (snd (k (fst ?r) (snd (snd ?r)))))" using r by simp
qed

lemma pays_seen [pays_rules]: "pays M sid c (already_seen s sig) (\<lambda>_. c)"
  by (simp add: already_seen_def pays_get)

lemma pays_plan_steer:
  assumes mx: "unat (rb_max_steps (ac_robot (ro_config E))) \<le> M"
  shows "pays M sid 0 (plan_steer E sid sig staged) (\<lambda>_. 0)"
  unfolding plan_steer_def
  by (intro pays_if pays_then [OF pays_clear] pays_ret pays_semantic; simp add: pays_ret split: option.split)
     (auto simp: rret_def intro: paid_steer(1) [OF _ _ mx])

lemma pays_assessed:
  assumes mx: "unat (rb_max_steps (ac_robot (ro_config E))) \<le> M"
  shows "pays M sid 0 (codex_assessed E sid sig staged) (\<lambda>_. 0)"
proof -
  have seen: "paid M sid (n + delivered (fst (snd (mark_seen sid sig False w)))) (snd (snd (mark_seen sid sig False w)))"
    if "paid M sid n w" for n w
    using pays_mark [of M sid 0 sig] that unfolding pays_def by (metis add.right_neutral)
  show ?thesis unfolding codex_assessed_def
    by (intro pays_if pays_then [OF pays_clear] pays_notice pays_mark pays_semantic; simp split: option.split)
       (auto split: SmartPlan.split intro!: pays_ret pays_mark pays_notice intro: seen paid_steer(2) [OF _ _ mx])
qed

lemma pays_verified: "pays M sid 0 (verified_final E sid sig staged) (\<lambda>_. 0)"
  unfolding verified_final_def Let_def
  by (intro pays_then [OF pays_mark] pays_bind [OF pays_get] pays_if pays_ret pays_then [where e = 0] pays_notice
      pays_modify) simp_all

lemma pays_review: "pays M sid c (maybe_cross_review E pid s f m idle) (\<lambda>_. c)"
  unfolding maybe_cross_review_def
  by (intro pays_if pays_ret pays_modify) (auto split: prod.splits)

lemma pays_smart:
  assumes mx: "unat (rb_max_steps (ac_robot (ro_config E))) \<le> M"
  shows "pays M sid 0 (observe_smart E sid sig idle) (\<lambda>_. 0)"
  unfolding observe_smart_def
  by (auto split: option.split CompletionDisposition.split
      intro!: pays_then [where e = 0] pays_clear pays_ret pays_verified pays_gap [OF mx] pays_plan_steer [OF mx])

lemma pays_ladder_only: "pays M sid 0 (observe_ladder_only E s st tip lm) (\<lambda>_. 0)"
  unfolding observe_ladder_only_def ladder_report_def Let_def
  by (auto split: option.split simp: cost_def
      intro!: pays_if pays_ret pays_bind [where e = "\<lambda>_. 0"] pays_seen pays_then [where e = 0] pays_ladder pays_emit)

lemma pays_claude:
  assumes mx: "unat (rb_max_steps (ac_robot (ro_config E))) \<le> M"
  shows "pays M sid 0 (robot_observe_claude E sid st tip lm) (\<lambda>_. 0)"
  unfolding robot_observe_claude_def Let_def
  by (intro pays_if pays_ret pays_then [where e = 0] pays_bind [where e = "\<lambda>_. 0"] pays_review pays_seen
      pays_ladder_only pays_smart [OF mx] pays_base [OF mx] pays_gates(1) [OF mx]; simp)

lemma pays_codex:
  assumes mx: "unat (rb_max_steps (ac_robot (ro_config E))) \<le> M"
  shows "pays M sid 0 (robot_observe_codex E sid st lm) (\<lambda>_. 0)"
  unfolding robot_observe_codex_def Let_def
  by (intro pays_if pays_ret pays_then [where e = 0] pays_bind [where e = "\<lambda>_. 0"] pays_review pays_seen
      pays_option pays_clear pays_assessed [OF mx] pays_gates(2) [OF mx]; simp)

lemma pays_decision: "pays M sid 1 (run_decision V t) (\<lambda>_. 0)"
  unfolding run_decision_def
proof (rule pays_bind [OF pays_pool])
  fix r :: "char list + Backend \<times> decision"
  have ex: "pays M sid 1 (execute V t d) (\<lambda>_. 0)" for d
    unfolding execute_def Let_def
    by (auto split: option.split intro!: pays_if pays_ret pays_emit pays_then [OF pays_message [unfolded One_nat_def]] simp: cost_def)
  show "pays M sid 1 (case r of Inl _ \<Rightarrow> remit (Notify (dt_ctx t) ''robot'' ''no reachable supervisor provider'')
      | Inr (_, d) \<Rightarrow> execute V t d) (\<lambda>_. 0)"
    by (auto split: sum.split intro!: ex [simplified] pays_emit simp: cost_def)
qed

text \<open>What an event on another session leaves alone.\<close>

definition armed :: "string \<Rightarrow> robot_world \<Rightarrow> string option \<times> string option" where
  "armed sid w = (rs_armed_gap (entry_of sid w), rs_armed_tip (entry_of sid w))"

definition due :: "string \<Rightarrow> robot_world \<Rightarrow> decision_task list \<times> review_task list" where
  "due sid w = (filter (\<lambda>t. dt_session t = sid) (rw_decisions w), filter (\<lambda>t. vt_session t = sid) (rw_reviewing w))"

definition account ::
  "string \<Rightarrow> robot_world \<Rightarrow> u32 \<times> (string option \<times> string option) \<times> decision_task list \<times> review_task list"
where
  "account sid w = (rs_steps (entry_of sid w), armed sid w, due sid w)"

lemma stays_account:
  "s \<noteq> sid \<Longrightarrow> stays (account sid) (on_entry s f)"
  "stays (account sid) (on_entry key (\<lambda>e. ((), e\<lparr>rs_acted_sig := z\<rparr>)))"
  "s \<noteq> sid \<Longrightarrow> stays (account sid) (clear_arm s)" "stays (account sid) (already_seen s sig)"
  "stays (account sid) (on_gate op)" "stays (account sid) (read_control E s)" "stays (account sid) (on_pool pf)"
  "s \<noteq> sid \<Longrightarrow> stays (account sid) (maybe_cross_review E pid s fam m idle)"
  "s \<noteq> sid \<Longrightarrow> stays (account sid) (spawn_decision E s c)"
  by (auto simp: stays_def account_def armed_def due_def on_entry_def clear_arm_def rmodify_def already_seen_def rget_def
      on_gate_def read_control_def on_pool_def maybe_cross_review_def rret_def spawn_decision_def entry_of_def update_conv'
      split: prod.splits option.splits)

lemma stays_other:
  assumes "s \<noteq> sid"
  shows "stays (account sid) (mark_seen s sig b)" "stays (account sid) (reserve_completion_probe s sig mx)"
    "stays (account sid) (semantic_plan s sig g st mx)" "stays (account sid) (reserve_gate_step E s t mx)"
    "stays (account sid) (charge_gate_probes s n mx)" "stays (account sid) (base_plan s sig mx)"
  using assms by (auto simp: mark_seen_def reserve_completion_probe_def semantic_plan_def reserve_gate_step_def
      charge_gate_probes_def base_plan_def Let_def intro!: stays_account)

text \<open>
  An observation changes only the entries of its own session: the same walk over the handlers as above,
  with the entry operations of another session.
\<close>

lemma stays_gate_round:
  assumes "s \<noteq> sid" "\<And>t st. stays (account sid) (drive t st)"
  shows "stays (account sid) (gate_round E s mx drive)"
  unfolding gate_round_def by (intro stays_rules stays_account(5,6) stays_other [OF assms(1)] assms(2))

lemma stays_gate_drive: "stays (account sid) (after_gate_message E s t st)"
  unfolding after_gate_message_def gate_delivered_def
  by (intro stays_rules stays_modify) (simp_all add: account_def armed_def due_def entry_of_def)

lemma stays_gates:
  assumes "s \<noteq> sid"
  shows "stays (account sid) (observe_gate_claude E s mx)" "stays (account sid) (observe_gate_codex E s mx)"
  unfolding observe_gate_claude_def observe_gate_codex_def
  by (intro stays_gate_round [OF assms] stays_rules stays_gate_drive)+

lemma stays_smart:
  assumes "s \<noteq> sid"
  shows "stays (account sid) (observe_smart E s sig idle)"
proof -
  have rec: "stays (account sid) (rmodify (\<lambda>w. if b then w\<lparr>rw_receipts := f w\<rparr> else w))" for b f
    by (rule stays_modify) (simp add: account_def armed_def due_def)
  have plan: "stays (account sid) (plan_steer E s sig staged)" for staged
    unfolding plan_steer_def steer_claude_def by (intro stays_rules stays_account(3) [OF assms] stays_account(4) stays_other [OF assms])
  have gap: "stays (account sid) (resolve_completion_gap E s sig staged mx)" for staged mx
    unfolding resolve_completion_gap_def deliver_probe_def Let_def
    by (auto split: CompletionPlan.split delivery.split intro!: stays_rules stays_other [OF assms])
  show ?thesis unfolding observe_smart_def verified_final_def Let_def
    by (auto split: option.split CompletionDisposition.split
        intro!: stays_rules stays_account(3) [OF assms] stays_other [OF assms] rec plan gap)
qed

lemma stays_observations:
  assumes "s \<noteq> sid"
  shows "stays (account sid) (robot_observe_claude E s st tip lm)" "stays (account sid) (robot_observe_codex E s cst lm)"
proof -
  have base: "stays (account sid) (base_robot E s sig st lm)" for sig
    unfolding base_robot_def Let_def
    by (auto split: StepPlan.split intro!: stays_rules stays_other [OF assms] stays_account(9) [OF assms])
  have ladder: "stays (account sid) (observe_ladder_only E s st tip lm)"
    unfolding observe_ladder_only_def ladder_report_def Let_def by (intro stays_rules stays_account(2,4))
  show "stays (account sid) (robot_observe_claude E s st tip lm)"
    unfolding robot_observe_claude_def Let_def
    by (intro stays_rules stays_account(4) stays_account(8) [OF assms] stays_gates [OF assms] stays_smart [OF assms] base ladder)
  have assessed: "stays (account sid) (codex_assessed E s sig staged)" for sig staged
    unfolding codex_assessed_def steer_codex_def
    by (auto split: SmartPlan.split option.split intro!: stays_rules stays_account(3) [OF assms] stays_other [OF assms])
  show "stays (account sid) (robot_observe_codex E s cst lm)"
    unfolding robot_observe_codex_def Let_def
    by (intro stays_rules stays_account(4) stays_account(3,8) [OF assms] stays_gates [OF assms] assessed)
qed

lemma stays_tasks: "stays (account sid) (run_decision V t)" "stays (account sid) (spawn_cross_review RV vt)"
  unfolding run_decision_def execute_def spawn_cross_review_def correct_def Let_def
  by (auto split: sum.split option.split intro!: stays_rules stays_account(7))

section \<open>Messages per session\<close>

text \<open>The session an event acts on by itself; a review is counted against its own limit.\<close>

definition acts_on :: "robot_event \<Rightarrow> robot_world \<Rightarrow> string option" where
  "acts_on ev w =
     (case ev of
        SeeClaude E s _ _ _ \<Rightarrow> Some s
      | SeeCodex E s _ _ \<Rightarrow> Some s
      | Decide i V \<Rightarrow> if i < length (rw_decisions w) then Some (dt_session (rw_decisions w ! i)) else None
      | _ \<Rightarrow> None)"

fun sent_to :: "string \<Rightarrow> robot_event list \<Rightarrow> robot_world \<Rightarrow> nat" where
  "sent_to sid [] w = 0"
| "sent_to sid (ev # evs) w =
     (if acts_on ev w = Some sid then delivered (robot_effects ev w) else 0) + sent_to sid evs (robot_step ev w)"

definition step_limit :: "robot_event \<Rightarrow> nat" where
  "step_limit ev =
     (case ev of
        SeeClaude E _ _ _ _ \<Rightarrow> unat (rb_max_steps (ac_robot (ro_config E)))
      | SeeCodex E _ _ _ \<Rightarrow> unat (rb_max_steps (ac_robot (ro_config E)))
      | _ \<Rightarrow> 0)"

lemma paid_account: "account sid w' = account sid w \<Longrightarrow> paid M sid n w' = paid M sid n w"
  by (auto simp: paid_def account_def owed_def due_def)

lemma length_without:
  assumes "i < length xs"
  shows "length (filter P xs) = length (filter P (without i xs)) + (if P (xs ! i) then 1 else 0)"
proof -
  have "length (filter P xs) = length (filter P (take i xs @ xs ! i # drop (Suc i) xs))"
    by (rule arg_cong [where f = "\<lambda>ys. length (filter P ys)", OF id_take_nth_drop [OF assms]])
  then show ?thesis by (simp add: without_def)
qed

lemma paid_op:
  "pays M sid c m (\<lambda>_. 0) \<Longrightarrow> paid M sid (n + c) w \<Longrightarrow>
   paid M sid (n + delivered (fst (snd (m w)))) (snd (snd (m w)))"
  unfolding pays_def by (metis add.right_neutral)

lemma paid_other: "stays (account sid) m \<Longrightarrow> paid M sid n w \<Longrightarrow> paid M sid n (snd (snd (m w)))"
  using paid_account [of sid "snd (snd (m w))" w M n] by (simp add: stays_def)

lemma paid_decision:
  assumes "paid M sid n w" "i < length (rw_decisions w)"
  defines "w1 \<equiv> w\<lparr>rw_decisions := without i (rw_decisions w)\<rparr>" and "t \<equiv> rw_decisions w ! i"
  shows "paid M sid (n + (if dt_session t = sid then delivered (fst (snd (run_decision V t w1))) else 0))
    (snd (snd (run_decision V t w1)))"
proof -
  have p: "paid M sid (n + (if dt_session t = sid then 1 else 0)) w1"
    using assms(1) length_without [OF assms(2), of "\<lambda>t. dt_session t = sid"]
    by (simp add: paid_def owed_def w1_def t_def split: if_splits)
  show ?thesis
  proof (cases "dt_session t = sid")
    case True
    with paid_op [OF pays_decision, of M sid n w1 V t] p show ?thesis by simp
  next
    case False
    with paid_other [OF stays_tasks(1), of M sid n w1 V t] p show ?thesis by simp
  qed
qed

lemma paid_step:
  assumes "paid M sid n w" "ev \<noteq> Restart" "step_limit ev \<le> M"
  shows "paid M sid (n + (if acts_on ev w = Some sid then delivered (robot_effects ev w) else 0)) (robot_step ev w)"
proof (cases ev)
  case (SeeClaude E s st tip lm)
  have mx: "unat (rb_max_steps (ac_robot (ro_config E))) \<le> M" using assms(3) SeeClaude by (simp add: step_limit_def)
  from paid_op [OF pays_claude [OF mx], of sid n w st tip lm] paid_other [OF stays_observations(1), of s sid M n w E st tip lm]
    assms(1) show ?thesis
    by (cases "s = sid") (simp_all add: SeeClaude acts_on_def robot_effects_def robot_step_def robot_op_of_def)
next
  case (SeeCodex E s st lm)
  have mx: "unat (rb_max_steps (ac_robot (ro_config E))) \<le> M" using assms(3) SeeCodex by (simp add: step_limit_def)
  from paid_op [OF pays_codex [OF mx], of sid n w st lm] paid_other [OF stays_observations(2), of s sid M n w E st lm]
    assms(1) show ?thesis
    by (cases "s = sid") (simp_all add: SeeCodex acts_on_def robot_effects_def robot_step_def robot_op_of_def)
next
  case (Decide i V)
  from paid_decision [OF assms(1), of i V] assms(1) show ?thesis
    by (cases "i < length (rw_decisions w)")
       (auto simp: Decide acts_on_def robot_effects_def robot_step_def robot_op_of_def split: if_splits)
next
  case (ReviewNow i V)
  have "paid M sid n (w\<lparr>rw_reviewing := without i (rw_reviewing w)\<rparr>)" using assms(1) by (simp add: paid_def owed_def)
  from paid_other [OF stays_tasks(2) this, of V "rw_reviewing w ! i"] assms(1) show ?thesis
    by (simp add: ReviewNow acts_on_def robot_step_def robot_op_of_def)
qed (use assms in simp)

lemma paid_run:
  assumes "list_all (\<lambda>ev. ev \<noteq> Restart \<and> step_limit ev \<le> M) evs" "paid M sid n w"
  shows "n + sent_to sid evs w \<le> M"
  using assms
proof (induction evs arbitrary: n w)
  case Nil
  then show ?case by (simp add: paid_def)
next
  case (Cons ev evs)
  from Cons.IH [OF _ paid_step [of M sid n w ev]] Cons.prems show ?case by simp
qed


section \<open>Only Robot mode drives\<close>

fun mode_of :: "robot_event \<Rightarrow> (string \<times> Mode) option" where
  "mode_of (SeeClaude E s _ _ _) = Some (s, resolve (ro_config E) (Some s) (nc_alias (ro_ctx E)) (ro_now E))"
| "mode_of (SeeCodex E s _ _) = Some (s, resolve (ro_config E) (Some s) (nc_alias (ro_ctx E)) (ro_now E))"
| "mode_of _ = None"

text \<open>The session whose tasks or observation the event is.\<close>

definition concerns :: "robot_event \<Rightarrow> robot_world \<Rightarrow> string option" where
  "concerns ev w =
     (case ev of
        ReviewNow i V \<Rightarrow> if i < length (rw_reviewing w) then Some (vt_session (rw_reviewing w ! i)) else None
      | _ \<Rightarrow> acts_on ev w)"

fun texts_to :: "string \<Rightarrow> robot_event list \<Rightarrow> robot_world \<Rightarrow> string list" where
  "texts_to sid [] w = []"
| "texts_to sid (ev # evs) w =
     (if concerns ev w = Some sid then List.map_filter message_text (robot_effects ev w) else []) @
     texts_to sid evs (robot_step ev w)"

definition hands_off :: "string \<Rightarrow> robot_world \<Rightarrow> bool" where
  "hands_off sid w \<longleftrightarrow> fst (due sid w) = [] \<and> list_all (\<lambda>t. vt_mode t \<noteq> Robot) (snd (due sid w))"

abbreviation mute :: "robot_effect \<Rightarrow> bool" where
  "mute x \<equiv> message_text x = None"

lemma mute_none: "list_all mute fx \<Longrightarrow> List.map_filter message_text fx = []"
  by (induction fx) (simp_all add: map_filter_simps)

lemma hands_off_review: "hands_off sid w \<Longrightarrow> m \<noteq> Robot \<Longrightarrow> hands_off sid (snd (snd (maybe_cross_review E pid s f m idle w)))"
  by (auto simp: maybe_cross_review_def rret_def rmodify_def hands_off_def due_def split: prod.splits)

lemma ladder_parts:
  "says mute (observe_ladder_only E s st tip lm)" "stays (due sid) (observe_ladder_only E s st tip lm)"
  unfolding observe_ladder_only_def ladder_report_def Let_def
  by (intro says_rules; simp) (intro stays_rules staysI; simp add: already_seen_def rget_def on_entry_def due_def)

lemma observe_idle:
  assumes "mode_of ev = Some (sid, m)" "m \<noteq> Robot" "hands_off sid w"
  shows "list_all mute (robot_effects ev w) \<and> hands_off sid (robot_step ev w)"
proof (cases ev)
  case (SeeClaude E s st tip lm)
  have s: "s = sid" and m: "resolve (ro_config E) (Some sid) (nc_alias (ro_ctx E)) (ro_now E) = m"
    using assms(1) SeeClaude by auto
  have "hands_off sid (snd (snd (observe_ladder_only E sid st tip lm w)))"
    using assms(3) ladder_parts(2) [of sid E sid st tip lm] by (simp add: hands_off_def stays_def)
  from hands_off_review [OF this assms(2)] show ?thesis
    using ladder_parts(1) [of E sid st tip lm] says_review [of mute] assms(2,3)
    by (auto simp: SeeClaude s robot_effects_def robot_step_def robot_op_of_def robot_observe_claude_def Let_def m
        rthen_def rbind_parts says_def rret_def)
next
  case (SeeCodex E s st lm)
  have s: "s = sid" and m: "resolve (ro_config E) (Some sid) (nc_alias (ro_ctx E)) (ro_now E) = m"
    using assms(1) SeeCodex by auto
  from hands_off_review [OF assms(3,2)] show ?thesis
    using says_review [of mute] assms(2,3)
    by (auto simp: SeeCodex s robot_effects_def robot_step_def robot_op_of_def robot_observe_codex_def Let_def m
        rthen_def rbind_parts says_def rret_def)
qed (use assms in simp_all)

lemma mute_review: "vt_mode t \<noteq> Robot \<Longrightarrow> says mute (spawn_cross_review V t)"
  unfolding spawn_cross_review_def correct_def Let_def by (auto split: sum.split option.split intro!: says_rules)

lemma hands_off_account: "account sid w' = account sid w \<Longrightarrow> hands_off sid w \<Longrightarrow> hands_off sid w'"
  by (simp add: hands_off_def account_def)

lemma hands_off_other: "stays (account sid) m \<Longrightarrow> hands_off sid w \<Longrightarrow> hands_off sid (snd (snd (m w)))"
  using hands_off_account [of sid "snd (snd (m w))" w] by (simp add: stays_def)

lemma set_without: "set (without i xs) \<subseteq> set xs"
  by (auto simp: without_def dest: in_set_takeD in_set_dropD)

lemma hands_off_less:
  assumes "hands_off sid w"
  shows "hands_off sid (w\<lparr>rw_decisions := without i (rw_decisions w)\<rparr>)"
    and "hands_off sid (w\<lparr>rw_reviewing := without i (rw_reviewing w)\<rparr>)"
  using assms set_without [of i "rw_decisions w"] set_without [of i "rw_reviewing w"]
  by (auto simp: hands_off_def due_def filter_empty_conv list_all_iff)

lemma hands_off_step:
  assumes "\<And>m. mode_of ev = Some (sid, m) \<Longrightarrow> m \<noteq> Robot" "hands_off sid w"
  shows "hands_off sid (robot_step ev w) \<and> (concerns ev w = Some sid \<longrightarrow> list_all mute (robot_effects ev w))"
proof (cases "\<exists>m. mode_of ev = Some (sid, m)")
  case True
  then show ?thesis using observe_idle assms by blast
next
  case False
  show ?thesis
  proof (cases ev)
    case (SeeClaude E s st tip lm)
    with False have "s \<noteq> sid" by auto
    from hands_off_other [OF stays_observations(1) [OF this] assms(2)] this show ?thesis
      by (simp add: SeeClaude robot_step_def robot_op_of_def concerns_def acts_on_def)
  next
    case (SeeCodex E s st lm)
    with False have "s \<noteq> sid" by auto
    from hands_off_other [OF stays_observations(2) [OF this] assms(2)] this show ?thesis
      by (simp add: SeeCodex robot_step_def robot_op_of_def concerns_def acts_on_def)
  next
    case (Decide i V)
    have "dt_session (rw_decisions w ! i) \<noteq> sid" if "i < length (rw_decisions w)"
      using assms(2) nth_mem [OF that] by (auto simp: hands_off_def due_def filter_empty_conv)
    with hands_off_other [OF stays_tasks(1) hands_off_less(1) [OF assms(2)], of V "rw_decisions w ! i" i] assms(2)
    show ?thesis by (auto simp: Decide robot_step_def robot_op_of_def concerns_def acts_on_def)
  next
    case (ReviewNow i V)
    let ?t = "rw_reviewing w ! i"
    have "vt_mode ?t \<noteq> Robot" if "i < length (rw_reviewing w)" "vt_session ?t = sid"
      using assms(2) nth_mem [OF that(1)] that(2) by (auto simp: hands_off_def due_def list_all_iff)
    with mute_review [of ?t V] hands_off_other [OF stays_tasks(2) hands_off_less(2) [OF assms(2)], of V ?t i] assms(2)
    show ?thesis
      by (auto simp: ReviewNow robot_step_def robot_effects_def robot_op_of_def concerns_def says_def)
  next
    case Restart
    then show ?thesis by (simp add: robot_step_def robot_op_of_def restart_def hands_off_def due_def concerns_def acts_on_def)
  qed
qed

text \<open>
  C9. Only Robot mode drives: as long as every observation of a session finds it in Manual or Auto mode,
  nothing is sent to it, neither by an observation, a decision, a gate nor a review of it, whatever is
  done for other sessions and whenever the agent is restarted.
\<close>

theorem only_robot_mode_drives:
  assumes "list_all (\<lambda>ev. case mode_of ev of Some (s, m) \<Rightarrow> s = sid \<longrightarrow> m \<noteq> Robot | None \<Rightarrow> True) evs"
    and "rw_decisions w = []" and "rw_reviewing w = []"
  shows "texts_to sid evs w = []"
proof -
  have "hands_off sid w" using assms(2,3) by (simp add: hands_off_def due_def)
  with assms(1) show ?thesis
  proof (induction evs arbitrary: w)
    case (Cons ev evs)
    have "m \<noteq> Robot" if "mode_of ev = Some (sid, m)" for m using Cons.prems(1) that by simp
    from hands_off_step [OF this Cons.prems(2)] Cons.IH [of "robot_step ev w"] Cons.prems(1)
    show ?case by (auto simp: mute_none)
  qed simp
qed

section \<open>Two frames before a steer\<close>

lemma stays_armed_entry:
  "(\<And>e. rs_armed_gap (snd (g e)) = rs_armed_gap e \<and> rs_armed_tip (snd (g e)) = rs_armed_tip e) \<Longrightarrow>
   stays (armed sid) (on_entry s g)"
  by (simp add: stays_def on_entry_def armed_def split: prod.splits)
     (metis snd_conv)

lemma stays_armed:
  "stays (armed sid) (reserve_gate_step E s t mx)" "stays (armed sid) (charge_gate_probes s n mx)"
  "stays (armed sid) (base_plan s sig mx)" "stays (armed sid) (already_seen s sig)"
  "stays (armed sid) (reserve_completion_probe s sig mx)"
  "stays (armed sid) (on_entry key (\<lambda>e. ((), e\<lparr>rs_acted_sig := z\<rparr>)))"
  "stays (armed sid) (on_gate op)" "stays (armed sid) (read_control E s)" "stays (armed sid) (spawn_decision E s c)"
  "stays (armed sid) (maybe_cross_review E pid s fam m idle)"
  unfolding reserve_gate_step_def charge_gate_probes_def base_plan_def reserve_completion_probe_def Let_def
  by (auto intro!: stays_armed_entry split: StepPlan.split)
     (auto simp: stays_def armed_def already_seen_def rget_def on_gate_def read_control_def spawn_decision_def rmodify_def
       maybe_cross_review_def rret_def entry_of_def split: prod.splits)

lemma armed_gates: "stays (armed sid) (observe_gate_claude E s mx)" "stays (armed sid) (observe_gate_codex E s mx)"
proof -
  have after: "stays (armed sid) (after_gate_message E s t st)" for t st
    unfolding after_gate_message_def gate_delivered_def
    by (intro stays_rules stays_modify) (simp_all add: armed_def entry_of_def)
  show "stays (armed sid) (observe_gate_claude E s mx)" "stays (armed sid) (observe_gate_codex E s mx)"
    unfolding observe_gate_claude_def observe_gate_codex_def gate_round_def
    by (intro stays_rules stays_armed after)+
qed

lemma armed_ladder: "stays (armed sid) (observe_ladder_only E s st tip lm)"
  unfolding observe_ladder_only_def ladder_report_def Let_def by (intro stays_rules stays_armed)

lemma armed_base: "stays (armed sid) (base_robot E s sig st lm)"
  unfolding base_robot_def Let_def by (auto split: StepPlan.split intro!: stays_rules stays_armed)

lemma armed_gap: "stays (armed sid) (resolve_completion_gap E s sig staged mx)"
  unfolding resolve_completion_gap_def deliver_probe_def Let_def
  by (auto split: CompletionPlan.split delivery.split intro!: stays_rules stays_armed)

text \<open>Every arm comes from the set.\<close>

definition arms_in :: "(string \<times> string) set \<Rightarrow> string option \<times> string option \<Rightarrow> bool" where
  "arms_in A p \<longleftrightarrow> (\<forall>g t. p = (Some g, Some t) \<longrightarrow> (g, t) \<in> A)"

lemma preserves_notice: "preserves I (robot_notice E a d)"
  by (simp add: robot_notice_def preserves_basic)

lemmas preserves_rules = preserves_bind preserves_then preserves_if preserves_option preserves_basic preserves_notice

abbreviation arms :: "(string \<times> string) set \<Rightarrow> string \<Rightarrow> robot_world \<Rightarrow> bool" where
  "arms A sid w \<equiv> arms_in A (armed sid w)"

lemma preserves_clears: "preserves (arms A sid) (mark_seen s sig b)" "preserves (arms A sid) (clear_arm s)"
  by (auto simp: preserves_def arms_in_def armed_def mark_seen_def on_entry_def clear_arm_def rmodify_def entry_of_def
      update_conv' split: option.splits)

lemma preserves_semantic:
  assumes "st \<Longrightarrow> (gap, sig) \<in> A"
  shows "preserves (arms A sid) (semantic_plan sid sig gap st mx)"
  using assms by (auto simp: preserves_def arms_in_def armed_def semantic_plan_def on_entry_def
      split: prod.splits if_splits option.splits)

lemma preserves_plan:
  assumes "is_steer staged \<Longrightarrow> (sa_gap_signature staged, sig) \<in> A"
  shows "preserves (arms A sid) (plan_steer E sid sig staged)"
    and "preserves (arms A sid) (codex_assessed E sid sig staged)"
  unfolding plan_steer_def steer_claude_def codex_assessed_def steer_codex_def
  by (auto split: SmartPlan.split option.split
      intro!: preserves_rules preserves_clears preserves_semantic preserves_stays [OF stays_armed(4)] assms)

lemma preserves_smart:
  assumes "\<And>staged. ro_stage E = Some (Some staged) \<Longrightarrow> is_steer staged \<Longrightarrow> (sa_gap_signature staged, sig) \<in> A"
  shows "preserves (arms A sid) (observe_smart E sid sig idle)"
proof -
  have "preserves (arms A sid) (rmodify (\<lambda>w. if b then w\<lparr>rw_receipts := f w\<rparr> else w))" for b f
    by (rule preserves_stays [of "armed sid"]) (rule stays_modify, simp add: armed_def)
  then show ?thesis unfolding observe_smart_def verified_final_def Let_def
    by (auto split: option.split CompletionDisposition.split
        intro!: preserves_rules preserves_clears preserves_plan(1) preserves_stays [OF armed_gap] assms)
qed

lemma preserves_observations:
  assumes "\<And>staged. ro_stage E = Some (Some staged) \<Longrightarrow> is_steer staged \<Longrightarrow>
    (sa_gap_signature staged, observation_signature E st tip lm) \<in> A"
  shows "preserves (arms A sid) (robot_observe_claude E sid st tip lm)"
  unfolding robot_observe_claude_def Let_def
  by (intro preserves_rules preserves_smart preserves_stays [OF stays_armed(4)] preserves_stays [OF stays_armed(10)]
      preserves_stays [OF armed_gates(1)] preserves_stays [OF armed_base] preserves_stays [OF armed_ladder] assms)

text \<open>No other frame has armed the gap.\<close>

definition not_ready :: "string \<Rightarrow> string \<Rightarrow> string option \<times> string option \<Rightarrow> bool" where
  "not_ready gap sig p \<longleftrightarrow> (\<forall>t. p = (Some gap, Some t) \<longrightarrow> t = sig)"

abbreviation unready :: "string \<Rightarrow> string \<Rightarrow> string \<Rightarrow> robot_world \<Rightarrow> bool" where
  "unready gap sig sid w \<equiv> not_ready gap sig (armed sid w)"

lemma unready_plan:
  assumes "unready gap sig sid w"
  shows "fst (semantic_plan sid sig gap True mx w) \<noteq> SmartAct"
proof -
  have r: "rs_armed_tip (entry_of sid w) = Some t \<Longrightarrow> rs_armed_gap (entry_of sid w) = Some gap \<Longrightarrow> t = sig" for t
    using assms by (simp add: not_ready_def armed_def)
  have f: "fst (on_entry sid f w) = fst (f (entry_of sid w))" for f :: "robot_st \<Rightarrow> 'q \<times> robot_st"
    by (simp add: on_entry_def split: prod.split)
  show ?thesis unfolding semantic_plan_def f
    by (cases "rs_armed_gap (entry_of sid w)"; cases "rs_armed_tip (entry_of sid w)") (auto dest: r)
qed

text \<open>What an observation does when it does not steer.\<close>

definition no_steer :: "robot_effect \<Rightarrow> bool" where
  "no_steer x \<longleftrightarrow> (case x of RecordSteer _ _ \<Rightarrow> False | Prompt _ t _ \<Rightarrow> gate_text t | _ \<Rightarrow> True)"

lemma no_steer_simps [simp]:
  "no_steer (Notify c a d)" "no_steer (Message p t dl)" "no_steer (Provider e)" "no_steer (Ladder cd sn)"
  "no_steer (Unanchored n)" "\<not> no_steer (RecordSteer s g)" "no_steer (Prompt a t dl) \<longleftrightarrow> gate_text t"
  by (simp_all add: no_steer_def)

lemma says_stop:
  assumes "\<And>w. I w \<Longrightarrow> fst (m w) \<noteq> SmartAct" "says P m" "\<And>p. p \<noteq> SmartAct \<Longrightarrow> says P (k p)"
  shows "flow I (rbind m k) P (\<lambda>_. True)"
  unfolding flow_def rbind_parts
proof (intro allI impI conjI TrueI)
  fix w assume "I w"
  from assms(1) [OF this] have "says P (k (fst (m w)))" by (rule assms(3))
  then show "list_all P (fst (snd (m w)) @ fst (snd (k (fst (m w)) (snd (snd (m w))))))"
    using assms(2) by (simp add: says_def)
qed

lemma flow_says: "says P m \<Longrightarrow> flow I m P (\<lambda>_. True)"
  by (simp add: flow_def says_def)

lemma flow_weak: "flow I m P J \<Longrightarrow> flow I m P (\<lambda>_. True)"
  by (simp add: flow_def)

lemma unsteered:
  assumes "is_steer staged"
  shows "flow (unready (sa_gap_signature staged) sig sid) (plan_steer E sid sig staged) no_steer (\<lambda>_. True)"
    and "flow (unready (sa_gap_signature staged) sig sid) (codex_assessed E sid sig staged) no_steer (\<lambda>_. True)"
proof -
  have a: "sa_action staged \<noteq> PObserve" "sa_action staged \<noteq> Escalate" using assms by (auto simp: is_steer_def)
  have stop: "flow (unready (sa_gap_signature staged) sig sid)
      (rbind (semantic_plan sid sig (sa_gap_signature staged) True mx) k) no_steer (\<lambda>_. True)"
    if "\<And>p. p \<noteq> SmartAct \<Longrightarrow> says no_steer (k p)" for k :: "SmartPlan \<Rightarrow> 'z robot_op" and mx
    by (rule says_stop [OF _ _ that]) (rule unready_plan, assumption, rule says_entry_ops)
  show "flow (unready (sa_gap_signature staged) sig sid) (plan_steer E sid sig staged) no_steer (\<lambda>_. True)"
    unfolding plan_steer_def using a assms
    by (auto intro!: stop flow_says [OF says_basic(1)] intro: says_rules)
  show "flow (unready (sa_gap_signature staged) sig sid) (codex_assessed E sid sig staged) no_steer (\<lambda>_. True)"
    unfolding codex_assessed_def using a assms
    by (auto intro!: stop flow_says [OF says_entry_ops(3)] says_basic says_entry_ops says_notice split: SmartPlan.split)
qed

lemma no_steer_gates: "says no_steer (observe_gate_claude E sid mx)" "says no_steer (observe_gate_codex E sid mx)"
  unfolding observe_gate_claude_def observe_gate_codex_def after_gate_message_def
  by (intro says_gate_round says_rules says_notice; simp)+

lemma unsteered_claude:
  assumes "ro_stage E = Some (Some staged)" "is_steer staged"
  shows "flow (unready (sa_gap_signature staged) (observation_signature E st tip lm) sid)
    (robot_observe_claude E sid st tip lm) no_steer (\<lambda>_. True)"
proof -
  let ?sig = "observation_signature E st tip lm"
  let ?I = "unready (sa_gap_signature staged) ?sig sid"
  have smart: "flow ?I (observe_smart E sid ?sig idle) no_steer (\<lambda>_. True)" for idle
    unfolding observe_smart_def assms(1) verified_final_def resolve_completion_gap_def deliver_probe_def Let_def
    by (auto split: CompletionDisposition.split intro!: unsteered(1) [OF assms(2)] flow_says says_rules says_notice)
  have base: "says no_steer (base_robot E sid ?sig st lm)"
    unfolding base_robot_def Let_def by (auto intro!: says_rules says_notice)
  have ladder: "says no_steer (observe_ladder_only E sid st tip lm)"
    unfolding observe_ladder_only_def ladder_report_def Let_def by (intro says_rules; simp)
  have rest: "flow ?I (rbind (if b then observe_smart E sid ?sig idle else rret False)
      (\<lambda>steered. if steered then rret () else base_robot E sid ?sig st lm)) no_steer (\<lambda>_. True)" for b idle
    by (rule flow_bind [where J = "\<lambda>_. True"])
       (auto intro!: flow_if smart flow_weak [OF flow_ret] flow_says says_rules base)
  show ?thesis unfolding robot_observe_claude_def Let_def
    by (intro flow_if rest flow_says [OF says_basic(1)] flow_says [OF says_then [OF ladder says_review]]
        flow_then [OF flow_stays [OF says_review stays_armed(10)]]
        flow_bind [where J = ?I] flow_stays [OF no_steer_gates(1) armed_gates(1)]
        flow_stays [OF says_entry_ops(1) stays_armed(4)] flow_ret)
qed

lemma unsteered_codex:
  assumes "ro_stage E = Some (Some staged)" "is_steer staged"
  shows "flow (unready (sa_gap_signature staged) (observation_signature E ClIdle None lm) sid)
    (robot_observe_codex E sid cst lm) no_steer (\<lambda>_. True)"
proof -
  let ?sig = "observation_signature E ClIdle None lm"
  let ?I = "unready (sa_gap_signature staged) ?sig sid"
  have review: "flow ?I (if b then maybe_cross_review E None sid CodexFamily m idle else rret ()) no_steer ?I" for b m idle
    by (intro flow_if flow_stays [OF says_review stays_armed(10)] flow_ret)
  have gate: "flow ?I (if b then observe_gate_codex E sid mx else rret False) no_steer ?I" for b mx
    by (intro flow_if flow_stays [OF no_steer_gates(2) armed_gates(2)] flow_ret)
  have assessed: "flow ?I (case ro_stage E of Some (Some staged) \<Rightarrow> codex_assessed E sid ?sig staged | _ \<Rightarrow> clear_arm sid)
      no_steer (\<lambda>_. True)"
    unfolding assms(1) using unsteered(2) [OF assms(2), of ?sig sid E] by simp
  show ?thesis unfolding robot_observe_codex_def Let_def
    by (intro flow_then [OF review] flow_if flow_bind [OF gate] flow_says [OF says_basic(1)] assessed
        flow_bind [OF flow_stays [OF says_entry_ops(1) stays_armed(4)]])
qed

text \<open>An arm of a run comes from an observation of it.\<close>

definition armed_by :: "string \<Rightarrow> robot_event \<Rightarrow> (string \<times> string) set" where
  "armed_by sid ev =
     (case ev of
        SeeClaude E s st tip lm \<Rightarrow>
          (case ro_stage E of
             Some (Some staged) \<Rightarrow>
               if s = sid \<and> is_steer staged then {(sa_gap_signature staged, observation_signature E st tip lm)} else {}
           | _ \<Rightarrow> {})
      | _ \<Rightarrow> {})"

lemma preserves_weak: "preserves I m \<Longrightarrow> I w \<Longrightarrow> I (snd (snd (m w)))"
  by (simp add: preserves_def)

lemma arms_mono: "A \<subseteq> B \<Longrightarrow> arms_in A p \<Longrightarrow> arms_in B p"
  by (auto simp: arms_in_def)

lemma arms_less: "arms A sid (w\<lparr>rw_decisions := ds\<rparr>) = arms A sid w" "arms A sid (w\<lparr>rw_reviewing := rs\<rparr>) = arms A sid w"
  by (simp_all add: armed_def)

text \<open>An observation of Codex arms and disarms at once.\<close>

lemma codex_never_arms: "preserves (arms A sid) (robot_observe_codex E sid cst lm)"
proof -
  let ?sig = "observation_signature E ClIdle None lm"
  have seen: "arms A sid (snd (snd (mark_seen sid sig b w)))" for sig b w
    by (auto simp: arms_in_def armed_def mark_seen_def on_entry_def)
  have plan: "preserves (arms A sid) (rbind (semantic_plan sid sig g st mx) k)"
    if "\<And>w. arms A sid (snd (snd (k Arm w)))" "\<And>p. p \<noteq> Arm \<Longrightarrow> preserves (arms A sid) (k p)"
    for k :: "SmartPlan \<Rightarrow> unit robot_op" and sig g st mx
    unfolding preserves_def rbind_parts
  proof (intro allI impI)
    fix w assume a: "arms A sid w"
    let ?r = "semantic_plan sid sig g st mx w"
    show "arms A sid (snd (snd (k (fst ?r) (snd (snd ?r)))))"
    proof (cases "fst ?r = Arm")
      case True
      then show ?thesis using that(1) by simp
    next
      case False
      then have "arms A sid (snd (snd ?r))" using a
        by (auto simp: arms_in_def armed_def semantic_plan_def on_entry_def split: prod.splits if_splits option.splits)
      with that(2) [OF False] show ?thesis by (simp add: preserves_def)
    qed
  qed
  have assessed: "preserves (arms A sid) (codex_assessed E sid ?sig staged)" for staged
    unfolding codex_assessed_def steer_codex_def
    by (auto split: SmartPlan.split option.split intro!: plan preserves_then preserves_if preserves_basic preserves_notice preserves_clears seen)
  show ?thesis unfolding robot_observe_codex_def Let_def
    by (intro preserves_rules preserves_stays [OF stays_armed(4)] preserves_stays [OF stays_armed(10)]
        preserves_stays [OF armed_gates(2)] preserves_clears assessed)
qed

lemma arms_step:
  assumes "arms A sid w" "armed_by sid ev \<subseteq> A"
  shows "arms A sid (robot_step ev w)"
proof (cases ev)
  case (SeeClaude E s st tip lm)
  show ?thesis
  proof (cases "s = sid")
    case True
    have "(sa_gap_signature staged, observation_signature E st tip lm) \<in> A"
      if "ro_stage E = Some (Some staged)" "is_steer staged" for staged
      using assms(2) that SeeClaude True by (simp add: armed_by_def)
    from preserves_weak [OF preserves_observations [OF this], of sid w] assms(1) show ?thesis
      by (simp add: SeeClaude True robot_step_def robot_op_of_def)
  next
    case False
    with stays_observations(1) [OF False, of E st tip lm] assms(1) show ?thesis
      by (simp add: SeeClaude robot_step_def robot_op_of_def stays_def account_def)
  qed
next
  case (SeeCodex E s st lm)
  show ?thesis
  proof (cases "s = sid")
    case True
    with preserves_weak [OF codex_never_arms, of A sid w E st lm] assms(1) show ?thesis
      by (simp add: SeeCodex robot_step_def robot_op_of_def)
  next
    case False
    with stays_observations(2) [OF False, of E st lm] assms(1) show ?thesis
      by (simp add: SeeCodex robot_step_def robot_op_of_def stays_def account_def)
  qed
next
  case (Decide i V)
  with stays_tasks(1) [of sid V "rw_decisions w ! i"] assms(1) show ?thesis
    by (simp add: robot_step_def robot_op_of_def stays_def account_def arms_less)
next
  case (ReviewNow i V)
  with stays_tasks(2) [of sid V "rw_reviewing w ! i"] assms(1) show ?thesis
    by (simp add: robot_step_def robot_op_of_def stays_def account_def arms_less)
next
  case Restart
  then show ?thesis by (simp add: robot_step_def robot_op_of_def restart_def armed_def entry_of_def arms_in_def robot_st_default_def)
qed

lemma arms_run:
  assumes "rw_state w = []"
  shows "arms (\<Union> (set (map (armed_by sid) evs))) sid (fold robot_step evs w)"
proof (induction evs rule: rev_induct)
  case Nil
  then show ?case using assms by (simp add: armed_def entry_of_def arms_in_def robot_st_default_def)
next
  case (snoc ev evs)
  have "arms (\<Union> (set (map (armed_by sid) (evs @ [ev])))) sid (fold robot_step evs w)"
    by (rule arms_mono [OF _ snoc]) auto
  from arms_step [OF this, of ev] show ?case by simp
qed

text \<open>
  C16. A steer is confirmed: the compass steers a Claude session only when, since the last start of the
  agent, another observation of that session with a different signature had been assessed with the same
  gap, and as one to steer too.
\<close>

theorem steer_needs_two_frames:
  assumes "rw_state w = []" and "ro_stage E = Some (Some staged)" and "is_steer staged"
    and "RecordSteer s g \<in> set (robot_effects (SeeClaude E sid st tip lm) (fold robot_step evs w))"
  shows "\<exists>E' st' tip' lm' staged'.
    SeeClaude E' sid st' tip' lm' \<in> set evs \<and> ro_stage E' = Some (Some staged') \<and> is_steer staged' \<and>
    sa_gap_signature staged' = sa_gap_signature staged \<and>
    observation_signature E' st' tip' lm' \<noteq> observation_signature E st tip lm"
proof -
  let ?w = "fold robot_step evs w" and ?sig = "observation_signature E st tip lm"
  have "\<not> unready (sa_gap_signature staged) ?sig sid ?w"
    using unsteered_claude [OF assms(2,3), of st tip lm sid] assms(4)
    unfolding flow_def robot_effects_def robot_op_of_def list_all_iff robot_event.case
    by (metis no_steer_simps(6))
  then obtain t where t: "armed sid ?w = (Some (sa_gap_signature staged), Some t)" "t \<noteq> ?sig"
    by (auto simp: not_ready_def)
  obtain ev where "ev \<in> set evs" "(sa_gap_signature staged, t) \<in> armed_by sid ev"
    using arms_run [OF assms(1), of sid evs] t(1) by (auto simp: arms_in_def)
  then obtain E' st' tip' lm' staged' where "ev = SeeClaude E' sid st' tip' lm'" "ro_stage E' = Some (Some staged')"
    "is_steer staged'" "sa_gap_signature staged' = sa_gap_signature staged" "t = observation_signature E' st' tip' lm'"
    by (auto simp: armed_by_def split: robot_event.splits option.splits if_splits)
  with \<open>ev \<in> set evs\<close> t(2) show ?thesis by metis
qed

text \<open>
  The compass never steers Codex: its observation arms the gap and, by noting the observation as
  seen, disarms it again. In any run in which a session is observed only as Codex, an observation that
  the compass wants to steer records no steer, and sends no prompt but a directive of the gate.
\<close>

theorem codex_is_never_steered:
  assumes "rw_state w = []"
    and "list_all (\<lambda>ev. case ev of SeeClaude _ s _ _ _ \<Rightarrow> s \<noteq> sid | _ \<Rightarrow> True) evs"
    and "ro_stage E = Some (Some staged)" and "is_steer staged"
  shows "list_all (\<lambda>x. case x of RecordSteer _ _ \<Rightarrow> False | Prompt _ t _ \<Rightarrow> gate_text t | _ \<Rightarrow> True)
    (robot_effects (SeeCodex E sid st lm) (fold robot_step evs w))"
proof -
  have none: "\<Union> (set (map (armed_by sid) evs)) = {}"
    using assms(2) by (force simp: armed_by_def list_all_iff split: robot_event.splits option.splits)
  have "unready g sig sid (fold robot_step evs w)" for g sig
    using arms_run [OF assms(1), of sid evs] unfolding none by (simp add: arms_in_def not_ready_def)
  then show ?thesis
    using unsteered_codex [OF assms(3,4), of lm sid st]
    by (simp add: flow_def robot_effects_def robot_op_of_def no_steer_def [abs_def])
qed

section \<open>What verified final means\<close>

definition quiet :: "robot_effect \<Rightarrow> bool" where
  "quiet x \<longleftrightarrow> (case x of Notify _ a _ \<Rightarrow> a \<noteq> ''robot_verified_final'' | _ \<Rightarrow> True)"

lemma quiet_simps [simp]:
  "quiet (Notify c a d) \<longleftrightarrow> a \<noteq> ''robot_verified_final''" "quiet (Message p t dl)" "quiet (Prompt x t dl)"
  "quiet (RecordSteer s g)" "quiet (Provider e)" "quiet (Ladder cd sn)" "quiet (Unanchored n)"
  by (simp_all add: quiet_def)

lemma quiet_notice: "a \<noteq> ''robot_verified_final'' \<Longrightarrow> says quiet (robot_notice E a d)"
  "says quiet (completion_notice E d)"
  by (simp_all add: robot_notice_def completion_notice_def says_emit)

lemma quiet_gate: "says quiet (observe_gate_claude E sid mx)"
  unfolding observe_gate_claude_def gate_round_def after_gate_message_def
  by (intro says_rules quiet_notice; simp)

lemma quiet_smart:
  assumes "\<And>staged. idle \<Longrightarrow> ro_stage E = Some (Some staged) \<Longrightarrow> completion_disposition (sa_completion staged) \<noteq> DispVerified"
  shows "says quiet (observe_smart E sid sig idle)"
proof -
  have plan: "says quiet (plan_steer E sid sig staged)" for staged
    unfolding plan_steer_def steer_claude_def by (intro says_rules quiet_notice; simp)
  have gap: "says quiet (resolve_completion_gap E sid sig staged mx)" for staged mx
    unfolding resolve_completion_gap_def deliver_probe_def Let_def by (intro says_rules quiet_notice; simp)
  show ?thesis unfolding observe_smart_def
    using assms by (auto split: option.split CompletionDisposition.split intro!: says_rules plan gap)
qed

lemma quiet_claude:
  assumes "\<And>staged. resolve (ro_config E) (Some sid) (nc_alias (ro_ctx E)) (ro_now E) = Robot \<Longrightarrow> st = ClIdle \<Longrightarrow>
    ro_stage E = Some (Some staged) \<Longrightarrow> completion_disposition (sa_completion staged) \<noteq> DispVerified"
  shows "says quiet (robot_observe_claude E sid st tip lm)"
proof -
  have ladder: "says quiet (observe_ladder_only E sid st tip lm)"
    unfolding observe_ladder_only_def ladder_report_def Let_def by (intro says_rules; simp)
  have base: "says quiet (base_robot E sid sig st lm)" for sig
    unfolding base_robot_def Let_def by (intro says_rules quiet_notice; simp)
  show ?thesis unfolding robot_observe_claude_def Let_def
    by (intro says_rules ladder base quiet_gate quiet_smart) (use assms in auto)
qed

lemma fully_verified:
  fixes T from_str steps semantic inp seeds
  defines "b \<equiv> build_ledger_core T from_str steps semantic inp seeds"
  assumes "completion_disposition (snapshot_of b) = DispVerified"
  shows "lg_obligations b \<noteq> [] \<and> list_all (\<lambda>o'. ob_state o' = ObVerified) (lg_obligations b)"
proof -
  note counts = built_counts [of T from_str steps semantic inp seeds, folded b_def]
  have "0 < cs_active (snapshot_of b)" "cs_verified (snapshot_of b) = cs_active (snapshot_of b)"
    using assms(2) by (auto simp: completion_disposition_def Let_def split: if_splits)
  then have n: "0 < length (lg_obligations b)"
    and v: "length (filter (\<lambda>o'. ob_state o' = ObVerified) (lg_obligations b)) = length (lg_obligations b)"
    using counts by (simp_all add: snapshot_of_def Let_def state_count_def)
  have "list_all (\<lambda>o'. ob_state o' = ObVerified) (lg_obligations b)"
    using v length_filter_less by (metis (no_types, lifting) list_all_iff less_irrefl)
  with n show ?thesis by auto
qed

text \<open>
  C10. Verified final means verified: when an observation reports a session as finally verified, the
  session is idle and in Robot mode, and in the ledger the assessment rests on, whatever its transcript,
  labels and seeds, there is an obligation, and every obligation is verified by fresh evidence that is
  inherited or the successful result of an inspection, search or execution, with no fresh failure
  against it.
\<close>

theorem verified_final_is_proved:
  assumes "Notify c ''robot_verified_final'' d \<in> set (robot_effects (SeeClaude E sid st tip lm) w)"
    and "ro_stage E = Some (Some staged)"
    and "sa_completion staged = snapshot_of (build_ledger_core T from_str steps semantic inp seeds)"
  shows "resolve (ro_config E) (Some sid) (nc_alias (ro_ctx E)) (ro_now E) = Robot \<and> st = ClIdle \<and>
    lg_obligations (build_ledger_core T from_str steps semantic inp seeds) \<noteq> [] \<and>
    list_all (\<lambda>o'. ob_state o' = ObVerified \<and>
        list_ex (\<lambda>e. ev_fresh e \<and> proven_by o' e \<and> grounded steps seeds e)
          (lg_evidence (build_ledger_core T from_str steps semantic inp seeds)) \<and>
        \<not> list_ex (refuted_by o') (lg_evidence (build_ledger_core T from_str steps semantic inp seeds)))
      (lg_obligations (build_ledger_core T from_str steps semantic inp seeds))"
proof -
  let ?b = "build_ledger_core T from_str steps semantic inp seeds"
  have "Notify c ''robot_verified_final'' d \<in> set (fst (snd (robot_observe_claude E sid st tip lm w)))"
    using assms(1) by (simp add: robot_effects_def robot_op_of_def)
  then have "\<not> list_all quiet (fst (snd (robot_observe_claude E sid st tip lm w)))"
    unfolding list_all_iff by (metis quiet_simps(1))
  then have "\<not> says quiet (robot_observe_claude E sid st tip lm)" unfolding says_def by blast
  then have m: "resolve (ro_config E) (Some sid) (nc_alias (ro_ctx E)) (ro_now E) = Robot" "st = ClIdle"
    and v: "completion_disposition (snapshot_of ?b) = DispVerified"
    using quiet_claude [of E sid st tip lm] assms(2,3) by (metis option.inject)+
  have all: "lg_obligations ?b \<noteq> []" "\<And>o'. o' \<in> set (lg_obligations ?b) \<Longrightarrow> ob_state o' = ObVerified"
    using fully_verified [OF v] by (auto simp: list_all_iff)
  have "list_ex (\<lambda>e. ev_fresh e \<and> proven_by o' e \<and> grounded steps seeds e) (lg_evidence ?b) \<and>
      \<not> list_ex (refuted_by o') (lg_evidence ?b)" if "o' \<in> set (lg_obligations ?b)" for o'
    using verified_evidence [OF that all(2) [OF that]] by (auto simp: list_ex_iff)
  with m all show ?thesis unfolding list_all_iff by simp
qed

section \<open>A short session\<close>

definition demo_world :: robot_world where
  "demo_world =
     \<lparr>rw_state = [], rw_pool = pool_new, rw_decisions = [], rw_reviewing = [], rw_marks = [], rw_receipts = [],
      rw_gate = world_empty\<rparr>"

definition demo_snapshot :: "nat \<Rightarrow> completion_snapshot" where
  "demo_snapshot n =
     \<lparr>cs_active = n, cs_open = 0, cs_claimed_unverified = n, cs_verified = 0, cs_contradicted = 0, cs_disputed = 0,
      cs_stale = 0, cs_layer_mismatches = 0, cs_coverage = 0, cs_completion_scope_gap = False,
      cs_proof_deficit = False, cs_current_claimed_complete = True\<rparr>"

definition demo_staged :: "completion_snapshot \<Rightarrow> staged_assessment" where
  "demo_staged s =
     \<lparr>sa_action = MicroSteer, sa_proof_request = Some ''prove it'', sa_directive = Some ''go on'',
      sa_gap_signature = ''g'', sa_explanation = [], sa_semantic_calibrated = True,
      sa_deterministic_feedback = False, sa_obligation_id = None, sa_completion = s\<rparr>"

definition demo_robot_config :: "Mode \<Rightarrow> automation_config" where
  "demo_robot_config m =
     (automation_default True)\<lparr>ac_default := m,
       ac_smart := (smart_default True)\<lparr>sm_enabled := True, sm_steer := True\<rparr>\<rparr>"

text \<open>The frame number \<open>n\<close> of a session that can be reached.\<close>

definition demo_frame :: "Mode \<Rightarrow> completion_snapshot \<Rightarrow> nat \<Rightarrow> robot_env" where
  "demo_frame m s n =
     \<lparr>ro_config = demo_robot_config m, ro_now = 0, ro_ctx = oe_ctx demo_observe, ro_lower = to_ascii_lowercase,
      ro_hex = id, ro_pid = Some 1, ro_path = ''/t'', ro_file = Some (n, 0), ro_tail = [],
      ro_stage = Some (Some (demo_staged s)), ro_home = False, ro_written = True, ro_order = id,
      ro_gate = demo_gate_env, ro_gate_read = True, ro_available = None, ro_tapped = Some 1,
      ro_claude = (\<lambda>_. Some ClIdle), ro_codex = Some CxIdle, ro_delivery = Sent, ro_text = demo_text,
      ro_wire = (\<lambda>_. None), ro_steps = None\<rparr>"

definition demo_see :: "completion_snapshot \<Rightarrow> nat \<Rightarrow> robot_event" where
  "demo_see s n = SeeClaude (demo_frame Robot s n) ''s'' ClIdle None []"

lemma demo_steer:
  "list_ex (\<lambda>x. case x of RecordSteer s g \<Rightarrow> s = ''s'' \<and> g = ''g'' | _ \<Rightarrow> False)
     (robot_effects (demo_see (demo_snapshot 0) 1) (fold robot_step [demo_see (demo_snapshot 0) 0] demo_world))"
  by code_simp

lemma demo_probes_sent:
  "sent_to ''s'' (map (demo_see (demo_snapshot 1)) [0, 1, 2, 3, 4]) demo_world = 3"
  by code_simp

lemma demo_counts:
  "snapshot_of (demo_ledger demo_passed) =
     \<lparr>cs_active = 1, cs_open = 0, cs_claimed_unverified = 0, cs_verified = 1, cs_contradicted = 0, cs_disputed = 0,
      cs_stale = 0, cs_layer_mismatches = 0, cs_coverage = 1, cs_completion_scope_gap = False,
      cs_proof_deficit = False, cs_current_claimed_complete = False\<rparr>"
  by code_simp

lemma demo_disposition: "completion_disposition (snapshot_of (demo_ledger demo_passed)) = DispVerified"
  using f32_round_le_one [of "999 / 1000"] by (simp add: demo_counts completion_disposition_def unresolved_def)

lemma demo_mode: "resolve (demo_robot_config Robot) (Some ''s'') a 0 = Robot"
  by (simp add: resolve_def demo_robot_config_def automation_default_def opt_filter_def)

lemma demo_verified:
  "list_ex (\<lambda>x. case x of Notify c a d \<Rightarrow> a = ''robot_verified_final'' | _ \<Rightarrow> False)
     (robot_effects (demo_see (snapshot_of (demo_ledger demo_passed)) 0) demo_world)"
proof -
  define s where "s = snapshot_of (demo_ledger demo_passed)"
  have d: "completion_disposition s = DispVerified" unfolding s_def by (rule demo_disposition)
  have c: "sm_enabled (ac_smart (demo_robot_config Robot))" "\<not> sm_gate (ac_smart (demo_robot_config Robot))"
    by (simp_all add: demo_robot_config_def smart_default_def)
  show ?thesis unfolding s_def [symmetric]
    by (simp add: Let_def demo_see_def robot_effects_def robot_op_of_def robot_observe_claude_def demo_frame_def demo_mode
        demo_staged_def is_actionable_def observe_smart_def verified_final_def robot_notice_def d c
        rthen_def rbind_parts rret_def rget_def remit_def already_seen_def demo_world_def maybe_cross_review_def
        rmodify_def terminal_receipt_seen_def mark_seen_def on_entry_def)
qed

lemma demo_codex:
  "length (robot_effects (SeeCodex (demo_frame Robot (demo_snapshot 0) 1) ''s'' CxIdle [])
    (robot_step (SeeCodex (demo_frame Robot (demo_snapshot 0) 0) ''s'' CxIdle []) demo_world)) = 0"
  by code_simp

lemma effect_cases:
  "(case x of RecordSteer s g \<Rightarrow> P s g | _ \<Rightarrow> False) \<longleftrightarrow> (\<exists>s g. x = RecordSteer s g \<and> P s g)"
  "(case x of Notify c a d \<Rightarrow> Q c a d | _ \<Rightarrow> False) \<longleftrightarrow> (\<exists>c a d. x = Notify c a d \<and> Q c a d)"
  by (cases x; simp)+

lemma demo_codex_steers: "is_steer (demo_staged s)"
  by (simp add: is_steer_def demo_staged_def)

lemma demo_lower: "ascii_lowers to_ascii_lowercase"
  by (simp add: ascii_lowers_def)

lemma demo_stage: "ro_stage (demo_frame m s n) = Some (Some (demo_staged s))"
  by (simp add: demo_frame_def)

theorem messages_are_guarded_witness:
  "list_all (\<lambda>x. case message_text x of None \<Rightarrow> True | Some t \<Rightarrow> steer_is_safe to_ascii_lowercase t)
     (robot_effects (demo_see (demo_snapshot 0) 1) (robot_step (demo_see (demo_snapshot 0) 0) demo_world))"
  by (rule messages_are_guarded [OF _ demo_lower]) (simp add: demo_see_def demo_frame_def)


theorem only_robot_mode_drives_witness:
  "texts_to ''s'' [SeeClaude (demo_frame Auto (demo_snapshot 0) 0) ''s'' ClIdle None [],
     SeeClaude (demo_frame Manual (demo_snapshot 0) 1) ''s'' ClIdle None [], Restart] demo_world = []"
  by (rule only_robot_mode_drives)
     (simp_all add: demo_frame_def demo_world_def resolve_def demo_robot_config_def automation_default_def opt_filter_def)

theorem steer_needs_two_frames_witness:
  "\<exists>E st tip lm. SeeClaude E ''s'' st tip lm \<in> set [demo_see (demo_snapshot 0) 0] \<and>
     observation_signature E st tip lm \<noteq> observation_signature (demo_frame Robot (demo_snapshot 0) 1) ClIdle None []"
proof -
  have w: "rw_state demo_world = []" by (simp add: demo_world_def)
  have "RecordSteer ''s'' ''g'' \<in> set (robot_effects (SeeClaude (demo_frame Robot (demo_snapshot 0) 1) ''s'' ClIdle None [])
      (fold robot_step [demo_see (demo_snapshot 0) 0] demo_world))"
    using demo_steer unfolding list_ex_iff demo_see_def [of _ 1] effect_cases by blast
  from steer_needs_two_frames [OF w demo_stage demo_codex_steers this] show ?thesis by blast
qed

theorem codex_is_never_steered_witness:
  "list_all (\<lambda>x. case x of RecordSteer _ _ \<Rightarrow> False | Prompt _ t _ \<Rightarrow> gate_text t | _ \<Rightarrow> True)
     (robot_effects (SeeCodex (demo_frame Robot (demo_snapshot 0) 1) ''s'' CxIdle [])
       (fold robot_step [SeeCodex (demo_frame Robot (demo_snapshot 0) 0) ''s'' CxIdle []] demo_world))"
  by (rule codex_is_never_steered [OF _ _ demo_stage demo_codex_steers]) (simp_all add: demo_world_def)

theorem verified_final_is_proved_witness:
  "\<exists>o' e. o' \<in> set (lg_obligations (demo_ledger demo_passed)) \<and> ob_state o' = ObVerified \<and>
     e \<in> set (lg_evidence (demo_ledger demo_passed)) \<and> ev_fresh e \<and> grounded demo_passed [] e"
proof -
  let ?E = "demo_frame Robot (snapshot_of (demo_ledger demo_passed)) 0"
  obtain c d where "Notify c ''robot_verified_final'' d \<in>
      set (robot_effects (SeeClaude ?E ''s'' ClIdle None []) demo_world)"
    using demo_verified unfolding list_ex_iff demo_see_def effect_cases by blast
  from verified_final_is_proved [OF this demo_stage, of demo_text "\<lambda>_. None" demo_passed "[demo_facts]" demo_input "[]"]
  have "lg_obligations (demo_ledger demo_passed) \<noteq> []"
    "list_all (\<lambda>o'. ob_state o' = ObVerified \<and>
        list_ex (\<lambda>e. ev_fresh e \<and> proven_by o' e \<and> grounded demo_passed [] e) (lg_evidence (demo_ledger demo_passed)) \<and>
        \<not> list_ex (refuted_by o') (lg_evidence (demo_ledger demo_passed)))
      (lg_obligations (demo_ledger demo_passed))"
    unfolding demo_ledger_def by (simp_all add: demo_staged_def)
  then show ?thesis
    by (cases "lg_obligations (demo_ledger demo_passed)") (auto simp: list_ex_iff)
qed

end
