(* ===== verification/Menus.thy ===== *)
theory Menus
  imports Tracker Question Review Ledger_Base
begin

text \<open>
  What the operator sees and what a press or a reply means: the views, pickers and parsers of
  \<open>relay-agent/src/main.rs\<close>. A view is a text with the rows of its keyboard. Transcripts and the
  sessions that can be reached are arguments.
\<close>

section \<open>Signs\<close>

definition g_nl :: string where "g_nl = [CHR 0x0A]"
definition g_quote :: string where "g_quote = [CHR 0x27]"
definition g_screen :: string where "g_screen = [CHR 0xF0, CHR 0x9F, CHR 0x96, CHR 0xA5]"
definition g_dot :: string where "g_dot = [CHR 0xC2, CHR 0xB7]"
definition g_talk :: string where "g_talk = [CHR 0xF0, CHR 0x9F, CHR 0x92, CHR 0xAC]"
definition g_robot :: string where "g_robot = [CHR 0xF0, CHR 0x9F, CHR 0xA4, CHR 0x96]"
definition g_again :: string where "g_again = [CHR 0xF0, CHR 0x9F, CHR 0x94, CHR 0x84]"
definition g_left :: string where "g_left = [CHR 0xE2, CHR 0xAC, CHR 0x85, CHR 0xEF, CHR 0xB8, CHR 0x8F]"
definition g_folder :: string where "g_folder = [CHR 0xF0, CHR 0x9F, CHR 0x93, CHR 0x81]"
definition g_branch :: string where "g_branch = [CHR 0xE2, CHR 0x8C, CHR 0xA5]"
definition g_down :: string where "g_down = [CHR 0xF0, CHR 0x9F, CHR 0x91, CHR 0x87]"
definition g_star :: string where "g_star = [CHR 0xE2, CHR 0xAD, CHR 0x90]"
definition g_brain :: string where "g_brain = [CHR 0xF0, CHR 0x9F, CHR 0xA7, CHR 0xA0]"
definition g_eye :: string where "g_eye = [CHR 0xF0, CHR 0x9F, CHR 0x91, CHR 0x81]"
definition g_id :: string where "g_id = [CHR 0xF0, CHR 0x9F, CHR 0x86, CHR 0x94]"
definition g_green :: string where "g_green = [CHR 0xF0, CHR 0x9F, CHR 0x9F, CHR 0xA2]"
definition g_white :: string where "g_white = [CHR 0xE2, CHR 0x9A, CHR 0xAA, CHR 0xEF, CHR 0xB8, CHR 0x8F]"
definition g_write :: string where "g_write = [CHR 0xE2, CHR 0x9C, CHR 0x8D, CHR 0xEF, CHR 0xB8, CHR 0x8F]"
definition g_play :: string where "g_play = [CHR 0xE2, CHR 0x96, CHR 0xB6, CHR 0xEF, CHR 0xB8, CHR 0x8F]"
definition g_halt :: string where "g_halt = [CHR 0xE2, CHR 0x8F, CHR 0xB9]"
definition g_bolt :: string where "g_bolt = [CHR 0xE2, CHR 0x9A, CHR 0xA1]"
definition g_mix :: string where "g_mix = [CHR 0xF0, CHR 0x9F, CHR 0x94, CHR 0x80]"
definition g_page :: string where "g_page = [CHR 0xF0, CHR 0x9F, CHR 0x93, CHR 0x84]"
definition g_lens :: string where "g_lens = [CHR 0xF0, CHR 0x9F, CHR 0x94, CHR 0x8D]"
definition g_box :: string where "g_box = [CHR 0xF0, CHR 0x9F, CHR 0x93, CHR 0xA6]"
definition g_hand :: string where "g_hand = [CHR 0xF0, CHR 0x9F, CHR 0x96, CHR 0x90]"
definition g_gear :: string where "g_gear = [CHR 0xE2, CHR 0x9A, CHR 0x99, CHR 0xEF, CHR 0xB8, CHR 0x8F]"
definition g_bullet :: string where "g_bullet = [CHR 0xE2, CHR 0x80, CHR 0xA2]"
definition g_compass :: string where "g_compass = [CHR 0xF0, CHR 0x9F, CHR 0xA7, CHR 0xAD]"
definition g_to :: string where "g_to = [CHR 0xE2, CHR 0x86, CHR 0x92]"
definition g_on :: string where "g_on = [CHR 0xE2, CHR 0x97, CHR 0x8F]"
definition g_car :: string where "g_car = [CHR 0xF0, CHR 0x9F, CHR 0x9A, CHR 0x97]"
definition g_dish :: string where "g_dish = [CHR 0xF0, CHR 0x9F, CHR 0x93, CHR 0xA1]"
definition g_mute :: string where "g_mute = [CHR 0xF0, CHR 0x9F, CHR 0x94, CHR 0x87]"
definition g_shield :: string where "g_shield = [CHR 0xF0, CHR 0x9F, CHR 0x9B, CHR 0xA1]"
definition g_blank :: string where "g_blank = [CHR 0xE2, CHR 0x96, CHR 0xAB, CHR 0xEF, CHR 0xB8, CHR 0x8F]"
definition g_scope :: string where "g_scope = [CHR 0xF0, CHR 0x9F, CHR 0x94, CHR 0xAC]"
definition g_clock :: string where "g_clock = [CHR 0xE2, CHR 0x8F, CHR 0xB1]"
definition g_people :: string where "g_people = [CHR 0xF0, CHR 0x9F, CHR 0x91, CHR 0xA5]"
definition g_plug :: string where "g_plug = [CHR 0xF0, CHR 0x9F, CHR 0x94, CHR 0x8C]"
definition g_book :: string where "g_book = [CHR 0xF0, CHR 0x9F, CHR 0x93, CHR 0x96]"
definition g_red :: string where "g_red = [CHR 0xF0, CHR 0x9F, CHR 0x94, CHR 0xB4]"
definition g_yellow :: string where "g_yellow = [CHR 0xF0, CHR 0x9F, CHR 0x9F, CHR 0xA1]"
definition g_orange :: string where "g_orange = [CHR 0xF0, CHR 0x9F, CHR 0x9F, CHR 0xA0]"
definition g_warn :: string where "g_warn = [CHR 0xE2, CHR 0x9A, CHR 0xA0, CHR 0xEF, CHR 0xB8, CHR 0x8F]"
definition g_swirl :: string where "g_swirl = [CHR 0xF0, CHR 0x9F, CHR 0x8C, CHR 0x80]"
definition g_human :: string where "g_human = [CHR 0xF0, CHR 0x9F, CHR 0xA7, CHR 0x91]"
definition g_tool :: string where "g_tool = [CHR 0xF0, CHR 0x9F, CHR 0x94, CHR 0xA7]"
definition g_pin :: string where "g_pin = [CHR 0xF0, CHR 0x9F, CHR 0x93, CHR 0x8C]"
definition g_under :: string where "g_under = [CHR 0xE2, CHR 0x86, CHR 0xB3]"
definition g_ticked :: string where "g_ticked = [CHR 0xE2, CHR 0x98, CHR 0x91]"
definition g_unticked :: string where "g_unticked = [CHR 0xE2, CHR 0x98, CHR 0x90]"
definition g_tick :: string where "g_tick = [CHR 0xE2, CHR 0x9C, CHR 0x93]"
definition g_check :: string where "g_check = [CHR 0xE2, CHR 0x9C, CHR 0x85]"
definition g_cross :: string where "g_cross = [CHR 0xE2, CHR 0x9D, CHR 0x8C]"
definition g_stop :: string where "g_stop = [CHR 0xE2, CHR 0x9B, CHR 0x94]"
definition g_lock :: string where "g_lock = [CHR 0xF0, CHR 0x9F, CHR 0x94, CHR 0x92]"
definition g_pencil :: string where "g_pencil = [CHR 0xE2, CHR 0x9C, CHR 0x8F, CHR 0xEF, CHR 0xB8, CHR 0x8F]"
definition g_mail :: string where "g_mail = [CHR 0xE2, CHR 0x9C, CHR 0x89, CHR 0xEF, CHR 0xB8, CHR 0x8F]"
definition g_bin :: string where "g_bin = [CHR 0xF0, CHR 0x9F, CHR 0x97, CHR 0x91]"
definition g_clip :: string where "g_clip = [CHR 0xF0, CHR 0x9F, CHR 0x93, CHR 0x8E]"
definition g_dash :: string where "g_dash = [CHR 0xE2, CHR 0x80, CHR 0x94]"
definition g_person :: string where "g_person = [CHR 0xF0, CHR 0x9F, CHR 0x91, CHR 0xA4]"
definition g_broom :: string where "g_broom = [CHR 0xF0, CHR 0x9F, CHR 0xA7, CHR 0xB9]"

type_synonym rows = "(string \<times> string) list list"
type_synonym view = "string \<times> rows"

section \<open>The registry\<close>

record claude_agent =
  cg_session_id :: string
  cg_jsonl_path :: string
  cg_name :: "string option"
  cg_title :: "string option"
  cg_state :: claude_state

record codex_agent =
  cx_thread_id :: string
  cx_rollout_path :: string
  cx_approval_mode :: string
  cx_title :: string
  cx_state :: codex_state

record window_entry =
  we_workspace :: string
  we_git_branch :: "string option"
  we_claude :: "claude_agent list"
  we_codex :: "codex_agent list"

definition window_of :: "string \<Rightarrow> window_entry list \<Rightarrow> window_entry option" where
  "window_of alias ws = find (\<lambda>w. workspace_alias (we_workspace w) = alias) ws"

definition chat_of :: "string \<Rightarrow> nat \<Rightarrow> window_entry list \<Rightarrow> claude_agent option" where
  "chat_of alias idx ws = Option.bind (window_of alias ws) (\<lambda>w. nth_opt (we_claude w) idx)"

definition claude_session_id :: "string \<Rightarrow> nat \<Rightarrow> window_entry list \<Rightarrow> string option" where
  "claude_session_id alias idx ws = map_option cg_session_id (chat_of alias idx ws)"

definition chat_transcript :: "string \<Rightarrow> char \<Rightarrow> nat \<Rightarrow> window_entry list \<Rightarrow> (string \<times> string) option" where
  "chat_transcript alias kind idx ws =
     Option.bind (window_of alias ws) (\<lambda>w.
       if kind = CHR ''x''
       then map_option (\<lambda>cx. (cx_thread_id cx, cx_rollout_path cx)) (nth_opt (we_codex w) idx)
       else map_option (\<lambda>c. (cg_session_id c, cg_jsonl_path c)) (nth_opt (we_claude w) idx))"

definition claude_session_options :: "(string \<Rightarrow> u32 option) \<Rightarrow> window_entry list \<Rightarrow> (string \<times> string) list" where
  "claude_session_options pid ws =
     concat (map (\<lambda>w. map (\<lambda>c. (workspace_alias (we_workspace w), cg_session_id c))
       (filter (\<lambda>c. pid (cg_session_id c) \<noteq> None) (we_claude w))) ws)"

definition claude_display :: "claude_agent \<Rightarrow> string" where
  "claude_display c =
     unwrap_or (unwrap_or (truncate_chars (cg_session_id c) 8) (cg_name c))
       (opt_filter (\<lambda>t. trim t \<noteq> []) (cg_title c))"

definition state_glyph :: "string \<Rightarrow> string" where
  "state_glyph label =
     (if label = ''awaiting_permission'' then g_red
      else if label = ''pending_question'' then g_yellow
      else if label = ''needs_reply?'' then g_orange
      else if label = ''error'' then g_warn
      else if label = ''working'' then g_gear
      else if label = ''subagent'' then g_swirl
      else if label \<in> set [''aborted'', ''interrupted'', ''denied''] then g_halt
      else if label = ''idle'' then g_green
      else g_white)"

definition label_priority :: "string \<Rightarrow> nat" where
  "label_priority label =
     (if label = ''awaiting_permission'' then 5
      else if label = ''pending_question'' then 4
      else if label = ''error'' then 3
      else if label = ''needs_reply?'' then 2
      else if label = ''working'' \<or> label = ''subagent'' then 1
      else 0)"

definition window_glyph :: "window_entry \<Rightarrow> string" where
  "window_glyph w =
     (let labels = map (\<lambda>c. claude_label (cg_state c)) (we_claude w) @ map (\<lambda>cx. codex_label (cx_state cx)) (we_codex w)
      in state_glyph (fst (fold (\<lambda>l (best, best_p).
           if best_p \<le> label_priority l then (l, label_priority l) else (best, best_p)) labels (''idle'', 0))))"

section \<open>Windows and chats\<close>

definition build_tail ::
  "(string \<Rightarrow> turn list) \<Rightarrow> (string \<Rightarrow> turn list) \<Rightarrow> window_entry list \<Rightarrow> string \<Rightarrow> AgentKind \<Rightarrow> nat \<Rightarrow> string"
where
  "build_tail claude_tail codex_tail ws alias agent idx =
     (case window_of alias ws of
        None \<Rightarrow> (''no window '' @ g_quote @ alias @ g_quote)
      | Some w \<Rightarrow>
          (let msgs = (case agent of
                 ClaudeCode \<Rightarrow> (case nth_opt (we_claude w) idx of Some c \<Rightarrow> claude_tail (cg_jsonl_path c) | None \<Rightarrow> [])
               | Codex \<Rightarrow> (case nth_opt (we_codex w) idx of Some cx \<Rightarrow> codex_tail (cx_rollout_path cx) | None \<Rightarrow> []))
           in if msgs = [] then (g_page @ '' no messages yet'')
              else (g_page @ '' <b>'' @ (esc_html alias) @ ''</b> - recent'') @
                concat (map (\<lambda>(role, t).
                  let g = (if role = CHR ''U'' then g_human else if role = CHR ''A'' then agent_glyph agent
                           else if role = CHR ''T'' then g_tool else g_bullet)
                  in (g_nl @ g_nl @ g @ '' '' @ (esc_html (truncate_chars t 400)))) msgs)))"

definition home_view :: "window_entry list \<Rightarrow> view" where
  "home_view ws =
     (if ws = [] then (g_screen @ '' <b>Windows</b>'' @ g_nl @ ''<i>none discovered yet</i>'')
      else (g_screen @ '' <b>Windows</b> '' @ g_dot @ '' '' @ (dec (length ws)) @ '' open - tap one''),
      map (\<lambda>w. let alias = workspace_alias (we_workspace w);
                    chats = chat_count \<lparr>wa_claude = we_claude w, wa_codex = we_codex w\<rparr>
                in [(((window_glyph w) @ '' '' @ alias @ ''  '' @ g_dot @ ''  '' @ (dec chats) @ '' '' @ g_talk), (''m:w:'' @ alias))]) ws @
      [[((g_robot @ '' Automation''), ''au:home''), ((g_again @ '' Refresh''), ''m:home'')]])"

definition star :: "nat \<Rightarrow> string" where
  "star i = (if i = 0 then (g_star @ '' '') else [])"

definition window_view :: "window_entry list \<Rightarrow> string \<Rightarrow> view" where
  "window_view ws alias =
     (case window_of alias ws of
        None \<Rightarrow> ((''no window '' @ g_quote @ alias @ g_quote), [[((g_left @ '' Windows''), ''m:home'')]])
      | Some w \<Rightarrow>
          ((g_folder @ '' <b>'' @ (esc_html alias) @ ''</b>'' @ g_nl @ g_branch @ '' '' @ (esc_html (unwrap_or ''-'' (we_git_branch w))) @ '' '' @ g_dot @ '' pick a chat '' @ g_down),
           map (\<lambda>(i, c). [(((star i) @ (state_glyph (claude_label (cg_state c))) @ '' '' @ g_robot @ '' '' @ (truncate_chars (claude_display c) 48)),
             (''m:c:'' @ alias @ '':claude:'' @ (dec i)))]) (enumerate 0 (we_claude w)) @
           map (\<lambda>(i, cx). [(((star i) @ (state_glyph (codex_label (cx_state cx))) @ '' '' @ g_brain @ '' '' @ (truncate_chars (cx_title cx) 48)),
             (''m:c:'' @ alias @ '':codex:'' @ (dec i)))]) (enumerate 0 (we_codex w)) @
           [[((g_eye @ '' Focus''), (''act:focus:'' @ alias)), (g_again, (''m:w:'' @ alias)), ((g_left @ '' Windows''), ''m:home'')]]))"

text \<open>Header, second line and label of a chat.\<close>

definition chat_head :: "window_entry \<Rightarrow> AgentKind \<Rightarrow> nat \<Rightarrow> (string \<times> string option \<times> string) option" where
  "chat_head w agent idx =
     (case agent of
        ClaudeCode \<Rightarrow> map_option (\<lambda>c.
          let i = unwrap_or (truncate_chars (cg_session_id c) 8) (cg_name c); label = claude_label (cg_state c)
          in case opt_filter (\<lambda>t. trim t \<noteq> []) (cg_title c) of
               Some t \<Rightarrow> (t, Some (g_id @ '' '' @ i), label)
             | None \<Rightarrow> (i, None, label)) (nth_opt (we_claude w) idx)
      | Codex \<Rightarrow> map_option (\<lambda>cx.
          (truncate_chars (cx_title cx) 60, Some (''approval: '' @ (cx_approval_mode cx)), codex_label (cx_state cx)))
          (nth_opt (we_codex w) idx))"

definition chat_bg_pid :: "(string \<Rightarrow> u32 option) \<Rightarrow> window_entry \<Rightarrow> nat \<Rightarrow> u32 option" where
  "chat_bg_pid pid w idx = Option.bind (nth_opt (we_claude w) idx) (\<lambda>c. pid (cg_session_id c))"

definition chat_rows :: "string \<Rightarrow> AgentKind \<Rightarrow> nat \<Rightarrow> rows" where
  "chat_rows alias agent idx =
     (let a = agent_str agent; i = dec idx
      in (case agent of
            ClaudeCode \<Rightarrow>
              [[((g_write @ '' Send''), (''act:say:'' @ alias @ '':'' @ a @ '':'' @ i)), ((g_play @ '' Continue''), (''act:cont2:'' @ alias @ '':'' @ i)),
                ((g_halt @ '' Stop''), (''act:stop:'' @ alias @ '':'' @ a))],
               [((g_brain @ '' Model''), (''m:model:'' @ alias @ '':'' @ i)), ((g_bolt @ '' Effort''), (''m:effort:'' @ alias @ '':'' @ i)),
                ((g_mix @ '' Mode''), (''m:mode:'' @ alias @ '':'' @ i))],
               [((g_page @ '' Read chat''), (''act:read:'' @ alias @ '':'' @ a @ '':'' @ i)), ((g_robot @ '' Auto''), (''au:s:'' @ alias @ '':'' @ i))],
               [((g_lens @ '' Cross review''), (''au:rnow:'' @ alias @ '':c:'' @ i))],
               [((g_box @ '' Hand off''), (''ho:'' @ alias @ '':'' @ i))]]
          | Codex \<Rightarrow>
              [[((g_write @ '' Send''), (''act:say:'' @ alias @ '':'' @ a @ '':'' @ i)), ((g_halt @ '' Stop''), (''act:stop:'' @ alias @ '':'' @ a))],
               [((g_page @ '' Read chat''), (''act:read:'' @ alias @ '':'' @ a @ '':'' @ i))],
               [((g_lens @ '' Cross review''), (''au:rnow:'' @ alias @ '':x:'' @ i))]]) @
         [[((g_eye @ '' Focus''), (''act:focus:'' @ alias)), ((g_left @ '' Back''), (''m:w:'' @ alias))]])"

definition chat_view :: "(string \<Rightarrow> u32 option) \<Rightarrow> window_entry list \<Rightarrow> string \<Rightarrow> AgentKind \<Rightarrow> nat \<Rightarrow> view" where
  "chat_view pid ws alias agent idx =
     (let back = [[((g_left @ '' Back''), (''m:w:'' @ alias))]]
      in case window_of alias ws of
           None \<Rightarrow> ((''no window '' @ g_quote @ alias @ g_quote), back)
         | Some w \<Rightarrow>
             (case chat_head w agent idx of
                None \<Rightarrow> ((''chat gone in '' @ alias), back)
              | Some (header, sub, label) \<Rightarrow>
                  (((agent_glyph agent) @ '' <b>'' @ (esc_html header) @ ''</b>'' @ g_nl @ g_folder @ '' '' @ (esc_html alias) @ '' '' @ g_dot @ '' '' @ (state_glyph label) @ '' '' @ label) @
                   (case sub of None \<Rightarrow> [] | Some s \<Rightarrow> (g_nl @ (esc_html s))) @
                   (if agent \<noteq> ClaudeCode then []
                    else if chat_bg_pid pid w idx \<noteq> None
                    then (g_nl @ g_green @ '' <i>active - just type in Telegram and it goes here (background)</i>'')
                    else (g_nl @ g_white @ '' <i>background unavailable (no shim) - via GUI</i>'')),
                   chat_rows alias agent idx)))"

definition format_status :: "window_entry list \<Rightarrow> string \<Rightarrow> string" where
  "format_status ws alias =
     (case window_of alias ws of
        None \<Rightarrow> (''no window for '' @ g_quote @ alias @ g_quote)
      | Some w \<Rightarrow>
          (g_folder @ '' <b>'' @ (esc_html alias) @ ''</b> '' @ g_branch @ '' '' @ (esc_html (unwrap_or ''-'' (we_git_branch w))) @ g_nl) @
          concat (map (\<lambda>c.
            (g_robot @ '' <b>'' @ (esc_html (unwrap_or ''claude'' (cg_name c))) @ ''</b> '' @ g_dot @ '' '' @ (claude_label (cg_state c)) @ g_nl) @
            (case cg_title c of None \<Rightarrow> [] | Some t \<Rightarrow> (''   '' @ (esc_html (truncate_chars t 80)) @ g_nl))) (we_claude w)) @
          concat (map (\<lambda>cx.
            (g_brain @ '' <b>'' @ (esc_html (truncate_chars (cx_title cx) 40)) @ ''</b> '' @ g_dot @ '' '' @ (codex_label (cx_state cx)) @ '' ['' @ (esc_html (cx_approval_mode cx)) @ '']'' @ g_nl))
            (we_codex w)))"

section \<open>Automation\<close>

definition mode_title :: "Mode \<Rightarrow> string" where
  "mode_title m = (case m of Manual \<Rightarrow> (g_hand @ '' Manual'') | Auto \<Rightarrow> (g_gear @ '' Auto'') | Robot \<Rightarrow> (g_brain @ '' Robot''))"

definition automation_rules_text :: string where
  "automation_rules_text =
     (g_robot @ '' <b>Automation rules</b>'' @ g_nl @ g_nl) @
     (g_hand @ '' <b>Manual</b> - nothing happens without you; every permission, question and error waits for your tap.'' @ g_nl @ g_nl) @
     (g_gear @ '' <b>Auto</b> - rule-based, no AI:'' @ g_nl @ g_bullet @ '' safe tool permissions are auto-approved'' @ g_nl @ g_bullet @ '' plan-mode exit is auto-accepted'' @ g_nl) @
     (g_bullet @ '' transient API errors auto-retry with backoff'' @ g_nl @ g_bullet @ '' danger-list commands ALWAYS ask you'' @ g_nl) @
     (g_bullet @ '' questions still wait for you'' @ g_nl @ g_bullet @ '' rate/usage limits pause and notify'' @ g_nl @ g_nl) @
     (g_brain @ '' <b>Robot</b> - an AI supervisor drives the chat: continue, retry, accept a plan, answer, or stop, under a per-session step cap. Every supervisor provider call is metered into a local usage ledger; USD caps (budget_usd, per-provider max_usd) halt a provider once its recorded spend is reached, and apply only to metered HTTP providers with a configured usd_per_ktok price (local and CLI providers record no cost).'' @ g_nl @ g_nl) @
     (g_compass @ '' <b>Compass</b> - an optional model-free layer that reads the session and judges direction. Off = base behavior. On (outside Robot) = shadow advisories only. Auto-steer governs the predictive corrective steer in Robot mode, under hard guards (Idle/Error, two independent sources, no pending question, at most three steers, then it escalates to you). Independently, in Robot a deterministic Contract-Ledger proof request may be injected when the ledger requires one, under budget and non-escalation guards, even with auto-steer off.'' @ g_nl @ g_nl) @
     ''<i>Scope: a chat pin beats a workspace pin beats the default.</i>''"

definition quot_i64 :: "i64 \<Rightarrow> i64 \<Rightarrow> i64" where
  "quot_i64 a b = sgn a * (\<bar>a\<bar> div b)"

definition review_cadence_label :: "i64 \<Rightarrow> string" where
  "review_cadence_label secs =
     (if secs mod 3600 = 0 then dec_int (quot_i64 secs 3600) @ ''h'' else dec_int (quot_i64 secs 60) @ ''m'')"

definition next_review_cadence :: "i64 \<Rightarrow> i64" where
  "next_review_cadence secs =
     (if secs < 300 then 300 else if secs < 900 then 900 else if secs < 1800 then 1800
      else if secs < 3600 then 3600 else 300)"

definition next_review_depth :: "ReviewDepth \<Rightarrow> ReviewDepth" where
  "next_review_depth d = (case d of Shallow \<Rightarrow> Normal | Normal \<Rightarrow> Deep | Deep \<Rightarrow> Shallow)"

definition rv_does :: "review_rules \<Rightarrow> string" where
  "rv_does r = (if rv_steer r then ''corrects'' else ''observes'')"

definition reviewer_names :: "review_rules \<Rightarrow> string" where
  "reviewer_names r = (if rv_reviewers r = [] then ''no reviewer'' else join ('' '' @ g_to @ '' '') (rv_reviewers r))"

definition review_line :: "review_rules \<Rightarrow> string" where
  "review_line r =
     (if rv_enabled r
      then (''Cross review: <b>on</b> '' @ g_dot @ '' '' @ (rv_does r) @ '' '' @ g_dot @ '' every '' @ (review_cadence_label (rv_every_secs r)) @ '' '' @ g_dot @ '' '' @ (depth_label (rv_depth r)) @ '' '' @ g_dot @ '' '' @ (reviewer_names r))
      else ''Cross review: <b>off</b>'')"

definition marked :: "bool \<Rightarrow> string" where
  "marked b = (if b then (g_on @ '' '') else [])"

definition automation_home_view :: "automation_config \<Rightarrow> view" where
  "automation_home_view cfg =
     (let s = ac_smart cfg; r = ac_review cfg; a = ac_auto cfg;
          smart = show_on (sm_enabled s); steer = (if sm_steer s then ''auto-steer'' else ''shadow'');
          feedback = (if sm_feedback_protocol s then ''telemetry on'' else ''telemetry off'');
          gate = (if sm_gate s then ''gate on'' else ''gate off'');
          btn = (\<lambda>m. (marked (ac_default cfg = m) @ mode_title m, ''au:def:'' @ mode_label m))
      in ((g_robot @ '' <b>Automation</b>'' @ g_nl @ ''Default: <b>'' @ (mode_title (ac_default cfg)) @ ''</b>'' @ g_nl @ ''Workspace pins: '' @ (dec (length (ac_workspaces cfg))) @ '' '' @ g_dot @ '' chat pins: '' @ (dec (length (ac_sessions cfg))) @ g_nl) @
          (''Compass: <b>'' @ smart @ ''</b> '' @ g_dot @ '' steering: <b>'' @ steer @ ''</b> '' @ g_dot @ '' gate: <b>'' @ gate @ ''</b> '' @ g_dot @ '' feedback: <b>'' @ feedback @ ''</b>'' @ g_nl @ (review_line r) @ g_nl @ g_nl) @
          ''<i>Manual = all you. Auto = rules (auto-approve safe, auto-retry transient; danger still asks). Robot = AI supervisor. Gate is an independent, deterministic Contract Ledger authority and is off by default. Cross review asks a different model family whether a chat still serves your last instruction.</i>'',
          [[btn Manual, btn Auto, btn Robot],
           [((g_mix @ '' Chat modes''), ''au:chats'')],
           [((g_compass @ '' Compass: '' @ smart), ''au:smart''),
            ((if sm_steer s then g_car else g_eye) @ ('' Steering: '' @ steer), ''au:steer'')],
           [((if sm_gate s then g_shield else g_blank) @ ('' Gate: '' @ gate), ''au:gate'')],
           [((if sm_feedback_protocol s then g_dish else g_mute) @ ('' Feedback: '' @ feedback), ''au:feedback'')],
           [((if ar_auto_answer_questions a then g_talk else g_blank) @ ('' Auto-answer Q: '' @ (show_on (ar_auto_answer_questions a))), ''au:answerq''),
            ((if ar_guard_dangerous a then g_shield else g_blank) @ ('' Danger guard: '' @ (show_on (ar_guard_dangerous a))), ''au:guard'')],
           [((if rv_enabled r then g_lens else g_blank) @ ('' Cross review: '' @ (show_on (rv_enabled r))), ''au:review''),
            ((if rv_steer r then g_car else g_eye) @ ('' Review acts: '' @ (rv_does r)), ''au:rsteer'')],
           [((g_scope @ '' Depth: '' @ (depth_label (rv_depth r))), ''au:rdepth''),
            ((g_clock @ '' Every: '' @ (review_cadence_label (rv_every_secs r))), ''au:revery''),
            ((g_people @ '' Reviewers: '' @ (dec (length (rv_reviewers r)))), ''au:rprov'')],
           [((g_plug @ '' Providers''), ''au:prov''), ((g_book @ '' Rules''), ''au:rules''), (g_again, ''au:home'')],
           [((g_left @ '' Windows''), ''m:home'')]]))"

definition pinned :: "automation_config \<Rightarrow> string \<Rightarrow> bool" where
  "pinned cfg sid \<longleftrightarrow> map_of (ac_sessions cfg) sid \<noteq> None"

definition automation_chats_view :: "automation_config \<Rightarrow> i64 \<Rightarrow> window_entry list \<Rightarrow> view" where
  "automation_chats_view cfg now ws =
     (let rows = concat (map (\<lambda>w.
            let alias = workspace_alias (we_workspace w)
            in map (\<lambda>(idx, c).
                 let mode = resolve cfg (Some (cg_session_id c)) alias now;
                     pin = (if pinned cfg (cg_session_id c) then g_pin else g_under)
                 in [((pin @ '' '' @ (mode_title mode) @ '' '' @ g_dot @ '' '' @ (state_glyph (claude_label (cg_state c))) @ '' '' @ (truncate_chars (claude_display c) 32)),
                      (''au:s:'' @ alias @ '':'' @ (dec idx)))]) (enumerate 0 (we_claude w))) ws)
      in (if rows = [] then (g_mix @ '' <b>Chat modes</b>'' @ g_nl @ g_nl @ ''No live chat found.'')
          else (g_mix @ '' <b>Chat modes</b>'' @ g_nl @ ''Default: <b>'' @ (mode_title (ac_default cfg)) @ ''</b> '' @ g_dot @ '' live chats: '' @ (dec (length rows)) @ g_nl @ g_nl @ ''<i>Pick a chat to switch it live. '' @ g_pin @ '' is pinned, '' @ g_under @ '' inherits the default.</i>''),
          rows @ [[(g_again, ''au:chats''), ((g_left @ '' Back''), ''au:home'')]]))"

definition strategy_short :: "Strategy \<Rightarrow> string" where
  "strategy_short s =
     (case s of Single \<Rightarrow> ''Single'' | Priority \<Rightarrow> ''Priority'' | RoundRobin \<Rightarrow> ''RR'' | CostOptimized \<Rightarrow> ''Cost'')"

definition available_provider :: "discovered list \<Rightarrow> string \<Rightarrow> bool" where
  "available_provider ds i = list_ex (\<lambda>d. di_id d = i \<and> di_available d) ds"

definition provider_line :: "providers \<Rightarrow> discovered list \<Rightarrow> string \<Rightarrow> string" where
  "provider_line p ds i =
     (let box = (if is_enabled i p then g_ticked else g_unticked); avail = (if available_provider ds i then g_tick else g_dot)
      in (box @ '' '' @ avail @ '' <code>'' @ (esc_html i) @ ''</code>'') @
         (case Option.bind (map_of (pv_per_provider p) i) po_model of
            Some m \<Rightarrow> ('' ['' @ (esc_html m) @ '']'') | None \<Rightarrow> []) @ g_nl)"

definition automation_providers_view :: "automation_config \<Rightarrow> discovered list \<Rightarrow> view" where
  "automation_providers_view cfg ds =
     (let p = rb_providers (ac_robot cfg); ids = map backend_id backend_all
      in ((g_plug @ '' <b>Robot providers</b>'' @ g_nl @ ''Strategy: <b>'' @ (strategy_label (pv_strategy p)) @ ''</b>'' @ g_nl @ g_nl @ g_ticked @ '' enabled '' @ g_dot @ '' '' @ g_tick @ '' available'' @ g_nl) @
          concat (map (provider_line p ds) ids) @
          (g_nl @ ''<i>Set a model: /auto model &lt;provider&gt; &lt;model&gt;</i>''),
          in_pairs (map (\<lambda>i. ((if is_enabled i p then g_ticked else g_unticked) @ ('' '' @ i), ''au:pt:'' @ i)) ids) @
          [map (\<lambda>s. (marked (pv_strategy p = s) @ strategy_short s, ''au:ps:'' @ strategy_label s)) strategy_all,
           [(g_again, ''au:prov''), ((g_left @ '' Back''), ''au:home'')]]))"

definition review_reviewers_view :: "automation_config \<Rightarrow> discovered list \<Rightarrow> view" where
  "review_reviewers_view cfg ds =
     (let rs = rv_reviewers (ac_review cfg)
      in ((g_lens @ '' <b>Reviewers</b>'' @ g_nl @ ''Asked in this order: <b>'') @ (if rs = [] then ''nobody'' else join ('' '' @ g_to @ '' '') rs) @
          (''</b>'' @ g_nl @ g_nl @ ''<i>A reviewer is never asked to grade its own family, so Claude chats skip claude-cli and Codex chats skip codex-cli.</i>''),
          map (\<lambda>i.
            let picked = (if i \<in> set rs then g_check else g_blank);
                order = (case position (\<lambda>x. x = i) rs of Some n \<Rightarrow> dec (n + 1) @ ''. '' | None \<Rightarrow> []);
                missing = (if available_provider ds i then [] else '' (not installed)'')
            in [((picked @ '' '' @ order @ i @ missing), ''au:rp:'' @ i)]) (map backend_id backend_all) @
          [[((g_left @ '' Back''), ''au:home'')]]))"

definition session_auto_view :: "automation_config \<Rightarrow> i64 \<Rightarrow> window_entry list \<Rightarrow> string \<Rightarrow> nat \<Rightarrow> view" where
  "session_auto_view cfg now ws alias idx =
     (let back = (''m:c:'' @ alias @ '':claude:'' @ (dec idx))
      in case claude_session_id alias idx ws of
           None \<Rightarrow> ((''chat gone in '' @ alias), [[((g_left @ '' Back''), back)]])
         | Some sid \<Rightarrow>
             (let mode = resolve cfg (Some sid) alias now; pin = pinned cfg sid;
                  btn = (\<lambda>m. (marked (pin \<and> mode = m) @ mode_title m, (''au:ss:'' @ alias @ '':'' @ (dec idx) @ '':'' @ (mode_label m))))
              in ((g_robot @ '' <b>Automation</b> '' @ g_dot @ '' '' @ (esc_html alias) @ g_nl @ ''This chat: <b>'' @ (mode_title mode) @ ''</b> ('') @
                  (if pin then ''pinned'' else ''inherited'') @
                  ('')'' @ g_nl @ g_nl @ ''<i>Pin this chat to a mode, or clear to inherit.</i>''),
                  [[btn Manual, btn Auto, btn Robot],
                   [((g_broom @ '' Clear (inherit)''), (''au:sx:'' @ alias @ '':'' @ (dec idx))), ((g_book @ '' Rules''), ''au:rules'')],
                   [((g_lens @ '' Cross review now''), (''au:rnow:'' @ alias @ '':c:'' @ (dec idx)))],
                   [((g_mix @ '' Chats''), ''au:chats''), ((g_left @ '' Back''), back)]])))"

section \<open>Reviews on request\<close>

definition chat_family :: "char \<Rightarrow> Family" where
  "chat_family kind = (if kind = CHR ''x'' then CodexFamily else Claude)"

definition chat_card_callback :: "string \<Rightarrow> char \<Rightarrow> nat \<Rightarrow> string" where
  "chat_card_callback alias kind idx =
     (let a = (if kind = CHR ''x'' then ''codex'' else ''claude'') in (''m:c:'' @ alias @ '':'' @ a @ '':'' @ (dec idx)))"

definition session_review_menu ::
  "automation_config \<Rightarrow> discovered list \<Rightarrow> string \<Rightarrow> char \<Rightarrow> nat \<Rightarrow> ReviewDepth option \<Rightarrow> view"
where
  "session_review_menu cfg ds alias kind idx depth =
     (let family = chat_family kind; r = ac_review cfg; d = unwrap_or (rv_depth r) depth;
          order = pv_enabled (chosen_reviewers family r (rb_providers (ac_robot cfg)) None);
          base = (alias @ '':'' @ ([kind]) @ '':'' @ (dec idx))
      in ((g_lens @ '' <b>Cross review</b> '' @ g_dot @ '' '' @ (esc_html alias) @ g_nl @ ''Who should review this '' @ (family_label family) @ '' chat, and how deep?'' @ g_nl @ g_nl @ ''Depth: <b>'' @ (depth_label d) @ ''</b> ('' @ (dec (tail_messages d)) @ '' recent messages)'' @ g_nl @ g_nl @ ''<i>The verdict comes back as a separate message and any correction goes straight into the chat. A chat is never reviewed by its own family.</i>''),
          [[((g_play @ '' Default: '') @ (if order = [] then ''nobody enabled'' else join ('' '' @ g_to @ '' '') order),
             (''au:rr:'' @ base @ '':p'' @ ([depth_code d])))]] @
          in_pairs (List.map_filter (\<lambda>i. map_option (\<lambda>code.
            ((if available_provider ds i then (g_person @ '' '' @ i) else (g_blank @ '' '' @ i @ '' (not installed)'')),
             (''au:rr:'' @ base @ '':'' @ ([code]) @ ([depth_code d])))) (reviewer_code i)) (menu_reviewers family)) @
          [map (\<lambda>c. (marked (c = d) @ depth_label c, (''au:rm:'' @ base @ '':'' @ ([depth_code c])))) [Shallow, Normal, Deep],
           [((g_left @ '' Back''), chat_card_callback alias kind idx)]]))"

section \<open>Settings of a chat\<close>

definition model_tier :: "string \<Rightarrow> string" where
  "model_tier i =
     (let s = unwrap_or i (strip_prefix ''claude-'' i)
      in unwrap_or ''opus'' (find (\<lambda>t. starts_with t s) [''opus'', ''sonnet'', ''haiku'', ''fable'']))"

text \<open>The upper case of the first letter is a parameter.\<close>

definition model_friendly :: "(string \<Rightarrow> string) \<Rightarrow> string \<Rightarrow> string" where
  "model_friendly upper i =
     (let s = unwrap_or i (strip_prefix ''claude-'' i); parts = split_on (\<lambda>c. c = CHR ''-'') s;
          family = hd parts;
          cap = (case chars_of family of [] \<Rightarrow> [] | f # rest \<Rightarrow> upper f @ concat rest);
          ver = join ''.'' (take 2 (tl parts))
      in if ver = [] then cap else cap @ '' '' @ ver)"

definition model_in_line :: "string \<Rightarrow> string option" where
  "model_in_line line =
     (let q = CHR 0x22; key = [q] @ ''model'' @ [q] @ '':'' @ [q]
      in Option.bind (split_once key line) (\<lambda>(_, rest).
           Option.bind (split_once [q] rest) (\<lambda>(m, _). if starts_with ''claude-'' m then Some m else None)))"

text \<open>The model the transcript names last.\<close>

definition active_model :: "(string \<Rightarrow> string) \<Rightarrow> string option \<Rightarrow> (string \<times> string) option" where
  "active_model upper transcript =
     Option.bind transcript (\<lambda>t.
       let found = List.map_filter model_in_line (rust_lines t)
       in if found = [] then None else Some (model_tier (last found), model_friendly upper (last found)))"

definition picker_of :: "string \<Rightarrow> string \<times> string \<times> (string \<times> string) list" where
  "picker_of kind =
     (if kind = ''model''
      then ((g_brain @ '' Model''), ''setmodel'', [(''Default'', ''default''), (''Opus'', ''opus''), (''Opus 1M'', ''opus[1m]''),
             (''Fable'', ''fable''), (''Sonnet'', ''sonnet''), (''Haiku'', ''haiku'')])
      else if kind = ''effort''
      then ((g_bolt @ '' Effort''), ''seteffort'', [(''Low'', ''low''), (''Medium'', ''medium''), (''High'', ''high''), (''xHigh'', ''xhigh'')])
      else ((g_mix @ '' Mode''), ''setmode'', [(''Default'', ''default''), (''Accept Edits'', ''acceptEdits''), (''Plan'', ''plan''),
             (''Bypass'', ''bypassPermissions'')]))"

definition setting_picker :: "string \<Rightarrow> string \<Rightarrow> nat \<Rightarrow> (string \<times> string) option \<Rightarrow> view" where
  "setting_picker kind alias idx chosen_model =
     (let (title, act, opts) = picker_of kind
      in ((title @ '' - pick for chat #'' @ (dec idx) @ '' in <b>'' @ (esc_html alias) @ ''</b>'') @
          (case chosen_model of Some (_, friendly) \<Rightarrow> (g_nl @ ''Active in VS Code: <b>'' @ (esc_html friendly) @ ''</b>'') | None \<Rightarrow> []),
          in_pairs (map (\<lambda>(l, v).
            ((if map_option fst chosen_model = Some v then (g_tick @ '' '') else []) @ l, (''act:'' @ act @ '':'' @ alias @ '':'' @ (dec idx) @ '':'' @ v))) opts) @
          [[((g_left @ '' Back''), (''m:c:'' @ alias @ '':claude:'' @ (dec idx)))]]))"

section \<open>What a press or a reply names\<close>

definition parse_u32 :: "string \<Rightarrow> u32 option" where
  "parse_u32 s = map_option of_nat (parse_uint (2 ^ 32 - 1) s)"

definition parse_usize :: "string \<Rightarrow> nat option" where
  "parse_usize s = parse_uint (2 ^ 64 - 1) s"

definition parse_agent :: "string \<Rightarrow> AgentKind option" where
  "parse_agent s =
     (let t = to_ascii_lowercase (trim s)
      in if t = ''claude'' then Some ClaudeCode else if t = ''codex'' then Some Codex else None)"

definition by_colon :: "string \<Rightarrow> string list" where
  "by_colon = split_on (\<lambda>c. c = CHR '':'')"

definition parse_alias_idx :: "string \<Rightarrow> (string \<times> nat) option" where
  "parse_alias_idx s =
     Option.bind (rsplit_once '':'' s) (\<lambda>(alias, i). map_option (\<lambda>idx. (alias, idx)) (parse_usize i))"

definition parse_chat_spec :: "string \<Rightarrow> (string \<times> AgentKind \<times> nat) option" where
  "parse_chat_spec spec =
     (let parts = by_colon spec; n = length parts
      in if n < 3 then None
         else Option.bind (parse_usize (parts ! (n - 1))) (\<lambda>idx.
           map_option (\<lambda>agent. (join '':'' (take (n - 2) parts), agent, idx)) (parse_agent (parts ! (n - 2)))))"

definition parse_chat_ref :: "string \<Rightarrow> (string \<times> char \<times> nat) option" where
  "parse_chat_ref spec =
     Option.bind (rsplit_once '':'' spec) (\<lambda>(head, i).
       map_option (\<lambda>idx.
         case rsplit_once '':'' head of
           Some (alias, k) \<Rightarrow>
             if k = ''c'' then (alias, CHR ''c'', idx) else if k = ''x'' then (alias, CHR ''x'', idx)
             else (head, CHR ''c'', idx)
         | None \<Rightarrow> (head, CHR ''c'', idx)) (parse_usize i))"

record SendTarget =
  st_alias :: string
  st_agent :: AgentKind
  st_idx :: "nat option"
  st_sid :: "string option"
  st_sidebar :: bool

definition after_arrow :: "string \<Rightarrow> string option" where
  "after_arrow line =
     map_option (\<lambda>(_, rest). case split_once g_to rest of Some (x, _) \<Rightarrow> x | None \<Rightarrow> rest) (split_once g_to line)"

definition parse_send_target :: "string \<Rightarrow> SendTarget option" where
  "parse_send_target prompt =
     Option.bind (find (contains g_to) (rust_lines prompt)) (\<lambda>line.
     Option.bind (after_arrow line) (\<lambda>rest.
       let parts = map trim (split_on (\<lambda>c. c = CHR ''/'') (trim rest)); third = unwrap_or [] (nth_opt parts 2);
           sid = strip_prefix ''sid:'' third
       in Option.bind (Option.bind (nth_opt parts 1) parse_agent) (\<lambda>agent.
            Some \<lparr>st_alias = hd parts, st_agent = agent,
                  st_idx = (if sid \<noteq> None then None else parse_usize third), st_sid = sid,
                  st_sidebar = (nth_opt parts 3 = Some ''sidebar'')\<rparr>)))"

definition resolve_target_sid :: "window_entry list \<Rightarrow> SendTarget \<Rightarrow> string option" where
  "resolve_target_sid ws t =
     (case st_sid t of
        Some sid \<Rightarrow> Some sid
      | None \<Rightarrow>
          if st_agent t = ClaudeCode then Option.bind (st_idx t) (\<lambda>i. claude_session_id (st_alias t) i ws) else None)"

fun rsplitn :: "nat \<Rightarrow> string \<Rightarrow> string \<Rightarrow> string list" where
  "rsplitn 0 p s = []"
| "rsplitn (Suc 0) p s = [s]"
| "rsplitn (Suc (Suc n)) p s =
     (case rsplit_once p s of Some (a, b) \<Rightarrow> b # rsplitn (Suc n) p a | None \<Rightarrow> [s])"

section \<open>Files sent along\<close>

record staged_file =
  sf_path :: string
  sf_kind :: MediaKind
  sf_original_name :: "string option"
  sf_bytes :: u64
  sf_sidecar :: "string option"
  sf_transcript :: "string option"

text \<open>One digit after the point, halves to the even; exact for sizes below \<open>2 ^ 53\<close>.\<close>

definition fixed1 :: "rat \<Rightarrow> string" where
  "fixed1 q = (let n = nat (round_half_even (q * 10)) in dec (n div 10) @ ''.'' @ dec (n mod 10))"

definition human_size :: "u64 \<Rightarrow> string" where
  "human_size bytes =
     (let n = unat bytes
      in if 1024 * 1024 \<le> n then fixed1 (of_nat n / (1024 * 1024)) @ '' MB''
         else if 1024 \<le> n then fixed1 (of_nat n / 1024) @ '' KB''
         else dec n @ '' B'')"

definition file_lines :: "nat \<Rightarrow> staged_file \<Rightarrow> string" where
  "file_lines i f =
     ((dec (i + 1)) @ ''. '' @ (media_str (sf_kind f)) @ '' '' @ g_dash @ '' '' @ (sf_path f)) @
     (case sf_original_name f of Some n \<Rightarrow> ('' (original name: '' @ n @ '')'') | None \<Rightarrow> []) @
     ('' ['' @ (human_size (sf_bytes f)) @ '']'' @ g_nl) @
     (case sf_sidecar f of Some s \<Rightarrow> (''   preview/transcript file: '' @ s @ g_nl) | None \<Rightarrow> []) @
     (case sf_transcript f of Some t \<Rightarrow> (''   transcript: '' @ (truncate_chars (trim t) 500) @ g_nl) | None \<Rightarrow> [])"

definition build_media_preamble :: "staged_file list \<Rightarrow> string option \<Rightarrow> string" where
  "build_media_preamble files forward =
     (let n = length files; noun = (if n = 1 then ''file'' else ''files'')
      in (''[Attached from Telegram: '' @ (dec n) @ '' '' @ noun @ '']'' @ g_nl) @
         concat (map (\<lambda>(i, f). file_lines i f) (enumerate 0 files)) @
         (case forward of Some src \<Rightarrow> (''Forwarded from: '' @ src @ g_nl) | None \<Rightarrow> []) @
         ''Inspect the attached file(s) with your own tools (open images, read documents, transcribe audio/video if you can) and act on them.'')"

text \<open>The first six bytes of a session, if they end at a character.\<close>

definition session_short :: "string \<Rightarrow> string" where
  "session_short sid =
     (if 6 \<le> length sid \<and> (length sid = 6 \<or> \<not> is_cont_byte (sid ! 6)) then take 6 sid else sid)"

definition media_picker_rows :: "u64 \<Rightarrow> (string \<times> string) list \<Rightarrow> rows" where
  "media_picker_rows token options =
     map (\<lambda>(i, (alias, sid)). [((g_robot @ '' '' @ alias @ '' ('' @ (session_short sid) @ '')''), (''act:media:'' @ (dec (unat token)) @ '':'' @ (dec i)))])
       (enumerate 0 options)"

definition noun_of :: "nat \<Rightarrow> string" where
  "noun_of count = (if count = 1 then ''attachment'' else ''attachments'')"

definition help_text :: string where
  "help_text =
     (''<b>vsc-relay</b>'' @ g_nl @ ''/menu - interactive buttons (recommended)'' @ g_nl @ ''/auth &lt;key&gt; - pair this chat'' @ g_nl) @
     (''/windows - list windows &amp; chats'' @ g_nl @ ''/status &lt;ws&gt; - details for a workspace'' @ g_nl) @
     (''/say &lt;ws&gt; &lt;claude|codex&gt; &lt;text&gt; - send a prompt'' @ g_nl @ ''/stop &lt;ws&gt; &lt;agent&gt; - interrupt'' @ g_nl) @
     (''/cont &lt;ws&gt; &lt;agent&gt; - continue'' @ g_nl @ ''/mode &lt;ws&gt; - cycle Claude mode'' @ g_nl) @
     (''/auto [manual|auto|robot] - automation modes'' @ g_nl @ ''/slash &lt;ws&gt; &lt;agent&gt; &lt;cmd&gt; - send a slash command'' @ g_nl) @
     (''/focus &lt;ws&gt; - raise the window'' @ g_nl @ ''send or forward a photo, voice, video, or file - it is staged locally and the path is handed to the active session (or pick a target)'')"

end
