(* ===== verification/Operator.thy ===== *)
theory Operator
  imports Menus Robot Auth Ingress
begin

text \<open>
  The commands of the operator: \<open>handle_message\<close> and \<open>handle_callback\<close> of \<open>relay-agent/src/main.rs\<close>
  with what they call. Handling one message or press is one step, as is a review that was asked for.
  A hand off is an effect only; its text is an argument.
\<close>

section \<open>World and effects\<close>

record incoming =
  in_chat :: int
  in_id :: int
  in_text :: "string option"
  in_caption :: "string option"
  in_reply :: "string option option"
  in_media :: message

record press =
  pr_id :: string
  pr_from :: int
  pr_data :: "string option"
  pr_message :: "(int \<times> int) option"

record PendingMediaBatch =
  pm_files :: "staged_file list"
  pm_caption :: string
  pm_forward :: "string option"
  pm_options :: "(string \<times> string) list"

text \<open>A review that was asked for and has not run yet.\<close>

record asked_review =
  as_family :: Family
  as_session :: string
  as_alias :: string
  as_transcript :: string
  as_reviewer :: "string option"
  as_depth :: "ReviewDepth option"
  as_chat :: "int option"

record operator_world =
  ow_auth :: auth
  ow_config :: automation_config
  ow_danger :: "string option"
  ow_active :: "(int \<times> (string \<times> string)) list"
  ow_media :: "(u64 \<times> PendingMediaBatch) list"
  ow_token :: u64
  ow_ingress :: ingress
  ow_questions :: questions
  ow_reviews :: "asked_review list"

datatype control_call =
    FocusWindow string
  | SendPrompt string AgentKind string
  | SendClaudeSession string string string
  | StopAgent string AgentKind
  | AcceptPrompt string
  | PickOption string nat
  | ContinueAgent string AgentKind
  | CycleMode string AgentKind
  | Slash string AgentKind string

datatype handoff_call = HandoffPick string nat | HandoffGo "u32 option" "nat option"
  | HandoffReceipt "u32 option" "nat option" | HandoffInject "u32 option" "nat option"

datatype operator_effect =
    SendText int string "json option"
  | EditMessage int int string "json option"
  | AnswerPress string string
  | Say u32 string
  | SetOption string u32 string
  | Ctl control_call
  | PermissionEffect perm_effect
  | QuestionEffect q_effect
  | HookReply nat json
  | Asks pool_effect
  | StoreConfig automation_config
  | WriteDanger string
  | SessionHooks
  | GateHooks
  | SweepMedia
  | HandOff handoff_call

type_synonym 'a operator_op = "(operator_world, operator_effect, 'a) op"

text \<open>The outcome of a call in a task of its own: done, failed, or the task was lost.\<close>

datatype told = Told | TellFailed string | TellLost string

text \<open>
  What a command reads besides the message: the clocks, the registry, which session can be reached, what
  becomes of calls, files and installations, the transcripts, and what providers would answer.
\<close>

record op_env =
  oc_digest :: "string \<Rightarrow> string"
  oc_instant :: nat
  oc_now :: i64
  oc_lower :: "string \<Rightarrow> string"
  oc_upper :: "string \<Rightarrow> string"
  oc_windows :: "window_entry list"
  oc_pid :: "string \<Rightarrow> u32 option"
  oc_tell :: "u32 \<Rightarrow> string \<Rightarrow> told"
  oc_set :: "string \<Rightarrow> u32 \<Rightarrow> string \<Rightarrow> told"
  oc_control :: "control_call \<Rightarrow> told"
  oc_paired_written :: bool
  oc_saved :: bool
  oc_session_hooks :: bool
  oc_gate_hooks :: bool
  oc_danger :: "string option"
  oc_perm :: perm_env
  oc_tail :: "string \<Rightarrow> turn list"
  oc_claude_tail :: "string \<Rightarrow> turn list"
  oc_codex_tail :: "string \<Rightarrow> turn list"
  oc_transcript :: "string \<Rightarrow> string \<Rightarrow> string option"
  oc_view :: "Family \<Rightarrow> string \<Rightarrow> ReviewDepth \<Rightarrow> (string option \<times> turn list) option"
  oc_probes :: probes
  oc_pool :: "string \<Rightarrow> pool_env"
  oc_guard :: "string \<Rightarrow> string \<Rightarrow> string \<Rightarrow> bool \<times> string"
  oc_parse :: "string \<Rightarrow> json option"
  oc_as_f64 :: "json \<Rightarrow> u64 option"
  oc_fetch :: "nat \<Rightarrow> media_ref \<Rightarrow> staged_file option"
  oc_handoff :: "handoff_call \<Rightarrow> view"

definition send_text :: "int \<Rightarrow> string \<Rightarrow> unit operator_op" where
  "send_text chat t = remit (SendText chat t None)"

definition cb_of :: "operator_world \<Rightarrow> cb_store" where
  "cb_of w = pm_store (ig_perm (ow_ingress w))"

definition set_cb :: "cb_store \<Rightarrow> operator_world \<Rightarrow> operator_world" where
  "set_cb s w = w\<lparr>ow_ingress := (ow_ingress w)\<lparr>ig_perm := (ig_perm (ow_ingress w))\<lparr>pm_store := s\<rparr>\<rparr>\<rparr>"

definition keyboard_op :: "rows \<Rightarrow> json operator_op" where
  "keyboard_op rows w = (case keyboard rows (cb_of w) of (kb, s) \<Rightarrow> (kb, [], set_cb s w))"

definition send_view :: "int \<Rightarrow> view \<Rightarrow> unit operator_op" where
  "send_view chat v = rbind (keyboard_op (snd v)) (\<lambda>kb. remit (SendText chat (fst v) (Some kb)))"

definition get_config :: "automation_config operator_op" where
  "get_config = rget ow_config"

definition save_config :: "op_env \<Rightarrow> automation_config \<Rightarrow> unit operator_op" where
  "save_config E c =
     rthen (remit (StoreConfig c)) (if oc_saved E then rmodify (\<lambda>w. w\<lparr>ow_config := c\<rparr>) else rret ())"

definition edit_config :: "op_env \<Rightarrow> (automation_config \<Rightarrow> automation_config) \<Rightarrow> unit operator_op" where
  "edit_config E f = rbind get_config (\<lambda>c. save_config E (f c))"

definition set_active :: "int \<Rightarrow> string \<Rightarrow> string \<Rightarrow> unit operator_op" where
  "set_active chat alias sid = rmodify (\<lambda>w. w\<lparr>ow_active := AList.update chat (alias, sid) (ow_active w)\<rparr>)"

section \<open>Texts into a chat\<close>

definition improve_user_prompt :: "string \<Rightarrow> string \<Rightarrow> string" where
  "improve_user_prompt context original =
     (if trim context = [] then (''User prompt to rewrite:'' @ g_nl @ original)
      else (''Session context:'' @ g_nl @ context @ g_nl @ g_nl @ ''User prompt to rewrite:'' @ g_nl @ original))"

definition session_tail_context :: "turn list \<Rightarrow> string" where
  "session_tail_context tail =
     (if tail = [] then []
      else truncate_chars ((''Recent conversation:'' @ g_nl) @ concat (map (\<lambda>(who, msg).
        (if who = CHR ''U'' then ''USER'' else ''AGENT'') @ ('': '' @ (truncate_chars (trim msg) 300) @ g_nl)) tail)) 3000)"

definition emit_all_of :: "operator_effect list \<Rightarrow> unit operator_op" where
  "emit_all_of fx w = ((), fx, w)"

definition rewrite_for_send :: "op_env \<Rightarrow> string \<Rightarrow> string \<Rightarrow> string \<Rightarrow> string option operator_op" where
  "rewrite_for_send E alias sid original =
     rbind get_config (\<lambda>cfg.
       let mode = resolve cfg (Some sid) alias (oc_now E); p = rb_providers (ac_robot cfg)
       in if \<not> should_rewrite cfg mode \<or> pv_enabled p = [] then rret None
          else case improve (oc_pool E (improve_user_prompt (session_tail_context (oc_tail E sid)) original)) p
                      (discover_all (oc_probes E)) (oc_now E) pool_new of
                 (r, fx, _) \<Rightarrow>
                   rthen (emit_all_of (map Asks fx))
                     (rret (case r of
                        Inl _ \<Rightarrow> None
                      | Inr (_, t) \<Rightarrow>
                          if trim t = trim original \<or> trim t = [] then None
                          else if sm_enabled (ac_smart cfg)
                          then (case oc_guard E sid original t of
                                  (accepted, selected) \<Rightarrow>
                                    if accepted \<and> trim selected \<noteq> trim original then Some selected else None)
                          else Some t)))"

definition tell :: "op_env \<Rightarrow> u32 \<Rightarrow> string \<Rightarrow> told operator_op" where
  "tell E pid t = rthen (remit (Say pid t)) (rret (oc_tell E pid t))"

definition said_reply :: "told \<Rightarrow> bool \<Rightarrow> string \<Rightarrow> string" where
  "said_reply r rewrote t =
     (case r of
        Told \<Rightarrow> if rewrote then (g_pencil @ '' improved & sent (background '' @ g_to @ '' VS Code):'' @ g_nl @ t)
                else (g_mail @ '' sent (background '' @ g_to @ '' shows in VS Code too)'')
      | TellFailed e \<Rightarrow> (g_cross @ '' inject: '' @ e)
      | TellLost e \<Rightarrow> (g_cross @ '' task: '' @ e))"

definition say_in_background :: "op_env \<Rightarrow> u32 \<Rightarrow> string \<Rightarrow> string \<Rightarrow> string \<Rightarrow> string operator_op" where
  "say_in_background E pid alias sid t =
     rbind (rewrite_for_send E alias sid t) (\<lambda>r.
       let send = unwrap_or t r
       in rbind (tell E pid send) (\<lambda>out. rret (said_reply out (send \<noteq> t) send)))"

definition say_text_sid :: "op_env \<Rightarrow> string \<Rightarrow> string \<Rightarrow> string \<Rightarrow> string operator_op" where
  "say_text_sid E alias sid t =
     (case oc_pid E sid of
        Some pid \<Rightarrow> say_in_background E pid alias sid t
      | None \<Rightarrow>
          rbind (rewrite_for_send E alias sid t) (\<lambda>r.
            let send = unwrap_or t r; call = SendClaudeSession alias sid send
            in rthen (remit (Ctl call))
                 (rret (case oc_control E call of
                    Told \<Rightarrow> (g_mail @ '' typed into the window (no shim on this chat, so it went through the keyboard):'' @ g_nl @ send)
                  | TellFailed e \<Rightarrow> (g_cross @ '' this chat has no background channel and the window could not be typed into: '' @ e)
                  | TellLost e \<Rightarrow> (g_cross @ '' task: '' @ e)))))"

definition say_text :: "op_env \<Rightarrow> string \<Rightarrow> AgentKind \<Rightarrow> nat option \<Rightarrow> string \<Rightarrow> string operator_op" where
  "say_text E alias agent idx t =
     (let session = (if agent = ClaudeCode then Option.bind idx (\<lambda>i. claude_session_id alias i (oc_windows E)) else None);
          refusal = (if agent = Codex then (g_cross @ '' Background send to Codex is not available yet.'')
            else (g_cross @ '' No background channel for this chat. Background send needs the shim, and only chats opened after the shim was installed have it. Open a new Claude chat.''))
      in case session of
           None \<Rightarrow> rret refusal
         | Some sid \<Rightarrow>
             (case oc_pid E sid of
                None \<Rightarrow> rret refusal
              | Some pid \<Rightarrow> say_in_background E pid alias sid t))"

definition say_media_sid :: "op_env \<Rightarrow> string \<Rightarrow> string \<Rightarrow> nat \<Rightarrow> string \<Rightarrow> string \<Rightarrow> string operator_op" where
  "say_media_sid E alias sid count caption preamble =
     (case oc_pid E sid of
        None \<Rightarrow> rret (g_cross @ '' No background channel for this chat. Open a new Claude chat.'')
      | Some pid \<Rightarrow>
          rbind (if trim caption = [] then rret []
                 else rbind (rewrite_for_send E alias sid caption) (\<lambda>r. rret (unwrap_or caption r))) (\<lambda>final.
            let t = (if trim final = [] then preamble else (final @ g_nl @ g_nl @ preamble))
            in rbind (tell E pid t) (\<lambda>out.
                 rret (case out of
                    Told \<Rightarrow> (g_clip @ '' delivered '' @ (dec count) @ '' '' @ (noun_of count) @ '' to '' @ alias @ '' (background '' @ g_to @ '' VS Code)'')
                  | TellFailed e \<Rightarrow> (g_cross @ '' inject: '' @ e)
                  | TellLost e \<Rightarrow> (g_cross @ '' task: '' @ e)))))"

section \<open>Commands of the windows\<close>

definition required_arg :: "string list \<Rightarrow> nat \<Rightarrow> string \<Rightarrow> string + string" where
  "required_arg args i msg =
     (let v = trim (unwrap_or [] (nth_opt args i)) in if v = [] then Inl msg else Inr v)"

definition agent_arg :: "string list \<Rightarrow> string \<Rightarrow> string + AgentKind" where
  "agent_arg args usage =
     (case parse_agent (unwrap_or [] (nth_opt args 1)) of None \<Rightarrow> Inl usage | Some a \<Rightarrow> Inr a)"

definition rest_arg :: "string list \<Rightarrow> string" where
  "rest_arg args = trim (join '' '' (drop 2 args))"

definition sum_bind :: "'e + 'a \<Rightarrow> ('a \<Rightarrow> 'e + 'b) \<Rightarrow> 'e + 'b" where
  "sum_bind x f = (case x of Inl e \<Rightarrow> Inl e | Inr a \<Rightarrow> f a)"

text \<open>An error, or the call to make and what is told when it worked.\<close>

definition dispatch_ctl :: "string \<Rightarrow> string list \<Rightarrow> string + control_call \<times> string" where
  "dispatch_ctl verb args =
     sum_bind (required_arg args 0 ''workspace is required'') (\<lambda>alias.
       if verb = ''focus'' then Inr (FocusWindow alias, (g_eye @ '' focused '' @ alias))
       else if verb = ''say''
       then sum_bind (agent_arg args ''usage: /say <ws> <claude|codex> <text>'') (\<lambda>agent.
         let msg = rest_arg args
         in if msg = [] then Inl ''empty message''
            else Inr (SendPrompt alias agent msg, (g_mail @ '' sent to '' @ alias @ ''/'' @ (agent_str agent))))
       else if verb = ''stop''
       then sum_bind (agent_arg args ''usage: /stop <ws> <claude|codex>'') (\<lambda>agent.
         Inr (StopAgent alias agent, (g_halt @ '' stopped '' @ alias @ ''/'' @ (agent_str agent))))
       else if verb = ''accept'' then Inr (AcceptPrompt alias, (g_check @ '' accepted '' @ alias))
       else if verb = ''pick''
       then sum_bind (required_arg args 1 ''usage: pick <ws> <option_index>'') (\<lambda>n.
         case parse_usize n of
           None \<Rightarrow> Inl (''bad option index '' @ n)
         | Some idx \<Rightarrow> Inr (PickOption alias idx, (g_check @ '' picked option '' @ (dec (idx + 1)) @ '' in '' @ alias)))
       else if verb = ''cont''
       then sum_bind (agent_arg args ''usage: /cont <ws> <claude|codex>'') (\<lambda>agent.
         Inr (ContinueAgent alias agent, (g_play @ '' continued '' @ alias @ ''/'' @ (agent_str agent))))
       else if verb = ''mode'' then Inr (CycleMode alias ClaudeCode, (g_mix @ '' cycled mode '' @ alias))
       else if verb = ''slash''
       then sum_bind (agent_arg args ''usage: /slash <ws> <agent> <cmd>'') (\<lambda>agent.
         let scmd = rest_arg args
         in if scmd = [] then Inl ''empty slash command''
            else Inr (Slash alias agent scmd, (''/'' @ scmd @ '' '' @ g_to @ '' '' @ alias @ ''/'' @ (agent_str agent))))
       else Inl (''unknown verb '' @ verb))"

definition run_ctl :: "op_env \<Rightarrow> string \<Rightarrow> string list \<Rightarrow> string operator_op" where
  "run_ctl E verb args =
     (case dispatch_ctl verb args of
        Inl e \<Rightarrow> rret (g_cross @ '' '' @ e)
      | Inr (call, worked) \<Rightarrow>
          rthen (remit (Ctl call))
            (rret (case oc_control E call of
               Told \<Rightarrow> worked | TellFailed e \<Rightarrow> (g_cross @ '' '' @ e) | TellLost e \<Rightarrow> (g_cross @ '' task: '' @ e))))"

section \<open>Dangerous commands\<close>

definition danger_body :: "string list \<Rightarrow> string" where
  "danger_body list =
     (''# vsc-relay dangerous command patterns (one per line, case-insensitive substring)'' @ g_nl) @ join g_nl list @ g_nl"

definition write_danger :: "op_env \<Rightarrow> string list \<Rightarrow> string \<Rightarrow> string operator_op" where
  "write_danger E list worked =
     rthen (remit (WriteDanger (danger_body list)))
       (case oc_danger E of
          None \<Rightarrow> rthen (rmodify (\<lambda>w. w\<lparr>ow_danger := Some (danger_body list)\<rparr>)) (rret worked)
        | Some e \<Rightarrow> rret (g_cross @ '' '' @ e))"

definition danger_command :: "op_env \<Rightarrow> string \<Rightarrow> string \<Rightarrow> string operator_op" where
  "danger_command E sub arg =
     rbind (rget ow_danger) (\<lambda>file.
       let list = danger_patterns (oc_lower E) file; p = oc_lower E (trim arg)
       in if sub = [] \<or> sub = ''list''
          then (let src = (if file \<noteq> None then ''danger.txt'' else ''defaults'');
                    body = join g_nl (map (\<lambda>x. (g_bullet @ '' <code>'' @ (esc_html x) @ ''</code>'')) list)
                in rret (g_shield @ '' <b>Blocked commands</b> ('' @ src @ '') - stopped by the hook:'' @ g_nl @ body @ g_nl @ g_nl @ ''<i>/danger add rm -rf</i>'' @ g_nl @ ''<i>/danger del rm -rf</i>''))
          else if sub = ''add''
          then (if p = [] then rret ''usage: /danger add &lt;pattern&gt;''
                else write_danger E (if p \<in> set list then list else list @ [p]) (g_check @ '' added: <code>'' @ (esc_html p) @ ''</code>''))
          else if sub \<in> set [''del'', ''rm'', ''remove'']
          then (let kept = filter (\<lambda>x. x \<noteq> p) list
                in if length kept = length list then rret (''not found: <code>'' @ (esc_html p) @ ''</code>'')
                   else write_danger E kept (g_bin @ '' removed: <code>'' @ (esc_html p) @ ''</code>''))
          else rret ''usage: /danger [list | add &lt;p&gt; | del &lt;p&gt;]'')"

section \<open>Messages\<close>

definition pair_chat :: "op_env \<Rightarrow> int \<Rightarrow> string \<Rightarrow> unit operator_op" where
  "pair_chat E chat key w =
     (case try_pair (oc_digest E) (oc_paired_written E) (oc_instant E) chat key (ow_auth w) of
        (r, a) \<Rightarrow>
          ((), [SendText chat
            (case r of
               Paired \<Rightarrow> (g_check @ '' paired. this chat can now control the relay.'' @ g_nl @ ''chat id: <code>'' @ (dec_int chat) @ ''</code>'')
             | AlreadyAuthorized \<Rightarrow> ''already authorized''
             | Wrong \<Rightarrow> (g_cross @ '' wrong key'')
             | Throttled secs \<Rightarrow> (g_stop @ '' too many attempts. Try again in '' @ (dec (secs div 60 + 1)) @ '' min.'')
             | NoSecret \<Rightarrow> ''pairing is disabled (no RELAY_PAIR_SECRET set)'') None],
           w\<lparr>ow_auth := a\<rparr>))"

definition refuse :: "int \<Rightarrow> unit operator_op" where
  "refuse chat =
     rbind (rget (\<lambda>w. has_secret (ow_auth w))) (\<lambda>secret.
       send_text chat
         (if secret then (g_lock @ '' not authorized.'' @ g_nl @ ''Send <code>/auth &lt;key&gt;</code> to pair.'' @ g_nl @ ''your chat id: <code>'' @ (dec_int chat) @ ''</code>'')
          else (g_lock @ '' relay has no pairing secret. Ask the admin to set <code>RELAY_PAIR_SECRET</code> or add your chat id to <code>TELEGRAM_ALLOWED_CHATS</code>.'' @ g_nl @ ''your chat id: <code>'' @ (dec_int chat) @ ''</code>'')))"

definition ask_where :: "op_env \<Rightarrow> int \<Rightarrow> PendingMediaBatch \<Rightarrow> unit operator_op" where
  "ask_where E chat batch =
     (if pm_options batch = []
      then send_text chat (g_clip @ '' media received, but no live Claude session is available to route to. Open a chat, then send again.'')
      else rbind (rget ow_token) (\<lambda>token.
        rthen (rmodify (\<lambda>w. w\<lparr>ow_token := token + 1\<rparr>))
          (rbind (keyboard_op (media_picker_rows token (pm_options batch))) (\<lambda>kb.
            rthen (rmodify (\<lambda>w. w\<lparr>ow_media := AList.update token batch (ow_media w)\<rparr>))
              (let n = length (pm_files batch)
               in remit (SendText chat (g_clip @ '' '' @ (dec n) @ '' '' @ (noun_of n) @ '' received. Where should they go?'') (Some kb)))))))"

definition handle_media :: "op_env \<Rightarrow> incoming \<Rightarrow> unit operator_op" where
  "handle_media E m =
     (let chat = in_chat m; refs = media_refs (in_media m);
          staged = List.map_filter (\<lambda>(i, r). oc_fetch E i r) (enumerate 0 refs)
      in if refs = [] then rret ()
         else if staged = [] then send_text chat (g_cross @ '' could not fetch the attached media'')
         else rthen (remit SweepMedia)
           (let count = length staged; caption = unwrap_or [] (or_else (in_caption m) (in_text m));
                forward = forward_label (in_media m); preamble = build_media_preamble staged forward;
                target = Option.bind (Option.bind (Option.bind (in_reply m) id) parse_send_target) (\<lambda>t.
                  map_option (\<lambda>sid. (st_alias t, sid)) (resolve_target_sid (oc_windows E) t))
            in case target of
                 Some (alias, sid) \<Rightarrow>
                   rbind (say_media_sid E alias sid count caption preamble) (\<lambda>reply.
                     rthen (set_active chat alias sid) (send_text chat reply))
               | None \<Rightarrow>
                   rbind (rget (\<lambda>w. map_of (ow_active w) chat)) (\<lambda>active_chat.
                     case active_chat of
                       Some (alias, sid) \<Rightarrow> rbind (say_media_sid E alias sid count caption preamble) (send_text chat)
                     | None \<Rightarrow>
                         ask_where E chat
                           \<lparr>pm_files = staged, pm_caption = caption, pm_forward = forward,
                            pm_options = claude_session_options (oc_pid E) (oc_windows E)\<rparr>)))"

definition reply_to_target :: "op_env \<Rightarrow> int \<Rightarrow> SendTarget \<Rightarrow> string \<Rightarrow> unit operator_op" where
  "reply_to_target E chat t text =
     rbind (case st_sid t of
              Some sid \<Rightarrow> say_text_sid E (st_alias t) sid text
            | None \<Rightarrow> say_text E (st_alias t) (st_agent t) (st_idx t) text) (send_text chat)"

definition auto_command :: "op_env \<Rightarrow> int \<Rightarrow> string list \<Rightarrow> unit operator_op" where
  "auto_command E chat toks =
     (if nth_opt toks 1 = Some ''providers''
      then rbind get_config (\<lambda>c. send_view chat (automation_providers_view c (discover_all (oc_probes E))))
      else if nth_opt toks 1 = Some ''model''
      then (case (nth_opt toks 2, nth_opt toks 3) of
              (Some i, Some model) \<Rightarrow>
                if backend_of i \<noteq> None
                then rthen (edit_config E (map_providers (provider_set_model i model)))
                       (send_text chat (g_check @ '' '' @ i @ '' model = '' @ model))
                else send_text chat ''usage: /auto model &lt;provider&gt; &lt;model&gt;''
            | _ \<Rightarrow> send_text chat ''usage: /auto model &lt;provider&gt; &lt;model&gt;'')
      else rthen (case Option.bind (nth_opt toks 1) (mode_parse (oc_lower E)) of
                    Some m \<Rightarrow> edit_config E (set_scope ScDefault m None)
                  | None \<Rightarrow> rret ())
             (rbind get_config (\<lambda>c. send_view chat (automation_home_view c))))"

definition text_command :: "op_env \<Rightarrow> int \<Rightarrow> string \<Rightarrow> string list \<Rightarrow> unit operator_op" where
  "text_command E chat cmd toks =
     (if cmd \<in> set [''/start'', ''/menu'', ''/windows'', ''/win''] then send_view chat (home_view (oc_windows E))
      else if cmd = ''/auto'' then auto_command E chat toks
      else if cmd = ''/help'' then send_text chat help_text
      else if cmd = ''/status''
      then send_text chat (case nth_opt toks 1 of
             Some alias \<Rightarrow> format_status (oc_windows E) alias | None \<Rightarrow> ''usage: /status &lt;workspace&gt;'')
      else if cmd \<in> set [''/focus'', ''/say'', ''/stop'', ''/cont'', ''/mode'', ''/slash'']
      then rbind (run_ctl E (tl cmd) (tl toks)) (send_text chat)
      else rret ())"

definition authorized_message :: "op_env \<Rightarrow> incoming \<Rightarrow> string \<Rightarrow> string \<Rightarrow> string list \<Rightarrow> unit operator_op" where
  "authorized_message E m text cmd toks =
     (let chat = in_chat m
      in if has_media (in_media m) then handle_media E m
         else if cmd = ''/danger''
         then rbind (danger_command E (unwrap_or [] (nth_opt toks 1)) (trim (join '' '' (drop 2 toks)))) (send_text chat)
         else case Option.bind (Option.bind (in_reply m) id) parse_send_target of
                Some t \<Rightarrow> reply_to_target E chat t text
              | None \<Rightarrow>
                  rbind (rget (\<lambda>w. if text \<noteq> [] \<and> \<not> starts_with ''/'' text \<and> in_reply m = None
                                   then map_of (ow_active w) chat else None)) (\<lambda>target.
                    case target of
                      Some (alias, sid) \<Rightarrow> rbind (say_text_sid E alias sid text) (send_text chat)
                    | None \<Rightarrow> text_command E chat cmd toks))"

definition handle_message :: "op_env \<Rightarrow> incoming \<Rightarrow> unit operator_op" where
  "handle_message E m =
     (let chat = in_chat m; text = unwrap_or [] (in_text m); toks = split_whitespace text;
          cmd = unwrap_or [] (nth_opt toks 0)
      in if cmd = ''/auth'' then pair_chat E chat (unwrap_or [] (nth_opt toks 1))
         else rbind (rget (\<lambda>w. is_authorized (ow_auth w) chat)) (\<lambda>ok.
           if ok then authorized_message E m text cmd toks else refuse chat))"

section \<open>Presses\<close>

definition answer_press :: "press \<Rightarrow> string \<Rightarrow> unit operator_op" where
  "answer_press q t = remit (AnswerPress (pr_id q) t)"

definition edit_card :: "press \<Rightarrow> string \<Rightarrow> json option \<Rightarrow> unit operator_op" where
  "edit_card q t kb = (case pr_message q of Some (c, mid) \<Rightarrow> remit (EditMessage c mid t kb) | None \<Rightarrow> rret ())"

definition show_view :: "press \<Rightarrow> view operator_op \<Rightarrow> unit operator_op" where
  "show_view q v =
     rbind v (\<lambda>(t, rows). rbind (keyboard_op rows) (\<lambda>kb. rthen (edit_card q t (Some kb)) (answer_press q [])))"

definition edit_cards :: "card_ref list \<Rightarrow> string \<Rightarrow> unit operator_op" where
  "edit_cards cards t = emit_all_of (map (\<lambda>(c, mid). EditMessage c mid t None) cards)"

definition pick_op :: "u32 \<Rightarrow> nat \<Rightarrow> nat \<Rightarrow> (string \<times> json) option operator_op" where
  "pick_op pid qi oi w =
     (case handle_pick pid qi oi (ow_questions w) (cb_of w) of
        (shown, qs, s) \<Rightarrow> (shown, [], set_cb s (w\<lparr>ow_questions := qs\<rparr>)))"

definition submit_op :: "op_env \<Rightarrow> u32 \<Rightarrow> (string + card_ref list) operator_op" where
  "submit_op E pid w =
     (case handle_submit (oc_perm E) pid (ow_questions w) of
        (r, fx, qs) \<Rightarrow> (r, map QuestionEffect fx, w\<lparr>ow_questions := qs\<rparr>))"

definition press_question :: "op_env \<Rightarrow> press \<Rightarrow> string \<Rightarrow> unit operator_op" where
  "press_question E q rest =
     (case by_colon rest of
        [a, pid, qi, oi] \<Rightarrow>
          if a \<noteq> ''p'' then answer_press q ''?''
          else rthen (case (parse_u32 pid, parse_usize qi, parse_usize oi) of
                 (Some p, Some i, Some j) \<Rightarrow>
                   rbind (pick_op p i j) (\<lambda>shown. case shown of Some (t, kb) \<Rightarrow> edit_card q t (Some kb) | None \<Rightarrow> rret ())
               | _ \<Rightarrow> rret ()) (answer_press q [])
      | [a, pid] \<Rightarrow>
          if a \<noteq> ''s'' then answer_press q ''?''
          else (case parse_u32 pid of
                  None \<Rightarrow> answer_press q ''bad pid''
                | Some p \<Rightarrow>
                    rbind (submit_op E p) (\<lambda>r.
                      case r of
                        Inr cards \<Rightarrow> rthen (edit_cards cards (g_check @ '' answer sent (background)'')) (answer_press q (g_check @ '' sent''))
                      | Inl e \<Rightarrow> answer_press q e))
      | _ \<Rightarrow> answer_press q ''?'')"

definition press_full_text :: "press \<Rightarrow> string \<Rightarrow> unit operator_op" where
  "press_full_text q ids =
     rbind (rget (\<lambda>w. Option.bind (parse_uint U32_MAX ids) (store_get (cb_of w)))) (\<lambda>full.
       case (pr_message q, full) of
         (Some (c, _), Some t) \<Rightarrow>
           rthen (emit_all_of (map (\<lambda>chunk. SendText c (''<pre>'' @ (esc_html chunk) @ ''</pre>'') None) (chunk_text t 3500)))
             (answer_press q [])
       | _ \<Rightarrow> answer_press q ''text no longer available'')"

definition resolve_permission :: "op_env \<Rightarrow> string \<Rightarrow> bool \<Rightarrow> (string + card_ref list) operator_op" where
  "resolve_permission E reqid allow w =
     (let perm = ig_perm (ow_ingress w)
      in case resolve_request (oc_perm E) reqid allow (pm_pending perm) of
           (r, fx, ps) \<Rightarrow>
             (r, map PermissionEffect fx, w\<lparr>ow_ingress := (ow_ingress w)\<lparr>ig_perm := perm\<lparr>pm_pending := ps\<rparr>\<rparr>\<rparr>))"

definition press_permission :: "op_env \<Rightarrow> press \<Rightarrow> string \<Rightarrow> unit operator_op" where
  "press_permission E q rest =
     (let (verb, enc) = (case split_once '':'' rest of Some (v, e) \<Rightarrow> (v, Some e) | None \<Rightarrow> (rest, None));
          allow = (verb = ''a''); label = (if allow then (g_check @ '' allowed'') else (g_stop @ '' denied''))
      in case enc of
           None \<Rightarrow> answer_press q ''bad id''
         | Some e \<Rightarrow>
             rbind (rget (\<lambda>w. decode_or_raw e (cb_of w))) (\<lambda>reqid.
             rbind (resolve_permission E reqid allow) (\<lambda>r.
               case r of
                 Inr cards \<Rightarrow> rthen (edit_cards cards label) (answer_press q label)
               | Inl err \<Rightarrow> answer_press q err)))"

definition hook_op :: "op_env \<Rightarrow> string \<Rightarrow> bool \<Rightarrow> bool operator_op" where
  "hook_op E reqid allow w =
     (case resolve_hook (oc_now E) reqid allow (ow_ingress w) of
        (ok, replies, s) \<Rightarrow> (ok, map (\<lambda>(c, d). HookReply c d) replies, w\<lparr>ow_ingress := s\<rparr>))"

definition press_approval :: "op_env \<Rightarrow> press \<Rightarrow> string \<Rightarrow> bool \<Rightarrow> unit operator_op" where
  "press_approval E q reqid allow =
     (let label = (if allow then (g_check @ '' approved'') else (g_stop @ '' denied''))
      in rbind (hook_op E reqid allow) (\<lambda>ok.
           rthen (answer_press q (if ok then label else ''expired'')) (edit_card q label None)))"

definition back_home :: "string \<Rightarrow> view" where
  "back_home t = (t, [[((g_left @ '' Back''), ''m:home'')]])"

definition setting_view :: "op_env \<Rightarrow> string \<Rightarrow> string \<Rightarrow> view" where
  "setting_view E k spec =
     (case parse_alias_idx spec of
        None \<Rightarrow> back_home ''bad ref''
      | Some (alias, idx) \<Rightarrow>
          setting_picker k alias idx
            (if k \<noteq> ''model'' then None
             else Option.bind (window_of alias (oc_windows E)) (\<lambda>w.
               Option.bind (nth_opt (we_claude w) idx) (\<lambda>c.
                 active_model (oc_upper E) (oc_transcript E (we_workspace w) (cg_session_id c))))))"

definition menu_view :: "op_env \<Rightarrow> press \<Rightarrow> string \<Rightarrow> view operator_op" where
  "menu_view E q rest =
     (let ws = oc_windows E
      in if rest = ''home'' then rret (home_view ws)
         else case strip_prefix ''w:'' rest of
           Some alias \<Rightarrow> rret (window_view ws alias)
         | None \<Rightarrow>
         (case strip_prefix ''c:'' rest of
           Some spec \<Rightarrow>
             (case parse_chat_spec spec of
                None \<Rightarrow> rret (back_home ''bad chat ref'')
              | Some (alias, agent, idx) \<Rightarrow>
                  rthen (case (pr_message q, if agent = ClaudeCode then claude_session_id alias idx ws else None) of
                           (Some (c, _), Some sid) \<Rightarrow> set_active c alias sid
                         | _ \<Rightarrow> rret ())
                    (rret (chat_view (oc_pid E) ws alias agent idx)))
         | None \<Rightarrow>
             (case find (\<lambda>k. starts_with (k @ '':'') rest) [''model'', ''effort'', ''mode''] of
                Some k \<Rightarrow> rret (setting_view E k (drop (length k + 1) rest))
              | None \<Rightarrow> rret (back_home ''unknown view''))))"

section \<open>The automation menu\<close>

definition toggle_smart :: "op_env \<Rightarrow> unit operator_op" where
  "toggle_smart E =
     rbind get_config (\<lambda>cfg.
       let enable = (\<not> sm_enabled (ac_smart cfg)); install_ok = (\<not> enable \<or> oc_session_hooks E);
           smart = (if install_ok then (ac_smart cfg)\<lparr>sm_enabled := enable\<rparr> else ac_smart cfg);
           smart = (if \<not> sm_enabled smart then smart\<lparr>sm_steer := False, sm_gate := False\<rparr> else smart)
       in rthen (if enable then remit SessionHooks else rret ()) (save_config E (cfg\<lparr>ac_smart := smart\<rparr>)))"

definition toggle_gate :: "op_env \<Rightarrow> unit operator_op" where
  "toggle_gate E =
     rbind get_config (\<lambda>cfg.
       if sm_gate (ac_smart cfg) then save_config E (map_smart (\<lambda>s. s\<lparr>sm_gate := False\<rparr>) cfg)
       else rthen (remit GateHooks)
         (save_config E (if oc_gate_hooks E then map_smart (\<lambda>s. s\<lparr>sm_enabled := True, sm_gate := True\<rparr>) cfg else cfg)))"

definition when_config :: "(automation_config \<Rightarrow> bool) \<Rightarrow> unit operator_op \<Rightarrow> unit operator_op" where
  "when_config P m = rbind get_config (\<lambda>c. if P c then m else rret ())"

definition map_auto :: "(auto_rules \<Rightarrow> auto_rules) \<Rightarrow> automation_config \<Rightarrow> automation_config" where
  "map_auto f c = c\<lparr>ac_auto := f (ac_auto c)\<rparr>"

definition map_review :: "(review_rules \<Rightarrow> review_rules) \<Rightarrow> automation_config \<Rightarrow> automation_config" where
  "map_review f c = c\<lparr>ac_review := f (ac_review c)\<rparr>"

definition join_arrows :: "string list \<Rightarrow> string" where
  "join_arrows = join ('' '' @ g_to @ '' '')"

text \<open>The switches of the menu by their name.\<close>

definition switch :: "op_env \<Rightarrow> string \<Rightarrow> unit operator_op option" where
  "switch E rest =
     (if rest = ''smart'' then Some (toggle_smart E)
      else if rest = ''steer''
      then Some (when_config (\<lambda>c. sm_enabled (ac_smart c)) (edit_config E (map_smart (\<lambda>s. s\<lparr>sm_steer := \<not> sm_steer s\<rparr>))))
      else if rest = ''feedback''
      then Some (when_config (\<lambda>c. sm_enabled (ac_smart c))
             (edit_config E (map_smart (\<lambda>s. s\<lparr>sm_feedback_protocol := \<not> sm_feedback_protocol s\<rparr>))))
      else if rest = ''gate'' then Some (toggle_gate E)
      else if rest = ''answerq''
      then Some (edit_config E (map_auto (\<lambda>a. a\<lparr>ar_auto_answer_questions := \<not> ar_auto_answer_questions a\<rparr>)))
      else if rest = ''guard''
      then Some (edit_config E (map_auto (\<lambda>a. a\<lparr>ar_guard_dangerous := \<not> ar_guard_dangerous a\<rparr>)))
      else if rest = ''review''
      then Some (edit_config E (map_review (\<lambda>r. r\<lparr>rv_enabled := \<not> rv_enabled r,
             rv_steer := (if rv_enabled r then False else rv_steer r)\<rparr>)))
      else if rest = ''rsteer''
      then Some (when_config (\<lambda>c. rv_enabled (ac_review c)) (edit_config E (map_review (\<lambda>r. r\<lparr>rv_steer := \<not> rv_steer r\<rparr>))))
      else if rest = ''rdepth''
      then Some (edit_config E (map_review (\<lambda>r. r\<lparr>rv_depth := next_review_depth (rv_depth r)\<rparr>)))
      else if rest = ''revery''
      then Some (edit_config E (map_review (\<lambda>r. r\<lparr>rv_every_secs := next_review_cadence (rv_every_secs r)\<rparr>)))
      else None)"

definition toggle_reviewer :: "string \<Rightarrow> review_rules \<Rightarrow> review_rules" where
  "toggle_reviewer i r =
     r\<lparr>rv_reviewers := (if i \<in> set (rv_reviewers r) then remove1 i (rv_reviewers r) else rv_reviewers r @ [i])\<rparr>"

definition session_review_run ::
  "op_env \<Rightarrow> press \<Rightarrow> string \<Rightarrow> char \<Rightarrow> nat \<Rightarrow> string option \<Rightarrow> ReviewDepth option \<Rightarrow> view operator_op"
where
  "session_review_run E q alias kind idx reviewer depth =
     rbind get_config (\<lambda>cfg.
       let family = chat_family kind;
           back = [[((g_left @ '' Back''), chat_card_callback alias kind idx), ((g_lens @ '' Again''), (''au:rnow:'' @ alias @ '':'' @ ([kind]) @ '':'' @ (dec idx)))]];
           reviewers = pv_enabled (chosen_reviewers family (ac_review cfg) (rb_providers (ac_robot cfg)) reviewer)
       in case chat_transcript alias kind idx (oc_windows E) of
            None \<Rightarrow> rret ((''chat gone in '' @ alias), back)
          | Some (sid, transcript) \<Rightarrow>
              if reviewers = []
              then rret ((g_lens @ '' <b>Cross review</b>'' @ g_nl @ g_nl @ ''No reviewer is enabled for this chat. Pick one under Reviewers.''), back)
              else rthen (rmodify (\<lambda>w. w\<lparr>ow_reviews := ow_reviews w @
                     [\<lparr>as_family = family, as_session = sid, as_alias = alias, as_transcript = transcript,
                       as_reviewer = reviewer, as_depth = depth, as_chat = map_option fst (pr_message q)\<rparr>]\<rparr>))
                (rret ((g_lens @ '' <b>Cross review</b> '' @ g_dot @ '' '' @ (esc_html alias) @ g_nl @ ''Asking <b>'' @ (esc_html (join_arrows reviewers)) @ ''</b>, depth <b>'' @ (depth_label (unwrap_or (rv_depth (ac_review cfg)) depth)) @ ''</b>, whether this '' @ (family_label family) @ '' chat still serves your last instruction.'' @ g_nl @ g_nl @ ''<i>The verdict arrives as a separate message in about a minute, and any correction is sent straight into the chat.</i>''),
                  back)))"

definition home_op :: "view operator_op" where
  "home_op = rbind get_config (\<lambda>c. rret (automation_home_view c))"

definition providers_op :: "op_env \<Rightarrow> view operator_op" where
  "providers_op E = rbind get_config (\<lambda>c. rret (automation_providers_view c (discover_all (oc_probes E))))"

definition reviewers_op :: "op_env \<Rightarrow> view operator_op" where
  "reviewers_op E = rbind get_config (\<lambda>c. rret (review_reviewers_view c (discover_all (oc_probes E))))"

definition session_op :: "op_env \<Rightarrow> string \<Rightarrow> nat \<Rightarrow> view operator_op" where
  "session_op E alias idx = rbind get_config (\<lambda>c. rret (session_auto_view c (oc_now E) (oc_windows E) alias idx))"

definition review_menu_op :: "op_env \<Rightarrow> string \<Rightarrow> char \<Rightarrow> nat \<Rightarrow> ReviewDepth option \<Rightarrow> view operator_op" where
  "review_menu_op E alias kind idx depth =
     rbind get_config (\<lambda>c. rret (session_review_menu c (discover_all (oc_probes E)) alias kind idx depth))"

text \<open>Requests on one chat: reviews and pins.\<close>

definition review_press :: "op_env \<Rightarrow> press \<Rightarrow> string \<Rightarrow> view operator_op option" where
  "review_press E q rest =
     (case strip_prefix ''rnow:'' rest of
        Some spec \<Rightarrow>
          Some (case parse_chat_ref spec of
                  Some (alias, kind, idx) \<Rightarrow> review_menu_op E alias kind idx None | None \<Rightarrow> home_op)
      | None \<Rightarrow>
      (case strip_prefix ''rm:'' rest of
        Some spec \<Rightarrow>
          Some (case Option.bind (rsplit_once '':'' spec) (\<lambda>(r, code).
                       Option.bind (parse_chat_ref r) (\<lambda>c. map_option (\<lambda>k. (c, k)) (nth_opt code 0))) of
                  Some ((alias, kind, idx), k) \<Rightarrow> review_menu_op E alias kind idx (depth_from_code k)
                | None \<Rightarrow> home_op)
      | None \<Rightarrow>
      (case strip_prefix ''rr:'' rest of
        Some spec \<Rightarrow>
          Some (case Option.bind (rsplit_once '':'' spec) (\<lambda>(r, code). map_option (\<lambda>c. (c, code)) (parse_chat_ref r)) of
                  Some ((alias, kind, idx), code) \<Rightarrow>
                    (let codes = map hd (chars_of code)
                     in session_review_run E q alias kind idx (Option.bind (nth_opt codes 0) reviewer_from_code)
                          (Option.bind (nth_opt codes 1) depth_from_code))
                | None \<Rightarrow> home_op)
      | None \<Rightarrow> None)))"

definition pin_press :: "op_env \<Rightarrow> string \<Rightarrow> view operator_op option" where
  "pin_press E rest =
     (case strip_prefix ''ss:'' rest of
        Some spec \<Rightarrow>
          (let ps = rsplitn 3 '':'' spec
           in Some (case (nth_opt ps 2, Option.bind (nth_opt ps 1) parse_usize, Option.bind (nth_opt ps 0) (mode_parse (oc_lower E))) of
                (Some alias, Some idx, Some m) \<Rightarrow>
                  rthen (case claude_session_id alias idx (oc_windows E) of
                           Some sid \<Rightarrow> edit_config E (set_scope (ScSession sid) m None) | None \<Rightarrow> rret ())
                    (session_op E alias idx)
              | _ \<Rightarrow> home_op))
      | None \<Rightarrow>
      (case strip_prefix ''sx:'' rest of
        Some spec \<Rightarrow>
          (let ps = rsplitn 2 '':'' spec
           in Some (case (nth_opt ps 1, Option.bind (nth_opt ps 0) parse_usize) of
                (Some alias, Some idx) \<Rightarrow>
                  rthen (case claude_session_id alias idx (oc_windows E) of
                           Some sid \<Rightarrow> edit_config E (clear_scope (ScSession sid)) | None \<Rightarrow> rret ())
                    (session_op E alias idx)
              | _ \<Rightarrow> home_op))
      | None \<Rightarrow>
      (case strip_prefix ''s:'' rest of
        Some spec \<Rightarrow>
          (let ps = rsplitn 2 '':'' spec
           in Some (case (nth_opt ps 1, Option.bind (nth_opt ps 0) parse_usize) of
                (Some alias, Some idx) \<Rightarrow> session_op E alias idx | _ \<Rightarrow> home_op))
      | None \<Rightarrow> None)))"

definition automation_view :: "op_env \<Rightarrow> press \<Rightarrow> string \<Rightarrow> view operator_op" where
  "automation_view E q rest =
     (if rest = ''home'' then home_op
      else if rest = ''rules'' then rret (automation_rules_text, [[((g_left @ '' Back''), ''au:home'')]])
      else case Option.bind (strip_prefix ''def:'' rest) (mode_parse (oc_lower E)) of
        Some m \<Rightarrow> rthen (edit_config E (set_scope ScDefault m None)) home_op
      | None \<Rightarrow>
      if rest = ''chats'' then rbind get_config (\<lambda>c. rret (automation_chats_view c (oc_now E) (oc_windows E)))
      else if rest = ''prov'' then providers_op E
      else case switch E rest of
        Some m \<Rightarrow> rthen m home_op
      | None \<Rightarrow>
      if rest = ''rprov'' then reviewers_op E
      else case strip_prefix ''rp:'' rest of
        Some i \<Rightarrow>
          rthen (if backend_of i \<noteq> None then edit_config E (map_review (toggle_reviewer i)) else rret ()) (reviewers_op E)
      | None \<Rightarrow>
      (case review_press E q rest of
        Some m \<Rightarrow> m
      | None \<Rightarrow>
      (case strip_prefix ''pt:'' rest of
        Some i \<Rightarrow>
          rthen (if backend_of i \<noteq> None then edit_config E (map_providers (toggle i)) else rret ()) (providers_op E)
      | None \<Rightarrow>
      (case Option.bind (strip_prefix ''ps:'' rest) (strategy_parse (oc_lower E)) of
        Some s \<Rightarrow> rthen (edit_config E (map_providers (\<lambda>p. p\<lparr>pv_strategy := s\<rparr>))) (providers_op E)
      | None \<Rightarrow>
      (case pin_press E rest of
        Some m \<Rightarrow> m
      | None \<Rightarrow> home_op)))))"

section \<open>Hand off and actions\<close>

definition handoff_op :: "op_env \<Rightarrow> handoff_call \<Rightarrow> view operator_op" where
  "handoff_op E c = rthen (remit (HandOff c)) (rret (oc_handoff E c))"

definition token_and_ordinal :: "string \<Rightarrow> u32 option \<times> nat option" where
  "token_and_ordinal spec =
     (let ps = rsplitn 2 '':'' spec in (Option.bind (nth_opt ps 1) parse_u32, Option.bind (nth_opt ps 0) parse_usize))"

definition handoff_view :: "op_env \<Rightarrow> string \<Rightarrow> view operator_op" where
  "handoff_view E rest =
     (case strip_prefix ''go:'' rest of
        Some spec \<Rightarrow> handoff_op E (case token_and_ordinal spec of (t, n) \<Rightarrow> HandoffGo t n)
      | None \<Rightarrow>
      (case strip_prefix ''receipt:'' rest of
        Some spec \<Rightarrow> handoff_op E (case token_and_ordinal spec of (t, n) \<Rightarrow> HandoffReceipt t n)
      | None \<Rightarrow>
      (case strip_prefix ''inject:'' rest of
        Some spec \<Rightarrow> handoff_op E (case token_and_ordinal spec of (t, n) \<Rightarrow> HandoffInject t n)
      | None \<Rightarrow>
          (let ps = rsplitn 2 '':'' rest
           in case (nth_opt ps 1, Option.bind (nth_opt ps 0) parse_usize) of
                (Some alias, Some idx) \<Rightarrow> handoff_op E (HandoffPick alias idx)
              | _ \<Rightarrow> rret (''handoff needs a chat'', [[((g_left @ '' Windows''), ''m:home'')]])))))"

definition apply_setting :: "op_env \<Rightarrow> string \<Rightarrow> string \<Rightarrow> string \<Rightarrow> string \<Rightarrow> string operator_op" where
  "apply_setting E alias idx kind val =
     (case parse_usize idx of
        None \<Rightarrow> rret ''bad idx''
      | Some i \<Rightarrow>
          (case Option.bind (window_of alias (oc_windows E)) (\<lambda>w. chat_bg_pid (oc_pid E) w i) of
             None \<Rightarrow> rret (g_cross @ '' background channel unavailable for this chat (no shim)'')
           | Some pid \<Rightarrow>
               rthen (remit (SetOption kind pid val))
                 (rret (case oc_set E kind pid val of
                    Told \<Rightarrow> (g_check @ '' '' @ kind @ '' = '' @ val) | TellFailed e \<Rightarrow> (g_cross @ '' '' @ e) | TellLost e \<Rightarrow> (g_cross @ '' '' @ e)))))"

definition media_pick :: "op_env \<Rightarrow> press \<Rightarrow> string \<Rightarrow> string \<Rightarrow> string operator_op" where
  "media_pick E q token idx =
     (case (parse_u64 token, parse_usize idx) of
        (Some tk, Some i) \<Rightarrow>
          rbind (rget (\<lambda>w. map_of (ow_media w) tk)) (\<lambda>batch.
          rthen (rmodify (\<lambda>w. w\<lparr>ow_media := AList.delete tk (ow_media w)\<rparr>))
            (case batch of
               None \<Rightarrow> rret ''media selection expired''
             | Some b \<Rightarrow>
                 (case nth_opt (pm_options b) i of
                    None \<Rightarrow> rret ''unknown target''
                  | Some (alias, sid) \<Rightarrow>
                      rbind (say_media_sid E alias sid (length (pm_files b)) (pm_caption b)
                               (build_media_preamble (pm_files b) (pm_forward b))) (\<lambda>reply.
                        rthen (case pr_message q of
                                 Some (c, mid) \<Rightarrow> rthen (set_active c alias sid) (remit (EditMessage c mid reply None))
                               | None \<Rightarrow> rret ())
                          (rret (g_clip @ '' routed''))))))
      | _ \<Rightarrow> rret ''bad media selection'')"

definition force_reply :: json where
  "force_reply = JObject [(''force_reply'', JBool True), (''input_field_placeholder'', JString ''type your prompt'')]"

text \<open>A message that asks for a reply; what it names is where the reply goes.\<close>

definition ask_reply :: "press \<Rightarrow> string \<Rightarrow> string \<Rightarrow> string operator_op" where
  "ask_reply q t answer =
     rthen (case pr_message q of Some (c, _) \<Rightarrow> remit (SendText c t (Some force_reply)) | None \<Rightarrow> rret ()) (rret answer)"

definition say_prompt :: "string \<Rightarrow> string \<Rightarrow> string" where
  "say_prompt alias agent = (g_write @ '' Reply with your prompt'' @ g_nl @ g_to @ '' '' @ alias @ '' / '' @ agent)"

definition sayid_prompt :: "string \<Rightarrow> string \<Rightarrow> string" where
  "sayid_prompt alias sid =
     (g_write @ '' Type your message - it goes to this chat (background). Active: '' @ alias @ g_nl @ g_to @ '' '' @ alias @ '' / claude / sid:'' @ sid)"

definition action_press :: "op_env \<Rightarrow> press \<Rightarrow> string list \<Rightarrow> string operator_op" where
  "action_press E q ap =
     (case ap of
        [a, alias] \<Rightarrow>
          if a = ''ok'' then run_ctl E ''accept'' [alias]
          else if a = ''mode'' then run_ctl E ''mode'' [alias]
          else if a = ''focus'' then run_ctl E ''focus'' [alias]
          else rret ''unknown action''
      | [a, alias, x] \<Rightarrow>
          if a = ''say'' then ask_reply q (say_prompt alias x) ''reply with your prompt''
          else if a = ''sayid''
          then rthen (case pr_message q of Some (c, _) \<Rightarrow> set_active c alias x | None \<Rightarrow> rret ())
                 (ask_reply q (sayid_prompt alias x) ''reply to write into the chat'')
          else if a = ''stop'' then run_ctl E ''stop'' [alias, x]
          else if a = ''pick'' then run_ctl E ''pick'' [alias, x]
          else if a = ''cont'' then run_ctl E ''cont'' [alias, x]
          else if a = ''cont2''
          then (case parse_usize x of
                  Some i \<Rightarrow> say_text E alias ClaudeCode (Some i) ''continue'' | None \<Rightarrow> rret ''bad idx'')
          else if a = ''media'' then media_pick E q alias x
          else rret ''unknown action''
      | [a, alias, x, y] \<Rightarrow>
          if a = ''say'' then ask_reply q ((say_prompt alias x) @ '' / '' @ y) ''reply with your prompt''
          else if a = ''sbar''
          then ask_reply q (g_talk @ '' Reply - goes into the SIDEBAR chat'' @ g_nl @ g_to @ '' '' @ alias @ '' / '' @ x @ '' / '' @ y @ '' / sidebar'') ''reply for sidebar''
          else if a = ''setmodel'' then apply_setting E alias x ''model'' y
          else if a = ''seteffort'' then apply_setting E alias x ''effort'' y
          else if a = ''setmode'' then apply_setting E alias x ''mode'' y
          else if a = ''read''
          then (case (parse_agent x, parse_usize y, pr_message q) of
                  (Some agent, Some i, Some (c, _)) \<Rightarrow>
                    rthen (send_text c (build_tail (oc_claude_tail E) (oc_codex_tail E) (oc_windows E) alias agent i))
                      (rret (g_page @ '' sent''))
                | _ \<Rightarrow> rret ''bad read ref'')
          else rret ''unknown action''
      | _ \<Rightarrow> rret ''unknown action'')"

definition legacy_press :: "op_env \<Rightarrow> string \<Rightarrow> string operator_op" where
  "legacy_press E data =
     (case split_on (\<lambda>c. c = CHR ''|'') data of
        [a, alias] \<Rightarrow> if a = ''focus'' then run_ctl E ''focus'' [alias] else rret ''unknown action''
      | [a, alias, agent] \<Rightarrow>
          if a = ''stop'' then run_ctl E ''stop'' [alias, agent]
          else if a = ''cont'' then run_ctl E ''cont'' [alias, agent]
          else rret ''unknown action''
      | _ \<Rightarrow> rret ''unknown action'')"

definition route_press :: "op_env \<Rightarrow> press \<Rightarrow> string \<Rightarrow> unit operator_op" where
  "route_press E q data =
     (case strip_prefix ''aq:'' data of Some rest \<Rightarrow> press_question E q rest | None \<Rightarrow>
     (case strip_prefix ''ft:'' data of Some ids \<Rightarrow> press_full_text q ids | None \<Rightarrow>
     (case strip_prefix ''pm:'' data of Some rest \<Rightarrow> press_permission E q rest | None \<Rightarrow>
     (case strip_prefix ''approve|'' data of Some reqid \<Rightarrow> press_approval E q reqid True | None \<Rightarrow>
     (case strip_prefix ''deny|'' data of Some reqid \<Rightarrow> press_approval E q reqid False | None \<Rightarrow>
     (case strip_prefix ''m:'' data of Some rest \<Rightarrow> show_view q (menu_view E q rest) | None \<Rightarrow>
     (case strip_prefix ''au:'' data of Some rest \<Rightarrow> show_view q (automation_view E q rest) | None \<Rightarrow>
     (case strip_prefix ''ho:'' data of Some rest \<Rightarrow> show_view q (handoff_view E rest) | None \<Rightarrow>
     (case strip_prefix ''act:'' data of Some rest \<Rightarrow> rbind (action_press E q (by_colon rest)) (answer_press q) | None \<Rightarrow>
      rbind (legacy_press E data) (answer_press q))))))))))"

definition handle_callback :: "op_env \<Rightarrow> press \<Rightarrow> unit operator_op" where
  "handle_callback E q =
     rbind (rget (\<lambda>w. is_authorized (ow_auth w) (pr_from q))) (\<lambda>ok.
       if \<not> ok then answer_press q (g_lock @ '' not authorized'')
       else rbind (rget (\<lambda>w. decode_or_raw (unwrap_or [] (pr_data q)) (cb_of w))) (route_press E q))"

section \<open>Reviews that were asked for\<close>

definition deliver_review_correction :: "op_env \<Rightarrow> asked_review \<Rightarrow> string \<Rightarrow> string operator_op" where
  "deliver_review_correction E t correction =
     (let outcome = (\<lambda>r. case r of
            Told \<Rightarrow> ''Sent into the chat.''
          | TellFailed e \<Rightarrow> (''Could not send it: '' @ e)
          | TellLost e \<Rightarrow> (''Could not send it: '' @ e))
      in if \<not> steer_is_safe (oc_lower E) correction then rret ''Held back: it asked to widen scope or permissions.''
         else if as_family t = CodexFamily
         then (let call = SendPrompt (as_alias t) Codex correction
               in rthen (remit (Ctl call)) (rret (outcome (oc_control E call))))
         else case oc_pid E (as_session t) of
                None \<Rightarrow> rret ''Not sent: this chat has no background channel (no shim).''
              | Some pid \<Rightarrow> rbind (tell E pid correction) (\<lambda>r. rret (outcome r)))"

definition perform_review ::
  "op_env \<Rightarrow> asked_review \<Rightarrow> (string + Backend \<times> ReviewDepth \<times> review \<times> string option) operator_op"
where
  "perform_review E t =
     rbind get_config (\<lambda>cfg.
       let depth = unwrap_or (rv_depth (ac_review cfg)) (as_depth t); family = as_family t;
           providers = chosen_reviewers family (ac_review cfg) (rb_providers (ac_robot cfg)) (as_reviewer t)
       in if pv_enabled providers = [] then rret (Inl (''no reviewer is enabled for a '' @ (family_label family) @ '' chat''))
          else case oc_view E family (as_transcript t) depth of
                 None \<Rightarrow> rret (Inl ''task'')
               | Some (goal, tail) \<Rightarrow>
                   if tail = [] then rret (Inl ''nothing readable in that chat yet'')
                   else (case ask_reviewer (oc_pool E (review_prompt family goal tail depth)) (oc_parse E) (oc_as_f64 E)
                                providers (oc_probes E) (oc_now E) pool_new of
                     (res, fx, _) \<Rightarrow>
                       rthen (emit_all_of (map Asks fx))
                         (case res of
                            Inl e \<Rightarrow> rret (Inl e)
                          | Inr (b, r) \<Rightarrow>
                              (case rw_correction r of
                                 None \<Rightarrow> rret (Inr (b, depth, r, None))
                               | Some c \<Rightarrow>
                                   rbind (deliver_review_correction E t c) (\<lambda>d. rret (Inr (b, depth, r, Some d)))))))"

definition review_outcome_html :: "string \<Rightarrow> Backend \<times> ReviewDepth \<times> review \<times> string option \<Rightarrow> string" where
  "review_outcome_html alias out =
     (case out of (b, depth, r, delivery) \<Rightarrow>
       (g_lens @ '' <b>Cross review</b> '' @ g_dot @ '' '' @ (esc_html alias) @ g_nl @ ''Reviewer: <b>'' @ (esc_html (backend_id b)) @ ''</b> '' @ g_dot @ '' depth '' @ (depth_label depth) @ g_nl @ ''Verdict: <b>'' @ (esc_html (verdict_label (rw_verdict r))) @ ''</b>'' @ g_nl @ g_nl @ ''<b>Task as the reviewer read it</b>'' @ g_nl @ (esc_html (rw_goal_restated r))) @
       (if rw_gaps r = [] then []
        else (g_nl @ g_nl @ ''<b>Gaps</b>'' @ g_nl) @ join g_nl (map (\<lambda>g. (g_bullet @ '' '' @ (esc_html g))) (rw_gaps r))) @
       (case (rw_correction r, delivery) of
          (Some t, Some d) \<Rightarrow> (g_nl @ g_nl @ ''<b>Correction</b>'' @ g_nl @ (esc_html t) @ g_nl @ g_nl @ (esc_html d))
        | (Some t, None) \<Rightarrow> (g_nl @ g_nl @ ''<b>Correction</b>'' @ g_nl @ (esc_html t))
        | (None, _) \<Rightarrow> (g_nl @ g_nl @ ''<i>Nothing to correct, the chat was left alone.</i>'')))"

definition run_asked_review :: "op_env \<Rightarrow> asked_review \<Rightarrow> unit operator_op" where
  "run_asked_review E t =
     rbind (perform_review E t) (\<lambda>r.
       let text = (case r of
             Inr out \<Rightarrow> review_outcome_html (as_alias t) out
           | Inl e \<Rightarrow> (g_lens @ '' <b>Cross review</b> '' @ g_dot @ '' '' @ (esc_html (as_alias t)) @ g_nl @ g_nl @ ''No reviewer answered: '' @ (esc_html e)))
       in case as_chat t of Some c \<Rightarrow> send_text c text | None \<Rightarrow> rret ())"

section \<open>Runs\<close>

datatype operator_event =
    Incoming op_env incoming
  | Pressed op_env press
  | ReviewAsked nat op_env

definition operator_op_of :: "operator_event \<Rightarrow> unit operator_op" where
  "operator_op_of ev w =
     (case ev of
        Incoming E m \<Rightarrow> handle_message E m w
      | Pressed E q \<Rightarrow> handle_callback E q w
      | ReviewAsked i E \<Rightarrow>
          if i < length (ow_reviews w)
          then run_asked_review E (ow_reviews w ! i) (w\<lparr>ow_reviews := without i (ow_reviews w)\<rparr>) else ((), [], w))"

definition operator_step :: "operator_event \<Rightarrow> operator_world \<Rightarrow> operator_world" where
  "operator_step ev w = snd (snd (operator_op_of ev w))"

definition operator_effects :: "operator_event \<Rightarrow> operator_world \<Rightarrow> operator_effect list" where
  "operator_effects ev w = fst (snd (operator_op_of ev w))"

end
