(* ===== verification/Operator_Props.thy ===== *)
theory Operator_Props
  imports Operator
begin

text \<open>What messages and presses of the operator may do, and that they do it.\<close>

section \<open>Kinds of effects\<close>

text \<open>Effects on a session: a text said in the background, a setting, keys pressed in the window.\<close>

fun acts :: "operator_effect \<Rightarrow> bool" where
  "acts (Say _ _) = True"
| "acts (SetOption _ _ _) = True"
| "acts (Ctl _) = True"
| "acts _ = False"

fun is_answer :: "operator_effect \<Rightarrow> bool" where
  "is_answer (AnswerPress _ _) = True"
| "is_answer _ = False"

lemma acts_no_answer: "acts x \<Longrightarrow> \<not> is_answer x"
  by (cases x) simp_all

section \<open>Rules on the parts\<close>

lemma says_mono: "says Q m \<Longrightarrow> (\<And>x. Q x \<Longrightarrow> P x) \<Longrightarrow> says P m"
  by (auto simp: says_def list_all_iff)

lemma rbind_get [simp]: "rbind (rget f) k w = k (f w) w"
  by (simp add: rbind_def rget_def split: prod.splits)

lemma says_parts [says_rules]:
  "says P (keyboard_op rows)" "says P get_config" "says P (set_active c a s)" "says P (pick_op pid i j)"
  by (simp_all add: says_def keyboard_op_def get_config_def rget_def set_active_def rmodify_def pick_op_def
      split: prod.splits)

lemma says_all [says_rules]: "(\<And>x. x \<in> set fx \<Longrightarrow> P x) \<Longrightarrow> says P (emit_all_of fx)"
  by (simp add: says_def emit_all_of_def list_all_iff)

lemma says_prod [says_rules]: "(\<And>a b. x = (a, b) \<Longrightarrow> says P (f a b)) \<Longrightarrow> says P (case x of (a, b) \<Rightarrow> f a b)"
  by (cases x) simp

lemma says_sum [says_rules]:
  "(\<And>a. x = Inl a \<Longrightarrow> says P (f a)) \<Longrightarrow> (\<And>b. x = Inr b \<Longrightarrow> says P (g b)) \<Longrightarrow>
   says P (case x of Inl a \<Rightarrow> f a | Inr b \<Rightarrow> g b)"
  by (cases x) simp_all

lemma says_still_config [says_rules]:
  "(\<And>c. P (StoreConfig c)) \<Longrightarrow> says P (save_config E cfg)"
  "(\<And>c. P (StoreConfig c)) \<Longrightarrow> says P (edit_config E f)"
  by (simp_all add: save_config_def edit_config_def says_rules)

lemma says_send_view [says_rules]: "(\<And>t kb. P (SendText c t kb)) \<Longrightarrow> says P (send_view c v)"
  unfolding send_view_def by (intro says_rules) simp

lemma says_send_text [says_rules]: "(\<And>kb. P (SendText c t kb)) \<Longrightarrow> says P (send_text c t)"
  unfolding send_text_def by (intro says_rules) simp

lemma says_rewrite [says_rules]: "(\<And>x. P (Asks x)) \<Longrightarrow> says P (rewrite_for_send E a sid t)"
  unfolding rewrite_for_send_def Let_def by (intro says_rules) auto

lemma says_tell [says_rules]: "P (Say pid t) \<Longrightarrow> says P (tell E pid t)"
  unfolding tell_def by (intro says_rules)

lemma says_background [says_rules]:
  "(\<And>x. P (Asks x)) \<Longrightarrow> (\<And>t. P (Say pid t)) \<Longrightarrow> says P (say_in_background E pid a sid t)"
  unfolding say_in_background_def Let_def by (intro says_rules) auto

lemma says_text_sid [says_rules]:
  "(\<And>x. P (Asks x)) \<Longrightarrow> (\<And>p t. oc_pid E sid = Some p \<Longrightarrow> P (Say p t)) \<Longrightarrow>
   (\<And>t. oc_pid E sid = None \<Longrightarrow> P (Ctl (SendClaudeSession a sid t))) \<Longrightarrow> says P (say_text_sid E a sid t)"
  unfolding say_text_sid_def Let_def by (intro says_rules) auto

lemma says_say_text [says_rules]:
  "(\<And>x. P (Asks x)) \<Longrightarrow>
   (\<And>i s p t. idx = Some i \<Longrightarrow> claude_session_id a i (oc_windows E) = Some s \<Longrightarrow> oc_pid E s = Some p \<Longrightarrow> P (Say p t)) \<Longrightarrow>
   says P (say_text E a ag idx t)"
  unfolding say_text_def Let_def by (intro says_rules) (auto split: if_splits bind_splits)

lemma says_media [says_rules]:
  "(\<And>x. P (Asks x)) \<Longrightarrow> (\<And>p t. oc_pid E sid = Some p \<Longrightarrow> P (Say p t)) \<Longrightarrow>
   says P (say_media_sid E a sid n cap pre)"
  unfolding say_media_sid_def Let_def by (intro says_rules) auto

lemma says_ctl [says_rules]:
  "(\<And>call ok. dispatch_ctl verb args = Inr (call, ok) \<Longrightarrow> P (Ctl call)) \<Longrightarrow> says P (run_ctl E verb args)"
  unfolding run_ctl_def by (intro says_rules) auto

lemma says_danger [says_rules]: "(\<And>b. P (WriteDanger b)) \<Longrightarrow> says P (danger_command E sub arg)"
  unfolding danger_command_def write_danger_def Let_def by (intro says_rules) auto

lemma says_review_run [says_rules]: "says P (session_review_run E q a k i r d)"
  unfolding session_review_run_def Let_def by (intro says_rules)

lemma says_views [says_rules]:
  "says P home_op" "says P (providers_op E)" "says P (reviewers_op E)" "says P (session_op E a i)"
  "says P (review_menu_op E a k i d)"
  by (simp_all add: home_op_def providers_op_def reviewers_op_def session_op_def review_menu_op_def says_rules)

lemma says_menu [says_rules]: "says P (menu_view E q rest)"
  unfolding menu_view_def Let_def by (intro says_rules)

lemma says_switches:
  "(\<And>c. P (StoreConfig c)) \<Longrightarrow> P SessionHooks \<Longrightarrow> says P (toggle_smart E)"
  "(\<And>c. P (StoreConfig c)) \<Longrightarrow> P GateHooks \<Longrightarrow> says P (toggle_gate E)"
  "says P m \<Longrightarrow> says P (when_config Q m)"
  unfolding toggle_smart_def toggle_gate_def when_config_def Let_def by (intro says_rules; assumption)+

lemma says_switch:
  "(\<And>c. P (StoreConfig c)) \<Longrightarrow> P SessionHooks \<Longrightarrow> P GateHooks \<Longrightarrow> switch E rest = Some m \<Longrightarrow> says P m"
  by (auto simp: switch_def says_switches says_still_config split: if_splits)

lemma says_review_press: "review_press E q rest = Some m \<Longrightarrow> says P m"
  by (auto simp: review_press_def Let_def split: option.splits intro: says_rules)

lemma says_pin_press: "(\<And>c. P (StoreConfig c)) \<Longrightarrow> pin_press E rest = Some m \<Longrightarrow> says P m"
  by (auto simp: pin_press_def Let_def says_views says_then says_still_config says_basic split: option.splits)

lemma says_automation [says_rules]:
  "(\<And>c. P (StoreConfig c)) \<Longrightarrow> P SessionHooks \<Longrightarrow> P GateHooks \<Longrightarrow> says P (automation_view E q rest)"
  unfolding automation_view_def
  by (intro says_rules) (auto intro: says_switch says_review_press says_pin_press)

lemma says_handoff [says_rules]: "(\<And>h. P (HandOff h)) \<Longrightarrow> says P (handoff_view E rest)"
  unfolding handoff_view_def handoff_op_def Let_def by (intro says_rules) (auto intro: says_rules)

lemma says_card [says_rules]:
  "(\<And>c i. P (EditMessage c i t kb)) \<Longrightarrow> says P (edit_card q t kb)"
  "(\<And>c i. P (EditMessage c i t None)) \<Longrightarrow> says P (edit_cards cards t)"
  unfolding edit_card_def edit_cards_def by (intro says_rules; auto)+

lemma says_set_option [says_rules]:
  "(\<And>w i p. parse_usize idx = Some i \<Longrightarrow> window_of a (oc_windows E) = Some w \<Longrightarrow> chat_bg_pid (oc_pid E) w i = Some p \<Longrightarrow>
     P (SetOption k p v)) \<Longrightarrow> says P (apply_setting E a idx k v)"
  unfolding apply_setting_def by (intro says_rules) (auto split: bind_splits)

lemma says_ask [says_rules]: "(\<And>c. P (SendText c t (Some force_reply))) \<Longrightarrow> says P (ask_reply q t x)"
  unfolding ask_reply_def by (intro says_rules) auto

lemma says_list [says_rules]:
  "(x = [] \<Longrightarrow> says P m) \<Longrightarrow> (\<And>y ys. x = y # ys \<Longrightarrow> says P (k y ys)) \<Longrightarrow> says P (case x of [] \<Rightarrow> m | y # ys \<Rightarrow> k y ys)"
  by (cases x) simp_all

lemma says_media_pick:
  "(\<And>x. P (Asks x)) \<Longrightarrow> (\<And>p t. P (Say p t)) \<Longrightarrow> (\<And>c i t. P (EditMessage c i t None)) \<Longrightarrow> says P (media_pick E q tk i)"
  unfolding media_pick_def by (intro says_rules) auto

lemma says_action:
  assumes "\<And>x. acts x \<Longrightarrow> P x" "\<And>x. P (Asks x)" "\<And>c i t. P (EditMessage c i t None)" "\<And>c t kb. P (SendText c t kb)"
  shows "says P (action_press E q ap)"
  unfolding action_press_def by (intro says_rules says_media_pick) (simp_all add: assms)

lemma says_legacy: "(\<And>call. P (Ctl call)) \<Longrightarrow> says P (legacy_press E d)"
  unfolding legacy_press_def by (intro says_rules) simp_all

lemma says_submit [says_rules]: "(\<And>f. P (QuestionEffect f)) \<Longrightarrow> says P (submit_op E p)"
  by (simp add: says_def submit_op_def list_all_iff split: prod.splits)

lemma says_permission [says_rules]: "(\<And>f. P (PermissionEffect f)) \<Longrightarrow> says P (resolve_permission E i b)"
  by (simp add: says_def resolve_permission_def Let_def list_all_iff split: prod.splits)

lemma says_hook [says_rules]: "(\<And>n d. P (HookReply n d)) \<Longrightarrow> says P (hook_op E i b)"
  by (auto simp add: says_def hook_op_def list_all_iff split: prod.splits)

lemma says_answer [says_rules]: "P (AnswerPress (pr_id q) t) \<Longrightarrow> says P (answer_press q t)"
  unfolding answer_press_def by (intro says_rules)

lemma says_view [says_rules]:
  "says P v \<Longrightarrow> (\<And>c i t kb. P (EditMessage c i t kb)) \<Longrightarrow> P (AnswerPress (pr_id q) []) \<Longrightarrow> says P (show_view q v)"
  unfolding show_view_def by (intro says_rules) simp_all

lemma says_presses [says_rules]:
  assumes "\<And>i t. P (AnswerPress i t)" "\<And>c i t kb. P (EditMessage c i t kb)" "\<And>c t kb. P (SendText c t kb)"
    "\<And>f. P (QuestionEffect f)" "\<And>f. P (PermissionEffect f)" "\<And>n d. P (HookReply n d)"
  shows "says P (press_question E q rest)" "says P (press_full_text q i)" "says P (press_permission E q rest)"
    "says P (press_approval E q i b)"
  unfolding press_question_def press_full_text_def press_permission_def press_approval_def Let_def
  by (intro says_rules; auto simp: assms)+

section \<open>A press is answered once\<close>

definition answered :: "press \<Rightarrow> 'a operator_op \<Rightarrow> bool" where
  "answered q m \<longleftrightarrow> (\<forall>w. \<exists>t. filter is_answer (fst (snd (m w))) = [AnswerPress (pr_id q) t])"

named_theorems answered_rules "how a press is answered"

abbreviation silent :: "'a operator_op \<Rightarrow> bool" where
  "silent m \<equiv> says (\<lambda>x. \<not> is_answer x) m"

lemma silent_none: "silent m \<Longrightarrow> filter is_answer (fst (snd (m w))) = []"
  by (simp add: says_def list_all_iff)

lemma answered_bind [answered_rules]: "silent m \<Longrightarrow> (\<And>x. answered q (k x)) \<Longrightarrow> answered q (rbind m k)"
  by (simp add: answered_def rbind_parts silent_none)

lemma answered_then: "silent m \<Longrightarrow> answered q k \<Longrightarrow> answered q (rthen m k)"
  unfolding rthen_def by (rule answered_bind)

lemma answered_before: "answered q m \<Longrightarrow> silent k \<Longrightarrow> answered q (rthen m k)"
  by (simp add: answered_def rthen_def rbind_parts silent_none)

lemma answered_cases [answered_rules]:
  "(b \<Longrightarrow> answered q m) \<Longrightarrow> (\<not> b \<Longrightarrow> answered q k) \<Longrightarrow> answered q (if b then m else k)"
  "(x = None \<Longrightarrow> answered q m) \<Longrightarrow> (\<And>y. x = Some y \<Longrightarrow> answered q (f y)) \<Longrightarrow>
   answered q (case x of None \<Rightarrow> m | Some y \<Rightarrow> f y)"
  "(z = [] \<Longrightarrow> answered q m) \<Longrightarrow> (\<And>y ys. z = y # ys \<Longrightarrow> answered q (g y ys)) \<Longrightarrow>
   answered q (case z of [] \<Rightarrow> m | y # ys \<Rightarrow> g y ys)"
  "(\<And>a. s = Inl a \<Longrightarrow> answered q (l a)) \<Longrightarrow> (\<And>b. s = Inr b \<Longrightarrow> answered q (r b)) \<Longrightarrow>
   answered q (case s of Inl a \<Rightarrow> l a | Inr b \<Rightarrow> r b)"
  "(\<And>a b. p = (a, b) \<Longrightarrow> answered q (h a b)) \<Longrightarrow> answered q (case p of (a, b) \<Rightarrow> h a b)"
  by (simp_all split: option.split list.split sum.split prod.split)

lemma answered_answer [answered_rules]: "answered q (answer_press q t)"
  by (simp add: answered_def answer_press_def remit_def)

lemma answered_view: "silent v \<Longrightarrow> answered q (show_view q v)"
  unfolding show_view_def by (intro answered_rules answered_then says_rules) auto

lemma answered_question: "answered q (press_question E q rest)"
  unfolding press_question_def by (intro answered_rules answered_then says_rules) simp_all

lemma answered_full_text: "answered q (press_full_text q i)"
  unfolding press_full_text_def by (intro answered_rules answered_then says_rules) auto

lemma answered_permission: "answered q (press_permission E q rest)"
  unfolding press_permission_def Let_def by (intro answered_rules answered_then says_rules) simp_all

lemma answered_approval: "answered q (press_approval E q i b)"
  unfolding press_approval_def Let_def by (intro answered_rules answered_before says_rules) simp_all

lemma answered_route: "answered q (route_press E q d)"
  unfolding route_press_def
  by (intro answered_rules answered_question answered_full_text answered_permission answered_approval answered_view
      says_rules says_action says_legacy) (simp_all add: acts_no_answer)

text \<open>
  C23. Every press of a button is answered exactly once, under its own id, whoever pressed it, whatever
  it carries and whatever becomes of it.
\<close>

theorem every_press_is_answered:
  "\<exists>t. filter is_answer (operator_effects (Pressed E q) w) = [AnswerPress (pr_id q) t]"
proof -
  have "answered q (handle_callback E q)"
    unfolding handle_callback_def by (intro answered_rules answered_route says_rules)
  then show ?thesis by (simp add: answered_def operator_effects_def operator_op_of_def)
qed

section \<open>One act per event\<close>

definition once :: "'a operator_op \<Rightarrow> bool" where
  "once m \<longleftrightarrow> (\<forall>w. length (filter acts (fst (snd (m w)))) \<le> 1)"

named_theorems once_rules "operations that act at most once"

abbreviation inert :: "'a operator_op \<Rightarrow> bool" where
  "inert m \<equiv> says (\<lambda>x. \<not> acts x) m"

lemma inert_none: "inert m \<Longrightarrow> filter acts (fst (snd (m w))) = []"
  by (simp add: says_def list_all_iff)

lemma once_inert: "inert m \<Longrightarrow> once m"
  by (simp add: once_def inert_none)

lemma once_later: "inert m \<Longrightarrow> (\<And>x. once (k x)) \<Longrightarrow> once (rbind m k)" "inert m \<Longrightarrow> once k' \<Longrightarrow> once (rthen m k')"
  by (simp_all add: once_def rthen_def rbind_parts inert_none)

lemma once_before: "once m \<Longrightarrow> (\<And>x. inert (k x)) \<Longrightarrow> once (rbind m k)" "once m \<Longrightarrow> inert k' \<Longrightarrow> once (rthen m k')"
  by (simp_all add: once_def rthen_def rbind_parts inert_none)

lemma once_cases [once_rules]:
  "(b \<Longrightarrow> once m) \<Longrightarrow> (\<not> b \<Longrightarrow> once k) \<Longrightarrow> once (if b then m else k)"
  "(x = None \<Longrightarrow> once m) \<Longrightarrow> (\<And>y. x = Some y \<Longrightarrow> once (f y)) \<Longrightarrow> once (case x of None \<Rightarrow> m | Some y \<Rightarrow> f y)"
  "(z = [] \<Longrightarrow> once m) \<Longrightarrow> (\<And>y ys. z = y # ys \<Longrightarrow> once (g y ys)) \<Longrightarrow> once (case z of [] \<Rightarrow> m | y # ys \<Rightarrow> g y ys)"
  "(\<And>a. s = Inl a \<Longrightarrow> once (l a)) \<Longrightarrow> (\<And>b. s = Inr b \<Longrightarrow> once (r b)) \<Longrightarrow> once (case s of Inl a \<Rightarrow> l a | Inr b \<Rightarrow> r b)"
  "(\<And>a b. p = (a, b) \<Longrightarrow> once (h a b)) \<Longrightarrow> once (case p of (a, b) \<Rightarrow> h a b)"
  by (simp_all split: option.split list.split sum.split prod.split)

lemma once_basic [once_rules]: "once (rret x)" "once (remit e)"
  by (simp_all add: once_def rret_def remit_def)

lemma once_sends [once_rules]: "once (send_text c t)" "once (send_view c v)"
  by (intro once_inert says_rules; simp)+

lemma once_tell [once_rules]: "once (tell E pid t)"
  unfolding tell_def by (intro once_before once_rules says_rules)

lemma once_background [once_rules]: "once (say_in_background E pid a sid t)"
  unfolding say_in_background_def Let_def by (intro once_later once_before once_tell says_rules) simp_all

lemma once_text_sid [once_rules]: "once (say_text_sid E a sid t)"
  unfolding say_text_sid_def Let_def
  by (intro once_rules once_later once_before(2) says_rules) simp_all

lemma once_text [once_rules]: "once (say_text E a ag i t)"
  unfolding say_text_def Let_def by (intro once_rules)

lemma once_media [once_rules]: "once (say_media_sid E a sid n cap pre)"
  unfolding say_media_sid_def Let_def by (intro once_rules once_later(1) once_before(1) says_rules) simp_all

lemma once_ctl [once_rules]: "once (run_ctl E verb args)"
  unfolding run_ctl_def by (intro once_rules once_before(2) says_rules)

lemma once_option [once_rules]: "once (apply_setting E a i k v)"
  unfolding apply_setting_def by (intro once_rules once_before(2) says_rules)

lemma once_said:
  "(\<And>x. inert (k x)) \<Longrightarrow> once (rbind (say_media_sid E a sid n cap pre) k)"
  "(\<And>x. inert (k x)) \<Longrightarrow> once (rbind (say_text_sid E a sid t) k)"
  "(\<And>x. inert (k x)) \<Longrightarrow> once (rbind (say_text E a ag j t) k)"
  "(\<And>x. inert (k x)) \<Longrightarrow> once (rbind (run_ctl E verb args) k)"
  "once (rthen (remit e) (rret y))"
  by (intro once_before once_rules says_rules; simp)+

lemma once_handle_media: "once (handle_media E m)"
  unfolding handle_media_def ask_where_def Let_def
  by (intro once_said once_rules once_later says_rules) simp_all

lemma once_media_pick [once_rules]: "once (media_pick E q tk i)"
  unfolding media_pick_def by (intro once_said once_rules once_later says_rules) simp_all

lemma once_action [once_rules]: "once (action_press E q ap)"
proof -
  have ask: "once (ask_reply q t x)" for t x
    by (intro once_inert says_rules) simp
  show ?thesis
    unfolding action_press_def by (intro ask once_said once_rules once_later says_rules) simp_all
qed

lemma once_legacy [once_rules]: "once (legacy_press E d)"
  unfolding legacy_press_def by (intro once_rules)

lemma once_route: "once (route_press E q d)"
proof -
  have view: "once (show_view q v)" if "inert v" for v
    by (intro once_inert says_rules that) simp_all
  have answer: "once (rbind m (answer_press q))" if "once m" for m
    by (intro once_before that says_rules) simp
  have presses: "once (press_question E q rest)" "once (press_full_text q rest)" "once (press_permission E q rest)"
    "once (press_approval E q rest b)" for rest b
    by (intro once_inert says_rules; simp)+
  show ?thesis
    unfolding route_press_def
    by (intro once_cases(2) view answer presses once_action once_legacy says_rules) simp_all
qed

lemma once_callback: "once (handle_callback E q)"
  unfolding handle_callback_def by (intro once_rules once_later once_route says_rules once_inert) simp_all

lemma once_message: "once (handle_message E m)"
proof -
  have pair: "once (pair_chat E c k)" for c k
    by (simp add: once_def pair_chat_def split: prod.splits)
  have refuse: "once (refuse c)" for c
    unfolding refuse_def by (intro once_rules once_later says_rules)
  have auto: "once (auto_command E c toks)" for c toks
    unfolding auto_command_def by (intro once_rules once_inert says_rules) auto
  have command: "once (text_command E c cmd toks)" for c cmd toks
    unfolding text_command_def by (intro once_said auto once_rules says_rules) simp_all
  have target: "once (reply_to_target E c t x)" for c t x
    by (cases "st_sid t") (simp_all add: reply_to_target_def once_said says_send_text)
  have danger: "once (rbind (danger_command E a b) (send_text c))" for a b c
    by (intro once_inert says_rules) simp_all
  have authorized: "once (authorized_message E m x cmd toks)" for x cmd toks
    unfolding authorized_message_def Let_def
    by (intro once_handle_media danger target command once_said once_rules once_later says_rules) simp_all
  show ?thesis
    unfolding handle_message_def Let_def by (intro once_rules once_later pair refuse authorized says_rules)
qed

lemma says_pool_effects [says_rules]: "(\<And>x. P (Asks x)) \<Longrightarrow> says P (emit_all_of (map Asks fx))"
  by (auto simp: says_def emit_all_of_def list_all_iff)

lemma once_delivery [once_rules]: "once (deliver_review_correction E t c)"
  unfolding deliver_review_correction_def Let_def
  by (intro once_rules once_before says_rules)

lemma once_review: "once (run_asked_review E t)"
proof -
  have perform: "once (perform_review E t)"
    unfolding perform_review_def Let_def
    by (intro once_rules once_before(1) [OF once_delivery] once_later says_rules) simp_all
  show ?thesis
    unfolding run_asked_review_def Let_def by (intro once_before(1) perform says_rules) simp_all
qed


section \<open>Strangers\<close>

fun operator_run :: "operator_event list \<Rightarrow> operator_world \<Rightarrow> operator_effect list \<times> operator_world" where
  "operator_run [] w = ([], w)"
| "operator_run (ev # evs) w =
     (let (fx, w') = operator_run evs (operator_step ev w) in (operator_effects ev w @ fx, w'))"

definition offered_key :: "incoming \<Rightarrow> string option" where
  "offered_key m =
     (let toks = split_whitespace (unwrap_or [] (in_text m))
      in if nth_opt toks 0 = Some ''/auth'' then Some (unwrap_or [] (nth_opt toks 1)) else None)"

text \<open>An event of someone who is not authorized and does not offer the key.\<close>

definition stranger :: "auth \<Rightarrow> operator_event \<Rightarrow> bool" where
  "stranger a ev =
     (case ev of
        Incoming E m \<Rightarrow>
          \<not> is_authorized a (in_chat m) \<and>
          (case (offered_key m, au_secret a) of
             (Some key, Some secret) \<Rightarrow> oc_digest E (trim key) \<noteq> oc_digest E secret
           | _ \<Rightarrow> True)
      | Pressed E q \<Rightarrow> \<not> is_authorized a (pr_from q)
      | ReviewAsked i E \<Rightarrow> False)"

text \<open>A text without buttons to a chat that wrote, or the refusal of a press.\<close>

definition refusal :: "operator_event list \<Rightarrow> operator_effect \<Rightarrow> bool" where
  "refusal evs x =
     (case x of
        SendText c t kb \<Rightarrow> kb = None \<and> (\<exists>E m. Incoming E m \<in> set evs \<and> in_chat m = c)
      | AnswerPress i t \<Rightarrow> \<exists>E q. Pressed E q \<in> set evs \<and> pr_id q = i
      | _ \<Rightarrow> False)"

abbreviation same_paired :: "auth \<Rightarrow> auth \<Rightarrow> bool" where
  "same_paired a b \<equiv>
     au_allowed_env a = au_allowed_env b \<and> au_authorized a = au_authorized b \<and> au_secret a = au_secret b"

lemma try_pair_same:
  assumes "\<And>secret. au_secret a = Some secret \<Longrightarrow> digest (trim key) \<noteq> digest secret"
  shows "same_paired (snd (try_pair digest ok now chat key a)) a"
  using assms by (auto simp: try_pair_def constant_eq_def Let_def split: option.split)

lemma stranger_same: "same_paired a b \<Longrightarrow> stranger a ev = stranger b ev"
  by (simp add: stranger_def is_authorized_def split: operator_event.split)

lemma stranger_step:
  assumes "stranger (ow_auth w) ev"
  shows "list_all (refusal [ev]) (operator_effects ev w) \<and>
    (\<exists>a. operator_step ev w = w\<lparr>ow_auth := a\<rparr> \<and> same_paired a (ow_auth w))"
proof (cases ev)
  case (Incoming E m)
  let ?toks = "split_whitespace (unwrap_or [] (in_text m))"
  show ?thesis
  proof (cases "unwrap_or [] (nth_opt ?toks 0) = ''/auth''")
    case True
    then have key: "offered_key m = Some (unwrap_or [] (nth_opt ?toks 1))"
      by (auto simp: offered_key_def unwrap_or_def split: option.splits)
    have same: "same_paired (snd (try_pair (oc_digest E) (oc_paired_written E) (oc_instant E) (in_chat m)
        (unwrap_or [] (nth_opt ?toks 1)) (ow_auth w))) (ow_auth w)"
      by (rule try_pair_same) (use assms key in \<open>simp add: Incoming stranger_def\<close>)
    then show ?thesis
      by (auto simp: Incoming operator_effects_def operator_step_def operator_op_of_def handle_message_def
          True pair_chat_def refusal_def split: prod.splits)
  next
    case False
    moreover have "\<not> is_authorized (ow_auth w) (in_chat m)"
      using assms by (simp add: Incoming stranger_def)
    ultimately show ?thesis
      by (auto simp: Incoming operator_effects_def operator_step_def operator_op_of_def handle_message_def Let_def
          refuse_def send_text_def remit_def refusal_def intro!: exI [of _ "ow_auth w"])
  qed
next
  case (Pressed E q)
  with assms have "\<not> is_authorized (ow_auth w) (pr_from q)" by (simp add: stranger_def)
  then show ?thesis
    by (auto simp: Pressed operator_effects_def operator_step_def operator_op_of_def handle_callback_def Let_def
        answer_press_def remit_def refusal_def intro!: exI [of _ "ow_auth w"])
next
  case (ReviewAsked i E)
  with assms show ?thesis by (simp add: stranger_def)
qed

lemma refusal_mono: "refusal evs x \<Longrightarrow> set evs \<subseteq> set fvs \<Longrightarrow> refusal fvs x"
  by (auto simp: refusal_def split: operator_effect.splits)


section \<open>Where a text goes\<close>

text \<open>The session a message names: by the prompt it replies to, else the one its chat has chosen.\<close>

definition addressed :: "op_env \<Rightarrow> incoming \<Rightarrow> operator_world \<Rightarrow> string \<Rightarrow> string \<Rightarrow> bool" where
  "addressed E m w alias sid \<longleftrightarrow>
     (let named = Option.bind (Option.bind (in_reply m) id) parse_send_target
      in case Option.bind named (\<lambda>t. map_option (\<lambda>s. (st_alias t, s)) (resolve_target_sid (oc_windows E) t)) of
           Some x \<Rightarrow> x = (alias, sid)
         | None \<Rightarrow> map_of (ow_active w) (in_chat m) = Some (alias, sid))"

text \<open>
  What may be said for a text: the text, or what a provider made of it when the mode of the session asks
  for that, and the guard of the compass took it.
\<close>

definition sayable :: "op_env \<Rightarrow> automation_config \<Rightarrow> string \<Rightarrow> string \<Rightarrow> string \<Rightarrow> string \<Rightarrow> bool" where
  "sayable E cfg alias sid x t \<longleftrightarrow>
     t = x \<or>
     should_rewrite cfg (resolve cfg (Some sid) alias (oc_now E)) \<and>
     (sm_enabled (ac_smart cfg) \<longrightarrow> (\<exists>y. oc_guard E sid x y = (True, t)))"

lemma rewrite_sayable:
  "sayable E (ow_config w) a sid x (unwrap_or x (fst (rewrite_for_send E a sid x w)))"
  by (auto simp: sayable_def rewrite_for_send_def get_config_def Let_def rbind_parts rthen_def rret_def
      split: prod.splits sum.splits)

lemma background_says:
  assumes "Say p t \<in> set (fst (snd (say_in_background E pid a sid x w)))"
  shows "p = pid \<and> sayable E (ow_config w) a sid x t"
proof -
  have "\<not> Say p t \<in> set (fst (snd (rewrite_for_send E a sid x w)))"
    using says_rewrite [of "\<lambda>e. e \<noteq> Say p t" E a sid x] by (auto simp: says_def list_all_iff)
  with assms rewrite_sayable [of E w a sid x] show ?thesis
    by (auto simp: say_in_background_def rbind_parts Let_def tell_def rthen_def remit_def rret_def)
qed

lemma text_sid_says:
  assumes "Say p t \<in> set (fst (snd (say_text_sid E a sid x w)))"
  shows "oc_pid E sid = Some p \<and> sayable E (ow_config w) a sid x t"
proof (cases "oc_pid E sid")
  case None
  then have "says (\<lambda>e. e \<noteq> Say p t) (say_text_sid E a sid x)" by (intro says_rules) simp_all
  with assms show ?thesis by (auto simp: says_def list_all_iff)
next
  case (Some pid)
  with assms background_says [of p t E pid a sid x w] show ?thesis by (simp add: say_text_sid_def)
qed

lemma text_says:
  assumes "Say p t \<in> set (fst (snd (say_text E a ag idx x w)))"
  shows "\<exists>i sid. ag = ClaudeCode \<and> idx = Some i \<and> claude_session_id a i (oc_windows E) = Some sid \<and>
    oc_pid E sid = Some p \<and> sayable E (ow_config w) a sid x t"
  using assms
  by (auto simp: say_text_def Let_def rret_def dest!: background_says split: option.splits if_splits bind_splits)

text \<open>What is said from a given world.\<close>

definition says_in :: "operator_world \<Rightarrow> (operator_effect \<Rightarrow> bool) \<Rightarrow> 'a operator_op \<Rightarrow> bool" where
  "says_in w P m \<longleftrightarrow> list_all P (fst (snd (m w)))"

lemma says_in_all: "says P m \<Longrightarrow> says_in w P m"
  by (simp add: says_in_def says_def)

lemma says_in_steps:
  "says_in w P (k (f w)) \<Longrightarrow> says_in w P (rbind (rget f) k)"
  "P x \<Longrightarrow> says_in w P l \<Longrightarrow> says_in w P (rthen (remit x) l)"
  "says_in w P m \<Longrightarrow> (\<And>y. says P (j y)) \<Longrightarrow> says_in w P (rbind m j)"
  by (simp_all add: says_in_def rthen_def rbind_parts remit_def rget_def says_def)

lemma says_in_cases:
  "(b \<Longrightarrow> says_in w P m) \<Longrightarrow> (\<not> b \<Longrightarrow> says_in w P k) \<Longrightarrow> says_in w P (if b then m else k)"
  "(x = None \<Longrightarrow> says_in w P m) \<Longrightarrow> (\<And>y. x = Some y \<Longrightarrow> says_in w P (f y)) \<Longrightarrow>
   says_in w P (case x of None \<Rightarrow> m | Some y \<Rightarrow> f y)"
  "(\<And>a c. p = (a, c) \<Longrightarrow> says_in w P (h a c)) \<Longrightarrow> says_in w P (case p of (a, c) \<Rightarrow> h a c)"
  by (simp_all split: option.split prod.split)

definition goes :: "op_env \<Rightarrow> incoming \<Rightarrow> operator_world \<Rightarrow> u32 \<Rightarrow> string \<Rightarrow> bool" where
  "goes E m w p t \<longleftrightarrow>
     (\<exists>alias sid. addressed E m w alias sid \<and> oc_pid E sid = Some p \<and>
        (has_media (in_media m) \<or> sayable E (ow_config w) alias sid (unwrap_or [] (in_text m)) t))"

abbreviation speaks :: "(u32 \<Rightarrow> string \<Rightarrow> bool) \<Rightarrow> operator_effect \<Rightarrow> bool" where
  "speaks G x \<equiv> (\<forall>p t. x = Say p t \<longrightarrow> G p t)"

lemma media_goes:
  assumes "has_media (in_media m)"
  shows "says_in w (speaks (goes E m w)) (handle_media E m)"
proof -
  have ask: "says (speaks (goes E m w)) (ask_where E c batch)" for c batch
    unfolding ask_where_def Let_def by (intro says_rules) simp_all
  show ?thesis
    unfolding handle_media_def Let_def
    by (intro says_in_cases says_in_steps; (intro says_in_all ask says_rules)?)
      (use assms in \<open>auto simp: addressed_def goes_def\<close>)
qed

lemma target_goes:
  assumes "Option.bind (Option.bind (in_reply m) id) parse_send_target = Some t"
  shows "says_in w (speaks (goes E m w)) (reply_to_target E c t (unwrap_or [] (in_text m)))"
proof -
  let ?x = "unwrap_or [] (in_text m)"
  have "says_in w (speaks (goes E m w)) (say_text_sid E (st_alias t) sid ?x)" if "st_sid t = Some sid" for sid
    using assms that by (auto simp: says_in_def list_all_iff goes_def addressed_def resolve_target_sid_def dest!: text_sid_says)
  moreover have "says_in w (speaks (goes E m w)) (say_text E (st_alias t) (st_agent t) (st_idx t) ?x)" if "st_sid t = None"
    using assms that by (auto simp: says_in_def list_all_iff goes_def addressed_def resolve_target_sid_def dest!: text_says)
  ultimately show ?thesis
    unfolding reply_to_target_def
    by (intro says_in_steps(3) says_rules) (auto split: option.split)
qed

lemma active_goes:
  assumes "in_reply m = None" "map_of (ow_active w) (in_chat m) = Some (a, sid)"
  shows "says_in w (speaks (goes E m w)) (rbind (say_text_sid E a sid (unwrap_or [] (in_text m))) (send_text c))"
proof (intro says_in_steps(3) says_rules)
  show "says_in w (speaks (goes E m w)) (say_text_sid E a sid (unwrap_or [] (in_text m)))"
    using assms by (auto simp: says_in_def list_all_iff goes_def addressed_def dest!: text_sid_says)
qed simp

lemma command_speaks: "says (speaks G) (text_command E c cmd toks)"
proof -
  have "says (speaks G) (auto_command E c toks)"
    unfolding auto_command_def by (intro says_rules) auto
  then show ?thesis
    unfolding text_command_def by (intro says_rules) simp_all
qed

lemma authorized_goes:
  "says_in w (speaks (goes E m w)) (authorized_message E m (unwrap_or [] (in_text m)) cmd toks)"
  unfolding authorized_message_def Let_def
  by (intro says_in_cases media_goes target_goes says_in_steps(1) active_goes says_in_all command_speaks)
    (auto intro: says_in_all says_rules split: if_splits)


section \<open>Reviews that were asked for\<close>

lemma try_text_backend:
  "try_text E now cs p = (Some (b, t), fx, p') \<Longrightarrow> \<exists>c \<in> set cs. pc_backend c = b"
  by (induction cs arbitrary: p fx p') (fastforce split: option.splits prod.splits)+

lemma improve_backend:
  assumes "improve E cfg (discover_all pb) now p = (Inr (b, t), fx, p')"
  shows "backend_id b \<in> set (pv_enabled cfg)"
proof -
  from assms obtain c where c: "c \<in> set (plan_calls cfg (discover_all pb) (cooling now p) (pl_cursor p))" "pc_backend c = b"
    by (auto simp: improve_def Let_def dest!: try_text_backend split: if_splits prod.splits option.splits)
  then have "c \<in> set (eligible_calls cfg (discover_all pb) (cooling now p))"
    using plan_subset by blast
  then obtain i where "i \<in> set (pv_enabled cfg)" "eligible_call cfg (discover_all pb) (cooling now p) i = Some c"
    by (auto simp: eligible_calls_def map_filter_def)
  with eligible_call_D(1) [OF this(2)] c(2) show ?thesis by simp
qed

lemma ask_reviewer_answer:
  assumes "ask_reviewer E parse as_f64 cfg pb now p = (Inr (b, r), fx, p')" "rw_correction r = Some c"
  shows "backend_id b \<in> set (pv_enabled cfg) \<and> (rw_verdict r = Drifting \<or> rw_verdict r = OffTrack)"
  using assms improve_backend correction_only_when_off_task
  by (fastforce simp: ask_reviewer_def split: prod.splits sum.splits if_splits)

definition corrects :: "op_env \<Rightarrow> asked_review \<Rightarrow> string \<Rightarrow> operator_effect \<Rightarrow> bool" where
  "corrects E t c x \<longleftrightarrow>
     steer_is_safe (oc_lower E) c \<and>
     (if as_family t = CodexFamily then x = Ctl (SendPrompt (as_alias t) Codex c)
      else \<exists>pid. oc_pid E (as_session t) = Some pid \<and> x = Say pid c)"

lemma delivery_corrects:
  "says (\<lambda>x. acts x \<longrightarrow> corrects E t c x) (deliver_review_correction E t c)"
  unfolding deliver_review_correction_def Let_def
  by (intro says_rules) (simp_all add: corrects_def)


section \<open>The stored configuration\<close>

abbreviation keeps :: "'a operator_op \<Rightarrow> bool" where
  "keeps m \<equiv> stays ow_config m"

lemma keeps_parts [stays_rules]:
  "keeps (keyboard_op rows)" "keeps get_config" "keeps (set_active c a s)" "keeps (pick_op pid i j)" "keeps (emit_all_of fx)"
  "keeps (submit_op E p)" "keeps (resolve_permission E rid b)" "keeps (hook_op E rid b)" "keeps (pair_chat E c k)"
  by (simp_all add: stays_def keyboard_op_def get_config_def rget_def set_active_def rmodify_def pick_op_def set_cb_def
      emit_all_of_def submit_op_def resolve_permission_def hook_op_def pair_chat_def Let_def split: prod.splits)

lemma stays_split [stays_rules]:
  "(\<And>a b. p = (a, b) \<Longrightarrow> stays f (h a b)) \<Longrightarrow> stays f (case p of (a, b) \<Rightarrow> h a b)"
  "(\<And>a. s = Inl a \<Longrightarrow> stays f (l a)) \<Longrightarrow> (\<And>b. s = Inr b \<Longrightarrow> stays f (r b)) \<Longrightarrow>
   stays f (case s of Inl a \<Rightarrow> l a | Inr b \<Rightarrow> r b)"
  "(z = [] \<Longrightarrow> stays f m) \<Longrightarrow> (\<And>y ys. z = y # ys \<Longrightarrow> stays f (g y ys)) \<Longrightarrow>
   stays f (case z of [] \<Rightarrow> m | y # ys \<Rightarrow> g y ys)"
  by (simp_all split: prod.split sum.split list.split)

lemma keeps_send [stays_rules]: "keeps (send_view c v)" "keeps (send_text c t)" "keeps (answer_press q t)"
  unfolding send_view_def send_text_def answer_press_def by (intro stays_rules)+

lemma keeps_rewrite [stays_rules]: "keeps (rewrite_for_send E a sid t)"
  unfolding rewrite_for_send_def Let_def by (intro stays_rules)

lemma keeps_tell [stays_rules]: "keeps (tell E pid t)"
  unfolding tell_def by (intro stays_rules)

lemma keeps_say [stays_rules]:
  "keeps (say_in_background E pid a sid t)" "keeps (say_text_sid E a sid t)" "keeps (say_text E a ag i t)"
  "keeps (say_media_sid E a sid n cap pre)" "keeps (run_ctl E verb args)"
  unfolding say_text_sid_def say_text_def say_media_sid_def say_in_background_def run_ctl_def Let_def
  by (intro stays_rules)+

lemma keeps_danger [stays_rules]: "keeps (danger_command E sub arg)"
  unfolding danger_command_def write_danger_def Let_def by (intro stays_rules stays_modify) simp_all

lemma keeps_media [stays_rules]: "keeps (handle_media E m)"
  unfolding handle_media_def ask_where_def Let_def by (intro stays_rules stays_modify) simp_all

lemma keeps_reply [stays_rules]: "keeps (reply_to_target E c t x)" "keeps (refuse c)"
  unfolding reply_to_target_def refuse_def by (intro stays_rules)+

lemma keeps_card [stays_rules]: "keeps (edit_card q t kb)" "keeps (edit_cards cards t)" "keeps (ask_reply q t x)"
  unfolding edit_card_def edit_cards_def ask_reply_def by (intro stays_rules)+

lemma keeps_presses [stays_rules]:
  "keeps (press_question E q rest)" "keeps (press_full_text q i)" "keeps (press_permission E q rest)"
  "keeps (press_approval E q i b)" "keeps (menu_view E q rest)" "keeps (handoff_view E rest)"
  unfolding press_question_def press_full_text_def press_permission_def press_approval_def menu_view_def
    handoff_view_def handoff_op_def Let_def
  by (intro stays_rules)+

lemma keeps_review_run [stays_rules]: "keeps (session_review_run E q a k i r d)"
  unfolding session_review_run_def Let_def by (intro stays_rules stays_modify) simp

lemma keeps_views [stays_rules]:
  "keeps home_op" "keeps (providers_op E)" "keeps (reviewers_op E)" "keeps (session_op E a i)" "keeps (review_menu_op E a k i d)"
  unfolding home_op_def providers_op_def reviewers_op_def session_op_def review_menu_op_def by (intro stays_rules)+

lemma keeps_action [stays_rules]: "keeps (action_press E q ap)"
  unfolding action_press_def apply_setting_def media_pick_def by (intro stays_rules stays_modify) simp_all

lemma keeps_legacy [stays_rules]: "keeps (legacy_press E d)"
  unfolding legacy_press_def by (intro stays_rules)

lemma keeps_review_asked [stays_rules]: "keeps (run_asked_review E t)"
  unfolding run_asked_review_def perform_review_def deliver_review_correction_def Let_def by (intro stays_rules)

text \<open>The configuration is well formed, but may have lost all its reviewers.\<close>

definition tidy :: "(u64 \<Rightarrow> bool) \<Rightarrow> automation_config \<Rightarrow> bool" where
  "tidy positive c \<longleftrightarrow>
     bt_ok (ac_workspaces c) \<and> bt_ok (ac_sessions c) \<and> providers_ok positive (rb_providers (ac_robot c)) \<and>
     list_all (\<lambda>i. backend_of i \<noteq> None) (rv_reviewers (ac_review c)) \<and> 60 \<le> rv_every_secs (ac_review c) \<and>
     (sm_gate (ac_smart c) \<longrightarrow> sm_enabled (ac_smart c))"

lemma config_ok_tidy: "config_ok p c \<longleftrightarrow> tidy p c \<and> rv_reviewers (ac_review c) \<noteq> []"
  by (auto simp: config_ok_iff tidy_def reviews_ok_def)

lemma tidy_scope: "tidy p c \<Longrightarrow> tidy p (set_scope s m e c)" "tidy p c \<Longrightarrow> tidy p (clear_scope s c)"
  by (cases s; simp add: tidy_def set_scope_def clear_scope_def bt_ok_put bt_ok_del)+

lemma tidy_providers:
  "tidy p c \<Longrightarrow> (providers_ok p (rb_providers (ac_robot c)) \<Longrightarrow> providers_ok p (f (rb_providers (ac_robot c)))) \<Longrightarrow>
   tidy p (map_providers f c)"
  by (simp add: tidy_def map_providers_def)

lemma tidy_reviewer: "tidy p c \<Longrightarrow> backend_of i \<noteq> None \<Longrightarrow> tidy p (map_review (toggle_reviewer i) c)"
  using set_remove1_subset [of i "rv_reviewers (ac_review c)"]
  by (auto simp: tidy_def map_review_def toggle_reviewer_def list_all_iff)

lemma tidy_edits:
  "tidy p c \<Longrightarrow> tidy p (map_providers (toggle i) c)" "tidy p c \<Longrightarrow> tidy p (map_providers (provider_set_model i md) c)"
  "tidy p c \<Longrightarrow> tidy p (map_providers (\<lambda>x. x\<lparr>pv_strategy := st\<rparr>) c)"
  by (simp_all add: tidy_providers providers_ok_updates)

lemmas tidy_rules = tidy_scope tidy_edits tidy_reviewer

abbreviation guards :: "(u64 \<Rightarrow> bool) \<Rightarrow> 'a operator_op \<Rightarrow> bool" where
  "guards p m \<equiv> preserves (\<lambda>w. tidy p (ow_config w)) m"

lemma guards_keeps: "keeps m \<Longrightarrow> guards p m"
  by (rule preserves_stays)

lemma guards_save: "tidy p c \<Longrightarrow> guards p (save_config E c)"
  by (simp add: preserves_def save_config_def rthen_def rbind_parts remit_def rmodify_def rret_def)

lemma guards_edit: "(\<And>c. tidy p c \<Longrightarrow> tidy p (f c)) \<Longrightarrow> guards p (edit_config E f)"
  by (simp add: preserves_def edit_config_def get_config_def save_config_def rthen_def rbind_parts remit_def
      rmodify_def rret_def)

lemma guards_when: "guards p m \<Longrightarrow> guards p (when_config Q m)"
  by (simp add: when_config_def get_config_def preserves_def rret_def)

lemma guards_get: "(\<And>c. tidy p c \<Longrightarrow> guards p (k c)) \<Longrightarrow> guards p (rbind get_config k)"
  by (simp add: preserves_def get_config_def)

lemma preserves_prod: "(\<And>a b. x = (a, b) \<Longrightarrow> preserves I (f a b)) \<Longrightarrow> preserves I (case x of (a, b) \<Rightarrow> f a b)"
  by (cases x) simp

lemma guards_switches: "guards p (toggle_smart E)" "guards p (toggle_gate E)"
  unfolding toggle_smart_def toggle_gate_def Let_def
  by (intro guards_get preserves_if preserves_then preserves_basic guards_save; auto simp: tidy_def map_smart_def)+

lemma tidy_parts:
  "tidy p c \<Longrightarrow> sm_gate (f (ac_smart c)) = sm_gate (ac_smart c) \<Longrightarrow> sm_enabled (f (ac_smart c)) = sm_enabled (ac_smart c) \<Longrightarrow>
   tidy p (map_smart f c)"
  "tidy p c \<Longrightarrow> tidy p (map_auto g c)"
  "tidy p c \<Longrightarrow> rv_reviewers (h (ac_review c)) = rv_reviewers (ac_review c) \<Longrightarrow>
   60 \<le> rv_every_secs (ac_review c) \<longrightarrow> 60 \<le> rv_every_secs (h (ac_review c)) \<Longrightarrow> tidy p (map_review h c)"
  by (simp_all add: tidy_def map_smart_def map_auto_def map_review_def)

lemma guards_switch: "switch E rest = Some m \<Longrightarrow> guards p m"
  unfolding switch_def
  by (auto intro!: guards_switches guards_when guards_edit tidy_parts simp: next_review_cadence_def split: if_splits)

lemma guards_pin: "pin_press E rest = Some m \<Longrightarrow> guards p m"
  by (auto simp: pin_press_def Let_def preserves_basic guards_keeps keeps_views
      intro!: preserves_then guards_edit tidy_rules split: option.splits)

lemma guards_automation: "guards p (automation_view E q rest)"
proof -
  have review: "guards p m" if "review_press E q rest = Some m" for m
    using that by (auto simp: review_press_def Let_def intro!: guards_keeps stays_rules split: option.splits)
  have views: "guards p home_op" "guards p (providers_op E)" "guards p (reviewers_op E)"
    "guards p (rbind get_config (\<lambda>c. rret (f c)))" for f
    by (intro guards_keeps stays_rules)+
  show ?thesis
    unfolding automation_view_def
    by (intro preserves_if preserves_option preserves_then preserves_basic views guards_edit tidy_rules)
      (auto intro: review guards_pin guards_switch)
qed

lemma guards_command: "guards p (text_command E c cmd toks)"
proof -
  have send: "guards p (send_text ch t)" "guards p (rbind get_config (\<lambda>cf. send_view ch (f cf)))" for ch t f
    by (intro guards_keeps stays_rules)+
  have auto: "guards p (auto_command E c toks)"
    unfolding auto_command_def
    by (intro preserves_if preserves_option preserves_prod preserves_then preserves_basic send guards_edit tidy_rules)
  show ?thesis
    unfolding text_command_def by (intro preserves_if auto; (rule guards_keeps, intro stays_rules))
qed

lemma guards_handlers: "guards p (handle_message E m)" "guards p (handle_callback E q)"
proof -
  have get: "guards p (rbind (rget f) k)" if "\<And>x. guards p (k x)" for f :: "operator_world \<Rightarrow> 'x" and k
    using that by (simp add: preserves_def)
  have authorized: "guards p (authorized_message E m x cmd toks)" for x cmd toks
    unfolding authorized_message_def Let_def
    by (intro preserves_if preserves_option preserves_prod get guards_command; (rule guards_keeps, intro stays_rules))
  show "guards p (handle_message E m)"
    unfolding handle_message_def Let_def
    by (intro preserves_if get authorized; (rule guards_keeps, intro stays_rules))
  have view: "guards p (show_view q v)" if "guards p v" for v
    unfolding show_view_def by (intro preserves_bind that preserves_prod; (rule guards_keeps, intro stays_rules))
  show "guards p (handle_callback E q)"
    unfolding handle_callback_def route_press_def
    by (intro preserves_if get preserves_option view guards_automation; (rule guards_keeps, intro stays_rules))
qed

lemma guards_event: "tidy p (ow_config w) \<Longrightarrow> tidy p (ow_config (operator_step ev w))"
proof (cases ev)
  case (ReviewAsked i E)
  moreover assume "tidy p (ow_config w)"
  ultimately show ?thesis
    using keeps_review_asked [of E "ow_reviews w ! i"]
    by (simp add: operator_step_def operator_op_of_def stays_def)
qed (use guards_handlers [of p] in \<open>auto simp: operator_step_def operator_op_of_def preserves_def\<close>)

text \<open>
  C22. Whatever messages and presses arrive, a well-formed configuration stays well formed: maps ordered, no
  provider enabled twice, a positive budget, only reviewers that exist, reviews no closer than a minute, and
  the gate on only while smart mode is. The one thing the buttons can do that the command line refuses is to
  remove the last reviewer.
\<close>

theorem menus_keep_config:
  assumes "config_ok positive (ow_config w)"
  shows "tidy positive (ow_config (snd (operator_run evs w))) \<and>
    (config_ok positive (ow_config (snd (operator_run evs w))) \<longleftrightarrow>
     rv_reviewers (ac_review (ow_config (snd (operator_run evs w)))) \<noteq> [])"
proof -
  have "tidy positive (ow_config v) \<Longrightarrow> tidy positive (ow_config (snd (operator_run evs v)))" for v
    by (induction evs arbitrary: v) (simp_all add: split_beta Let_def guards_event)
  with assms show ?thesis by (simp add: config_ok_tidy)
qed

section \<open>Buttons and commands\<close>

text \<open>A press in the automation menu, and the command that asks for the same.\<close>

inductive shortcut :: "op_env \<Rightarrow> automation_config \<Rightarrow> string \<Rightarrow> string list \<Rightarrow> bool" for E c where
  default: "shortcut E c (''def:'' @ mode_label m) [''set-default'', mode_label m]"
| pin: "claude_session_id a i (oc_windows E) = Some sid \<Longrightarrow> i < 2 ^ 64 \<Longrightarrow> trim sid = sid \<Longrightarrow> sid \<noteq> [] \<Longrightarrow>
    shortcut E c (''ss:'' @ a @ '':'' @ dec i @ '':'' @ mode_label m) [''set-session'', sid, mode_label m]"
| unpin: "claude_session_id a i (oc_windows E) = Some sid \<Longrightarrow> i < 2 ^ 64 \<Longrightarrow> trim sid = sid \<Longrightarrow> sid \<noteq> [] \<Longrightarrow>
    shortcut E c (''sx:'' @ a @ '':'' @ dec i) [''clear-session'', sid]"
| strategy: "shortcut E c (''ps:'' @ strategy_label s) [''strategy'', strategy_label s]"
| provider: "shortcut E c (''pt:'' @ backend_id b)
    [''provider'', backend_id b, show_on (\<not> is_enabled (backend_id b) (rb_providers (ac_robot c)))]"
| smart: "oc_session_hooks E \<Longrightarrow> shortcut E c ''smart'' [''smart'', show_on (\<not> sm_enabled (ac_smart c))]"
| gate: "oc_gate_hooks E \<Longrightarrow> shortcut E c ''gate'' [''smart'', ''gate'', show_on (\<not> sm_gate (ac_smart c))]"
| steer: "sm_enabled (ac_smart c) \<Longrightarrow> shortcut E c ''steer'' [''smart'', ''steer'', show_on (\<not> sm_steer (ac_smart c))]"
| feedback: "sm_enabled (ac_smart c) \<Longrightarrow>
    shortcut E c ''feedback'' [''smart'', ''feedback'', show_on (\<not> sm_feedback_protocol (ac_smart c))]"
| review: "\<not> rv_enabled (ac_review c) \<or> \<not> rv_steer (ac_review c) \<Longrightarrow>
    shortcut E c ''review'' [''review'', show_on (\<not> rv_enabled (ac_review c))]"
| correct: "rv_enabled (ac_review c) \<Longrightarrow> shortcut E c ''rsteer'' [''review'', ''steer'', show_on (\<not> rv_steer (ac_review c))]"
| depth: "shortcut E c ''rdepth'' [''review'', ''depth'', depth_label (next_review_depth (rv_depth (ac_review c)))]"
| every: "shortcut E c ''revery'' [''review'', ''every'', dec_int (next_review_cadence (rv_every_secs (ac_review c)))]"

text \<open>Small letters are their own lower case, as the standard library has it.\<close>

definition keeps_small :: "(string \<Rightarrow> string) \<Rightarrow> bool" where
  "keeps_small lower \<longleftrightarrow>
     (\<forall>t. list_all (\<lambda>c. c = CHR ''_'' \<or> 97 \<le> (of_char c :: nat) \<and> of_char c \<le> (122 :: nat)) t \<longrightarrow> lower t = t)"

lemma label_parse:
  assumes "keeps_small lower"
  shows "mode_parse lower (mode_label m) = Some m" "strategy_parse lower (strategy_label s) = Some s"
proof -
  show "mode_parse lower (mode_label m) = Some m"
    using assms by (cases m) (simp_all add: keeps_small_def mode_parse_def mode_label_def text_simps Let_def)
  show "strategy_parse lower (strategy_label s) = Some s"
    using assms by (cases s) (simp_all add: keeps_small_def strategy_parse_def strategy_label_def text_simps Let_def)
qed

lemma rsplit_tail:
  assumes "CHR '':'' \<notin> set b"
  shows "rsplit_once '':'' (a @ CHR '':'' # b) = Some (a, b)"
proof -
  have "rsplit_once '':'' b = None"
    using assms by (auto simp: rsplit_once_None contains_iff)
  then show ?thesis by (induction a) simp_all
qed

lemma no_colon: "CHR '':'' \<notin> set (dec n)" "CHR '':'' \<notin> set (mode_label m)"
proof -
  show "CHR '':'' \<notin> set (dec n)"
    using dec_digits [of "CHR '':''" n] by (auto simp: is_ascii_digit_def)
qed (cases m; simp add: mode_label_def)

lemma rsplitn_parts:
  "rsplitn 2 '':'' (a @ CHR '':'' # dec i) = [dec i, a]"
  "rsplitn 3 '':'' (a @ CHR '':'' # dec i @ CHR '':'' # mode_label m) = [mode_label m, dec i, a]"
proof -
  show two: "rsplitn 2 '':'' (a @ CHR '':'' # dec i) = [dec i, a]"
    by (simp add: numeral_2_eq_2 rsplit_tail no_colon)
  have "rsplit_once '':'' ((a @ CHR '':'' # dec i) @ CHR '':'' # mode_label m) = Some (a @ CHR '':'' # dec i, mode_label m)"
    by (rule rsplit_tail) (rule no_colon)
  with two show "rsplitn 3 '':'' (a @ CHR '':'' # dec i @ CHR '':'' # mode_label m) = [mode_label m, dec i, a]"
    by (simp add: numeral_3_eq_3 numeral_2_eq_2)
qed

lemma then_view: "keeps v \<Longrightarrow> ow_config (snd (snd (rthen m v w))) = ow_config (snd (snd (m w)))"
  by (simp add: rthen_def rbind_parts stays_def)

lemma saved_config: "oc_saved E \<Longrightarrow> ow_config (snd (snd (save_config E c w))) = c"
  by (simp add: save_config_def rthen_def rbind_parts remit_def rmodify_def)

lemma edited_config: "oc_saved E \<Longrightarrow> ow_config (snd (snd (edit_config E f w))) = f (ow_config w)"
  by (simp add: edit_config_def get_config_def saved_config)

lemma when_changed: "P (ow_config w) \<Longrightarrow> when_config P m w = m w"
  by (simp add: when_config_def get_config_def)

lemma toggled_config:
  assumes "oc_saved E"
  shows "oc_session_hooks E \<Longrightarrow> ow_config (snd (snd (toggle_smart E w))) =
      map_smart (\<lambda>s. if sm_enabled s then s\<lparr>sm_enabled := False, sm_steer := False, sm_gate := False\<rparr>
                     else s\<lparr>sm_enabled := True\<rparr>) (ow_config w)"
    and "oc_gate_hooks E \<Longrightarrow> ow_config (snd (snd (toggle_gate E w))) =
      map_smart (\<lambda>s. if sm_gate s then s\<lparr>sm_gate := False\<rparr> else s\<lparr>sm_enabled := True, sm_gate := True\<rparr>) (ow_config w)"
  using assms
  by (simp_all add: toggle_smart_def toggle_gate_def get_config_def Let_def rthen_def rbind_parts saved_config
      remit_def rret_def map_smart_def)

lemmas menu_defs =
  automation_view_def strip_prefix_def then_view edited_config when_changed toggled_config keeps_views switch_def
  review_press_def pin_press_def map_review_def map_smart_def show_on_def

lemma press_config:
  assumes "is_authorized (ow_auth w) (pr_from q)"
    and "decode_or_raw (unwrap_or [] (pr_data q)) (cb_of w) = ''au:'' @ rest"
  shows "ow_config (operator_step (Pressed E q) w) = ow_config (snd (snd (automation_view E q rest w)))"
proof -
  have "keeps (case x of (t, rows) \<Rightarrow> rbind (keyboard_op rows) (\<lambda>kb. rthen (edit_card q t (Some kb)) (answer_press q [])))" for x
    by (intro stays_rules)
  then show ?thesis
    using assms
    by (simp add: operator_step_def operator_op_of_def handle_callback_def route_press_def strip_prefix_def
        show_view_def rbind_parts stays_def)
qed

lemmas command_defs =
  command_step_def run_automation_def run_set_def run_review_def run_smart_def run_provider_def save_review_def on_off_def
  req_def parse_mode_arg_def save_then_def try_io_def prints_def stored_after_def opt_filter_def nth_opt_def Let_def

lemma cadence_text:
  assumes "k \<in> set [300, 900, 1800, 3600]"
  shows "trim (dec_int k) = dec_int k" "dec_int k \<noteq> []" "parse_i64 (dec_int k) = Some k"
proof -
  have digits: "digit_char 0 = CHR ''0''" "digit_char (Suc 0) = CHR ''1''" "digit_char 3 = CHR ''3''"
    "digit_char 6 = CHR ''6''" "digit_char 8 = CHR ''8''" "digit_char 9 = CHR ''9''"
    by code_simp+
  have "dec 300 = ''300''" "dec 900 = ''900''" "dec 1800 = ''1800''" "dec 3600 = ''3600''"
    by (simp_all add: dec.simps digits)
  with assms show "trim (dec_int k) = dec_int k" "dec_int k \<noteq> []" "parse_i64 (dec_int k) = Some k"
    by (auto simp: dec_int_def text_simps parse_i64_def parse_uint_def dec_val_def is_ascii_digit_def digit_val_def)
qed

lemma menu_change:
  assumes "shortcut E (ow_config w) rest args" "oc_saved E" "keeps_small (oc_lower E)" "ce_ok C = (\<lambda>_. True)"
    "ce_lower C = oc_lower E"
  shows "ow_config (snd (snd (automation_view E q rest w))) =
    command_step positive (C, ''automation'' # args) (ow_config w)"
  using assms(1)
proof cases
  case (default m)
  have "trim (mode_label m) = mode_label m" "mode_label m \<noteq> []"
    by (cases m; simp add: mode_label_def text_simps)+
  then show ?thesis
    unfolding default by (simp add: assms(2,4,5) label_parse [OF assms(3)] menu_defs command_defs)
next
  case (strategy s)
  have "trim (strategy_label s) = strategy_label s" "strategy_label s \<noteq> []"
    by (cases s; simp add: strategy_label_def text_simps)+
  then show ?thesis
    unfolding strategy by (simp add: assms(2,4,5) label_parse [OF assms(3)] menu_defs command_defs)
next
  case (provider b)
  have "trim (backend_id b) = backend_id b" "backend_id b \<noteq> []"
    by (cases b; simp add: backend_id_def text_simps)+
  then show ?thesis
    unfolding provider by (simp add: assms(2,4,5) backend_of_id menu_defs command_defs)
next
  case depth
  have "trim (depth_label d) = depth_label d" "depth_label d \<noteq> []" "depth_parse (depth_label d) = Some d" for d
    by (cases d; simp add: depth_label_def depth_parse_def text_simps)+
  then show ?thesis
    unfolding depth by (simp add: assms(2,4,5) menu_defs command_defs)
next
  case every
  let ?k = "next_review_cadence (rv_every_secs (ac_review (ow_config w)))"
  have "?k \<in> set [300, 900, 1800, 3600]" by (simp add: next_review_cadence_def)
  from cadence_text [OF this] this show ?thesis
    unfolding every by (auto simp add: assms(2,4,5) menu_defs command_defs)
next
  case (pin a i sid m)
  have "trim (mode_label m) = mode_label m" "mode_label m \<noteq> []"
    by (cases m; simp add: mode_label_def text_simps)+
  with pin show ?thesis
    by (simp add: assms(2,4,5) label_parse [OF assms(3)] rsplitn_parts parse_usize_def parse_uint_dec expires_from_def menu_defs command_defs)
next
  case (unpin a i sid)
  then show ?thesis
    by (simp add: assms(2,4,5) rsplitn_parts parse_usize_def parse_uint_dec expires_from_def menu_defs command_defs)
qed (auto simp add: assms(2,4,5) menu_defs command_defs)


section \<open>A short conversation\<close>

text \<open>Chat 1 may use the relay and has chosen the session \<open>s\<close>; a review of it was asked for.\<close>

definition demo_pool_answer :: pool_env where
  "demo_pool_answer = demo_pool_env\<lparr>pl_text := (\<lambda>c. Some ''{}'')\<rparr>"

definition demo_operator :: op_env where
  "demo_operator =
     \<lparr>oc_digest = id, oc_instant = 0, oc_now = 0, oc_lower = to_ascii_lowercase, oc_upper = id, oc_windows = [],
      oc_pid = (\<lambda>s. if s = ''s'' then Some 7 else None), oc_tell = (\<lambda>_ _. Told), oc_set = (\<lambda>_ _ _. Told),
      oc_control = (\<lambda>_. Told), oc_paired_written = True, oc_saved = True, oc_session_hooks = True,
      oc_gate_hooks = True, oc_danger = None, oc_perm = demo_perm_env, oc_tail = (\<lambda>_. []),
      oc_claude_tail = (\<lambda>_. []), oc_codex_tail = (\<lambda>_. []), oc_transcript = (\<lambda>_ _. None),
      oc_view = (\<lambda>_ _ _. Some (None, [(CHR ''U'', ''fix it'')])), oc_probes = demo_probes,
      oc_pool = (\<lambda>_. demo_pool_answer), oc_guard = (\<lambda>_ _ t. (True, t)),
      oc_parse = (\<lambda>_. Some (JObject [(''verdict'', JString ''drifting''), (''correction'', JString ''go back'')])),
      oc_as_f64 = (\<lambda>_. None), oc_fetch = (\<lambda>_ _. None), oc_handoff = (\<lambda>_. ([], []))\<rparr>"

definition demo_asked :: asked_review where
  "demo_asked =
     \<lparr>as_family = Claude, as_session = ''s'', as_alias = ''w'', as_transcript = ''/t'', as_reviewer = None,
      as_depth = None, as_chat = Some 1\<rparr>"

definition demo_operator_world :: operator_world where
  "demo_operator_world =
     \<lparr>ow_auth = auth_load [1] None None, ow_config = automation_default True, ow_danger = None,
      ow_active = [(1, (''w'', ''s''))], ow_media = [], ow_token = 1,
      ow_ingress = ingress_empty [] dedup_new store_new, ow_questions = [], ow_reviews = [demo_asked]\<rparr>"

definition demo_message :: "int \<Rightarrow> string \<Rightarrow> incoming" where
  "demo_message chat t =
     \<lparr>in_chat = chat, in_id = 5, in_text = Some t, in_caption = None, in_reply = None,
      in_media = \<lparr>ms_photo = None, ms_document = None, ms_voice = None, ms_audio = None, ms_video = None,
        ms_video_note = None, ms_forward_origin = None, ms_forward_sender_name = None, ms_forward_from = None,
        ms_forward_from_chat = None\<rparr>\<rparr>"

definition demo_press :: "int \<Rightarrow> string \<Rightarrow> press" where
  "demo_press user d = \<lparr>pr_id = ''p'', pr_from = user, pr_data = Some d, pr_message = Some (1, 3)\<rparr>"

lemma demo_authorized: "is_authorized (ow_auth demo_operator_world) c \<longleftrightarrow> c = 1"
  by (simp add: demo_operator_world_def auth_load_def is_authorized_def)

lemma demo_data: "strip_prefix ''x:'' d = None \<Longrightarrow> decode_or_raw (unwrap_or [] (pr_data (demo_press u d))) (cb_of demo_operator_world) = d"
  by (simp add: demo_press_def decode_or_raw_def decode_def)

lemma demo_said: "Say 7 ''hi'' \<in> set (operator_effects (Incoming demo_operator (demo_message 1 ''hi'')) demo_operator_world)"
  by code_simp

lemma demo_reviewers: "chosen_reviewers Claude (ac_review (automation_default True)) (rb_providers (ac_robot (automation_default True))) None =
  \<lparr>pv_enabled = [''codex-cli'', ''antigravity''], pv_strategy = Priority, pv_per_provider = [], pv_budget_usd = None\<rparr>"
  by code_simp

lemma demo_answered: "\<exists>fx p. improve demo_pool_answer \<lparr>pv_enabled = [''codex-cli'', ''antigravity''], pv_strategy = Priority, pv_per_provider = [], pv_budget_usd = None\<rparr> (discover_all demo_probes) 0 pool_new = (Inr (BkCodexCli, ''{}''), fx, p)"
proof -
  have "backend_of ''codex-cli'' = Some BkCodexCli" "backend_of ''antigravity'' = Some BkAntigravity"
    using backend_of_id [of BkCodexCli] backend_of_id [of BkAntigravity] by (simp_all add: backend_id_def)
  then show ?thesis
  by (simp add: improve_def plan_calls_def eligible_calls_def eligible_call_def found_provider_def discover_all_def demo_probes_def
    probe_cli_def backend_id_def model_for_def requires_model_def map_filter_simps Let_def cooling_def pool_new_def demo_pool_answer_def
   demo_pool_env_def opt_filter_def text_simps)
qed

lemma demo_verdict: "parse_review (oc_parse demo_operator) f ''{}'' = Inr \<lparr>rw_verdict = Drifting, rw_goal_restated = [], rw_gaps = [], rw_correction = Some ''go back'', rw_confidence = None\<rparr>"
  by code_simp

lemma demo_corrected: "Say 7 ''go back'' \<in> set (operator_effects (ReviewAsked 0 demo_operator) demo_operator_world)"
proof -
  obtain fx p where "improve demo_pool_answer
      \<lparr>pv_enabled = [''codex-cli'', ''antigravity''], pv_strategy = Priority, pv_per_provider = [], pv_budget_usd = None\<rparr>
      (discover_all demo_probes) 0 pool_new = (Inr (BkCodexCli, ''{}''), fx, p)"
    using demo_answered by blast
  moreover have "steer_is_safe to_ascii_lowercase ''go back''" by code_simp
  ultimately show ?thesis
    using demo_verdict [of "\<lambda>_. None"]
    by (simp add: operator_effects_def operator_op_of_def run_asked_review_def perform_review_def get_config_def
        demo_operator_world_def demo_asked_def demo_operator_def demo_reviewers ask_reviewer_def Let_def
        deliver_review_correction_def tell_def rthen_def rbind_parts remit_def rret_def emit_all_of_def)
qed

lemma ascii_lower_fixed: "c = CHR ''_'' \<or> 97 \<le> (of_char c :: nat) \<and> of_char c \<le> (122 :: nat) \<Longrightarrow> ascii_lower_char c = c"
proof (elim disjE)
  assume "c = CHR ''_''"
  then show ?thesis by (simp only:) code_simp
next
  assume "97 \<le> (of_char c :: nat) \<and> of_char c \<le> (122 :: nat)"
  then have "\<not> of_char c \<le> (90 :: nat)" by linarith
  then show ?thesis unfolding ascii_lower_char_def Let_def by (simp only: if_False simp_thms)
qed

lemma ascii_keeps_small: "keeps_small to_ascii_lowercase"
  unfolding keeps_small_def
proof (intro allI impI)
  fix t :: string
  assume "list_all (\<lambda>c. c = CHR ''_'' \<or> 97 \<le> (of_char c :: nat) \<and> of_char c \<le> (122 :: nat)) t"
  then have "\<And>c. c \<in> set t \<Longrightarrow> ascii_lower_char c = c" unfolding list_all_iff using ascii_lower_fixed by blast
  then show "to_ascii_lowercase t = t" unfolding to_ascii_lowercase_def by (rule map_idI)
qed




theorem menus_keep_config_witness:
  "tidy (\<lambda>m. 0 < m) (ow_config (snd (operator_run [Pressed demo_operator (demo_press 1 ''au:rp:codex-cli'')] demo_operator_world)))"
proof (rule conjunct1 [OF menus_keep_config])
  have "list_all (\<lambda>i. backend_of i \<noteq> None) [''codex-cli'', ''claude-cli'', ''antigravity'']"
    by code_simp
  then show "config_ok (\<lambda>m. 0 < m) (ow_config demo_operator_world)"
    by (simp add: demo_operator_world_def config_ok_iff providers_ok_def reviews_ok_def automation_default_def bt_ok_def
        robot_default_def providers_default_def review_default_def smart_default_def)
qed


end
