(* ===== verification/Spec2Isabelle.thy ===== *)
theory Spec2Isabelle
  imports Core_State Auth Callbacks Events Semantic_Config Automation Automation_Cli Telegram Hooks
    Dedup Permission Tool_Effect Gate_Store Gate_Proof Gate_Controller Ingress Reactor Question Tracker
    Decision Pool Review Ledger_Signals Robot_Props Operator_Props
begin

text \<open>
  vsc_relay: verification of the relay's core.

  The relay watches the coding agents of an editor (Claude Code, Codex, Cursor, Antigravity), reports
  their state to a Telegram chat and lets the operator answer their questions and permission requests
  from there. The agent process (\<open>crates/relay-agent\<close>) reads the transcripts
  (\<open>crates/relay-core\<close>, \<open>crates/relay-adapters\<close>), is called by the agents' hooks before and after each
  tool use, and holds back the mutations whose obligations are not met (\<open>crates/relay-compass\<close>).

  Theories and what they model.

  \<^item> \<open>Rust_Text\<close>, \<open>Rust_Data\<close>: the prelude. A Rust string is a \<open>string\<close> of its characters;
  where the code counts bytes or UTF-16 units the length is written out. The functions of the standard
  library the code uses (trim, split, lower case, prefix and suffix) are defined with their lemmas.
  Vectors with positions, maps with a value per key (BTreeMap, HashMap) and JSON values follow. The
  locale \<open>kv_store\<close> is the interface of a map, interpreted on both maps; \<open>invariant_machine\<close> is a
  step function with a preserved invariant, and \<open>simulation\<close> extends it by an abstraction the step
  commutes with. Each stateful component interprets one of them, which gives the facts on runs.
  \<^item> \<open>Core_State\<close>: \<open>relay-core/src/state.rs\<close>, \<open>errors.rs\<close>. The reducers of a Claude
  Code transcript (incremental) and of a Codex rollout, and the classification of errors. The
  incremental reducer is shown equal to the reducer of the whole transcript, its counters to
  counts over the history, and each reported state to its condition.
  \<^item> \<open>Events\<close>: \<open>relay-core/src/event.rs\<close>, \<open>ids.rs\<close>, \<open>model.rs\<close>. Kinds, fingerprints
  and counts of windows.
  \<^item> \<open>Auth\<close>: \<open>relay-agent/src/auth.rs\<close>. Pairing of chats, its file and its attempts.
  \<^item> \<open>Callbacks\<close>: \<open>relay-agent/src/actions.rs\<close>. The tokens behind the buttons.
  \<^item> \<open>Dedup\<close>: \<open>relay-agent/src/dedup.rs\<close>. One question, one card.
  \<^item> \<open>Semantic_Config\<close>: \<open>relay-semantic/src/config.rs\<close>. Choice and privacy of the provider.
  \<^item> \<open>Automation\<close>, \<open>Automation_Cli\<close>: \<open>relay-agent/src/automation.rs\<close>. The first holds
  the configuration and the decision on a request, the second the command \<open>automation\<close> as the list
  of its effects in their order.
  \<^item> \<open>Telegram\<close>: \<open>relay-agent/src/telegram.rs\<close>. Routes, the retry loop of a call, the bounded
  download, escaping, keyboards.
  \<^item> \<open>Hooks\<close>: \<open>relay-agent/src/hooks.rs\<close>. Answers in the dialect of each agent, tool uses
  held, redaction of addresses, dangerous patterns.
  \<^item> \<open>Permission\<close>: \<open>relay-agent/src/permission.rs\<close>, \<open>inject.rs\<close>. Pending requests, who
  answers them, and the requests the gate already decided.
  \<^item> \<open>Tool_Effect\<close>: \<open>relay-agent/src/tool_effect.rs\<close>. What a tool use does to the files.
  \<^item> \<open>Gate_Store\<close>: \<open>relay-agent/src/artifact_store.rs\<close>, \<open>fsutil.rs\<close>. Records, gaps and
  gates with their budgets, and the writing of the file with its interruptions.
  \<^item> \<open>Gate_Proof\<close>: the part of \<open>relay-compass/src/ledger.rs\<close> that proves a mutation covered.
  \<^item> \<open>Gate_Controller\<close>: \<open>relay-agent/src/gate_controller.rs\<close>. The handlers before and after
  a tool use in a state monad over the world (stores, leases, terminal turns, policy), whose errors are
  values. It composes \<open>Tool_Effect\<close>, \<open>Gate_Store\<close> and \<open>Gate_Proof\<close> as the code does.
  \<^item> \<open>Ingress\<close>: \<open>relay-agent/src/ingress.rs\<close>. The hook connections: which are answered at
  once, which wait for the operator, and how long a decision is replayed. It runs the gate controller
  and the permission requests.
  \<^item> \<open>Reactor\<close>: \<open>relay-agent/src/reactor.rs\<close>. Retries after an error, with their delays.
  \<^item> \<open>Question\<close>: \<open>relay-agent/src/question.rs\<close>. The desk of the questions an agent asks, and
  the lines of its process.
  \<^item> \<open>Tracker\<close>: the scan of \<open>relay-agent/src/main.rs\<close>. Events of an observation, what of
  them is emitted, and the cards that report them.
  \<^item> \<open>Decision\<close>, \<open>Pool\<close>, \<open>Review\<close>: \<open>relay-agent/src/supervisor\<close>
  (\<open>decision.rs\<close>; \<open>pool.rs\<close>, \<open>discover.rs\<close>; \<open>review.rs\<close>). How a provider's answer
  is read, which providers are asked, and the review of a session by a model of another family.
  \<^item> \<open>Rust_Float\<close>: single precision on the rationals, with rounding to the nearest even.
  \<^item> \<open>Compass_Text\<close>, \<open>Steps\<close>, \<open>Feedback\<close>: \<open>relay-compass/src/lib.rs\<close> (features,
  goals, literals), \<open>steps.rs\<close> and \<open>semantic.rs\<close> (a transcript as steps, the facts a model read
  from it, the episodes between two user turns), \<open>feedback.rs\<close> (the result an agent reports at the
  end of a turn).
  \<^item> \<open>Ledger_Base\<close>, \<open>Ledger\<close>, \<open>Ledger_Props\<close>, \<open>Ledger_Signals\<close>: the building of
  a contract ledger in \<open>relay-compass/src/ledger.rs\<close>. The contract is cut into obligations; every
  episode binds its tool uses to them and records evidence; a health result, the probes of the controller
  and semantic facts move their states; the end refreshes every state from the evidence and counts. The
  definition \<open>gate_view\<close> is what \<open>Gate_Proof\<close> reads of a ledger. The invariant of the build
  (\<open>ledger_inv\<close>) gives where each obligation and each piece of evidence comes from.
  \<^item> \<open>Robot\<close>, \<open>Robot_Props\<close>: \<open>relay-agent/src/supervisor/robot.rs\<close>,
  \<open>context.rs\<close> and the completion snapshot of \<open>relay-agent/src/compass.rs\<close>. What the Robot does
  on an observation of a session and in the tasks it spawns, over the gates (\<open>Gate_Controller\<close>), the
  providers (\<open>Pool\<close>), the reviews (\<open>Review\<close>) and the ledger. An observation and a task are one
  step each; tasks wait in the world and run in any order.
  The budget is proved by an account of steps taken and messages owed (\<open>pays\<close>), what an operation
  leaves alone and says by \<open>stays\<close> and \<open>says\<close>, and what holds between its parts by \<open>flow\<close>
  (\<open>Effect_Monad\<close>, which the next theories share).
  \<^item> \<open>Menus\<close>, \<open>Operator\<close>, \<open>Operator_Props\<close>: the commands of the operator in \<open>relay-agent/src/main.rs\<close>.
  The first holds the views, pickers and parsers, the second \<open>handle_message\<close> and
  \<open>handle_callback\<close> with all they call but the hand off: pairing (\<open>Auth\<close>), texts and files
  into a chat, the switches of the automation, questions (\<open>Question\<close>), permissions and approvals
  (\<open>Ingress\<close>), and reviews that are asked for (\<open>Review\<close>). A message or a press is one step, a
  review that was asked for another. The third shows what strangers cannot do, which session a text
  reaches, that an event acts on at most one session and a press is answered once, what a review that was
  asked for may send, that the configuration stays well formed, and that the automation menu does what
  the command line does.

  How the models are built. A method that changes its object returns the new state with its result,
  a handler that writes, sends or asks the operator returns the list of its effects in their order, and
  every error is a branch of a sum or an option. Integers keep their width where the code relies
  on it (attempts of a gate, windows of an event); elsewhere they are \<open>nat\<close> or \<open>int\<close>. Time is an
  argument. Each loop is structural recursion over what it reads (lines, routes, chunks, arguments), so
  no definition needs fuel.

  Parameters. JSON parsing, digests, the file system, the clock, randomness and the Telegram server are
  arguments of the definitions. A property that needs a law of one of them states it as a hypothesis,
  and its witness gives a concrete function for it.

  How the lemmas are grouped. For each component: the invariant with its preservation (the
  interpretation), what each operation does on its branches, then the properties, each with a witness.
  The effectful handlers are followed by intro rules on small predicates of a program (which answers it
  may give, which parts of the world it keeps, what holds after it), so that a property of a
  handler is an application of the rules.

  Not modelled. The event loop, the hand off and the command line of \<open>main.rs\<close>, the graphical interface, the
  control of windows and the discovery of editors are I/O. The self update and the installer call
  other programs. The similarity hash of a text and the semantic models are parameters of the ledger.
  The assessment of the compass (\<open>compass.rs\<close>, \<open>staged.rs\<close>, \<open>predictive.rs\<close>) is a parameter of
  the Robot: it is computed from embeddings and double-precision scores of learned weights. The adapters
  that read the transcripts of the agents into turns and steps are parsers of foreign formats; the models
  start from what they return.
\<close>

end
